(* ===== verification/Prelude.thy ===== *)
theory Prelude
  imports Main "HOL-Library.Multiset" "HOL-Library.List_Lexorder" "HOL-Library.Char_ord"
    "HOL-Library.Product_Lexorder"
begin

text \<open>
  What every component shares. Go maps: a map is an association list with distinct keys; its
  order is the order in which keys were first stored, and stands for one iteration order of the
  Go map (Go leaves the order open, so the lemmas that matter are stated up to permutation).
  Go's sort package: \<open>go_sort\<close> is the stable sort by a \<open>less\<close> function. The locales
  \<open>sort_order\<close> and \<open>keyed_order\<close> are the contract a \<open>less\<close> function has to meet; every
  comparator of the program is interpreted in the theory that defines it.
\<close>

named_theorems go_map "lemmas on association lists used as Go maps"
named_theorems go_str "lemmas on byte strings"

section \<open>Small list lemmas\<close>

lemma length_filter_less_iff:
  "length (filter P xs) < length xs \<longleftrightarrow> (\<exists>x\<in>set xs. \<not> P x)"
  by (metis filter_True length_filter_le length_filter_less order.not_eq_order_implies_strict
      order_less_irrefl)

lemma foldl_invariant:
  assumes "P a" and "\<And>a x. P a \<Longrightarrow> x \<in> set xs \<Longrightarrow> P (f a x)"
  shows "P (foldl f a xs)"
  using assms by (induction xs arbitrary: a) auto

lemma fold_invariant':
  assumes "P a" and "\<And>a x. P a \<Longrightarrow> x \<in> set xs \<Longrightarrow> P (f x a)"
  shows "P (fold f xs a)"
  using assms by (induction xs arbitrary: a) auto

lemma filter_eq_if_mset_le1:
  assumes "mset xs = mset ys" and "size (filter_mset P (mset xs)) \<le> 1"
  shows "filter P xs = filter P ys"
proof -
  have m: "mset (filter P xs) = mset (filter P ys)"
    using assms(1) by simp
  have l: "length (filter P xs) \<le> 1"
    using assms(2) by (metis mset_filter size_mset)
  then show ?thesis
  proof (cases "filter P xs")
    case Nil
    then show ?thesis using m by simp
  next
    case (Cons a as)
    then have "filter P xs = [a]" using l by simp
    moreover from this m have "filter P ys = [a]"
      by (metis mset_single_iff mset.simps mset_zero_iff add_mset_eq_single)
    ultimately show ?thesis by simp
  qed
qed

lemma filter_ConsD: "filter P xs = y # ys \<Longrightarrow> P y"
  by (metis filter_eq_ConsD)

lemma mset_concat_map_cong:
  "mset xs = mset ys \<Longrightarrow> mset (concat (map f xs)) = mset (concat (map f ys))"
  by (metis mset_concat mset_map sum_mset_sum_list)

lemma distinct_map_mset_cong:
  "mset xs = mset ys \<Longrightarrow> distinct (map f xs) = distinct (map f ys)"
  by (metis mset_eq_imp_distinct_iff mset_map)

lemma distinct_concat_map:
  assumes "distinct xs" and "\<And>x. x \<in> set xs \<Longrightarrow> distinct (f x)"
    and "\<And>x y. x \<in> set xs \<Longrightarrow> y \<in> set xs \<Longrightarrow> x \<noteq> y \<Longrightarrow> set (f x) \<inter> set (f y) = {}"
  shows "distinct (concat (map f xs))"
  using assms
proof (induction xs)
  case (Cons a xs)
  have "distinct (concat (map f xs))"
    using Cons.prems by (intro Cons.IH) auto
  moreover have "set (f a) \<inter> set (f x) = {}" if "x \<in> set xs" for x
    using Cons.prems(1,3) that by auto
  ultimately show ?case using Cons.prems(2) by (auto simp: disjoint_iff)
qed simp

lemma those_map_Some:
  "(\<And>x. x \<in> set xs \<Longrightarrow> f x = Some (g x)) \<Longrightarrow> those (map f xs) = Some (map g xs)"
  by (induction xs) auto

lemma mset_eq_if_distinct_map:
  assumes "distinct (map f xs)" and "distinct (map f ys)" and "set xs = set ys"
  shows "mset xs = mset ys"
  using assms by (simp add: distinct_map set_eq_iff_mset_eq_distinct)

lemma Max_insert_max: "finite A \<Longrightarrow> Max (insert (max a b) A) = Max (insert a (insert b A))"
  by (cases "A = {}") (simp_all add: max.assoc)

lemma Min_insert_min: "finite A \<Longrightarrow> Min (insert (min a b) A) = Min (insert a (insert b A))"
  by (cases "A = {}") (simp_all add: min.assoc)

lemma card_ge_2_linorder:
  fixes A :: "'a::linorder set"
  assumes "finite A"
  shows "card A \<ge> 2 \<longleftrightarrow> (\<exists>a\<in>A. \<exists>b\<in>A. a < b)"
proof
  assume "card A \<ge> 2"
  then obtain a b where "a \<in> A" "b \<in> A" "a \<noteq> b"
    by (metis card_le_Suc0_iff_eq assms not_less_eq_eq numeral_2_eq_2)
  then show "\<exists>a\<in>A. \<exists>b\<in>A. a < b" by (metis linorder_less_linear)
next
  assume "\<exists>a\<in>A. \<exists>b\<in>A. a < b"
  then obtain a b where ab: "a \<in> A" "b \<in> A" "a < b" by blast
  then have "card {a, b} \<le> card A" using assms by (intro card_mono) auto
  then show "card A \<ge> 2" using ab by simp
qed

section \<open>Go maps as association lists\<close>

type_synonym ('k, 'v) gomap = "('k \<times> 'v) list"

text \<open>\<open>m[k] = f(old)\<close>: an existing entry is rewritten in place, a new one goes to the end.\<close>

fun al_alter :: "'k \<Rightarrow> ('v option \<Rightarrow> 'v) \<Rightarrow> ('k, 'v) gomap \<Rightarrow> ('k, 'v) gomap" where
  "al_alter k f [] = [(k, f None)]"
| "al_alter k f ((k', v) # m) =
     (if k' = k then (k', f (Some v)) # m else (k', v) # al_alter k f m)"

definition al_set :: "'k \<Rightarrow> 'v \<Rightarrow> ('k, 'v) gomap \<Rightarrow> ('k, 'v) gomap" where
  "al_set k v m = al_alter k (\<lambda>_. v) m"

definition al_delete :: "'k \<Rightarrow> ('k, 'v) gomap \<Rightarrow> ('k, 'v) gomap" where
  "al_delete k m = filter (\<lambda>(k', _). k' \<noteq> k) m"

definition al_has :: "'k \<Rightarrow> ('k, 'v) gomap \<Rightarrow> bool" where
  "al_has k m \<longleftrightarrow> map_of m k \<noteq> None"

text \<open>Reading a missing key of a Go map gives the zero value of its type.\<close>

definition al_get :: "'v \<Rightarrow> ('k, 'v) gomap \<Rightarrow> 'k \<Rightarrow> 'v" where
  "al_get zero m k = (case map_of m k of None \<Rightarrow> zero | Some v \<Rightarrow> v)"

lemma map_of_al_alter [simp, go_map]:
  "map_of (al_alter k f m) = (map_of m)(k \<mapsto> f (map_of m k))"
  by (induction k f m rule: al_alter.induct) (auto simp: fun_eq_iff)

lemma fst_set_al_alter [simp, go_map]: "fst ` set (al_alter k f m) = insert k (fst ` set m)"
  by (induction k f m rule: al_alter.induct) auto

lemma al_alter_keys: "map fst (al_alter k f m) =
    (if k \<in> fst ` set m then map fst m else map fst m @ [k])"
  by (induction k f m rule: al_alter.induct) auto

lemma distinct_al_alter [simp, go_map]:
  "distinct (map fst m) \<Longrightarrow> distinct (map fst (al_alter k f m))"
  by (simp add: al_alter_keys)

lemma set_al_alter_distinct:
  "distinct (map fst m) \<Longrightarrow>
   set (al_alter k f m) = {(k', v) \<in> set m. k' \<noteq> k} \<union> {(k, f (map_of m k))}"
  by (induction k f m rule: al_alter.induct) (auto, (force simp: rev_image_eqI)+)

lemma map_of_al_set [simp, go_map]: "map_of (al_set k v m) = (map_of m)(k \<mapsto> v)"
  by (simp add: al_set_def)

lemma distinct_al_set [simp, go_map]:
  "distinct (map fst m) \<Longrightarrow> distinct (map fst (al_set k v m))"
  by (simp add: al_set_def)

lemma map_of_al_delete [simp, go_map]: "map_of (al_delete k m) = (map_of m)(k := None)"
  by (induction m) (auto simp: al_delete_def fun_eq_iff)

lemma distinct_al_delete [simp, go_map]:
  "distinct (map fst m) \<Longrightarrow> distinct (map fst (al_delete k m))"
  by (induction m) (auto simp: al_delete_def)

lemma al_has_iff [go_map]: "al_has k m \<longleftrightarrow> k \<in> fst ` set m"
  by (simp add: al_has_def map_of_eq_None_iff)

text \<open>Storing a list of entries one after the other.\<close>

lemma map_of_foldl_set:
  "distinct (map fst es) \<Longrightarrow> map_of (foldl (\<lambda>m e. al_set (fst e) (snd e) m) m es) = map_of m ++ map_of es"
proof (induction es arbitrary: m)
  case (Cons e es)
  have "map_of es (fst e) = None"
    using Cons.prems by (simp add: map_of_eq_None_iff)
  then have "(map_of m)(fst e \<mapsto> snd e) ++ map_of es = map_of m ++ (map_of es)(fst e \<mapsto> snd e)"
    by (auto simp: fun_eq_iff map_add_def split: option.split)
  then show ?case using Cons.IH [of "al_set (fst e) (snd e) m"] Cons.prems
    by (simp only: foldl_Cons map_of_al_set map_of.simps distinct.simps list.map)
qed simp

section \<open>Grouping into a Go map\<close>

text \<open>
  The loop \<open>for _, x := range xs { m[key(x)] = f(x, m[key(x)]) }\<close>, the shape of every index the
  program builds.
\<close>

definition group_fold :: "('a \<Rightarrow> 'k) \<Rightarrow> ('a \<Rightarrow> 'v option \<Rightarrow> 'v) \<Rightarrow> 'a list \<Rightarrow> ('k, 'v) gomap" where
  "group_fold key f xs = foldl (\<lambda>m x. al_alter (key x) (f x) m) [] xs"

fun opt_fold :: "('a \<Rightarrow> 'v option \<Rightarrow> 'v) \<Rightarrow> 'a list \<Rightarrow> 'v option \<Rightarrow> 'v option" where
  "opt_fold f [] v = v"
| "opt_fold f (x # xs) v = opt_fold f xs (Some (f x v))"

text \<open>\<open>m[key(x)] = append(m[key(x)], x)\<close>.\<close>

definition snoc_opt :: "'a \<Rightarrow> 'a list option \<Rightarrow> 'a list" where
  "snoc_opt x l = (case l of None \<Rightarrow> [x] | Some ys \<Rightarrow> ys @ [x])"

definition group_list :: "('a \<Rightarrow> 'k) \<Rightarrow> 'a list \<Rightarrow> ('k, 'a list) gomap" where
  "group_list key xs = group_fold key snoc_opt xs"

lemma snoc_opt_simps [simp]: "snoc_opt x None = [x]" "snoc_opt x (Some ys) = ys @ [x]"
  by (simp_all add: snoc_opt_def)

lemma opt_fold_append: "opt_fold f (xs @ ys) v = opt_fold f ys (opt_fold f xs v)"
  by (induction xs arbitrary: v) auto

lemma opt_fold_None: "opt_fold f xs v = None \<longleftrightarrow> xs = [] \<and> v = None"
  by (induction xs arbitrary: v) auto

lemma map_of_foldl_alter:
  "map_of (foldl (\<lambda>m x. al_alter (key x) (f x) m) m0 xs) k =
   opt_fold f (filter (\<lambda>x. key x = k) xs) (map_of m0 k)"
  by (induction xs arbitrary: m0) auto

lemma map_of_group_fold [go_map]:
  "map_of (group_fold key f xs) k = opt_fold f (filter (\<lambda>x. key x = k) xs) None"
  by (simp add: group_fold_def map_of_foldl_alter)

lemma keys_foldl_alter:
  "fst ` set (foldl (\<lambda>m x. al_alter (key x) (f x) m) m0 xs) = fst ` set m0 \<union> key ` set xs"
  by (induction xs arbitrary: m0) auto

lemma keys_group_fold [go_map]: "fst ` set (group_fold key f xs) = key ` set xs"
  by (simp add: group_fold_def keys_foldl_alter)

lemma distinct_group_fold [simp, go_map]: "distinct (map fst (group_fold key f xs))"
  unfolding group_fold_def by (rule foldl_invariant) auto

lemma group_fold_entry:
  "(k, v) \<in> set (group_fold key f xs) \<longleftrightarrow>
   opt_fold f (filter (\<lambda>x. key x = k) xs) None = Some v"
  by (metis distinct_group_fold map_of_eq_Some_iff map_of_group_fold)

lemma opt_fold_snoc: "opt_fold snoc_opt xs (Some ys) = Some (ys @ xs)"
  by (induction xs arbitrary: ys) (auto simp: snoc_opt_def)

lemma opt_fold_snoc_None: "opt_fold snoc_opt xs None = (if xs = [] then None else Some xs)"
  by (cases xs) (auto simp: snoc_opt_def opt_fold_snoc)

lemma group_list_entry:
  "(k, ys) \<in> set (group_list key xs) \<longleftrightarrow> ys = filter (\<lambda>x. key x = k) xs \<and> ys \<noteq> []"
  by (auto simp: group_list_def group_fold_entry opt_fold_snoc_None)

lemma map_of_group_list:
  "map_of (group_list key xs) k =
   (let ys = filter (\<lambda>x. key x = k) xs in if ys = [] then None else Some ys)"
  by (simp add: group_list_def map_of_group_fold opt_fold_snoc_None Let_def)

lemma distinct_group_list [simp]: "distinct (map fst (group_list key xs))"
  by (simp add: group_list_def)

lemma keys_group_list: "fst ` set (group_list key xs) = key ` set xs"
  by (simp add: group_list_def keys_group_fold)

lemma concat_al_alter_snoc:
  "mset (concat (map snd (al_alter k (snoc_opt x) m))) = add_mset x (mset (concat (map snd m)))"
  by (induction k "snoc_opt x" m rule: al_alter.induct) (auto simp: snoc_opt_def)

text \<open>Grouping loses and duplicates nothing.\<close>

lemma group_list_partition: "mset (concat (map snd (group_list key xs))) = mset xs"
proof -
  have "mset (concat (map snd (foldl (\<lambda>m x. al_alter (key x) (snoc_opt x) m) m0 xs))) =
      mset (concat (map snd m0)) + mset xs" for m0
    by (induction xs arbitrary: m0) (auto simp: concat_al_alter_snoc)
  then show ?thesis by (simp add: group_list_def group_fold_def)
qed

text \<open>What a group collects from its elements, over all groups, is what the elements hold.\<close>

lemma group_fold_collect:
  assumes new: "\<And>x. proj (f x None) = h x" and old: "\<And>x v. proj (f x (Some v)) = proj v @ h x"
  shows "mset (concat (map (\<lambda>kv. proj (snd kv)) (group_fold key f xs))) = mset (concat (map h xs))"
proof -
  have alter: "mset (concat (map (\<lambda>kv. proj (snd kv)) (al_alter k (f x) m))) =
      mset (concat (map (\<lambda>kv. proj (snd kv)) m)) + mset (h x)" for k x m
    by (induction k "f x" m rule: al_alter.induct) (simp_all add: new old)
  have "mset (concat (map (\<lambda>kv. proj (snd kv)) (foldl (\<lambda>m x. al_alter (key x) (f x) m) m0 xs))) =
      mset (concat (map (\<lambda>kv. proj (snd kv)) m0)) + mset (concat (map h xs))" for m0
    by (induction xs arbitrary: m0) (simp_all add: alter)
  then show ?thesis by (simp add: group_fold_def)
qed

lemma concat_singletons: "concat (map (\<lambda>x. if P x then [x] else []) xs) = filter P xs"
  by (induction xs) auto

lemma sum_list_mset_cong: "mset xs = mset ys \<Longrightarrow> sum_list (map f xs) = sum_list (map f ys :: 'a::comm_monoid_add list)"
  by (metis mset_map sum_mset_sum_list)

lemma sum_list_filter_split:
  "sum_list (map f xs) =
   sum_list (map f (filter P xs)) + sum_list (map f (filter (\<lambda>x. \<not> P x) xs) :: 'a::comm_monoid_add list)"
  by (induction xs) (auto simp: ac_simps)

lemma concat_filter_subset:
  "mset (concat (map snd (filter P m))) \<subseteq># mset (concat (map snd m))"
  by (induction m) (auto intro: subset_mset.add_mono simp: subset_mset.add_increasing)

lemma distinct_submset: "mset xs \<subseteq># mset ys \<Longrightarrow> distinct ys \<Longrightarrow> distinct xs"
proof -
  assume "mset xs \<subseteq># mset ys" "distinct ys"
  moreover obtain zs where "mset zs = mset ys - mset xs" using ex_mset by blast
  ultimately have "mset (xs @ zs) = mset ys" by simp
  then have "distinct (xs @ zs)" using \<open>distinct ys\<close> by (metis mset_eq_imp_distinct_iff)
  then show "distinct xs" by simp
qed

text \<open>Splitting the numbers below n by membership in a list of some of them.\<close>

lemma sum_split_indexes:
  fixes f :: "nat \<Rightarrow> 'a::comm_monoid_add"
  assumes "distinct ms" and "set ms \<subseteq> {0..<n}"
  shows "sum_list (map f [0..<n]) = sum_list (map f ms) + sum_list (map f (filter (\<lambda>i. i \<notin> set ms) [0..<n]))"
proof -
  have "set (filter (\<lambda>i. i \<in> set ms) [0..<n]) = set ms" using assms(2) by auto
  then have "mset (filter (\<lambda>i. i \<in> set ms) [0..<n]) = mset ms"
    using assms(1) set_eq_iff_mset_eq_distinct [of "filter (\<lambda>i. i \<in> set ms) [0..<n]" ms] by simp
  then have "sum_list (map f (filter (\<lambda>i. i \<in> set ms) [0..<n])) = sum_list (map f ms)"
    by (rule sum_list_mset_cong)
  then show ?thesis
    using sum_list_filter_split [of f "[0..<n]" "\<lambda>i. i \<in> set ms"] by simp
qed

lemma map_nth_upt [simp]: "map ((!) xs) [0..<length xs] = xs"
  by (rule map_nth)

lemma list_all2_leftD: "list_all2 P xs ys \<Longrightarrow> x \<in> set xs \<Longrightarrow> \<exists>y\<in>set ys. P x y"
  by (induction rule: list_all2_induct) auto

lemma list_all2_rightD: "list_all2 P xs ys \<Longrightarrow> y \<in> set ys \<Longrightarrow> \<exists>x\<in>set xs. P x y"
  by (induction rule: list_all2_induct) auto

section \<open>Sorting\<close>

fun sort_insert :: "('a \<Rightarrow> 'a \<Rightarrow> bool) \<Rightarrow> 'a \<Rightarrow> 'a list \<Rightarrow> 'a list" where
  "sort_insert lt x [] = [x]"
| "sort_insert lt x (y # ys) =
     (if lt y x then y # sort_insert lt x ys else x # y # ys)"

text \<open>
  \<open>sort.SliceStable\<close>, and \<open>sort.Slice\<close> too: where two elements are equal for \<open>lt\<close> the latter
  may return them in any order, and \<open>keyed_order.any_sort_unique\<close> says when there is only one
  possible answer.
\<close>

definition go_sort :: "('a \<Rightarrow> 'a \<Rightarrow> bool) \<Rightarrow> 'a list \<Rightarrow> 'a list" where
  "go_sort lt xs = foldr (sort_insert lt) xs []"

lemma go_sort_simps [simp]:
  "go_sort lt [] = []"
  "go_sort lt (x # xs) = sort_insert lt x (go_sort lt xs)"
  by (simp_all add: go_sort_def)

lemma mset_sort_insert [simp]: "mset (sort_insert lt x xs) = add_mset x (mset xs)"
  by (induction xs) auto

lemma mset_go_sort [simp]: "mset (go_sort lt xs) = mset xs"
  by (induction xs) auto

lemma set_go_sort [simp]: "set (go_sort lt xs) = set xs"
  by (rule mset_eq_setD) simp

lemma length_go_sort [simp]: "length (go_sort lt xs) = length xs"
  by (metis mset_go_sort size_mset)

lemma go_sort_eq_Nil [simp]: "go_sort lt xs = [] \<longleftrightarrow> xs = []"
  by (metis length_0_conv length_go_sort)

lemma distinct_go_sort [simp]: "distinct (go_sort lt xs) = distinct xs"
  by (metis mset_eq_imp_distinct_iff mset_go_sort)

lemma distinct_map_go_sort [simp]: "distinct (map f (go_sort lt xs)) = distinct (map f xs)"
  by (rule distinct_map_mset_cong) simp

lemma map_of_go_sort: "distinct (map fst es) \<Longrightarrow> map_of (go_sort lt es) = map_of es"
  by (metis distinct_map_go_sort map_of_inject_set set_go_sort)

text \<open>A \<open>less\<close> function Go's sort accepts: a strict weak order.\<close>

locale sort_order =
  fixes lt :: "'a \<Rightarrow> 'a \<Rightarrow> bool"
  assumes less_irrefl: "\<not> lt x x"
    and less_trans: "lt x y \<Longrightarrow> lt y z \<Longrightarrow> lt x z"
    and less_cotrans: "lt x z \<Longrightarrow> lt x y \<or> lt y z"
begin

lemma less_asym: "lt x y \<Longrightarrow> \<not> lt y x"
  using less_trans less_irrefl by blast

lemma sorted_sort_insert:
  "sorted_wrt (\<lambda>a b. \<not> lt b a) xs \<Longrightarrow>
   sorted_wrt (\<lambda>a b. \<not> lt b a) (sort_insert lt x xs)"
proof (induction xs)
  case (Cons y ys)
  have mem: "set (sort_insert lt x ys) = insert x (set ys)"
    by (metis mset_sort_insert set_mset_add_mset_insert set_mset_mset)
  have asym: "lt x y \<Longrightarrow> \<not> lt y x"
    by (rule less_asym)
  have minimal: "lt z x \<Longrightarrow> \<not> lt y x \<Longrightarrow> lt z y" for z
    using less_cotrans by blast
  show ?case
    using Cons mem asym minimal by auto
qed simp

lemma sorted_go_sort: "sorted_wrt (\<lambda>a b. \<not> lt b a) (go_sort lt xs)"
  by (induction xs) (auto simp: sorted_sort_insert)

lemma go_sort_hd_minimal:
  assumes "go_sort lt xs = y # ys" and "z \<in> set xs"
  shows "\<not> lt z y"
proof -
  have "sorted_wrt (\<lambda>a b. \<not> lt b a) (y # ys)"
    using sorted_go_sort assms(1) by metis
  moreover have "z \<in> set (y # ys)"
    using assms by (metis set_go_sort)
  ultimately show ?thesis using less_irrefl by auto
qed

end

text \<open>
  A comparator that compares a key field by field: the lexicographic order of the key. It is
  a strict weak order, sorting by it is the library's \<open>sort_key\<close>, and where the key tells the
  elements apart every sort, stable or not, of every permutation gives the same list.
\<close>

locale keyed_order =
  fixes lt :: "'a \<Rightarrow> 'a \<Rightarrow> bool" and key :: "'a \<Rightarrow> 'k::linorder"
  assumes less_key: "lt x y \<longleftrightarrow> key x < key y"
begin

lemma sort_insert_insort: "sort_insert lt x ys = insort_key key x ys"
  by (induction ys) (auto simp: less_key)

lemma go_sort_eq_sort_key: "go_sort lt xs = sort_key key xs"
  by (induction xs) (auto simp: sort_insert_insort)

lemma sorted_key_go_sort: "sorted (map key (go_sort lt xs))"
  by (simp add: go_sort_eq_sort_key)

lemma go_sort_stable: "filter (\<lambda>y. key y = k) (go_sort lt xs) = filter (\<lambda>y. key y = k) xs"
  by (simp add: go_sort_eq_sort_key sort_key_stable)

lemma any_sort_unique:
  assumes "mset ys = mset xs" and "sorted (map key ys)" and "inj_on key (set xs)"
  shows "ys = go_sort lt xs"
  using sort_key_inj_key_eq [of xs ys key] assms by (simp add: go_sort_eq_sort_key)

lemma go_sort_perm:
  assumes "mset xs = mset ys" and "inj_on key (set xs)"
  shows "go_sort lt xs = go_sort lt ys"
proof -
  have "go_sort lt ys = go_sort lt xs"
    using assms by (intro any_sort_unique) (simp_all add: sorted_key_go_sort)
  then show ?thesis by simp
qed

lemma go_sort_idem: "go_sort lt (go_sort lt xs) = go_sort lt xs"
  by (metis go_sort_eq_sort_key sorted_key_go_sort sorted_sort_id sorted_map sort_key_id_if_sorted)

end

sublocale keyed_order \<subseteq> sort_order lt
  by unfold_locales (auto simp: less_key)

end
