(* ===== verification/GoStrings.thy ===== *)
theory GoStrings
  imports Prelude
begin

text \<open>
  Go strings and the parts of \<open>strings\<close>, \<open>unicode/utf8\<close> and \<open>fmt\<close> the program uses. A Go string
  is a sequence of bytes, here \<open>string\<close> (a list of 8-bit characters); \<open><\<close> on strings is the
  bytewise lexicographic order, as in Go. Letter case is folded on ASCII letters only: on a string
  with other letters \<open>strings.ToLower\<close> and \<open>strings.EqualFold\<close> do more than \<open>to_lower\<close> and
  \<open>equal_fold\<close> (Kubernetes kinds, names and reasons are ASCII).
\<close>

section \<open>Decimal numbers\<close>

definition digit :: "nat \<Rightarrow> char" where
  "digit n = char_of (48 + n)"

fun nat_str :: "nat \<Rightarrow> string" where
  "nat_str n = (if n < 10 then [digit n] else nat_str (n div 10) @ [digit (n mod 10)])"

declare nat_str.simps [simp del]

text \<open>\<open>%d\<close> and, for the minutes of an age, \<open>%02d\<close>.\<close>

definition itoa :: "int \<Rightarrow> string" where
  "itoa i = (if i < 0 then ''-'' @ nat_str (nat (- i)) else nat_str (nat i))"

definition itoa02 :: "int \<Rightarrow> string" where
  "itoa02 i = (if 0 \<le> i \<and> i < 10 then ''0'' @ itoa i else itoa i)"

lemma nat_str_nonempty [simp]: "nat_str n \<noteq> []"
  by (subst nat_str.simps) simp

lemma nat_str_0 [simp]: "nat_str 0 = ''0''"
  by code_simp

definition is_digit :: "char \<Rightarrow> bool" where
  "is_digit c \<longleftrightarrow> CHR ''0'' \<le> c \<and> c \<le> CHR ''9''"

fun digits_value :: "nat \<Rightarrow> string \<Rightarrow> nat" where
  "digits_value acc [] = acc"
| "digits_value acc (c # cs) = digits_value (10 * acc + (of_char c - 48)) cs"

lemma digits_value_append:
  "digits_value acc (s @ t) = digits_value (digits_value acc s) t"
  by (induction acc s rule: digits_value.induct) auto

lemma of_char_digit: "n < 10 \<Longrightarrow> of_char (digit n) = (48 + n :: nat)"
  by (simp add: digit_def of_char_of)

lemma digits_value_nat_str: "digits_value 0 (nat_str n) = n"
proof (induction n rule: nat_str.induct)
  case (1 n)
  then show ?case
    by (subst nat_str.simps) (auto simp: digits_value_append of_char_digit)
qed

lemma nat_str_inject [simp]: "nat_str m = nat_str n \<longleftrightarrow> m = n"
  by (metis digits_value_nat_str)

lemma nat_str_digits: "c \<in> set (nat_str n) \<Longrightarrow> is_digit c"
proof (induction n arbitrary: c rule: nat_str.induct)
  case (1 n)
  have dig: "k < 10 \<Longrightarrow> is_digit (digit k)" for k
    by (simp add: is_digit_def less_eq_char_def of_char_digit)
  from 1 show ?case
    by (subst (asm) (2) nat_str.simps) (auto simp: dig split: if_splits)
qed

section \<open>Searching and splitting\<close>

definition has_prefix :: "string \<Rightarrow> string \<Rightarrow> bool" where
  "has_prefix s p \<longleftrightarrow> take (length p) s = p"

definition has_suffix :: "string \<Rightarrow> string \<Rightarrow> bool" where
  "has_suffix s p \<longleftrightarrow> length p \<le> length s \<and> drop (length s - length p) s = p"

text \<open>\<open>strings.Index\<close>: the first position where \<open>sub\<close> occurs.\<close>

fun str_index :: "string \<Rightarrow> string \<Rightarrow> nat option" where
  "str_index [] sub = (if sub = [] then Some 0 else None)"
| "str_index (c # s) sub =
     (if has_prefix (c # s) sub then Some 0 else map_option Suc (str_index s sub))"

definition str_contains :: "string \<Rightarrow> string \<Rightarrow> bool" where
  "str_contains s sub \<longleftrightarrow> str_index s sub \<noteq> None"

text \<open>\<open>strings.LastIndex\<close> of a one-byte string.\<close>

fun last_index :: "char \<Rightarrow> string \<Rightarrow> nat option" where
  "last_index c [] = None"
| "last_index c (x # s) =
     (case last_index c s of Some i \<Rightarrow> Some (Suc i) | None \<Rightarrow> if x = c then Some 0 else None)"

text \<open>\<open>strings.Split\<close> by a one-byte separator.\<close>

fun split_byte :: "char \<Rightarrow> string \<Rightarrow> string list" where
  "split_byte c [] = [[]]"
| "split_byte c (x # s) =
     (if x = c then [] # split_byte c s
      else case split_byte c s of p # ps \<Rightarrow> (x # p) # ps | [] \<Rightarrow> [[x]])"

fun str_join :: "string \<Rightarrow> string list \<Rightarrow> string" where
  "str_join sep [] = []"
| "str_join sep [s] = s"
| "str_join sep (s # t # ts) = s @ sep @ str_join sep (t # ts)"

text \<open>\<open>strings.Cut\<close> at the first line break.\<close>

definition cut_line :: "string \<Rightarrow> string \<times> string" where
  "cut_line s = (takeWhile (\<lambda>c. c \<noteq> CHR 0x0A) s, drop 1 (dropWhile (\<lambda>c. c \<noteq> CHR 0x0A) s))"

lemma has_prefix_append [simp, go_str]: "has_prefix (p @ s) p"
  by (simp add: has_prefix_def)

lemma has_prefix_iff: "has_prefix s p \<longleftrightarrow> (\<exists>t. s = p @ t)"
  unfolding has_prefix_def by (metis append_eq_conv_conj append_take_drop_id)

lemma has_suffix_iff: "has_suffix s p \<longleftrightarrow> (\<exists>t. s = t @ p)"
  unfolding has_suffix_def
  by (metis add_diff_cancel_right' append_eq_conv_conj append_take_drop_id le_add2 length_append)

lemma str_index_Some:
  "str_index s sub = Some i \<Longrightarrow> i + length sub \<le> length s \<and> take (length sub) (drop i s) = sub"
proof (induction s sub arbitrary: i rule: str_index.induct)
  case (2 c s sub)
  show ?case
  proof (cases "has_prefix (c # s) sub")
    case True
    then obtain t where "c # s = sub @ t" by (auto simp: has_prefix_iff)
    then have "length sub \<le> length (c # s)" by (metis le_add1 length_append)
    with True "2.prems" show ?thesis by (simp add: has_prefix_def)
  next
    case False
    with 2 show ?thesis by auto
  qed
qed (auto split: if_splits)

lemma str_index_None_iff: "str_index s sub = None \<longleftrightarrow> (\<forall>t u. s \<noteq> t @ sub @ u)"
proof (induction s sub rule: str_index.induct)
  case (2 c s sub)
  have "(\<forall>t u. c # s \<noteq> t @ sub @ u) \<longleftrightarrow>
      \<not> has_prefix (c # s) sub \<and> (\<forall>t u. s \<noteq> t @ sub @ u)"
    by (auto simp: has_prefix_iff Cons_eq_append_conv)
  then show ?case using 2 by auto
qed auto

lemma str_contains_iff: "str_contains s sub \<longleftrightarrow> (\<exists>t u. s = t @ sub @ u)"
  using str_index_None_iff [of s sub] by (auto simp: str_contains_def)

text \<open>The index found is the first: no occurrence starts before it.\<close>

lemma str_index_first: "str_index (t @ sub @ u) sub = Some i \<Longrightarrow> i \<le> length t"
proof (induction t arbitrary: i)
  case Nil
  have "has_prefix (sub @ u) sub" by simp
  then show ?case using Nil by (cases "sub @ u") (auto split: if_splits)
next
  case (Cons c t)
  then show ?case by (auto split: if_splits)
qed

lemma str_index_before:
  assumes "str_index s sub = Some i" and "s = v @ w" and "length v < i + length sub"
  shows "\<not> str_contains v sub"
proof
  assume "str_contains v sub"
  then obtain t u where v: "v = t @ sub @ u" by (auto simp: str_contains_iff)
  then have "i \<le> length t" using str_index_first [of t sub "u @ w" i] assms(1,2) by simp
  then show False using v assms(3) by simp
qed

lemma last_index_Some:
  "last_index c s = Some i \<Longrightarrow>
   i < length s \<and> s ! i = c \<and> c \<notin> set (drop (Suc i) s)"
proof (induction c s arbitrary: i rule: last_index.induct)
  case (2 c x s)
  then show ?case
  proof (cases "last_index c s")
    case None
    then have "c \<notin> set s"
      by (induction s) (auto split: option.splits if_splits)
    with None 2 show ?thesis by (auto split: if_splits)
  qed auto
qed simp

lemma last_index_None: "last_index c s = None \<longleftrightarrow> c \<notin> set s"
  by (induction s) (auto split: option.splits)

lemma split_byte_nonempty [simp]: "split_byte c s \<noteq> []"
  by (induction s) (auto split: list.splits)

lemma str_join_split_byte [go_str]: "str_join [c] (split_byte c s) = s"
proof (induction c s rule: split_byte.induct)
  case (2 c x s)
  obtain p ps where pp: "split_byte c s = p # ps"
    by (meson list.exhaust split_byte_nonempty)
  with 2 show ?case by (cases ps) auto
qed simp

lemma split_byte_no_sep: "p \<in> set (split_byte c s) \<Longrightarrow> c \<notin> set p"
proof (induction c s arbitrary: p rule: split_byte.induct)
  case (2 c x s)
  then show ?case by (auto split: if_splits list.splits)
qed simp

section \<open>UTF-8\<close>

definition in_range :: "nat \<Rightarrow> nat \<Rightarrow> char \<Rightarrow> bool" where
  "in_range lo hi c \<longleftrightarrow> lo \<le> (of_char c :: nat) \<and> of_char c \<le> hi"

text \<open>
  The number of bytes of the valid UTF-8 sequence a string starts with, or 0 when it starts with
  none. The byte ranges are those \<open>unicode/utf8\<close> accepts (no overlong forms, no surrogates).
\<close>

fun rune_size :: "string \<Rightarrow> nat" where
  "rune_size [] = 0"
| "rune_size (a # s) =
     (let x = (of_char a :: nat);
          cont = in_range 0x80 0xBF;
          len2 = (\<lambda>lo hi. case s of b # _ \<Rightarrow> if in_range lo hi b then 2 else 0 | [] \<Rightarrow> 0);
          len3 = (\<lambda>lo hi. case s of b # c # _ \<Rightarrow> if in_range lo hi b \<and> cont c then 3 else 0 | _ \<Rightarrow> 0);
          len4 = (\<lambda>lo hi. case s of b # c # d # _ \<Rightarrow>
                   if in_range lo hi b \<and> cont c \<and> cont d then 4 else 0 | _ \<Rightarrow> 0)
      in if x \<le> 0x7F then 1
         else if 0xC2 \<le> x \<and> x \<le> 0xDF then len2 0x80 0xBF
         else if x = 0xE0 then len3 0xA0 0xBF
         else if x = 0xED then len3 0x80 0x9F
         else if 0xE1 \<le> x \<and> x \<le> 0xEF then len3 0x80 0xBF
         else if x = 0xF0 then len4 0x90 0xBF
         else if 0xF1 \<le> x \<and> x \<le> 0xF3 then len4 0x80 0xBF
         else if x = 0xF4 then len4 0x80 0x8F
         else 0)"

lemma rune_size_le: "rune_size s \<le> length s"
  by (cases s) (auto simp: Let_def split: list.splits if_splits)

text \<open>The replacement character U+FFFD, which stands for an invalid byte in a \<open>[]rune\<close>.\<close>

definition rune_error :: string where
  "rune_error = [CHR 0xEF, CHR 0xBF, CHR 0xBD]"

text \<open>\<open>[]rune(s)\<close>, each rune kept as its UTF-8 bytes; \<open>string(rs)\<close> is then \<open>concat rs\<close>.\<close>

function runes :: "string \<Rightarrow> string list" where
  "runes s =
     (if s = [] then []
      else if rune_size s = 0 then rune_error # runes (drop 1 s)
      else take (rune_size s) s # runes (drop (rune_size s) s))"
  by pat_completeness auto
termination
  by (relation "measure length") (auto simp: rune_size_le)

declare runes.simps [simp del]

lemma runes_Nil [simp]: "runes [] = []"
  by (subst runes.simps) simp

lemma rune_size_ascii: "(of_char a :: nat) \<le> 0x7F \<Longrightarrow> rune_size (a # s) = 1"
  by simp

lemma runes_ascii: "\<forall>c\<in>set s. (of_char c :: nat) \<le> 0x7F \<Longrightarrow> runes s = map (\<lambda>c. [c]) s"
proof (induction s)
  case (Cons a s)
  then show ?case by (subst runes.simps) (simp add: rune_size_ascii del: rune_size.simps)
qed simp

definition valid_utf8 :: "string \<Rightarrow> bool" where
  "valid_utf8 s \<longleftrightarrow> concat (runes s) = s"

lemma length_runes_le: "length (runes s) \<le> length s"
proof (induction s rule: runes.induct)
  case (1 s)
  consider "s = []" | "s \<noteq> []" "rune_size s = 0" | "s \<noteq> []" "rune_size s \<noteq> 0" by blast
  then show ?case
  proof cases
    case 2
    then have "length (runes (drop 1 s)) \<le> length s - 1" and "length s \<noteq> 0"
      using 1(1) by simp_all
    then have "Suc (length (runes (drop 1 s))) \<le> length s" by linarith
    then show ?thesis using 2 by (subst runes.simps) simp
  next
    case 3
    then have "length (runes (drop (rune_size s) s)) \<le> length s - rune_size s"
      using 1(2) by simp
    then have "Suc (length (runes (drop (rune_size s) s))) \<le> length s"
      using 3 rune_size_le [of s] by linarith
    then show ?thesis using 3 by (subst runes.simps) simp
  qed simp
qed

section \<open>White space and case\<close>

text \<open>The UTF-8 forms of the runes \<open>unicode.IsSpace\<close> holds for.\<close>

definition space_runes :: "string list" where
  "space_runes =
     [[CHR 0x09], [CHR 0x0A], [CHR 0x0B], [CHR 0x0C], [CHR 0x0D], [CHR 0x20],
      [CHR 0xC2, CHR 0x85], [CHR 0xC2, CHR 0xA0], [CHR 0xE1, CHR 0x9A, CHR 0x80],
      [CHR 0xE2, CHR 0x80, CHR 0x80], [CHR 0xE2, CHR 0x80, CHR 0x81],
      [CHR 0xE2, CHR 0x80, CHR 0x82], [CHR 0xE2, CHR 0x80, CHR 0x83],
      [CHR 0xE2, CHR 0x80, CHR 0x84], [CHR 0xE2, CHR 0x80, CHR 0x85],
      [CHR 0xE2, CHR 0x80, CHR 0x86], [CHR 0xE2, CHR 0x80, CHR 0x87],
      [CHR 0xE2, CHR 0x80, CHR 0x88], [CHR 0xE2, CHR 0x80, CHR 0x89],
      [CHR 0xE2, CHR 0x80, CHR 0x8A], [CHR 0xE2, CHR 0x80, CHR 0xA8],
      [CHR 0xE2, CHR 0x80, CHR 0xA9], [CHR 0xE2, CHR 0x80, CHR 0xAF],
      [CHR 0xE2, CHR 0x81, CHR 0x9F], [CHR 0xE3, CHR 0x80, CHR 0x80]]"

text \<open>The bytes of the white-space rune a string starts (ends) with, 0 when there is none.\<close>

definition space_at :: "string \<Rightarrow> nat" where
  "space_at s = (case find (has_prefix s) space_runes of Some r \<Rightarrow> length r | None \<Rightarrow> 0)"

definition space_end :: "string \<Rightarrow> nat" where
  "space_end s = (case find (has_suffix s) space_runes of Some r \<Rightarrow> length r | None \<Rightarrow> 0)"

lemma space_runes_nonempty: "r \<in> set space_runes \<Longrightarrow> r \<noteq> []"
  by (auto simp: space_runes_def)

lemma space_at_le: "space_at s \<le> length s"
  by (auto simp: space_at_def find_Some_iff has_prefix_iff split: option.splits)

lemma space_at_Nil [simp]: "space_at [] = 0"
  using space_at_le [of "[]"] by simp

lemma space_end_le: "space_end s \<le> length s"
  by (auto simp: space_end_def find_Some_iff has_suffix_iff split: option.splits)

lemma space_end_Nil [simp]: "space_end [] = 0"
  using space_end_le [of "[]"] by simp

function trim_left :: "string \<Rightarrow> string" where
  "trim_left s = (if space_at s = 0 then s else trim_left (drop (space_at s) s))"
  by pat_completeness auto
termination
proof (relation "measure length", simp, goal_cases)
  case (1 s)
  then show ?case using space_at_le [of s] by (cases s) auto
qed

function trim_right :: "string \<Rightarrow> string" where
  "trim_right s = (if space_end s = 0 then s else trim_right (take (length s - space_end s) s))"
  by pat_completeness auto
termination
proof (relation "measure length", simp, goal_cases)
  case (1 s)
  then show ?case using space_end_le [of s] by (cases s) auto
qed

declare trim_left.simps [simp del] trim_right.simps [simp del]

definition trim_space :: "string \<Rightarrow> string" where
  "trim_space s = trim_right (trim_left s)"

text \<open>\<open>strings.Fields\<close>: \<open>w\<close> is the word being read.\<close>

function fields_from :: "string \<Rightarrow> string \<Rightarrow> string list" where
  "fields_from w s =
     (if s = [] then (if w = [] then [] else [w])
      else if space_at s = 0 then fields_from (w @ take 1 s) (drop 1 s)
      else (if w = [] then [] else [w]) @ fields_from [] (drop (space_at s) s))"
  by pat_completeness auto
termination
  by (relation "measure (\<lambda>(w, s). length s)") auto

declare fields_from.simps [simp del]

definition str_fields :: "string \<Rightarrow> string list" where
  "str_fields s = fields_from [] s"

text \<open>\<open>strings.TrimRight(l, " \t")\<close>\<close>

definition trim_right_blank :: "string \<Rightarrow> string" where
  "trim_right_blank l = rev (dropWhile (\<lambda>c. c \<in> set [CHR '' '', CHR 0x09]) (rev l))"

definition to_lower_byte :: "char \<Rightarrow> char" where
  "to_lower_byte c = (if in_range 65 90 c then char_of (of_char c + 32 :: nat) else c)"

definition to_lower :: "string \<Rightarrow> string" where
  "to_lower s = map to_lower_byte s"

definition to_upper_byte :: "char \<Rightarrow> char" where
  "to_upper_byte c = (if in_range 97 122 c then char_of (of_char c - 32 :: nat) else c)"

definition to_upper :: "string \<Rightarrow> string" where
  "to_upper s = map to_upper_byte s"

definition equal_fold :: "string \<Rightarrow> string \<Rightarrow> bool" where
  "equal_fold s t \<longleftrightarrow> to_lower s = to_lower t"

lemma length_trim_left: "length (trim_left s) \<le> length s"
proof (induction s rule: trim_left.induct)
  case (1 s)
  then show ?case by (subst trim_left.simps) (auto intro: le_trans)
qed

lemma length_trim_right: "length (trim_right s) \<le> length s"
proof (induction s rule: trim_right.induct)
  case (1 s)
  then show ?case by (subst trim_right.simps) (auto intro: le_trans)
qed

lemma length_trim_space: "length (trim_space s) \<le> length s"
  unfolding trim_space_def by (meson le_trans length_trim_left length_trim_right)

lemma equal_fold_refl [simp]: "equal_fold s s"
  by (simp add: equal_fold_def)

lemma equal_fold_sym: "equal_fold s t \<longleftrightarrow> equal_fold t s"
  by (auto simp: equal_fold_def)

end
