(* ===== verification/GoTime.thy ===== *)
theory GoTime
  imports GoStrings
begin

text \<open>
  Go's \<open>time\<close> package as the program uses it. An instant is an \<open>int\<close>: nanoseconds since the zero
  \<open>time.Time\<close>, so \<open>IsZero\<close> is \<open>= 0\<close>, \<open>After\<close> is \<open>>\<close> and \<open>Before\<close> is \<open><\<close>. A duration is an
  \<open>int\<close> of nanoseconds within the signed 64-bit range; \<open>Sub\<close> saturates there, as Go's does.
  How an instant is printed depends on the local time zone: the definitions that print one take a
  function from layout and instant to text.
\<close>

type_synonym time = int
type_synonym duration = int
type_synonym time_format = "string \<Rightarrow> time \<Rightarrow> string"

definition second :: duration where "second = 1000000000"
definition minute :: duration where "minute = 60000000000"
definition hour :: duration where "hour = 3600000000000"

definition max_duration :: duration where "max_duration = 2 ^ 63 - 1"
definition min_duration :: duration where "min_duration = - (2 ^ 63)"

lemmas time_units = second_def minute_def hour_def

definition time_sub :: "time \<Rightarrow> time \<Rightarrow> duration" where
  "time_sub t u = max min_duration (min max_duration (t - u))"

lemma time_sub_range: "min_duration \<le> time_sub t u \<and> time_sub t u \<le> max_duration"
  by (simp add: time_sub_def min_duration_def max_duration_def)

lemma time_sub_mono: "t \<le> t' \<Longrightarrow> time_sub t u \<le> time_sub t' u"
  by (simp add: time_sub_def)

lemma time_sub_anti: "u \<le> u' \<Longrightarrow> time_sub t u' \<le> time_sub t u"
  by (simp add: time_sub_def)

lemma time_sub_ge_iff:
  "0 \<le> d \<Longrightarrow> d \<le> max_duration \<Longrightarrow> d \<le> time_sub t u \<longleftrightarrow> d \<le> t - u"
  by (auto simp: time_sub_def min_duration_def)

lemma time_sub_less_iff:
  "0 \<le> d \<Longrightarrow> d \<le> max_duration \<Longrightarrow> time_sub t u < d \<longleftrightarrow> t - u < d"
  using time_sub_ge_iff [of d t u] by linarith

text \<open>Go's integer division truncates towards zero.\<close>

definition go_div :: "int \<Rightarrow> int \<Rightarrow> int" where
  "go_div a b = sgn a * sgn b * (\<bar>a\<bar> div \<bar>b\<bar>)"

lemma go_div_nonneg: "0 \<le> a \<Longrightarrow> 0 < b \<Longrightarrow> go_div a b = a div b"
  by (auto simp: go_div_def sgn_if)

text \<open>
  \<open>int(d.Seconds())\<close>, \<open>int(d.Minutes())\<close> and \<open>int(d.Hours())\<close>. Go goes through float64, which is
  exact here up to 2048 hours; beyond that the last nanosecond before a full hour can round up.
\<close>

definition secs :: "duration \<Rightarrow> int" where "secs d = go_div d second"
definition mins :: "duration \<Rightarrow> int" where "mins d = go_div d minute"
definition hours :: "duration \<Rightarrow> int" where "hours d = go_div d hour"

text \<open>\<open>d.Round(time.Second)\<close>: to the nearest second, halves away from zero, saturating.\<close>

definition round_second :: "duration \<Rightarrow> duration" where
  "round_second d =
     (let r = \<bar>d\<bar> mod second in
      if d < 0 then
        (if 2 * r < second then d + r else max min_duration (d - second + r))
      else
        (if 2 * r < second then d - r else min max_duration (d + second - r)))"

section \<open>Ages\<close>

text \<open>\<open>formatDuration\<close>, the age of an event or object.\<close>

definition formatDuration :: "duration \<Rightarrow> string" where
  "formatDuration d0 =
     (let d = round_second d0 in
      if d < minute then itoa (secs d) @ ''s''
      else if d < hour then itoa (mins d) @ ''m''
      else if d < 24 * hour then itoa (hours d) @ ''h''
      else itoa (go_div d (24 * hour)) @ ''d'')"

text \<open>\<open>formatAge\<close>, the age of a problem: 12s, 4m, 1h 05m, 2d 10h, 75d.\<close>

definition formatAge :: "duration \<Rightarrow> string" where
  "formatAge d0 =
     (let d = (if d0 < 0 then 0 else d0) in
      if d < minute then itoa (secs d) @ ''s''
      else if d < hour then itoa (mins d) @ ''m''
      else if d < 24 * hour then itoa (hours d) @ ''h '' @ itoa02 (mins d mod 60) @ ''m''
      else if d < 7 * 24 * hour then
        itoa (hours d div 24) @ ''d '' @ itoa (hours d mod 24) @ ''h''
      else itoa (hours d div 24) @ ''d'')"

lemma formatAge_negative: "d \<le> 0 \<Longrightarrow> formatAge d = ''0s''"
  by (cases "d = 0")
    (simp_all add: formatAge_def time_units secs_def go_div_def itoa_def)

section \<open>Short helpers\<close>

text \<open>\<open>truncate\<close>: at most n runes, then an ellipsis.\<close>

definition ellipsis :: string where
  "ellipsis = [CHR 0xE2, CHR 0x80, CHR 0xA6]"

definition truncate_runes :: "string \<Rightarrow> nat \<Rightarrow> string" where
  "truncate_runes s n =
     (let r = runes s in
      if length r \<le> n then s else trim_space (concat (take n r)) @ ellipsis)"

definition plural :: "string \<Rightarrow> nat \<Rightarrow> string" where
  "plural kind n =
     (if n = 1 then kind else if has_suffix kind ''s'' then kind @ ''es'' else kind @ ''s'')"

definition pluralWord :: "string \<Rightarrow> string \<Rightarrow> int \<Rightarrow> string" where
  "pluralWord one many n = (if n = 1 then one else many)"

definition oneLine :: "string \<Rightarrow> string" where
  "oneLine s = str_join '' '' (str_fields s)"

lemma truncate_short: "length (runes s) \<le> n \<Longrightarrow> truncate_runes s n = s"
  by (simp add: truncate_runes_def)

lemma length_rune_le_4: "r \<in> set (runes s) \<Longrightarrow> length r \<le> 4"
proof (induction s arbitrary: r rule: runes.induct)
  case (1 s)
  have "rune_size s \<le> 4"
    by (cases s) (auto simp: Let_def split: list.splits)
  with 1 show ?case
    by (subst (asm) (3) runes.simps) (auto simp: rune_error_def split: if_splits)
qed

text \<open>A truncated text is at most n runes and the ellipsis, in bytes.\<close>

lemma truncate_bytes: "n < length (runes s) \<Longrightarrow> length (truncate_runes s n) \<le> 4 * n + 3"
proof -
  assume "n < length (runes s)"
  have "length (concat (take n rs)) \<le> 4 * n" if "\<forall>r\<in>set rs. length r \<le> 4" for rs :: "string list"
    using that
  proof (induction n arbitrary: rs)
    case (Suc n)
    then show ?case by (cases rs) (auto, fastforce)
  qed simp
  then have "length (concat (take n (runes s))) \<le> 4 * n"
    using length_rune_le_4 by blast
  then have "length (trim_space (concat (take n (runes s)))) \<le> 4 * n"
    using length_trim_space le_trans by blast
  then show ?thesis
    using \<open>n < length (runes s)\<close> by (simp add: truncate_runes_def ellipsis_def)
qed

end
