(* ===== verification/Events.thy ===== *)
theory Events
  imports GoTime
begin

text \<open>
  Events and the caches they live in (main.go, warnings.go): \<open>EventSummary\<close> and its construction
  from an API event, the newest-first order, merging the per-namespace sweep with the cluster-wide
  warning feed, the feed's paging and error handling, and the namespace views built on them.
  The API server is a parameter: a function that answers the list calls.
\<close>

section \<open>Event summaries\<close>

record EventSummary =
  evNamespace :: string
  evName :: string
  evReason :: string
  evMessage :: string
  evType :: string
  evCount :: int
  evKind :: string
  evObjectName :: string
  evObjectNamespace :: string
  evFirstTime :: time
  evLastTime :: time
  evAge :: string

text \<open>The fields of a \<open>corev1.Event\<close> (Kubernetes API) that the program reads.\<close>

record core_series =
  srLastObserved :: time
  srCount :: int

record core_event =
  ceNamespace :: string
  ceName :: string
  ceReason :: string
  ceMessage :: string
  ceType :: string
  ceCount :: int
  ceKind :: string
  ceObjectName :: string
  ceObjectNamespace :: string
  ceFirstTimestamp :: time
  ceLastTimestamp :: time
  ceEventTime :: time
  ceSeries :: "core_series option"

definition toSummary :: "time \<Rightarrow> core_event \<Rightarrow> EventSummary" where
  "toSummary clock e =
     (let last0 = ceLastTimestamp e;
          last1 = (case ceSeries e of
                     Some s \<Rightarrow> if srLastObserved s > last0 then srLastObserved s else last0
                   | None \<Rightarrow> last0);
          last = (if last1 = 0 then ceEventTime e else last1);
          first0 = ceFirstTimestamp e;
          first1 = (if first0 = 0 then ceEventTime e else first0);
          first = (if first1 = 0 then last else first1);
          count0 = ceCount e;
          count1 = (case ceSeries e of
                      Some s \<Rightarrow> if count0 = 0 then srCount s else count0
                    | None \<Rightarrow> count0);
          count = (if count1 = 0 then 1 else count1);
          age = (if last \<noteq> 0 then formatDuration (time_sub clock last) else ''unknown'')
      in \<lparr>evNamespace = ceNamespace e, evName = ceName e, evReason = ceReason e,
          evMessage = ceMessage e, evType = ceType e, evCount = count, evKind = ceKind e,
          evObjectName = ceObjectName e, evObjectNamespace = ceObjectNamespace e,
          evFirstTime = first, evLastTime = last, evAge = age\<rparr>)"

lemma toSummary_first_zero: "evFirstTime (toSummary clk e) = 0 \<Longrightarrow> evLastTime (toSummary clk e) = 0"
  by (auto simp: toSummary_def Let_def split: option.splits if_splits)

lemma toSummary_count_nonzero: "evCount (toSummary clk e) \<noteq> 0"
  by (auto simp: toSummary_def Let_def split: option.splits)

section \<open>Newest first\<close>

text \<open>The comparator of \<open>sortNewestFirst\<close>.\<close>

definition newest_less :: "EventSummary \<Rightarrow> EventSummary \<Rightarrow> bool" where
  "newest_less a b =
     (if evLastTime a \<noteq> evLastTime b then evLastTime a > evLastTime b
      else if evNamespace a \<noteq> evNamespace b then evNamespace a < evNamespace b
      else evName a < evName b)"

definition newest_key :: "EventSummary \<Rightarrow> int \<times> string \<times> string" where
  "newest_key e = (- evLastTime e, evNamespace e, evName e)"

interpretation newest: keyed_order newest_less newest_key
  by unfold_locales (auto simp: newest_less_def newest_key_def)

definition sortNewestFirst :: "EventSummary list \<Rightarrow> EventSummary list" where
  "sortNewestFirst evs = go_sort newest_less evs"

lemma set_sortNewestFirst [simp]: "set (sortNewestFirst evs) = set evs"
  by (simp add: sortNewestFirst_def)

lemma mset_sortNewestFirst [simp]: "mset (sortNewestFirst evs) = mset evs"
  by (simp add: sortNewestFirst_def)

lemma sortNewestFirst_times: "sorted_wrt (\<lambda>a b. evLastTime a \<ge> evLastTime b) (sortNewestFirst evs)"
proof -
  have "sorted_wrt (\<lambda>a b. \<not> newest_less b a) (sortNewestFirst evs)"
    unfolding sortNewestFirst_def by (rule newest.sorted_go_sort)
  then show ?thesis
    by (rule sorted_wrt_mono_rel [rotated]) (auto simp: newest_less_def split: if_splits)
qed

section \<open>Merging two event lists\<close>

text \<open>\<open>idx\<close> of \<open>mergeEvents\<close>: the last position of each event name.\<close>

fun name_index :: "nat \<Rightarrow> EventSummary list \<Rightarrow> (string, nat) gomap \<Rightarrow> (string, nat) gomap" where
  "name_index i [] idx = idx"
| "name_index i (e # es) idx = name_index (Suc i) es (al_set (evName e) i idx)"

definition merge_step ::
  "EventSummary list \<times> (string, nat) gomap \<Rightarrow> EventSummary \<Rightarrow>
   EventSummary list \<times> (string, nat) gomap" where
  "merge_step st e =
     (case st of (out, idx) \<Rightarrow>
        case map_of idx (evName e) of
          Some i \<Rightarrow>
            (if evLastTime e > evLastTime (out ! i) \<or> evCount e > evCount (out ! i)
             then (out[i := e], idx) else (out, idx))
        | None \<Rightarrow> (out @ [e], al_set (evName e) (length out) idx))"

definition mergeEvents :: "EventSummary list \<Rightarrow> EventSummary list \<Rightarrow> EventSummary list" where
  "mergeEvents base extra =
     (if extra = [] then base
      else sortNewestFirst (fst (foldl merge_step (base, name_index 0 base []) extra)))"

text \<open>The index only points at positions that hold an event of that name.\<close>

definition index_ok :: "EventSummary list \<Rightarrow> (string, nat) gomap \<Rightarrow> bool" where
  "index_ok out idx \<longleftrightarrow>
     (\<forall>n i. map_of idx n = Some i \<longrightarrow> i < length out \<and> evName (out ! i) = n) \<and>
     (\<forall>e\<in>set out. map_of idx (evName e) \<noteq> None)"

lemma name_index_ok:
  "index_ok pre idx \<Longrightarrow> index_ok (pre @ es) (name_index (length pre) es idx)"
proof (induction es arbitrary: pre idx)
  case (Cons e es)
  have "index_ok (pre @ [e]) (al_set (evName e) (length pre) idx)"
    using Cons.prems unfolding index_ok_def by (auto simp: nth_append less_Suc_eq)
  from Cons.IH [OF this] show ?case by simp
qed simp

lemma base_index_ok: "index_ok base (name_index 0 base [])"
  using name_index_ok [of "[]" "[]" base] by (simp add: index_ok_def)

lemma merge_step_ok:
  assumes "index_ok out idx" and "merge_step (out, idx) e = (out', idx')"
  shows "index_ok out' idx'"
proof (cases "map_of idx (evName e)")
  case None
  then show ?thesis
    using assms
    by (auto simp: merge_step_def index_ok_def nth_append less_Suc_eq split: if_splits)
next
  case (Some i)
  then have i: "i < length out" "evName (out ! i) = evName e"
    using assms(1) by (auto simp: index_ok_def)
  have "index_ok (out[i := e]) idx"
    unfolding index_ok_def
  proof (intro conjI allI impI ballI)
    fix n j assume "map_of idx n = Some j"
    then have "j < length out" "evName (out ! j) = n"
      using assms(1) by (auto simp: index_ok_def)
    then show "j < length (out[i := e])" "evName (out[i := e] ! j) = n"
      using i by (auto simp: nth_list_update)
  next
    fix x assume "x \<in> set (out[i := e])"
    then have "x \<in> insert e (set out)" using set_update_subset_insert by fastforce
    then show "map_of idx (evName x) \<noteq> None"
      using assms(1) Some by (auto simp: index_ok_def)
  qed
  then show ?thesis
    using assms Some by (auto simp: merge_step_def split: if_splits)
qed

lemma foldl_merge_ok:
  "index_ok out idx \<Longrightarrow> foldl merge_step (out, idx) es = (out', idx') \<Longrightarrow> index_ok out' idx'"
proof (induction es arbitrary: out idx)
  case (Cons e es)
  obtain o1 i1 where s: "merge_step (out, idx) e = (o1, i1)" by fastforce
  have "index_ok o1 i1" using merge_step_ok [OF Cons.prems(1) s] .
  then show ?case using Cons.IH [of o1 i1] Cons.prems(2) s by simp
qed simp

text \<open>
  What one step does to the list, read by event name: an event of a new name is added, an event
  of a known name replaces the copy in place or is dropped.
\<close>

lemma merge_step_names:
  assumes "index_ok out idx" and "merge_step (out, idx) e = (out', idx')"
  shows "map evName out' =
    (if evName e \<in> set (map evName out) then map evName out else map evName out @ [evName e])"
proof (cases "map_of idx (evName e)")
  case None
  then have "evName e \<notin> set (map evName out)"
    using assms(1) by (fastforce simp: index_ok_def)
  then show ?thesis using assms(2) None by (auto simp: merge_step_def)
next
  case (Some i)
  then have i: "i < length out" "evName (out ! i) = evName e"
    using assms(1) by (auto simp: index_ok_def)
  then have "evName e \<in> set (map evName out)" by (metis length_map nth_map nth_mem)
  moreover have "map evName (out[i := e]) = map evName out"
    using i by (metis list_update_id map_update)
  ultimately show ?thesis using assms(2) Some by (auto simp: merge_step_def split: if_splits)
qed

lemma foldl_merge_names:
  "index_ok out idx \<Longrightarrow> foldl merge_step (out, idx) es = (out', idx') \<Longrightarrow>
   set (map evName out') = set (map evName out) \<union> set (map evName es) \<and>
   (distinct (map evName out) \<longrightarrow> distinct (map evName out'))"
proof (induction es arbitrary: out idx)
  case (Cons e es)
  obtain o1 i1 where s: "merge_step (out, idx) e = (o1, i1)" by fastforce
  have ok: "index_ok o1 i1" using merge_step_ok [OF Cons.prems(1) s] .
  have r: "foldl merge_step (o1, i1) es = (out', idx')" using Cons.prems(2) s by simp
  note n = merge_step_names [OF Cons.prems(1) s]
  show ?case using Cons.IH [OF ok r] n by (auto split: if_splits)
qed simp

text \<open>No event of either list is lost, and none is made up.\<close>

lemma foldl_merge_subset:
  "index_ok out idx \<Longrightarrow> foldl merge_step (out, idx) es = (out', idx') \<Longrightarrow>
   set out' \<subseteq> set out \<union> set es"
proof (induction es arbitrary: out idx)
  case (Cons e es)
  obtain o1 i1 where s: "merge_step (out, idx) e = (o1, i1)" by fastforce
  have ok: "index_ok o1 i1" using merge_step_ok [OF Cons.prems(1) s] .
  have r: "foldl merge_step (o1, i1) es = (out', idx')" using Cons.prems(2) s by simp
  have "set o1 \<subseteq> insert e (set out)"
    using s set_update_subset_insert by (fastforce simp: merge_step_def split: option.splits if_splits)
  then show ?case using Cons.IH [OF ok r] by auto
qed simp

lemma set_mergeEvents: "set (mergeEvents base extra) \<subseteq> set base \<union> set extra"
proof -
  obtain o1 i1 where f: "foldl merge_step (base, name_index 0 base []) extra = (o1, i1)"
    by fastforce
  then show ?thesis
    using foldl_merge_subset [OF base_index_ok f] by (auto simp: mergeEvents_def)
qed

lemma names_mergeEvents:
  "evName ` set (mergeEvents base extra) = evName ` set base \<union> evName ` set extra"
proof -
  obtain o1 i1 where f: "foldl merge_step (base, name_index 0 base []) extra = (o1, i1)"
    by fastforce
  then show ?thesis
    using foldl_merge_names [OF base_index_ok f] by (auto simp: mergeEvents_def)
qed

lemma distinct_mergeEvents:
  assumes "distinct (map evName base)"
  shows "distinct (map evName (mergeEvents base extra))"
proof -
  obtain o1 i1 where f: "foldl merge_step (base, name_index 0 base []) extra = (o1, i1)"
    by fastforce
  have "distinct (map evName o1)"
    using foldl_merge_names [OF base_index_ok f] assms by blast
  moreover have "mset (map evName (sortNewestFirst o1)) = mset (map evName o1)"
    by (metis mset_map mset_sortNewestFirst)
  ultimately have "distinct (map evName (sortNewestFirst o1))"
    by (metis mset_eq_imp_distinct_iff)
  then show ?thesis using assms f by (simp add: mergeEvents_def)
qed

text \<open>
  An event that only moves forward: every copy the merge started from or was offered is, for the
  name it has, no newer than the result or was beaten on its count.
\<close>

definition supersedes :: "EventSummary \<Rightarrow> EventSummary \<Rightarrow> bool" where
  "supersedes a b \<longleftrightarrow> evLastTime a > evLastTime b \<or> evCount a > evCount b"

lemma merge_single:
  assumes "distinct (map evName base)" and "b \<in> set base" and "evName e = evName b"
  shows "set (mergeEvents base [e]) =
    (if supersedes e b then insert e (set base - {b}) else set base)"
proof -
  obtain i where i: "i < length base" "base ! i = b"
    using assms(2) by (auto simp: in_set_conv_nth)
  have ok: "index_ok base (name_index 0 base [])" by (rule base_index_ok)
  obtain j where j: "map_of (name_index 0 base []) (evName e) = Some j"
    using ok assms(2,3) unfolding index_ok_def by (metis option.exhaust)
  then have "j < length base" "evName (base ! j) = evName e"
    using ok by (auto simp: index_ok_def)
  then have "j = i"
    using assms(1,3) i by (metis length_map nth_eq_iff_index_eq nth_map)
  moreover have "distinct base" using assms(1) by (simp add: distinct_map)
  then have "set (base[i := e]) = insert e (set base - {b})"
    using i by (simp add: set_update_distinct)
  ultimately show ?thesis
    using j i by (auto simp: mergeEvents_def merge_step_def supersedes_def)
qed

section \<open>Properties\<close>

text \<open>
  merging the cluster-wide feed into a namespace's sweep drops and invents no event: the result
  has the names of both sides, every entry comes from one of them, and no name appears twice.
\<close>

lemma merge_names:
  assumes "distinct (map evName base)"
  shows "evName ` set (mergeEvents base extra) = evName ` set base \<union> evName ` set extra \<and>
    set (mergeEvents base extra) \<subseteq> set base \<union> set extra \<and>
    distinct (map evName (mergeEvents base extra))"
  by (intro conjI names_mergeEvents set_mergeEvents distinct_mergeEvents assms)

definition sample_summary :: "string \<Rightarrow> time \<Rightarrow> int \<Rightarrow> EventSummary" where
  "sample_summary name t n = \<lparr>evNamespace = ''shop'', evName = name, evReason = ''BackOff'',
     evMessage = ''m'', evType = ''Warning'', evCount = n, evKind = ''Pod'', evObjectName = ''p'',
     evObjectNamespace = ''shop'', evFirstTime = 1, evLastTime = t, evAge = ''1m''\<rparr>"

lemma merge_names_witness:
  "evName ` set (mergeEvents [sample_summary ''a'' 10 1, sample_summary ''b'' 20 2]
      [sample_summary ''b'' 30 3, sample_summary ''c'' 5 1]) = {''a'', ''b'', ''c''}"
proof -
  have d: "distinct (map evName [sample_summary ''a'' 10 1, sample_summary ''b'' 20 2])"
    by (simp add: sample_summary_def)
  show ?thesis
    unfolding merge_names [OF d, THEN conjunct1] by (simp add: sample_summary_def insert_commute)
qed

text \<open>
  for an event both sides have, the feed's copy replaces the sweep's exactly when it was seen
  later or has counted more, even if it was seen earlier.
\<close>

lemma merge_replaces:
  assumes "distinct (map evName base)" and "b \<in> set base" and "evName e = evName b"
  shows "set (mergeEvents base [e]) =
    (if evLastTime e > evLastTime b \<or> evCount e > evCount b then insert e (set base - {b}) else set base)"
  using merge_single [OF assms] by (simp add: supersedes_def)

lemma merge_replaces_witness:
  "set (mergeEvents [sample_summary ''a'' 10 1] [sample_summary ''a'' 5 2]) = {sample_summary ''a'' 5 2}"
  using merge_replaces [of "[sample_summary ''a'' 10 1]" "sample_summary ''a'' 10 1" "sample_summary ''a'' 5 2"]
  by (simp add: sample_summary_def)


end
