(* ===== verification/Objects.thy ===== *)
theory Objects
  imports Events
begin

text \<open>
  Events grouped by the object they are about, and objects by kind (main.go: \<open>groupByObject\<close>,
  \<open>groupByKind\<close>, and the counting part of \<open>assembleDashboard\<close>). Nothing is lost or counted twice
  in either grouping.
\<close>

section \<open>Per object\<close>

record ObjectEvents =
  oeKind :: string
  oeName :: string
  oeEvents :: "EventSummary list"
  oeWarningCount :: nat
  oeNormalCount :: nat
  oeHasWarning :: bool
  oeLastTime :: time
  oeLastWarning :: time
  oeIdle :: bool

definition idleAfter :: duration where "idleAfter = 15 * minute"

definition is_warning :: "EventSummary \<Rightarrow> bool" where
  "is_warning e \<longleftrightarrow> evType e = ''Warning''"

definition event_object :: "EventSummary \<Rightarrow> string \<times> string" where
  "event_object e = (evKind e, evObjectName e)"

definition new_object :: "EventSummary \<Rightarrow> ObjectEvents" where
  "new_object e =
     \<lparr>oeKind = evKind e, oeName = evObjectName e, oeEvents = [], oeWarningCount = 0,
      oeNormalCount = 0, oeHasWarning = False, oeLastTime = 0, oeLastWarning = 0, oeIdle = False\<rparr>"

text \<open>The body of the loop over the events.\<close>

definition object_add :: "EventSummary \<Rightarrow> ObjectEvents option \<Rightarrow> ObjectEvents" where
  "object_add e found =
     (let o0 = (case found of Some ob \<Rightarrow> ob | None \<Rightarrow> new_object e);
          o1 = o0\<lparr>oeEvents := oeEvents o0 @ [e]\<rparr>;
          o2 = (if is_warning e
                then o1\<lparr>oeWarningCount := oeWarningCount o1 + 1, oeHasWarning := True,
                        oeLastWarning := (if evLastTime e > oeLastWarning o1
                                          then evLastTime e else oeLastWarning o1)\<rparr>
                else o1\<lparr>oeNormalCount := oeNormalCount o1 + 1\<rparr>)
      in if evLastTime e > oeLastTime o2 then o2\<lparr>oeLastTime := evLastTime e\<rparr> else o2)"

definition object_idle :: "time \<Rightarrow> ObjectEvents \<Rightarrow> ObjectEvents" where
  "object_idle clock ob =
     ob\<lparr>oeIdle := (oeHasWarning ob \<and> time_sub clock (oeLastWarning ob) \<ge> idleAfter)\<rparr>"

definition object_less :: "ObjectEvents \<Rightarrow> ObjectEvents \<Rightarrow> bool" where
  "object_less a b =
     (if oeHasWarning a \<noteq> oeHasWarning b then oeHasWarning a else oeLastTime a > oeLastTime b)"

definition object_key :: "ObjectEvents \<Rightarrow> bool \<times> int" where
  "object_key ob = (\<not> oeHasWarning ob, - oeLastTime ob)"

interpretation object_order: keyed_order object_less object_key
  by unfold_locales (auto simp: object_less_def object_key_def)

definition groupByObject :: "time \<Rightarrow> EventSummary list \<Rightarrow> ObjectEvents list" where
  "groupByObject clock events =
     go_sort object_less
       (map (\<lambda>(k, ob). object_idle clock ob) (group_fold event_object object_add events))"

text \<open>The newest \<open>LastTime\<close> of a list of events, the zero time when there is none.\<close>

definition newest_time :: "EventSummary list \<Rightarrow> time" where
  "newest_time es = foldl (\<lambda>t e. if evLastTime e > t then evLastTime e else t) 0 es"

lemma newest_time_snoc:
  "newest_time (es @ [e]) = (if evLastTime e > newest_time es then evLastTime e else newest_time es)"
  by (simp add: newest_time_def)

lemma newest_time_ge: "e \<in> set es \<Longrightarrow> evLastTime e \<le> newest_time es"
  by (induction es rule: rev_induct) (auto simp: newest_time_snoc split: if_splits)

lemma newest_time_mem: "newest_time es = 0 \<or> newest_time es \<in> evLastTime ` set es"
  by (induction es rule: rev_induct) (auto simp: newest_time_def)

text \<open>What the loop computes for one object from the events it has seen.\<close>

definition object_summary :: "ObjectEvents \<Rightarrow> EventSummary list \<Rightarrow> bool" where
  "object_summary ob es \<longleftrightarrow>
     oeEvents ob = es \<and>
     oeWarningCount ob = length (filter is_warning es) \<and>
     oeNormalCount ob = length (filter (\<lambda>e. \<not> is_warning e) es) \<and>
     oeHasWarning ob = (\<exists>e\<in>set es. is_warning e) \<and>
     oeLastTime ob = newest_time es \<and>
     oeLastWarning ob = newest_time (filter is_warning es) \<and>
     \<not> oeIdle ob"

lemma object_add_summary:
  assumes "object_summary ob es"
  shows "object_summary (object_add e (Some ob)) (es @ [e])"
  using assms
  by (cases "is_warning e")
    (simp_all add: object_summary_def object_add_def Let_def newest_time_snoc)

lemma object_add_same:
  "oeKind (object_add e (Some ob)) = oeKind ob" "oeName (object_add e (Some ob)) = oeName ob"
  by (simp_all add: object_add_def Let_def)

lemma object_add_new:
  "object_summary (object_add e None) [e]"
  "oeKind (object_add e None) = evKind e" "oeName (object_add e None) = evObjectName e"
  by (auto simp: object_add_def object_summary_def new_object_def Let_def newest_time_def)

lemma opt_fold_object:
  "object_summary ob pre \<Longrightarrow>
   \<exists>ob'. opt_fold object_add es (Some ob) = Some ob' \<and> object_summary ob' (pre @ es) \<and>
     oeKind ob' = oeKind ob \<and> oeName ob' = oeName ob"
proof (induction es arbitrary: ob pre)
  case (Cons e es)
  from Cons.IH [OF object_add_summary [OF Cons.prems, of e]] show ?case
    by (auto simp: object_add_same)
qed simp

lemma group_object_entry:
  assumes "(k, ob) \<in> set (group_fold event_object object_add events)"
  shows "object_summary ob (filter (\<lambda>e. event_object e = k) events) \<and> (oeKind ob, oeName ob) = k"
proof -
  let ?es = "filter (\<lambda>e. event_object e = k) events"
  have f: "opt_fold object_add ?es None = Some ob"
    using assms by (simp add: group_fold_entry)
  then obtain e es where es: "?es = e # es" by (cases ?es) auto
  have "event_object e = k" using es by (rule filter_ConsD)
  then show ?thesis
    using f es opt_fold_object [OF object_add_new(1) [of e], of es]
    by (auto simp: object_add_new event_object_def)
qed

lemma group_object_concat:
  "mset (concat (map (oeEvents \<circ> snd) (group_fold event_object object_add events))) = mset events"
proof -
  have ev: "oeEvents (object_add e o') = snoc_opt e (map_option oeEvents o')" for e o'
    by (auto simp: object_add_def snoc_opt_def new_object_def Let_def split: option.splits)
  have step: "mset (concat (map (oeEvents \<circ> snd) (al_alter k (object_add e) m))) =
      add_mset e (mset (concat (map (oeEvents \<circ> snd) m)))" for k e m
    by (induction k "object_add e" m rule: al_alter.induct) (auto simp: ev snoc_opt_def)
  have "mset (concat (map (oeEvents \<circ> snd) (foldl (\<lambda>m e. al_alter (event_object e) (object_add e) m) m0 es)))
      = mset (concat (map (oeEvents \<circ> snd) m0)) + mset es" for m0 es
    by (induction es arbitrary: m0) (auto simp: step)
  then show ?thesis by (simp add: group_fold_def)
qed

lemma groupByObject_events: "mset (concat (map oeEvents (groupByObject clk events))) = mset events"
proof -
  let ?raw = "map (\<lambda>(k, ob). object_idle clk ob) (group_fold event_object object_add events)"
  have "mset (concat (map oeEvents (groupByObject clk events))) = mset (concat (map oeEvents ?raw))"
    by (rule mset_concat_map_cong) (simp add: groupByObject_def)
  also have "map oeEvents ?raw = map (oeEvents \<circ> snd) (group_fold event_object object_add events)"
    by (auto simp: object_idle_def)
  finally show ?thesis by (simp add: group_object_concat)
qed

lemma groupByObject_member:
  assumes "ob \<in> set (groupByObject clk events)"
  shows "object_summary (ob\<lparr>oeIdle := False\<rparr>)
      (filter (\<lambda>e. event_object e = (oeKind ob, oeName ob)) events)"
    and "oeIdle ob \<longleftrightarrow> oeHasWarning ob \<and> time_sub clk (oeLastWarning ob) \<ge> idleAfter"
proof -
  from assms obtain k o' where e: "(k, o') \<in> set (group_fold event_object object_add events)"
    and ob: "ob = object_idle clk o'"
    by (auto simp: groupByObject_def)
  note s = group_object_entry [OF e]
  then have "ob\<lparr>oeIdle := False\<rparr> = o'"
    by (auto simp: ob object_idle_def object_summary_def)
  then show "object_summary (ob\<lparr>oeIdle := False\<rparr>)
      (filter (\<lambda>e. event_object e = (oeKind ob, oeName ob)) events)"
    using s by (auto simp: ob object_idle_def)
  show "oeIdle ob \<longleftrightarrow> oeHasWarning ob \<and> time_sub clk (oeLastWarning ob) \<ge> idleAfter"
    by (simp add: ob object_idle_def)
qed

definition object_id :: "ObjectEvents \<Rightarrow> string \<times> string" where
  "object_id ob = (oeKind ob, oeName ob)"

lemma groupByObject_distinct: "distinct (map object_id (groupByObject clk events))"
proof -
  let ?g = "group_fold event_object object_add events"
  have "map object_id (map (\<lambda>(k, ob). object_idle clk ob) ?g) = map fst ?g"
    using group_object_entry by (fastforce simp: object_id_def object_idle_def)
  then have "distinct (map object_id (map (\<lambda>(k, ob). object_idle clk ob) ?g))"
    by (simp only: distinct_group_fold)
  then show ?thesis
    by (simp only: groupByObject_def distinct_map_go_sort)
qed

section \<open>Per kind\<close>

record KindGroup =
  kgKind :: string
  kgObjects :: "ObjectEvents list"
  kgWarningCount :: nat
  kgNormalCount :: nat
  kgHasWarning :: bool

definition kind_add :: "ObjectEvents \<Rightarrow> KindGroup option \<Rightarrow> KindGroup" where
  "kind_add ob found =
     (let g = (case found of Some g \<Rightarrow> g
               | None \<Rightarrow> \<lparr>kgKind = oeKind ob, kgObjects = [], kgWarningCount = 0,
                          kgNormalCount = 0, kgHasWarning = False\<rparr>)
      in g\<lparr>kgObjects := kgObjects g @ [ob],
           kgWarningCount := kgWarningCount g + oeWarningCount ob,
           kgNormalCount := kgNormalCount g + oeNormalCount ob,
           kgHasWarning := (kgHasWarning g \<or> oeHasWarning ob)\<rparr>)"

definition kind_less :: "KindGroup \<Rightarrow> KindGroup \<Rightarrow> bool" where
  "kind_less a b =
     (if kgHasWarning a \<noteq> kgHasWarning b then kgHasWarning a else kgKind a < kgKind b)"

definition kind_key :: "KindGroup \<Rightarrow> bool \<times> string" where
  "kind_key g = (\<not> kgHasWarning g, kgKind g)"

interpretation kind_order: keyed_order kind_less kind_key
  by unfold_locales (auto simp: kind_less_def kind_key_def)

definition groupByKind :: "ObjectEvents list \<Rightarrow> KindGroup list" where
  "groupByKind objects = go_sort kind_less (map snd (group_fold oeKind kind_add objects))"

text \<open>The column of a kind: its objects in order, and the sums over them.\<close>

definition kind_total :: "string \<Rightarrow> ObjectEvents list \<Rightarrow> KindGroup" where
  "kind_total k obs =
     \<lparr>kgKind = k, kgObjects = obs,
      kgWarningCount = sum_list (map oeWarningCount obs),
      kgNormalCount = sum_list (map oeNormalCount obs),
      kgHasWarning = (\<exists>ob\<in>set obs. oeHasWarning ob)\<rparr>"

lemma kind_total_sel [simp]: "kgKind (kind_total k obs) = k" "kgObjects (kind_total k obs) = obs"
  by (simp_all add: kind_total_def)

lemma kind_add_total:
  "kind_add ob None = kind_total (oeKind ob) [ob]"
  "kind_add ob (Some (kind_total k obs)) = kind_total k (obs @ [ob])"
  by (auto simp: kind_add_def kind_total_def)

lemma opt_fold_kind: "opt_fold kind_add obs (Some (kind_total k pre)) = Some (kind_total k (pre @ obs))"
  by (induction obs arbitrary: pre) (simp_all add: kind_add_total)

lemma group_kind_entry:
  "(k, g) \<in> set (group_fold oeKind kind_add objects) \<longleftrightarrow>
   (let obs = filter (\<lambda>ob. oeKind ob = k) objects in obs \<noteq> [] \<and> g = kind_total k obs)"
proof (cases "filter (\<lambda>ob. oeKind ob = k) objects")
  case Nil
  then show ?thesis by (simp add: group_fold_entry)
next
  case (Cons ob obs)
  then have "oeKind ob = k" by (rule filter_ConsD)
  then show ?thesis
    using Cons by (auto simp: group_fold_entry kind_add_total opt_fold_kind)
qed

lemma groupByKind_entry:
  "g \<in> set (groupByKind objects) \<longleftrightarrow>
   (let obs = filter (\<lambda>ob. oeKind ob = kgKind g) objects
    in obs \<noteq> [] \<and> g = kind_total (kgKind g) obs)"
proof -
  have "g \<in> set (groupByKind objects) \<longleftrightarrow> (\<exists>k. (k, g) \<in> set (group_fold oeKind kind_add objects))"
    by (force simp: groupByKind_def)
  then show ?thesis
    unfolding group_kind_entry Let_def by (metis kind_total_sel(1))
qed

lemma groupByKind_kinds: "distinct (map kgKind (groupByKind objects))"
proof -
  let ?g = "group_fold oeKind kind_add objects"
  have "kgKind (snd p) = fst p" if "p \<in> set ?g" for p
    using that group_kind_entry [of "fst p" "snd p" objects] by (simp add: Let_def)
  then have "map kgKind (map snd ?g) = map fst ?g"
    by simp
  then have "distinct (map kgKind (map snd ?g))" by (simp only: distinct_group_fold)
  then show ?thesis
    by (simp only: groupByKind_def distinct_map_go_sort)
qed

lemma groupByKind_objects: "mset (concat (map kgObjects (groupByKind objects))) = mset objects"
proof -
  let ?g = "group_fold oeKind kind_add objects"
  have ob: "kgObjects (kind_add x o') = snoc_opt x (map_option kgObjects o')" for x o'
    by (auto simp: kind_add_def snoc_opt_def Let_def split: option.splits)
  have step: "mset (concat (map (kgObjects \<circ> snd) (al_alter k (kind_add x) m))) =
      add_mset x (mset (concat (map (kgObjects \<circ> snd) m)))" for k x m
    by (induction k "kind_add x" m rule: al_alter.induct) (auto simp: ob snoc_opt_def)
  have "mset (concat (map (kgObjects \<circ> snd) (foldl (\<lambda>m x. al_alter (oeKind x) (kind_add x) m) m0 xs)))
      = mset (concat (map (kgObjects \<circ> snd) m0)) + mset xs" for m0 xs
    by (induction xs arbitrary: m0) (auto simp: step)
  then have "mset (concat (map kgObjects (map snd ?g))) = mset objects"
    by (simp add: group_fold_def)
  moreover have "mset (concat (map kgObjects (groupByKind objects))) =
      mset (concat (map kgObjects (map snd ?g)))"
    unfolding groupByKind_def by (rule mset_concat_map_cong) simp
  ultimately show ?thesis by simp
qed

end
