(* ===== verification/Names.thy ===== *)
theory Names
  imports GoTime
begin

text \<open>
  Object references and the naming conventions of Kubernetes controllers (owners.go, main.go):
  which parent an object's name alone suggests. A suggested parent's name is the object's name cut
  at its last dash, so it is strictly shorter; every walk up the suggestions ends.
\<close>

section \<open>Object references\<close>

datatype objRef = ObjRef (rKind: string) (rName: string)

text \<open>The order every list of references is sorted by: kind, then name.\<close>

instantiation objRef :: linorder
begin

definition less_eq_objRef :: "objRef \<Rightarrow> objRef \<Rightarrow> bool" where
  "less_eq_objRef a b \<longleftrightarrow> (rKind a, rName a) \<le> (rKind b, rName b)"

definition less_objRef :: "objRef \<Rightarrow> objRef \<Rightarrow> bool" where
  "less_objRef a b \<longleftrightarrow> (rKind a, rName a) < (rKind b, rName b)"

instance
proof
  fix x y z :: objRef
  show "x < y \<longleftrightarrow> x \<le> y \<and> \<not> y \<le> x"
    unfolding less_objRef_def less_eq_objRef_def by (rule less_le_not_le)
  show "x \<le> x" by (simp add: less_eq_objRef_def)
  show "x \<le> y \<Longrightarrow> y \<le> z \<Longrightarrow> x \<le> z"
    unfolding less_eq_objRef_def by (rule order_trans)
  show "x \<le> y \<or> y \<le> x"
    unfolding less_eq_objRef_def by (rule linear)
  assume "x \<le> y" "y \<le> x"
  then have "(rKind x, rName x) = (rKind y, rName y)"
    unfolding less_eq_objRef_def by (rule order_antisym)
  then show "x = y" by (simp add: objRef.expand)
qed

end

definition ref_less :: "objRef \<Rightarrow> objRef \<Rightarrow> bool" where
  "ref_less a b = (if rKind a \<noteq> rKind b then rKind a < rKind b else rName a < rName b)"

interpretation ref_order: keyed_order ref_less "\<lambda>r. r"
  by unfold_locales (auto simp: ref_less_def less_objRef_def)

section \<open>Names\<close>

definition isAllDigits :: "string \<Rightarrow> bool" where
  "isAllDigits s = (if length s = 0 then False else list_all is_digit s)"

definition isAlphanumLower :: "string \<Rightarrow> bool" where
  "isAlphanumLower s =
     (if length s = 0 then False
      else list_all (\<lambda>c. (CHR ''a'' \<le> c \<and> c \<le> CHR ''z'') \<or> is_digit c) s)"

definition safeAlphabet :: string where
  "safeAlphabet = ''bcdfghjklmnpqrstvwxz2456789''"

definition isSafeEncoded :: "string \<Rightarrow> nat \<Rightarrow> nat \<Rightarrow> bool" where
  "isSafeEncoded s minLen maxLen =
     (if length s < minLen \<or> length s > maxLen then False
      else list_all (\<lambda>c. c \<in> set safeAlphabet) s)"

text \<open>The name before and after its last dash.\<close>

definition stripLast :: "string \<Rightarrow> (string \<times> string) option" where
  "stripLast name =
     (case last_index CHR ''-'' name of
        None \<Rightarrow> None
      | Some i \<Rightarrow> Some (take i name, drop (i + 1) name))"

lemma stripLast_Some:
  "stripLast name = Some (p, s) \<longleftrightarrow> name = p @ ''-'' @ s \<and> CHR ''-'' \<notin> set s"
proof
  assume "stripLast name = Some (p, s)"
  then obtain i where i: "last_index CHR ''-'' name = Some i" "p = take i name" "s = drop (Suc i) name"
    by (auto simp: stripLast_def split: option.splits)
  with last_index_Some [OF i(1)] show "name = p @ ''-'' @ s \<and> CHR ''-'' \<notin> set s"
    by (metis append_Cons append_Nil id_take_nth_drop)
next
  assume n: "name = p @ ''-'' @ s \<and> CHR ''-'' \<notin> set s"
  then obtain i where i: "last_index CHR ''-'' name = Some i"
    using last_index_None [of "CHR ''-''" name] by (cases "last_index CHR ''-'' name") auto
  from last_index_Some [OF i] have li: "i < length name" "name ! i = CHR ''-''"
    "CHR ''-'' \<notin> set (drop (Suc i) name)" by auto
  have "i = length p"
  proof (rule ccontr)
    assume "i \<noteq> length p"
    then consider "i < length p" | "length p < i" by linarith
    then show False
    proof cases
      case 1
      then have "CHR ''-'' \<in> set (drop (Suc i) name)" using n by simp
      then show ?thesis using li by simp
    next
      case 2
      then have "name ! i = s ! (i - Suc (length p))" "i - Suc (length p) < length s"
        using n li(1) by (auto simp: nth_append)
      then have "CHR ''-'' \<in> set s" using li(2) by (metis nth_mem)
      then show ?thesis using n by simp
    qed
  qed
  then show "stripLast name = Some (p, s)" using i n by (simp add: stripLast_def)
qed

section \<open>The parent a name suggests\<close>

text \<open>
  \<open>inferParent\<close>: the controller an object's name alone suggests. The kind is empty when the name
  fits several controllers (a DaemonSet's pod and a plain Job's pod look alike).
\<close>

definition inferParent :: "string \<Rightarrow> string \<Rightarrow> objRef option" where
  "inferParent kind name =
     (case stripLast name of
        None \<Rightarrow> None
      | Some (prefix, suffix) \<Rightarrow>
          if prefix = '''' then None
          else if kind = ''Pod'' then
            (if isAllDigits suffix \<and> length suffix \<le> 4 then Some (ObjRef ''StatefulSet'' prefix)
             else if isSafeEncoded suffix 5 5 then
               (case stripLast prefix of
                  Some (_, s2) \<Rightarrow>
                    if length s2 \<ge> 8 \<and> length s2 \<le> 10 \<and> isAllDigits s2
                    then Some (ObjRef ''Job'' prefix)
                    else if isSafeEncoded s2 6 10 then Some (ObjRef ''ReplicaSet'' prefix)
                    else Some (ObjRef '''' prefix)
                | None \<Rightarrow> Some (ObjRef '''' prefix))
             else None)
          else if kind = ''Job'' then
            (if length suffix \<ge> 8 \<and> length suffix \<le> 10 \<and> isAllDigits suffix
             then Some (ObjRef ''CronJob'' prefix) else None)
          else if kind = ''ReplicaSet'' then
            (if isSafeEncoded suffix 6 10 then Some (ObjRef ''Deployment'' prefix) else None)
          else None)"

text \<open>\<open>detectParent\<close>: the same idea where the candidate parents are known objects.\<close>

definition detectParent :: "string \<Rightarrow> string \<Rightarrow> (string \<Rightarrow> string \<Rightarrow> bool) \<Rightarrow> string \<times> string" where
  "detectParent kind name has =
     (case stripLast name of
        None \<Rightarrow> ('''', '''')
      | Some (prefix, suffix) \<Rightarrow>
          if kind = ''Pod'' then
            (if isAllDigits suffix \<and> has ''StatefulSet'' prefix then (''StatefulSet'', prefix)
             else if length suffix = 5 \<and> isAlphanumLower suffix \<and> has ''ReplicaSet'' prefix
             then (''ReplicaSet'', prefix)
             else if length suffix = 5 \<and> isAlphanumLower suffix \<and> has ''Job'' prefix
             then (''Job'', prefix)
             else if length suffix = 5 \<and> isAlphanumLower suffix \<and> has ''DaemonSet'' prefix
             then (''DaemonSet'', prefix)
             else ('''', ''''))
          else if kind = ''ReplicaSet'' then
            (if length suffix \<ge> 6 \<and> length suffix \<le> 12 \<and> isAlphanumLower suffix \<and>
                has ''Deployment'' prefix
             then (''Deployment'', prefix) else ('''', ''''))
          else if kind = ''Job'' then
            (if length suffix \<ge> 8 \<and> length suffix \<le> 10 \<and> isAllDigits suffix \<and>
                has ''CronJob'' prefix
             then (''CronJob'', prefix) else ('''', ''''))
          else ('''', ''''))"

lemma inferParent_name:
  "inferParent kind name = Some p \<Longrightarrow> rName p \<noteq> '''' \<and> (\<exists>s. name = rName p @ ''-'' @ s)"
  by (auto simp: inferParent_def stripLast_Some split: option.splits if_splits prod.splits)

lemma inferParent_shorter:
  "inferParent kind name = Some p \<Longrightarrow> length (rName p) < length name"
  using inferParent_name by fastforce

lemma inferParent_kind:
  "inferParent kind name = Some p \<Longrightarrow>
   kind = ''Pod'' \<and> rKind p \<in> {''StatefulSet'', ''Job'', ''ReplicaSet'', ''''} \<or>
   kind = ''Job'' \<and> rKind p = ''CronJob'' \<or> kind = ''ReplicaSet'' \<and> rKind p = ''Deployment''"
  by (auto simp: inferParent_def split: option.splits if_splits prod.splits)

lemma detectParent_found:
  assumes "detectParent kind name has = (pk, pn)" and "pk \<noteq> ''''"
  shows "has pk pn" and "length pn < length name"
proof -
  obtain p s where ps: "stripLast name = Some (p, s)"
    using assms by (cases "stripLast name") (auto simp: detectParent_def)
  have l: "length p < length name" using ps by (auto simp: stripLast_Some)
  show "has pk pn" "length pn < length name"
    using assms ps l by (auto simp: detectParent_def split: if_splits)
qed

end
