(* ===== verification/Owners.thy ===== *)
theory Owners
  imports Names
begin

text \<open>
  Owner resolution (owners.go): the cache of API answers, the walk from an object up to its
  top-level owner through confirmed and guessed links, the queue of lookups with its requests, and
  the resolver that answers them. The API server is a parameter: a lookup's answer is an argument.
\<close>

section \<open>State\<close>

record ownerEntry =
  onParent :: objRef
  onMissing :: bool
  onAt :: time
  onCreated :: time
  onLastSuccess :: time

record ownerJob =
  ojNs :: string
  ojKind :: string
  ojName :: string

record ownerState =
  osKnown :: "(string, ownerEntry) gomap"
  osKindOf :: "(string, string) gomap"
  osQueue :: "ownerJob list"
  osQueued :: "(string, bool) gomap"

definition ownerTTL :: duration where "ownerTTL = 30 * minute"
definition ownerMissingTTL :: duration where "ownerMissingTTL = 5 * minute"
definition ownerMaxDepth :: nat where "ownerMaxDepth = 4"
definition ownerQueueMax :: nat where "ownerQueueMax = 200"
definition ownerKnownMax :: nat where "ownerKnownMax = 5000"

text \<open>The zero value is ready to use.\<close>

definition empty_owners :: ownerState where
  "empty_owners = \<lparr>osKnown = [], osKindOf = [], osQueue = [], osQueued = []\<rparr>"

definition ownerKey :: "string \<Rightarrow> string \<Rightarrow> string \<Rightarrow> string" where
  "ownerKey ns kind name = ns @ ''/'' @ kind @ ''/'' @ name"

definition job_key :: "ownerJob \<Rightarrow> string" where
  "job_key j = ownerKey (ojNs j) (ojKind j) (ojName j)"

definition entry_fresh :: "time \<Rightarrow> ownerEntry \<Rightarrow> bool" where
  "entry_fresh now e \<longleftrightarrow>
     time_sub now (onAt e) < (if onMissing e then ownerMissingTTL else ownerTTL)"

text \<open>A cached answer that is still good: found and fresh.\<close>

definition fresh_entry :: "time \<Rightarrow> ownerState \<Rightarrow> string \<Rightarrow> ownerEntry option" where
  "fresh_entry now st key =
     (case map_of (osKnown st) key of
        None \<Rightarrow> None
      | Some e \<Rightarrow> if entry_fresh now e then Some e else None)"

definition is_queued :: "ownerState \<Rightarrow> string \<Rightarrow> bool" where
  "is_queued st key = al_get False (osQueued st) key"

section \<open>The walk up the owners\<close>

text \<open>A cached answer the walk can use: fresh, and not "missing".\<close>

definition confirmed_entry :: "time \<Rightarrow> ownerState \<Rightarrow> string \<Rightarrow> objRef \<Rightarrow> ownerEntry option" where
  "confirmed_entry now st ns cur =
     (case fresh_entry now st (ownerKey ns (rKind cur) (rName cur)) of
        None \<Rightarrow> None
      | Some e \<Rightarrow> if onMissing e then None else Some e)"

text \<open>The guess from the name; a sibling may already have told what kind the controller is.\<close>

definition guessed_parent :: "ownerState \<Rightarrow> string \<Rightarrow> objRef \<Rightarrow> objRef option" where
  "guessed_parent st ns cur =
     (case inferParent (rKind cur) (rName cur) of
        None \<Rightarrow> None
      | Some p \<Rightarrow>
          (case map_of (osKindOf st) (ns @ ''/'' @ rName p) of
             Some k \<Rightarrow> Some (ObjRef k (rName p))
           | None \<Rightarrow> Some p))"

text \<open>
  The loop of \<open>ownerChain\<close> with \<open>n\<close> rounds left, from \<open>cur\<close>: the links it appends, and whether
  one of them is a guess.
\<close>

fun chain_links :: "time \<Rightarrow> ownerState \<Rightarrow> string \<Rightarrow> nat \<Rightarrow> objRef \<Rightarrow> objRef list \<times> bool" where
  "chain_links now st ns 0 cur = ([], False)"
| "chain_links now st ns (Suc n) cur =
     (case confirmed_entry now st ns cur of
        Some e \<Rightarrow>
          if rName (onParent e) = '''' then ([], False)
          else (case chain_links now st ns n (onParent e) of
                  (links, inferred) \<Rightarrow> (onParent e # links, inferred))
      | None \<Rightarrow>
          (case guessed_parent st ns cur of
             None \<Rightarrow> ([], False)
           | Some p \<Rightarrow>
               (case chain_links now st ns n p of (links, inferred) \<Rightarrow> (p # links, True))))"

definition ownerChain :: "time \<Rightarrow> ownerState \<Rightarrow> string \<Rightarrow> objRef \<Rightarrow> objRef list \<times> bool" where
  "ownerChain now st ns obj =
     (let (links, inferred) = chain_links now st ns ownerMaxDepth obj;
          chain = obj # links
      in if length chain > 1 \<and>
            (let top = last chain in fresh_entry now st (ownerKey ns (rKind top) (rName top)) = None)
         then (chain, True) else (chain, inferred))"

text \<open>
  Where a CronJob's failure streak began: its last success, or its creation if it never
  succeeded; \<open>None\<close> until the resolver has fetched it.
\<close>

definition cronJobFailingSince :: "time \<Rightarrow> ownerState \<Rightarrow> string \<Rightarrow> string \<Rightarrow> (time \<times> bool) option" where
  "cronJobFailingSince now st ns name =
     (case fresh_entry now st (ownerKey ns ''CronJob'' name) of
        None \<Rightarrow> None
      | Some e \<Rightarrow>
          if onMissing e then None
          else if onLastSuccess e = 0 then
            (if onCreated e \<noteq> 0 then Some (onCreated e, True) else None)
          else Some (onLastSuccess e, False))"

section \<open>Requests\<close>

fun requestOwnerConfirmation :: "time \<Rightarrow> string \<Rightarrow> objRef list \<Rightarrow> ownerState \<Rightarrow> ownerState \<times> bool" where
  "requestOwnerConfirmation now ns [] st = (st, True)"
| "requestOwnerConfirmation now ns (node # chain) st =
     (let key = ownerKey ns (rKind node) (rName node) in
      case fresh_entry now st key of
        Some e \<Rightarrow> if onMissing e then (st, False) else requestOwnerConfirmation now ns chain st
      | None \<Rightarrow>
          if rKind node = '''' then (st, False)
          else if \<not> is_queued st key \<and> length (osQueue st) < ownerQueueMax then
            (st\<lparr>osQueue := osQueue st @ [\<lparr>ojNs = ns, ojKind = rKind node, ojName = rName node\<rparr>],
                osQueued := al_set key True (osQueued st)\<rparr>, True)
          else (st, True))"

definition requestRootLookup :: "time \<Rightarrow> string \<Rightarrow> objRef \<Rightarrow> ownerState \<Rightarrow> ownerState" where
  "requestRootLookup now ns root st =
     (let key = ownerKey ns (rKind root) (rName root) in
      if fresh_entry now st key \<noteq> None \<or> is_queued st key then st
      else st\<lparr>osQueue := \<lparr>ojNs = ns, ojKind = rKind root, ojName = rName root\<rparr> # osQueue st,
              osQueued := al_set key True (osQueued st)\<rparr>)"

section \<open>The resolver\<close>

record owner_ref =
  orController :: bool
  orKind :: string
  orName :: string

text \<open>
  What looking an object up gives: its kind is unknown, the call failed, the cluster was switched
  away from during the call, or the object (creation time, \<open>status.lastSuccessfulTime\<close>, owners).
\<close>

datatype lookup_answer =
  UnknownKind
| LookupFailed
| LookupCancelled
| LookupFound time "string option" "owner_ref list"

definition owner_parent :: "owner_ref list \<Rightarrow> objRef" where
  "owner_parent refs =
     (let p = (case find orController refs of
                 Some r \<Rightarrow> ObjRef (orKind r) (orName r) | None \<Rightarrow> ObjRef '''' '''')
      in if rName p = '''' then
           (case refs of r # _ \<Rightarrow> ObjRef (orKind r) (orName r) | [] \<Rightarrow> p)
         else p)"

text \<open>The cache entry an answer makes; \<open>parse\<close> is \<open>time.Parse\<close>, the zero time on an error.\<close>

definition owner_entry :: "(string \<Rightarrow> time) \<Rightarrow> time \<Rightarrow> ownerJob \<Rightarrow> lookup_answer \<Rightarrow> ownerEntry option" where
  "owner_entry parse now j answer =
     (let e0 = \<lparr>onParent = ObjRef '''' '''', onMissing = False, onAt = now, onCreated = 0,
                onLastSuccess = 0\<rparr> in
      case answer of
        UnknownKind \<Rightarrow> Some (e0\<lparr>onMissing := True\<rparr>)
      | LookupCancelled \<Rightarrow> None
      | LookupFailed \<Rightarrow> Some (e0\<lparr>onMissing := True\<rparr>)
      | LookupFound created lastSuccess refs \<Rightarrow>
          Some (e0\<lparr>onCreated := created,
                   onLastSuccess := (if ojKind j = ''CronJob''
                                     then (case lastSuccess of Some s \<Rightarrow> parse s | None \<Rightarrow> 0) else 0),
                   onParent := owner_parent refs\<rparr>))"

text \<open>\<open>now\<close> is the clock when the lookup starts, \<open>now'\<close> when its answer is stored.\<close>

definition resolveOwner :: "(string \<Rightarrow> time) \<Rightarrow> time \<Rightarrow> time \<Rightarrow> ownerJob \<Rightarrow> lookup_answer \<Rightarrow>
    ownerState \<Rightarrow> ownerState" where
  "resolveOwner parse now now' j answer st =
     (let key = job_key j in
      case owner_entry parse now j answer of
        None \<Rightarrow> st\<lparr>osQueued := al_delete key (osQueued st)\<rparr>
      | Some entry \<Rightarrow>
          let known0 = (if length (osKnown st) \<ge> ownerKnownMax
                        then filter (\<lambda>(_, e). entry_fresh now' e) (osKnown st) else osKnown st);
              st1 = st\<lparr>osKnown := al_set key entry known0,
                       osQueued := al_delete key (osQueued st)\<rparr>;
              parent = onParent entry
          in if rName parent = '''' then st1
             else
               let st2 = st1\<lparr>osKindOf := al_set (ojNs j @ ''/'' @ rName parent) (rKind parent)
                                            (osKindOf st1)\<rparr>;
                   pkey = ownerKey (ojNs j) (rKind parent) (rName parent)
               in if fresh_entry now' st2 pkey = None \<and> \<not> is_queued st2 pkey
                  then st2\<lparr>osQueue := \<lparr>ojNs = ojNs j, ojKind = rKind parent, ojName = rName parent\<rparr>
                                        # osQueue st2,
                           osQueued := al_set pkey True (osQueued st2)\<rparr>
                  else st2)"

text \<open>One tick of \<open>runOwnerResolver\<close>: take the first job off the queue.\<close>

definition pop_job :: "ownerState \<Rightarrow> (ownerJob \<times> ownerState) option" where
  "pop_job st =
     (case osQueue st of [] \<Rightarrow> None | j # q \<Rightarrow> Some (j, st\<lparr>osQueue := q\<rparr>))"

section \<open>What the callers rely on\<close>

text \<open>
  The contract of owner lookups: a chain starts at the object itself, is never empty and has a
  bounded length. The grouping of problems is proved against it.
\<close>

locale owner_lookup =
  fixes resolve :: "objRef \<Rightarrow> objRef list \<times> bool" and depth :: nat
  assumes chain_starts: "\<exists>links. fst (resolve r) = r # links \<and> length links \<le> depth"
begin

lemma chain_nonempty: "fst (resolve r) \<noteq> []"
  using chain_starts [of r] by auto

lemma hd_chain: "hd (fst (resolve r)) = r"
  using chain_starts [of r] by auto

lemma chain_length: "length (fst (resolve r)) \<le> Suc depth"
  using chain_starts [of r] by auto

lemma single_chain_root: "length (fst (resolve r)) \<le> 1 \<Longrightarrow> last (fst (resolve r)) = r"
  using chain_starts [of r] by auto

end

lemma chain_links_length: "length (fst (chain_links now st ns n cur)) \<le> n"
  by (induction now st ns n cur rule: chain_links.induct) (auto split: option.splits prod.splits)

interpretation owners: owner_lookup "ownerChain now st ns" ownerMaxDepth for now st ns
proof
  fix r
  show "\<exists>links. fst (ownerChain now st ns r) = r # links \<and> length links \<le> ownerMaxDepth"
    using chain_links_length [of now st ns ownerMaxDepth r]
    by (cases "chain_links now st ns ownerMaxDepth r") (auto simp: ownerChain_def Let_def)
qed

text \<open>A link the API has confirmed: the child's cached answer is good and names the parent.\<close>

definition confirmed_link :: "time \<Rightarrow> ownerState \<Rightarrow> string \<Rightarrow> objRef \<Rightarrow> objRef \<Rightarrow> bool" where
  "confirmed_link now st ns c p \<longleftrightarrow>
     (\<exists>e. confirmed_entry now st ns c = Some e \<and> onParent e = p \<and> rName p \<noteq> '''')"

lemma chain_links_confirmed:
  "chain_links now st ns n cur = (links, False) \<Longrightarrow>
   successively (confirmed_link now st ns) (cur # links)"
proof (induction n arbitrary: cur links)
  case (Suc n)
  show ?case
  proof (cases "confirmed_entry now st ns cur")
    case None
    then show ?thesis using Suc.prems by (auto split: option.splits prod.splits)
  next
    case (Some e)
    show ?thesis
    proof (cases "rName (onParent e) = ''''")
      case True
      then show ?thesis using Suc.prems Some by simp
    next
      case False
      then obtain l where l: "chain_links now st ns n (onParent e) = (l, False)" "links = onParent e # l"
        using Suc.prems Some by (auto split: prod.splits)
      then show ?thesis
        using Suc.IH [OF l(1)] False Some by (auto simp: confirmed_link_def)
    qed
  qed
qed simp

lemma ownerChain_confirmed:
  assumes "ownerChain now st ns obj = (chain, False)"
  shows "successively (confirmed_link now st ns) chain"
    and "length chain > 1 \<Longrightarrow>
      fresh_entry now st (ownerKey ns (rKind (last chain)) (rName (last chain))) \<noteq> None"
  using assms chain_links_confirmed [of now st ns ownerMaxDepth obj]
  by (auto simp: ownerChain_def Let_def split: prod.splits if_splits)

section \<open>The lookup queue as a state machine\<close>

text \<open>
  The state shared by the requests and the resolver, and the jobs taken off the queue whose answer
  has not been stored yet (more than one when a cluster is switched away from and back quickly).
\<close>

record resolver =
  rvOwners :: ownerState
  rvInFlight :: "ownerJob list"

inductive owner_step :: "resolver \<Rightarrow> resolver \<Rightarrow> bool" where
  confirm: "owner_step r (r\<lparr>rvOwners := fst (requestOwnerConfirmation now ns chain (rvOwners r))\<rparr>)"
| root: "owner_step r (r\<lparr>rvOwners := requestRootLookup now ns ref (rvOwners r)\<rparr>)"
| pop: "pop_job (rvOwners r) = Some (j, st) \<Longrightarrow>
    owner_step r (r\<lparr>rvOwners := st, rvInFlight := j # rvInFlight r\<rparr>)"
| resolve: "rvInFlight r = pre @ j # post \<Longrightarrow>
    owner_step r (r\<lparr>rvOwners := resolveOwner parse now now' j answer (rvOwners r),
                    rvInFlight := pre @ post\<rparr>)"

inductive owner_reachable :: "resolver \<Rightarrow> bool" where
  start: "owner_reachable \<lparr>rvOwners = empty_owners, rvInFlight = []\<rparr>"
| step: "owner_reachable r \<Longrightarrow> owner_step r r' \<Longrightarrow> owner_reachable r'"

inductive_cases owner_stepE: "owner_step r r'"

text \<open>
  No object is looked up twice at a time, and the mark that keeps it from being queued again is
  there exactly while its job is waiting or being answered, so no lookup gets stuck.
\<close>

definition queue_keys :: "resolver \<Rightarrow> string list" where
  "queue_keys r = map job_key (osQueue (rvOwners r)) @ map job_key (rvInFlight r)"

definition queue_inv :: "resolver \<Rightarrow> bool" where
  "queue_inv r \<longleftrightarrow>
     distinct (queue_keys r) \<and> (\<forall>k. is_queued (rvOwners r) k \<longleftrightarrow> k \<in> set (queue_keys r))"

lemma is_queued_set [simp]:
  "is_queued (st\<lparr>osQueued := al_set key b (osQueued st)\<rparr>) k = (if k = key then b else is_queued st k)"
  by (simp add: is_queued_def al_get_def)

lemma al_get_set: "al_get z (al_set key b m) k = (if k = key then b else al_get z m k)"
  by (simp add: al_get_def)

lemma al_get_delete: "al_get z (al_delete key m) k = (if k = key then z else al_get z m k)"
  by (simp add: al_get_def)

lemma confirmation_cases:
  "(fst (requestOwnerConfirmation now ns chain st) = st) \<or>
   (\<exists>j. \<not> is_queued st (job_key j) \<and> length (osQueue st) < ownerQueueMax \<and>
      fst (requestOwnerConfirmation now ns chain st) =
        st\<lparr>osQueue := osQueue st @ [j], osQueued := al_set (job_key j) True (osQueued st)\<rparr>)"
proof (induction chain)
  case (Cons node chain)
  let ?key = "ownerKey ns (rKind node) (rName node)"
  let ?j = "\<lparr>ojNs = ns, ojKind = rKind node, ojName = rName node\<rparr>"
  show ?case
  proof (cases "fresh_entry now st ?key")
    case None
    have "job_key ?j = ?key" by (simp add: job_key_def)
    with None show ?thesis
      by (cases "rKind node = [] \<or> is_queued st ?key \<or> length (osQueue st) \<ge> ownerQueueMax")
        (auto simp: Let_def intro: exI [of _ ?j])
  next
    case (Some e)
    then show ?thesis using Cons.IH by (simp add: Let_def)
  qed
qed simp

lemma root_cases:
  "requestRootLookup now ns ref st = st \<or>
   (\<exists>j. \<not> is_queued st (job_key j) \<and> requestRootLookup now ns ref st =
        st\<lparr>osQueue := j # osQueue st, osQueued := al_set (job_key j) True (osQueued st)\<rparr>)"
  by (auto simp: requestRootLookup_def Let_def job_key_def
      intro!: exI [of _ "\<lparr>ojNs = ns, ojKind = rKind ref, ojName = rName ref\<rparr>"])

lemma resolve_cases:
  "(\<forall>k. is_queued (resolveOwner parse now now' j answer st) k \<longleftrightarrow> is_queued st k \<and> k \<noteq> job_key j) \<and>
     osQueue (resolveOwner parse now now' j answer st) = osQueue st \<or>
   (\<exists>p. (\<not> is_queued st (job_key p) \<or> job_key p = job_key j) \<and>
     (\<forall>k. is_queued (resolveOwner parse now now' j answer st) k \<longleftrightarrow>
        k = job_key p \<or> is_queued st k \<and> k \<noteq> job_key j) \<and>
     osQueue (resolveOwner parse now now' j answer st) = p # osQueue st)"
proof (cases "owner_entry parse now j answer")
  case None
  then show ?thesis by (simp add: resolveOwner_def is_queued_def al_get_delete)
next
  case (Some entry)
  let ?p = "\<lparr>ojNs = ojNs j, ojKind = rKind (onParent entry), ojName = rName (onParent entry)\<rparr>"
  from Some show ?thesis
    by (auto simp: resolveOwner_def Let_def is_queued_def al_get_set al_get_delete job_key_def
        intro!: exI [of _ ?p] split: if_splits)
qed

lemma queue_inv_start: "queue_inv \<lparr>rvOwners = empty_owners, rvInFlight = []\<rparr>"
  by (simp add: queue_inv_def queue_keys_def empty_owners_def is_queued_def al_get_def)

lemma distinct_take_out:
  assumes "distinct (xs @ ys @ x # zs)"
  shows "distinct (xs @ ys @ zs)" and "set (xs @ ys @ zs) = set (xs @ ys @ x # zs) - {x}"
  using assms by auto

lemma owner_step_inv:
  assumes "owner_step r r'" and "queue_inv r"
  shows "queue_inv r'"
  using assms(1)
proof (cases rule: owner_step.cases)
  case (confirm now ns chain)
  then show ?thesis
    using assms(2) confirmation_cases [of now ns chain "rvOwners r"]
    by (elim disjE exE conjE) (simp_all add: queue_inv_def queue_keys_def is_queued_def al_get_set disj_commute
        disj_left_commute)
next
  case (root now ns ref)
  then show ?thesis
    using assms(2) root_cases [of now ns ref "rvOwners r"]
    by (elim disjE exE conjE) (simp_all add: queue_inv_def queue_keys_def is_queued_def al_get_set disj_commute
        disj_left_commute)
next
  case (pop j st)
  then show ?thesis
    using assms(2)
    by (cases "osQueue (rvOwners r)")
      (simp_all add: queue_inv_def queue_keys_def pop_job_def is_queued_def conj_ac, clarsimp)
next
  case (resolve pre j post parse now now' answer)
  let ?st = "resolveOwner parse now now' j answer (rvOwners r)"
  have inv: "distinct (queue_keys r)" "\<And>k. is_queued (rvOwners r) k \<longleftrightarrow> k \<in> set (queue_keys r)"
    using assms(2) by (auto simp: queue_inv_def)
  have keys: "queue_keys r = map job_key (osQueue (rvOwners r)) @ map job_key pre @ job_key j # map job_key post"
    using resolve by (simp add: queue_keys_def)
  have out: "queue_keys r' = map job_key (osQueue ?st) @ map job_key pre @ map job_key post"
    and rv: "rvOwners r' = ?st"
    using resolve by (simp_all add: queue_keys_def)
  from resolve_cases [of parse now now' j answer "rvOwners r"] show ?thesis
  proof
    assume A: "(\<forall>k. is_queued ?st k \<longleftrightarrow> is_queued (rvOwners r) k \<and> k \<noteq> job_key j) \<and>
      osQueue ?st = osQueue (rvOwners r)"
    then have "distinct (queue_keys r')" and "set (queue_keys r') = set (queue_keys r) - {job_key j}"
      using distinct_take_out [OF inv(1) [unfolded keys]] unfolding out keys A [THEN conjunct2] by blast+
    then show ?thesis using A inv(2) rv by (simp add: queue_inv_def)
  next
    assume "\<exists>p. (\<not> is_queued (rvOwners r) (job_key p) \<or> job_key p = job_key j) \<and>
      (\<forall>k. is_queued ?st k \<longleftrightarrow> k = job_key p \<or> is_queued (rvOwners r) k \<and> k \<noteq> job_key j) \<and>
      osQueue ?st = p # osQueue (rvOwners r)"
    then obtain p where p: "\<not> is_queued (rvOwners r) (job_key p) \<or> job_key p = job_key j"
      and A: "\<forall>k. is_queued ?st k \<longleftrightarrow> k = job_key p \<or> is_queued (rvOwners r) k \<and> k \<noteq> job_key j"
      and q: "osQueue ?st = p # osQueue (rvOwners r)" by blast
    from p have p': "job_key p \<notin> set (queue_keys r) - {job_key j}" using inv(2) by auto
    have *: "queue_keys r' = job_key p # (map job_key (osQueue (rvOwners r)) @ map job_key pre @ map job_key post)"
      unfolding out q by simp
    have "distinct (queue_keys r')"
      and "set (queue_keys r') = insert (job_key p) (set (queue_keys r) - {job_key j})"
      using distinct_take_out [OF inv(1) [unfolded keys]] p' unfolding * keys
      by (simp_all only: distinct.simps list.set(2), blast)
    then show ?thesis using A inv(2) rv by (auto simp: queue_inv_def)
  qed
qed

lemma reachable_queue_inv: "owner_reachable r \<Longrightarrow> queue_inv r"
  by (induction rule: owner_reachable.induct) (auto intro: queue_inv_start owner_step_inv)

section \<open>Properties\<close>


definition sample_owners :: ownerState where
  "sample_owners = empty_owners\<lparr>osKnown :=
     [(''shop/Pod/p'', \<lparr>onParent = ObjRef ''Job'' ''j'', onMissing = False, onAt = 0, onCreated = 1, onLastSuccess = 0\<rparr>),
      (''shop/Job/j'', \<lparr>onParent = ObjRef '''' '''', onMissing = False, onAt = 0, onCreated = 1, onLastSuccess = 0\<rparr>)]\<rparr>"


text \<open>a chain starts at the object and has at most four links, whatever the cache holds.\<close>

lemma chain_bounded:
  "\<exists>links. fst (ownerChain now st ns obj) = obj # links \<and> length links \<le> 4"
  using owners.chain_starts [of now st ns obj] by (simp add: ownerMaxDepth_def)

text \<open>
  C7: however requests and the resolver interleave, no object waits twice, and an object is marked
  as queued exactly while its lookup is waiting or being answered, so no lookup is lost for good.
\<close>

theorem owner_queue_consistent:
  assumes "owner_reachable r"
  shows "distinct (map job_key (osQueue (rvOwners r)) @ map job_key (rvInFlight r)) \<and>
    (\<forall>k. is_queued (rvOwners r) k \<longleftrightarrow>
       k \<in> set (map job_key (osQueue (rvOwners r)) @ map job_key (rvInFlight r)))"
  using reachable_queue_inv [OF assms] by (simp add: queue_inv_def queue_keys_def)

theorem owner_queue_consistent_witness:
  "\<exists>r. owner_reachable r \<and> map job_key (osQueue (rvOwners r)) = [''shop/CronJob/c''] \<and>
     is_queued (rvOwners r) ''shop/CronJob/c''"
proof -
  let ?r0 = "\<lparr>rvOwners = empty_owners, rvInFlight = []\<rparr>"
  let ?r = "?r0\<lparr>rvOwners := requestRootLookup 0 ''shop'' (ObjRef ''CronJob'' ''c'') (rvOwners ?r0)\<rparr>"
  have r: "owner_reachable ?r"
    by (rule owner_reachable.step [OF owner_reachable.start owner_step.root])
  have q: "map job_key (osQueue (rvOwners ?r)) = [''shop/CronJob/c'']" by code_simp
  have "is_queued (rvOwners ?r) ''shop/CronJob/c''"
    by (subst owner_queue_consistent [OF r, THEN conjunct2, rule_format]) (simp only: q set_append, simp)
  show ?thesis by (rule exI [of _ ?r], intro conjI) fact+
qed


end
