(* ===== verification/Problems.thy ===== *)
theory Problems
  imports Objects Owners
begin

text \<open>
  The rows of the home page before they are grouped into patterns (problems.go): one problem per
  failing workload of a namespace, one per kind and reason of cluster-scoped objects, with their
  reasons, counts, timing, tier, member counts, newest failing Pod and cascade mark. Every warning
  is counted in exactly one problem.
\<close>

section \<open>Data\<close>

definition tierNewMax :: duration where "tierNewMax = 2 * hour"
definition tierOngoingMax :: duration where "tierOngoingMax = 24 * hour"
definition patternStartWindow :: duration where "patternStartWindow = 10 * second"
definition messageMaxLen :: nat where "messageMaxLen = 240"

text \<open>\<open>tierOrder\<close>; an unknown tier reads as the map's zero value.\<close>

definition tierOrder :: "string \<Rightarrow> nat" where
  "tierOrder t = al_get 0 [(''new'', 0), (''ongoing'', 1), (''chronic'', 2)] t"

definition infraReasons :: "string \<Rightarrow> bool" where
  "infraReasons r \<longleftrightarrow>
     r \<in> set [''FailedToRetrieveImagePullSecret'', ''FailedScheduling'', ''FailedMount'',
              ''FailedAttachVolume'', ''FailedCreatePodSandBox'', ''NetworkNotReady'',
              ''DNSConfigForming'', ''Evicted'']"

record ReasonCount =
  rcReason :: string
  rcCount :: int

record PatternItem =
  piNamespace :: string
  piKind :: string
  piName :: string
  piReason :: string
  piOccurrences :: int
  piLast :: string
  piIdle :: bool
  piFocus :: string

record Problem =
  pbKey :: string
  pbScope :: string
  pbKind :: string
  pbTitle :: string
  pbNamespaces :: "string list"
  pbOpenNS :: string
  pbFocus :: string
  pbTier :: string
  pbCascade :: bool
  pbIdle :: bool
  pbInferred :: bool
  pbPattern :: string
  pbReasons :: "ReasonCount list"
  pbOccurrences :: int
  pbMembers :: string
  pbFirstSeen :: time
  pbLastSeen :: time
  pbSince :: string
  pbSinceNote :: string
  pbLast :: string
  pbMessage :: string
  pbPod :: string
  pbItems :: "PatternItem list"

definition zeroProblem :: Problem where
  "zeroProblem = \<lparr>pbKey = '''', pbScope = '''', pbKind = '''', pbTitle = '''', pbNamespaces = [],
     pbOpenNS = '''', pbFocus = '''', pbTier = '''', pbCascade = False, pbIdle = False,
     pbInferred = False, pbPattern = '''', pbReasons = [], pbOccurrences = 0, pbMembers = '''',
     pbFirstSeen = 0, pbLastSeen = 0, pbSince = '''', pbSinceNote = '''', pbLast = '''',
     pbMessage = '''', pbPod = '''', pbItems = []\<rparr>"

record groupMember =
  gmDepth :: nat
  gmWarn :: bool
  gmLast :: time

record problemGroup =
  pgNs :: string
  pgRoot :: objRef
  pgHasLinks :: bool
  pgConfirmedLink :: bool
  pgInferred :: bool
  pgMembers :: "(objRef, groupMember) gomap"
  pgChains :: "(objRef, objRef list) gomap"
  pgWarnings :: "EventSummary list"

section \<open>Reasons, counts and timing\<close>

definition reason_less :: "ReasonCount \<Rightarrow> ReasonCount \<Rightarrow> bool" where
  "reason_less a b =
     (if rcCount a \<noteq> rcCount b then rcCount a > rcCount b else rcReason a < rcReason b)"

definition reason_key :: "ReasonCount \<Rightarrow> int \<times> string" where
  "reason_key r = (- rcCount r, rcReason r)"

interpretation reason_order: keyed_order reason_less reason_key
  by unfold_locales (auto simp: reason_less_def reason_key_def)

definition sortedReasons :: "(string, int) gomap \<Rightarrow> ReasonCount list" where
  "sortedReasons counts =
     go_sort reason_less (map (\<lambda>(r, c). \<lparr>rcReason = r, rcCount = c\<rparr>) counts)"

text \<open>\<open>counts[r] += n\<close>: a Go map of \<open>int64\<close>; the sums stay far below its range.\<close>

definition count_add :: "string \<Rightarrow> int \<Rightarrow> (string, int) gomap \<Rightarrow> (string, int) gomap" where
  "count_add r n m = al_set r (al_get 0 m r + n) m"

definition setTiming :: "time \<Rightarrow> Problem \<Rightarrow> Problem" where
  "setTiming now p =
     (let age = time_sub now (pbFirstSeen p) in
      p\<lparr>pbTier := (if age < tierNewMax then ''new''
                   else if age < tierOngoingMax then ''ongoing'' else ''chronic''),
        pbIdle := time_sub now (pbLastSeen p) \<ge> idleAfter,
        pbSince := formatAge age,
        pbLast := formatAge (time_sub now (pbLastSeen p))\<rparr>)"

definition event_first :: "EventSummary \<Rightarrow> time" where
  "event_first e = (if evFirstTime e = 0 then evLastTime e else evFirstTime e)"

text \<open>The variables of the loop of \<open>fillFromWarnings\<close>; \<open>newest\<close> is set by the first round.\<close>

record fill_state =
  fsCounts :: "(string, int) gomap"
  fsOccurrences :: int
  fsFirstSeen :: time
  fsNewest :: "EventSummary option"

definition fill_step :: "fill_state \<Rightarrow> EventSummary \<Rightarrow> fill_state" where
  "fill_step s e =
     s\<lparr>fsCounts := count_add (evReason e) (evCount e) (fsCounts s),
       fsOccurrences := fsOccurrences s + evCount e,
       fsFirstSeen := (if fsFirstSeen s = 0 \<or> event_first e < fsFirstSeen s
                       then event_first e else fsFirstSeen s),
       fsNewest := (case fsNewest s of
                      None \<Rightarrow> Some e
                    | Some n \<Rightarrow> if evLastTime e > evLastTime n then Some e else Some n)\<rparr>"

definition fillFromWarnings :: "Problem \<Rightarrow> EventSummary list \<Rightarrow> time \<Rightarrow> Problem" where
  "fillFromWarnings p warnings now =
     (let s = foldl fill_step \<lparr>fsCounts = [], fsOccurrences = pbOccurrences p,
                fsFirstSeen = pbFirstSeen p, fsNewest = None\<rparr> warnings;
          lastSeen = (case fsNewest s of None \<Rightarrow> 0 | Some n \<Rightarrow> evLastTime n);
          message = (case fsNewest s of None \<Rightarrow> '''' | Some n \<Rightarrow> evMessage n)
      in setTiming now
           (p\<lparr>pbOccurrences := fsOccurrences s, pbFirstSeen := fsFirstSeen s,
              pbLastSeen := lastSeen, pbMessage := truncate_runes message messageMaxLen,
              pbReasons := sortedReasons (fsCounts s)\<rparr>))"

section \<open>One group: a root and its failing members\<close>

definition event_ref :: "EventSummary \<Rightarrow> objRef" where
  "event_ref e = ObjRef (evKind e) (evObjectName e)"

text \<open>
  \<open>resolve\<close> is \<open>c.ownerChain(ns, _)\<close>. The loop keeps the first answer for each object in
  \<open>chainOf\<close>, so within a namespace every object has one chain: a function of the object.
  \<open>chain[len(chain)-1]\<close> is \<open>last\<close>, as a chain is never empty (\<open>owner_lookup.chain_nonempty\<close>).
\<close>

definition chain_root :: "(objRef \<Rightarrow> objRef list \<times> bool) \<Rightarrow> EventSummary \<Rightarrow> objRef" where
  "chain_root resolve e = last (fst (resolve (event_ref e)))"

definition new_group :: "string \<Rightarrow> objRef \<Rightarrow> problemGroup" where
  "new_group ns root = \<lparr>pgNs = ns, pgRoot = root, pgHasLinks = False, pgConfirmedLink = False,
     pgInferred = False, pgMembers = [], pgChains = [], pgWarnings = []\<rparr>"

definition member_add :: "nat \<Rightarrow> EventSummary \<Rightarrow> groupMember option \<Rightarrow> groupMember" where
  "member_add depth e m0 =
     (let m = (case m0 of Some m \<Rightarrow> m | None \<Rightarrow> \<lparr>gmDepth = depth, gmWarn = False, gmLast = 0\<rparr>) in
      if is_warning e
      then m\<lparr>gmWarn := True, gmLast := (if evLastTime e > gmLast m then evLastTime e else gmLast m)\<rparr>
      else m)"

definition group_add :: "(objRef \<Rightarrow> objRef list \<times> bool) \<Rightarrow> string \<Rightarrow> EventSummary \<Rightarrow>
    problemGroup option \<Rightarrow> problemGroup" where
  "group_add resolve ns e g0 =
     (let obj = event_ref e;
          (chain, inferred) = resolve obj;
          g = (case g0 of Some g \<Rightarrow> g | None \<Rightarrow> new_group ns (last chain));
          linked = length chain > 1
      in g\<lparr>pgHasLinks := pgHasLinks g \<or> linked,
           pgConfirmedLink := pgConfirmedLink g \<or> linked \<and> \<not> inferred,
           pgChains := (if al_has obj (pgMembers g) then pgChains g
                        else al_set obj chain (pgChains g)),
           pgMembers := al_alter obj (member_add (length chain - 1) e) (pgMembers g),
           pgWarnings := (if is_warning e then pgWarnings g @ [e] else pgWarnings g)\<rparr>)"

definition event_step :: "(objRef \<Rightarrow> objRef list \<times> bool) \<Rightarrow> string \<Rightarrow>
    (objRef, problemGroup) gomap \<times> EventSummary list \<Rightarrow> EventSummary \<Rightarrow>
    (objRef, problemGroup) gomap \<times> EventSummary list" where
  "event_step resolve ns st e =
     (case st of (groups, clusterWarnings) \<Rightarrow>
        if evKind e = '''' \<or> evObjectName e = '''' then (groups, clusterWarnings)
        else if evObjectNamespace e = '''' then
          (groups, if is_warning e then clusterWarnings @ [e] else clusterWarnings)
        else (al_alter (chain_root resolve e) (group_add resolve ns e) groups, clusterWarnings))"

text \<open>
  \<open>confirmOwners\<close>: for a group whose owner is only guessed, a lookup of a CronJob root, then of the
  newest failing members' chains, at most three, until one of them still exists.
\<close>

fun confirm_cands :: "time \<Rightarrow> string \<Rightarrow> (objRef, objRef list) gomap \<Rightarrow> objRef list \<Rightarrow>
    ownerState \<Rightarrow> ownerState" where
  "confirm_cands clk ns linksOf [] st = st"
| "confirm_cands clk ns linksOf (r # rs) st =
     (case requestOwnerConfirmation clk ns (al_get [] linksOf r) st of
        (st', alive) \<Rightarrow> if alive then st' else confirm_cands clk ns linksOf rs st')"

definition later_member :: "objRef \<times> groupMember \<Rightarrow> objRef \<times> groupMember \<Rightarrow> bool" where
  "later_member a b \<longleftrightarrow> gmLast (snd a) > gmLast (snd b)"

interpretation later_member: keyed_order later_member "\<lambda>m. - gmLast (snd m)"
  by unfold_locales (simp add: later_member_def)

definition confirmOwners :: "time \<Rightarrow> problemGroup \<Rightarrow> ownerState \<Rightarrow> ownerState" where
  "confirmOwners clk g st =
     (if \<not> pgInferred g then st
      else
        let st1 = (if rKind (pgRoot g) = ''CronJob''
                   then requestRootLookup clk (pgNs g) (pgRoot g) st else st);
            cands = go_sort later_member (filter (\<lambda>(_, m). gmWarn m) (pgMembers g))
        in confirm_cands clk (pgNs g) (pgChains g) (map fst (take 3 cands)) st1)"

section \<open>One group as a problem\<close>

record kind_count =
  kcKind :: string
  kcDepth :: nat
  kcTotal :: nat
  kcFailing :: nat

definition kc_add :: "objRef \<times> groupMember \<Rightarrow> kind_count option \<Rightarrow> kind_count" where
  "kc_add rm k0 =
     (case rm of (ref, m) \<Rightarrow>
        let k = (case k0 of
                   Some k \<Rightarrow> k
                 | None \<Rightarrow> \<lparr>kcKind = rKind ref, kcDepth = gmDepth m, kcTotal = 0, kcFailing = 0\<rparr>)
        in k\<lparr>kcTotal := Suc (kcTotal k),
             kcFailing := (if gmWarn m then Suc (kcFailing k) else kcFailing k)\<rparr>)"

definition kc_less :: "kind_count \<Rightarrow> kind_count \<Rightarrow> bool" where
  "kc_less a b = (if kcDepth a \<noteq> kcDepth b then kcDepth a < kcDepth b else kcKind a < kcKind b)"

interpretation kc_order: keyed_order kc_less "\<lambda>k. (kcDepth k, kcKind k)"
  by unfold_locales (auto simp: kc_less_def)

definition kc_text :: "kind_count \<Rightarrow> string" where
  "kc_text k =
     (if kcFailing k = kcTotal k
      then itoa (int (kcTotal k)) @ '' '' @ plural (kcKind k) (kcTotal k)
      else itoa (int (kcFailing k)) @ '' of '' @ itoa (int (kcTotal k)) @ '' '' @
           plural (kcKind k) (kcTotal k) @ '' failing'')"

text \<open>The separator is a middle dot, two bytes in UTF-8.\<close>

definition dot_sep :: string where
  "dot_sep = [CHR '' '', CHR 0xC2, CHR 0xB7, CHR '' '']"

definition member_counts :: "(objRef, groupMember) gomap \<Rightarrow> kind_count list" where
  "member_counts members =
     go_sort kc_less (map snd (group_fold (\<lambda>(ref, _). rKind ref) kc_add
                                 (filter (\<lambda>(_, m). gmDepth m \<noteq> 0) members)))"

text \<open>\<open>p.Pod\<close> and \<open>newestPod\<close> while the members are scanned.\<close>

definition pod_step :: "string \<times> time \<Rightarrow> objRef \<times> groupMember \<Rightarrow> string \<times> time" where
  "pod_step st rm =
     (case (st, rm) of ((pod, newest), (ref, m)) \<Rightarrow>
        let newer = gmLast m > newest \<or> gmLast m = newest \<and> pod \<noteq> '''' \<and> rName ref < pod
        in if rKind ref = ''Pod'' \<and> gmWarn m \<and> newer then (rName ref, gmLast m) else (pod, newest))"

definition newest_pod :: "(objRef, groupMember) gomap \<Rightarrow> string" where
  "newest_pod members = fst (foldl pod_step ('''', 0) members)"

definition max_depth :: "(objRef, groupMember) gomap \<Rightarrow> nat" where
  "max_depth members = foldl (\<lambda>d (_, m). if gmDepth m > d then gmDepth m else d) 0 members"

text \<open>Warnings at two or more levels, and every member of the deepest level failing.\<close>

definition group_cascade :: "(objRef, groupMember) gomap \<Rightarrow> bool" where
  "group_cascade members \<longleftrightarrow>
     length (remdups (map (\<lambda>(_, m). gmDepth m) (filter (\<lambda>(_, m). gmWarn m) members))) \<ge> 2 \<and>
     list_all (\<lambda>(_, m). gmDepth m = max_depth members \<longrightarrow> gmWarn m) members"

text \<open>A CronJob is failing since its last success, when that is before its oldest event.\<close>

definition cronjob_since :: "time_format \<Rightarrow> time \<Rightarrow> (time \<times> bool) option \<Rightarrow> Problem \<Rightarrow> Problem" where
  "cronjob_since fmt now failing p =
     (case failing of
        None \<Rightarrow> p
      | Some (since, never) \<Rightarrow>
          if since < pbFirstSeen p then
            setTiming now
              (p\<lparr>pbFirstSeen := since,
                 pbSinceNote := (if never then ''Never succeeded; created ''
                                 else ''Last successful run '') @ fmt ''2 Jan 15:04'' since\<rparr>)
          else p)"

definition groupProblem :: "time_format \<Rightarrow> time \<Rightarrow> ownerState \<Rightarrow> problemGroup \<Rightarrow> time \<Rightarrow> Problem" where
  "groupProblem fmt clk st g now =
     (let root = pgRoot g;
          kind = (if rKind root = '''' then ''Workload'' else rKind root);
          p0 = zeroProblem\<lparr>pbKey := ''ns:'' @ pgNs g @ ''/'' @ rName root,
                 pbScope := ''namespace'', pbKind := kind, pbTitle := rName root,
                 pbNamespaces := [pgNs g], pbOpenNS := pgNs g,
                 pbFocus := kind @ ''/'' @ rName root, pbInferred := pgInferred g\<rparr>;
          p1 = fillFromWarnings p0 (pgWarnings g) now;
          p2 = (if rKind root = ''CronJob''
                then cronjob_since fmt now (cronJobFailingSince clk st (pgNs g) (rName root)) p1
                else p1)
      in p2\<lparr>pbMembers := str_join dot_sep (map kc_text (member_counts (pgMembers g))),
            pbPod := newest_pod (pgMembers g),
            pbCascade := group_cascade (pgMembers g)\<rparr>)"

section \<open>Cluster-scoped objects\<close>

text \<open>
  Their events are recorded in the namespace "default"; the page shows them under
  \<open>clusterScopeNS\<close>, the name "_cluster". The keys of the group map are kind and reason.
\<close>

definition first_names :: "EventSummary list \<Rightarrow> string list" where
  "first_names evs =
     foldl (\<lambda>names e. if evObjectName e \<in> set names then names else names @ [evObjectName e]) [] evs"

definition clusterProblem :: "time \<Rightarrow> (string \<times> string) \<times> EventSummary list \<Rightarrow> Problem" where
  "clusterProblem now kevs =
     (let (kind, reason) = fst kevs;
          evs = sortNewestFirst (snd kevs);
          names = first_names evs;
          n = length names;
          p0 = zeroProblem\<lparr>pbKey := ''cluster:'' @ kind @ ''/'' @ reason, pbScope := ''cluster'',
                 pbKind := kind, pbNamespaces := [], pbOpenNS := ''_cluster'',
                 pbFocus := kind @ ''/'' @ evObjectName (hd evs)\<rparr>;
          p1 = (if n = 1 then p0\<lparr>pbTitle := names ! 0\<rparr>
                else p0\<lparr>pbTitle := reason @ '' on '' @ itoa (int n) @ '' '' @ plural kind n,
                        pbMembers := str_join '', '' (if n > 3 then take 3 names else names) @
                          (if n > 3 then '' +'' @ itoa (int n - 3) @ '' more'' else '''')\<rparr>)
      in fillFromWarnings p1 evs now)"

definition clusterProblems :: "EventSummary list \<Rightarrow> time \<Rightarrow> Problem list" where
  "clusterProblems warnings now =
     map (clusterProblem now) (group_list (\<lambda>e. (evKind e, evReason e)) warnings)"

section \<open>What filling a problem gives\<close>

abbreviation total_count :: "EventSummary list \<Rightarrow> int" where
  "total_count evs \<equiv> sum_list (map evCount evs)"

lemma sum_count_add: "sum_list (map snd (count_add r n m)) = sum_list (map snd m) + n"
proof -
  have "sum_list (map snd (al_alter r (\<lambda>_. al_get 0 m' r + n) m)) =
      sum_list (map snd m) - al_get 0 m r + (al_get 0 m' r + n)" for m'
    by (induction r "\<lambda>_ :: int option. al_get 0 m' r + n" m rule: al_alter.induct)
      (auto simp: al_get_def)
  from this [of m] show ?thesis by (simp add: count_add_def al_set_def)
qed

lemma map_of_count_add [simp]: "map_of (count_add r n m) = (map_of m)(r \<mapsto> al_get 0 m r + n)"
  by (simp add: count_add_def)

lemma distinct_count_add [simp]:
  "distinct (map fst m) \<Longrightarrow> distinct (map fst (count_add r n m))"
  by (simp add: count_add_def)

lemma keys_count_add: "fst ` set (count_add r n m) = insert r (fst ` set m)"
  by (simp add: count_add_def al_set_def)

lemma fill_counts:
  "sum_list (map snd (fsCounts (foldl fill_step s ws))) =
     sum_list (map snd (fsCounts s)) + total_count ws"
  "fst ` set (fsCounts (foldl fill_step s ws)) = fst ` set (fsCounts s) \<union> evReason ` set ws"
  "distinct (map fst (fsCounts s)) \<Longrightarrow> distinct (map fst (fsCounts (foldl fill_step s ws)))"
  "fsOccurrences (foldl fill_step s ws) = fsOccurrences s + total_count ws"
  by (induction ws arbitrary: s) (auto simp: fill_step_def sum_count_add keys_count_add)

lemma fill_counts_of:
  "al_get 0 (fsCounts (foldl fill_step s ws)) r =
     al_get 0 (fsCounts s) r + total_count (filter (\<lambda>e. evReason e = r) ws)"
  by (induction ws arbitrary: s) (auto simp: fill_step_def al_get_def)

lemma sum_sortedReasons: "sum_list (map rcCount (sortedReasons m)) = sum_list (map snd m)"
proof -
  have "sum_list (map rcCount (sortedReasons m)) =
      sum_list (map rcCount (map (\<lambda>(r, c). \<lparr>rcReason = r, rcCount = c\<rparr>) m))"
    by (rule sum_list_mset_cong) (simp add: sortedReasons_def)
  also have "\<dots> = sum_list (map snd m)"
    by (induction m) auto
  finally show ?thesis .
qed

lemma reason_names: "map rcReason (map (\<lambda>(r, c). \<lparr>rcReason = r, rcCount = c\<rparr>) m) = map fst m"
  by (induction m) auto

lemma setTiming_sel [simp]:
  "pbKey (setTiming now p) = pbKey p" "pbScope (setTiming now p) = pbScope p"
  "pbKind (setTiming now p) = pbKind p" "pbTitle (setTiming now p) = pbTitle p"
  "pbNamespaces (setTiming now p) = pbNamespaces p" "pbOpenNS (setTiming now p) = pbOpenNS p"
  "pbReasons (setTiming now p) = pbReasons p" "pbOccurrences (setTiming now p) = pbOccurrences p"
  "pbFirstSeen (setTiming now p) = pbFirstSeen p" "pbLastSeen (setTiming now p) = pbLastSeen p"
  "pbPod (setTiming now p) = pbPod p" "pbCascade (setTiming now p) = pbCascade p"
  by (simp_all add: setTiming_def Let_def)

lemma fill_sel [simp]:
  "pbKey (fillFromWarnings p ws now) = pbKey p" "pbScope (fillFromWarnings p ws now) = pbScope p"
  "pbKind (fillFromWarnings p ws now) = pbKind p" "pbTitle (fillFromWarnings p ws now) = pbTitle p"
  "pbNamespaces (fillFromWarnings p ws now) = pbNamespaces p"
  "pbOccurrences (fillFromWarnings p ws now) = pbOccurrences p + total_count ws"
  by (simp_all add: fillFromWarnings_def Let_def fill_counts)

lemma fill_reasons:
  "sum_list (map rcCount (pbReasons (fillFromWarnings p ws now))) = total_count ws"
  "rcReason ` set (pbReasons (fillFromWarnings p ws now)) = evReason ` set ws"
  "distinct (map rcReason (pbReasons (fillFromWarnings p ws now)))"
proof -
  let ?s = "foldl fill_step \<lparr>fsCounts = [], fsOccurrences = pbOccurrences p,
      fsFirstSeen = pbFirstSeen p, fsNewest = None\<rparr> ws"
  have R: "pbReasons (fillFromWarnings p ws now) = sortedReasons (fsCounts ?s)"
    by (simp add: fillFromWarnings_def Let_def)
  show "sum_list (map rcCount (pbReasons (fillFromWarnings p ws now))) = total_count ws"
    by (simp add: R sum_sortedReasons fill_counts)
  have "fst ` set (fsCounts ?s) = evReason ` set ws"
    by (simp add: fill_counts)
  then show "rcReason ` set (pbReasons (fillFromWarnings p ws now)) = evReason ` set ws"
    by (force simp: R sortedReasons_def)
  have "distinct (map fst (fsCounts ?s))"
    by (simp add: fill_counts)
  then show "distinct (map rcReason (pbReasons (fillFromWarnings p ws now)))"
    unfolding R sortedReasons_def distinct_map_go_sort reason_names .
qed

lemma fill_reason_count:
  assumes "rc \<in> set (pbReasons (fillFromWarnings p ws now))"
  shows "rcCount rc = total_count (filter (\<lambda>e. evReason e = rcReason rc) ws)"
proof -
  let ?s = "foldl fill_step \<lparr>fsCounts = [], fsOccurrences = pbOccurrences p,
      fsFirstSeen = pbFirstSeen p, fsNewest = None\<rparr> ws"
  have "(rcReason rc, rcCount rc) \<in> set (fsCounts ?s)"
    using assms by (auto simp: fillFromWarnings_def Let_def sortedReasons_def)
  moreover have "distinct (map fst (fsCounts ?s))"
    by (simp add: fill_counts)
  ultimately have "al_get 0 (fsCounts ?s) (rcReason rc) = rcCount rc"
    by (simp add: al_get_def)
  then show ?thesis unfolding fill_counts_of by (simp add: al_get_def)
qed


text \<open>The times of a problem: the earliest start and the latest occurrence of its warnings.\<close>

definition timed :: "EventSummary \<Rightarrow> bool" where
  "timed e \<longleftrightarrow> evLastTime e > 0 \<and> event_first e > 0"

lemma fill_first_seen:
  assumes "\<forall>e\<in>set ws. timed e" and "fsFirstSeen s \<ge> 0"
  shows "fsFirstSeen (foldl fill_step s ws) =
    (if fsFirstSeen s = 0 then (if ws = [] then 0 else Min (event_first ` set ws))
     else Min (insert (fsFirstSeen s) (event_first ` set ws)))"
  using assms
proof (induction ws arbitrary: s)
  case (Cons e ws)
  have e: "event_first e > 0" using Cons.prems by (simp add: timed_def)
  let ?s = "fill_step s e"
  have f: "fsFirstSeen ?s = (if fsFirstSeen s = 0 then event_first e else min (fsFirstSeen s) (event_first e))"
    by (simp add: fill_step_def min_def)
  then have "fsFirstSeen ?s > 0" using Cons.prems e by (simp add: min_def)
  with Cons.IH [of ?s] Cons.prems have
    "fsFirstSeen (foldl fill_step s (e # ws)) = Min (insert (fsFirstSeen ?s) (event_first ` set ws))"
    by simp
  then show ?case
    by (cases "fsFirstSeen s = 0") (simp_all only: f if_True if_False list.simps list.set image_insert
        Min_insert_min finite_imageI finite_set not_False_eq_True simp_thms)
qed simp

lemma fill_newest:
  assumes "ws \<noteq> []"
  shows "\<exists>n\<in>set ws. fsNewest (foldl fill_step (s\<lparr>fsNewest := None\<rparr>) ws) = Some n \<and>
    (\<forall>e\<in>set ws. evLastTime e \<le> evLastTime n)"
proof -
  have *: "\<exists>n\<in>insert m (set ws). fsNewest (foldl fill_step s ws) = Some n \<and>
      (\<forall>e\<in>insert m (set ws). evLastTime e \<le> evLastTime n)"
    if "fsNewest s = Some m" for s m ws
    using that
  proof (induction ws arbitrary: s m)
    case (Cons e ws)
    let ?m = "if evLastTime e > evLastTime m then e else m"
    have "fsNewest (fill_step s e) = Some ?m"
      using Cons.prems by (simp add: fill_step_def)
    from Cons.IH [OF this] obtain n where n: "n \<in> insert ?m (set ws)"
      "fsNewest (foldl fill_step s (e # ws)) = Some n"
      "\<forall>x\<in>insert ?m (set ws). evLastTime x \<le> evLastTime n"
      by auto
    have "evLastTime m \<le> evLastTime n" "evLastTime e \<le> evLastTime n"
      using n(3) by (auto split: if_splits)
    then show ?case using n by (intro bexI [of _ n]) (auto split: if_splits)
  qed simp
  obtain e es where ws: "ws = e # es" using assms by (cases ws) auto
  have "fsNewest (fill_step (s\<lparr>fsNewest := None\<rparr>) e) = Some e"
    by (simp add: fill_step_def)
  from * [OF this, of es] show ?thesis by (simp add: ws)
qed

lemma fill_times:
  assumes "ws \<noteq> []" and "\<forall>e\<in>set ws. timed e" and "pbFirstSeen p = 0"
  shows "pbFirstSeen (fillFromWarnings p ws now) = Min (event_first ` set ws)"
    and "pbLastSeen (fillFromWarnings p ws now) = Max (evLastTime ` set ws)"
proof -
  let ?s0 = "\<lparr>fsCounts = [], fsOccurrences = pbOccurrences p, fsFirstSeen = pbFirstSeen p,
      fsNewest = None\<rparr>"
  show "pbFirstSeen (fillFromWarnings p ws now) = Min (event_first ` set ws)"
    using assms by (simp add: fillFromWarnings_def Let_def fill_first_seen)
  obtain n where n: "n \<in> set ws" "fsNewest (foldl fill_step ?s0 ws) = Some n"
    "\<forall>e\<in>set ws. evLastTime e \<le> evLastTime n"
    using fill_newest [OF assms(1), of ?s0] by auto
  have "pbLastSeen (fillFromWarnings p ws now) = evLastTime n"
    by (simp add: fillFromWarnings_def Let_def n(2))
  also have "\<dots> = Max (evLastTime ` set ws)"
    using n by (intro Max_eqI [symmetric]) auto
  finally show "pbLastSeen (fillFromWarnings p ws now) = Max (evLastTime ` set ws)" .
qed

text \<open>Nothing but the clock decides the tier: it never goes back while a problem lasts.\<close>

lemma setTiming_tier:
  "pbTier (setTiming now p) = ''new'' \<longleftrightarrow> now - pbFirstSeen p < tierNewMax"
  "pbTier (setTiming now p) = ''ongoing'' \<longleftrightarrow>
     tierNewMax \<le> now - pbFirstSeen p \<and> now - pbFirstSeen p < tierOngoingMax"
  "pbTier (setTiming now p) = ''chronic'' \<longleftrightarrow> tierOngoingMax \<le> now - pbFirstSeen p"
  by (auto simp: setTiming_def Let_def tierNewMax_def tierOngoingMax_def time_units
      time_sub_less_iff max_duration_def)

lemma setTiming_tier_cases: "pbTier (setTiming now p) \<in> {''new'', ''ongoing'', ''chronic''}"
  by (simp add: setTiming_def Let_def)

lemma fill_tier_cases: "pbTier (fillFromWarnings p ws now) \<in> {''new'', ''ongoing'', ''chronic''}"
  unfolding fillFromWarnings_def Let_def by (rule setTiming_tier_cases)

lemma setTiming_tier_mono:
  "now \<le> now' \<Longrightarrow> tierOrder (pbTier (setTiming now p)) \<le> tierOrder (pbTier (setTiming now' p))"
  using setTiming_tier [of now p] setTiming_tier [of now' p] setTiming_tier_cases [of now p]
    setTiming_tier_cases [of now' p]
  by (auto simp: tierOrder_def al_get_def tierNewMax_def tierOngoingMax_def time_units)


section \<open>The Pod a problem shows\<close>

definition failing_pod :: "objRef \<times> groupMember \<Rightarrow> bool" where
  "failing_pod rm \<longleftrightarrow> rKind (fst rm) = ''Pod'' \<and> gmWarn (snd rm) \<and> gmLast (snd rm) > 0"

text \<open>Newest first, ties by name: the Pod no other failing Pod comes before.\<close>

definition pod_best :: "(objRef \<times> groupMember) set \<Rightarrow> string \<Rightarrow> time \<Rightarrow> bool" where
  "pod_best ms pod newest \<longleftrightarrow>
     (\<exists>rm\<in>ms. failing_pod rm \<and> rName (fst rm) = pod \<and> gmLast (snd rm) = newest) \<and>
     (\<forall>rm\<in>ms. failing_pod rm \<longrightarrow>
        gmLast (snd rm) < newest \<or> gmLast (snd rm) = newest \<and> pod \<le> rName (fst rm))"

lemma pod_best_unique: "pod_best ms p t \<Longrightarrow> pod_best ms p' t' \<Longrightarrow> p = p' \<and> t = t'"
  unfolding pod_best_def by (metis order.antisym order_less_asym order_less_irrefl)

lemma pod_scan:
  assumes "\<forall>rm\<in>set ms. rName (fst rm) \<noteq> ''''"
    and "st = ('''', 0) \<and> (\<forall>rm\<in>A. \<not> failing_pod rm) \<or> pod_best A (fst st) (snd st) \<and> fst st \<noteq> '''' \<and> snd st > 0"
  shows "foldl pod_step st ms = ('''', 0) \<and> (\<forall>rm\<in>A \<union> set ms. \<not> failing_pod rm) \<or>
    pod_best (A \<union> set ms) (fst (foldl pod_step st ms)) (snd (foldl pod_step st ms)) \<and>
    fst (foldl pod_step st ms) \<noteq> ''''"
  using assms
proof (induction ms arbitrary: st A)
  case (Cons rm ms)
  obtain pod newest where st: "st = (pod, newest)" by (cases st)
  let ?st = "pod_step st rm"
  have name: "rName (fst rm) \<noteq> ''''" using Cons.prems(1) by simp
  have "?st = ('''', 0) \<and> (\<forall>x\<in>insert rm A. \<not> failing_pod x) \<or>
      pod_best (insert rm A) (fst ?st) (snd ?st) \<and> fst ?st \<noteq> '''' \<and> snd ?st > 0"
  proof (cases "?st = st")
    case True
    from True Cons.prems(2) name show ?thesis
      unfolding st pod_step_def pod_best_def failing_pod_def
      by (cases rm) (auto split: if_splits simp: not_less)
  next
    case False
    then have new: "?st = (rName (fst rm), gmLast (snd rm))" "rKind (fst rm) = ''Pod''" "gmWarn (snd rm)"
      "gmLast (snd rm) > newest \<or> gmLast (snd rm) = newest \<and> pod \<noteq> '''' \<and> rName (fst rm) < pod"
      unfolding st by (cases rm; auto simp: pod_step_def split: if_splits)+
    have pos: "gmLast (snd rm) > 0" using new(4) Cons.prems(2) unfolding st by auto
    have "failing_pod rm" using new pos by (simp add: failing_pod_def)
    moreover have "\<forall>x\<in>A. failing_pod x \<longrightarrow>
        gmLast (snd x) < gmLast (snd rm) \<or> gmLast (snd x) = gmLast (snd rm) \<and> rName (fst rm) \<le> rName (fst x)"
      using Cons.prems(2) new(4) unfolding st pod_best_def by force
    ultimately show ?thesis
      using pos name unfolding new(1) pod_best_def by auto
  qed
  from Cons.IH [OF _ this] Cons.prems(1) show ?case by simp
qed (auto simp: pod_best_def)

lemma newest_pod_best:
  assumes "\<forall>rm\<in>set ms. rName (fst rm) \<noteq> ''''"
  shows "(newest_pod ms = '''' \<and> (\<forall>rm\<in>set ms. \<not> failing_pod rm)) \<or>
    (\<exists>t. pod_best (set ms) (newest_pod ms) t)"
  using pod_scan [of ms "('''', 0)" "{}"] assms by (auto simp: newest_pod_def)

text \<open>The same members give the same Pod, whatever order the map is read in.\<close>

lemma newest_pod_order:
  assumes "\<forall>rm\<in>set ms. rName (fst rm) \<noteq> ''''" and "set ms' = set ms"
  shows "newest_pod ms' = newest_pod ms"
  using newest_pod_best [of ms] newest_pod_best [of ms'] assms
  by (metis pod_best_def pod_best_unique)

section \<open>Depth and cascade\<close>

lemma max_depth_Max: "max_depth members = Max (insert 0 ((\<lambda>(_, m). gmDepth m) ` set members))"
proof -
  have "foldl (\<lambda>d (_, m). if gmDepth m > d then gmDepth m else d) d ms =
      Max (insert d ((\<lambda>(_, m). gmDepth m) ` set ms))" for d and ms :: "(objRef, groupMember) gomap"
  proof (induction ms arbitrary: d)
    case (Cons rm ms)
    let ?d = "case rm of (_, m) \<Rightarrow> if gmDepth m > d then gmDepth m else d"
    have "?d = max d (case rm of (_, m) \<Rightarrow> gmDepth m)" by (cases rm) auto
    then show ?case using Cons.IH [of ?d] by (cases rm) (simp add: Max_insert_max)
  qed simp
  then show ?thesis by (simp add: max_depth_def)
qed

lemma group_cascade_iff:
  "group_cascade members \<longleftrightarrow>
     (\<exists>a\<in>set members. \<exists>b\<in>set members. gmWarn (snd a) \<and> gmWarn (snd b) \<and> gmDepth (snd a) < gmDepth (snd b)) \<and>
     (\<forall>m\<in>set members. (\<forall>m'\<in>set members. gmDepth (snd m') \<le> gmDepth (snd m)) \<longrightarrow> gmWarn (snd m))"
proof -
  let ?D = "(\<lambda>m. gmDepth (snd m)) ` {m \<in> set members. gmWarn (snd m)}"
  have "length (remdups (map (\<lambda>(_, m). gmDepth m) (filter (\<lambda>(_, m). gmWarn m) members))) \<ge> 2 \<longleftrightarrow>
      card ?D \<ge> 2"
    by (simp add: length_remdups_card_conv case_prod_beta image_image)
  also have "\<dots> \<longleftrightarrow> (\<exists>a\<in>?D. \<exists>b\<in>?D. a < b)"
    by (rule card_ge_2_linorder) simp
  also have "\<dots> \<longleftrightarrow> (\<exists>a\<in>set members. \<exists>b\<in>set members.
      gmWarn (snd a) \<and> gmWarn (snd b) \<and> gmDepth (snd a) < gmDepth (snd b))"
    by blast
  finally have levels: "length (remdups (map (\<lambda>(_, m). gmDepth m) (filter (\<lambda>(_, m). gmWarn m) members))) \<ge> 2 \<longleftrightarrow>
      (\<exists>a\<in>set members. \<exists>b\<in>set members.
        gmWarn (snd a) \<and> gmWarn (snd b) \<and> gmDepth (snd a) < gmDepth (snd b))" .
  have "gmDepth (snd m) = max_depth members \<longleftrightarrow> (\<forall>m'\<in>set members. gmDepth (snd m') \<le> gmDepth (snd m))"
    if "m \<in> set members" for m
    using that unfolding max_depth_Max
    by (subst eq_commute) (auto simp: Max_eq_iff case_prod_beta)
  then show ?thesis
    unfolding group_cascade_def levels by (simp add: list_all_iff case_prod_beta)
qed


section \<open>Properties\<close>

text \<open>
  a problem filled from its warnings starts at the earliest of them, was last seen at the
  latest, and lists each reason once with the occurrences of that reason.
\<close>

lemma filled_problem:
  assumes "ws \<noteq> []" and "\<forall>e\<in>set ws. evLastTime e > 0 \<and> event_first e > 0" and "pbFirstSeen p = 0"
  shows "pbFirstSeen (fillFromWarnings p ws now) = Min (event_first ` set ws) \<and>
    pbLastSeen (fillFromWarnings p ws now) = Max (evLastTime ` set ws) \<and>
    distinct (map rcReason (pbReasons (fillFromWarnings p ws now))) \<and>
    rcReason ` set (pbReasons (fillFromWarnings p ws now)) = evReason ` set ws \<and>
    (\<forall>rc\<in>set (pbReasons (fillFromWarnings p ws now)).
       rcCount rc = sum_list (map evCount (filter (\<lambda>e. evReason e = rcReason rc) ws)))"
  using assms fill_times [of ws p now] fill_reasons [of p ws now] fill_reason_count [of _ p ws now]
  by (auto simp: timed_def)

definition sample_event :: "string \<Rightarrow> string \<Rightarrow> string \<Rightarrow> time \<Rightarrow> int \<Rightarrow> EventSummary" where
  "sample_event kind name reason t n = \<lparr>evNamespace = ''shop'', evName = name @ ''.'' @ reason,
     evReason = reason, evMessage = ''m'', evType = ''Warning'', evCount = n, evKind = kind,
     evObjectName = name, evObjectNamespace = ''shop'', evFirstTime = t, evLastTime = t + 5, evAge = ''1m''\<rparr>"

lemma filled_problem_witness:
  "let ws = [sample_event ''Pod'' ''a'' ''BackOff'' 100 3, sample_event ''Pod'' ''b'' ''Failed'' 50 2,
             sample_event ''Pod'' ''c'' ''BackOff'' 70 1];
       p = fillFromWarnings zeroProblem ws 200
   in pbFirstSeen p = 50 \<and> pbLastSeen p = 105 \<and>
      pbReasons p = [\<lparr>rcReason = ''BackOff'', rcCount = 4\<rparr>, \<lparr>rcReason = ''Failed'', rcCount = 2\<rparr>]"
proof -
  let ?ws = "[sample_event ''Pod'' ''a'' ''BackOff'' 100 3, sample_event ''Pod'' ''b'' ''Failed'' 50 2,
             sample_event ''Pod'' ''c'' ''BackOff'' 70 1]"
  have r: "pbReasons (fillFromWarnings zeroProblem ?ws 200) =
      [\<lparr>rcReason = ''BackOff'', rcCount = 4\<rparr>, \<lparr>rcReason = ''Failed'', rcCount = 2\<rparr>]"
    by code_simp
  show ?thesis
    using filled_problem [of ?ws zeroProblem 200] r
    by (simp add: sample_event_def event_first_def zeroProblem_def Let_def)
qed

text \<open>
  the tier of a problem is a matter of its age alone: new below two hours, ongoing below a day,
  chronic from then on; a clock that moves on never moves it back.
\<close>

lemma tier_by_age:
  "(pbTier (setTiming now p) = ''new'' \<longleftrightarrow> now - pbFirstSeen p < 2 * hour) \<and>
   (pbTier (setTiming now p) = ''ongoing'' \<longleftrightarrow>
      2 * hour \<le> now - pbFirstSeen p \<and> now - pbFirstSeen p < 24 * hour) \<and>
   (pbTier (setTiming now p) = ''chronic'' \<longleftrightarrow> 24 * hour \<le> now - pbFirstSeen p) \<and>
   tierOrder (pbTier (setTiming now p)) \<le> tierOrder (pbTier (setTiming (now + int d) p))"
  using setTiming_tier [of now p] setTiming_tier_mono [of now "now + int d" p]
  by (simp add: tierNewMax_def tierOngoingMax_def)

text \<open>
  the Pod a row offers for logs and analysis is the newest failing one, ties by name, whatever
  order the members are read in.
\<close>

lemma newest_pod_any_order:
  assumes "\<forall>rm\<in>set ms. rName (fst rm) \<noteq> ''''" and "set ms' = set ms"
  shows "newest_pod ms' = newest_pod ms \<and>
    ((\<exists>t. pod_best (set ms) (newest_pod ms) t) \<or>
     newest_pod ms = '''' \<and> \<not> (\<exists>rm\<in>set ms. failing_pod rm))"
  using newest_pod_order [OF assms] newest_pod_best [OF assms(1)] by blast

lemma newest_pod_any_order_witness:
  "let ms = [(ObjRef ''Pod'' ''b'', \<lparr>gmDepth = 1, gmWarn = True, gmLast = 9\<rparr>),
             (ObjRef ''Pod'' ''a'', \<lparr>gmDepth = 1, gmWarn = True, gmLast = 9\<rparr>),
             (ObjRef ''Job'' ''j'', \<lparr>gmDepth = 0, gmWarn = True, gmLast = 30\<rparr>)]
   in newest_pod (rev ms) = newest_pod ms \<and> newest_pod ms = ''a''"
proof -
  let ?ms = "[(ObjRef ''Pod'' ''b'', \<lparr>gmDepth = 1, gmWarn = True, gmLast = 9\<rparr>),
             (ObjRef ''Pod'' ''a'', \<lparr>gmDepth = 1, gmWarn = True, gmLast = 9\<rparr>),
             (ObjRef ''Job'' ''j'', \<lparr>gmDepth = 0, gmWarn = True, gmLast = 30\<rparr>)]"
  have "newest_pod ?ms = ''a''" by code_simp
  moreover have "newest_pod (rev ?ms) = newest_pod ?ms"
    by (rule newest_pod_any_order [THEN conjunct1], simp, rule set_rev)
  ultimately show ?thesis unfolding Let_def by (rule conjI [rotated])
qed

text \<open>
  a row is marked as a cascade exactly when warnings are at two levels of the chain or more and
  every member of the deepest level fails.
\<close>

lemma cascade_iff:
  "group_cascade members \<longleftrightarrow>
     (\<exists>a\<in>set members. \<exists>b\<in>set members. gmWarn (snd a) \<and> gmWarn (snd b) \<and> gmDepth (snd a) < gmDepth (snd b)) \<and>
     (\<forall>m\<in>set members. (\<forall>m'\<in>set members. gmDepth (snd m') \<le> gmDepth (snd m)) \<longrightarrow> gmWarn (snd m))"
  by (rule group_cascade_iff)

lemma cascade_iff_witness:
  "group_cascade [(ObjRef ''Job'' ''j'', \<lparr>gmDepth = 1, gmWarn = True, gmLast = 9\<rparr>),
                  (ObjRef ''Pod'' ''p'', \<lparr>gmDepth = 2, gmWarn = True, gmLast = 8\<rparr>)] \<and>
   \<not> group_cascade [(ObjRef ''Job'' ''j'', \<lparr>gmDepth = 1, gmWarn = True, gmLast = 9\<rparr>),
                  (ObjRef ''Pod'' ''p'', \<lparr>gmDepth = 2, gmWarn = True, gmLast = 8\<rparr>),
                  (ObjRef ''Pod'' ''q'', \<lparr>gmDepth = 2, gmWarn = False, gmLast = 0\<rparr>)]"
  by (simp add: cascade_iff)


end
