(* ===== verification/UnionFind.thy ===== *)
theory UnionFind
  imports Prelude
begin

text \<open>
  The disjoint sets of \<open>groupPatterns\<close> (problems.go): an array of parents, \<open>find\<close> with path
  halving, \<open>union\<close>. The loop of \<open>find\<close> is a partial function, so that not ending is a value; it is
  shown to end on every array the code builds. The locale \<open>disjoint_sets\<close> is what the grouping
  relies on: a representative per element, unchanged by \<open>find\<close> and merged by \<open>union\<close>.
\<close>

partial_function (option) uf_find :: "nat list \<Rightarrow> nat \<Rightarrow> (nat \<times> nat list) option" where
  "uf_find parent x =
     (if parent ! x = x then Some (x, parent)
      else uf_find (parent[x := parent ! (parent ! x)]) (parent ! (parent ! x)))"

text \<open>\<open>parent[find(a)] = find(b)\<close>; Go calls \<open>find(a)\<close> first.\<close>

definition uf_union :: "nat list \<Rightarrow> nat \<Rightarrow> nat \<Rightarrow> nat list option" where
  "uf_union parent a b =
     Option.bind (uf_find parent a) (\<lambda>(ra, p1).
     Option.bind (uf_find p1 b) (\<lambda>(rb, p2). Some (p2[ra := rb])))"

text \<open>A run of unions, and the loop \<open>comps[find(i)] = append(comps[find(i)], i)\<close>.\<close>

fun union_all :: "('p \<Rightarrow> nat \<Rightarrow> nat \<Rightarrow> 'p option) \<Rightarrow> (nat \<times> nat) list \<Rightarrow> 'p \<Rightarrow> 'p option" where
  "union_all unite [] p = Some p"
| "union_all unite ((a, b) # es) p = Option.bind (unite p a b) (union_all unite es)"

fun components :: "('p \<Rightarrow> nat \<Rightarrow> (nat \<times> 'p) option) \<Rightarrow> nat list \<Rightarrow> 'p \<Rightarrow>
    (nat, nat list) gomap \<Rightarrow> (nat, nat list) gomap option" where
  "components look [] p comps = Some comps"
| "components look (i # js) p comps =
     Option.bind (look p i) (\<lambda>(r, p'). components look js p' (al_alter r (snoc_opt i) comps))"

section \<open>The contract\<close>

text \<open>The sets after joining those of a and b, as a choice of representatives.\<close>

definition join :: "(nat \<Rightarrow> nat) \<Rightarrow> nat \<times> nat \<Rightarrow> nat \<Rightarrow> nat" where
  "join rep e z = (if rep z = rep (fst e) then rep (snd e) else rep z)"

locale disjoint_sets =
  fixes ok :: "nat \<Rightarrow> 'p \<Rightarrow> (nat \<Rightarrow> nat) \<Rightarrow> bool"
    and look :: "'p \<Rightarrow> nat \<Rightarrow> (nat \<times> 'p) option"
    and unite :: "'p \<Rightarrow> nat \<Rightarrow> nat \<Rightarrow> 'p option"
  assumes find_ok: "ok n p rep \<Longrightarrow> x < n \<Longrightarrow> \<exists>p'. look p x = Some (rep x, p') \<and> ok n p' rep"
    and union_ok: "ok n p rep \<Longrightarrow> a < n \<Longrightarrow> b < n \<Longrightarrow>
      \<exists>p'. unite p a b = Some p' \<and> ok n p' (join rep (a, b))"
begin

lemma union_all_ok:
  "ok n p rep \<Longrightarrow> \<forall>(a, b)\<in>set es. a < n \<and> b < n \<Longrightarrow>
   \<exists>p'. union_all unite es p = Some p' \<and> ok n p' (foldl join rep es)"
proof (induction es arbitrary: p rep)
  case (Cons e es)
  obtain a b where e: "e = (a, b)" by (cases e)
  obtain p1 where "unite p a b = Some p1" "ok n p1 (join rep e)"
    using union_ok [of n p rep a b] Cons.prems e by auto
  with Cons.IH [of p1 "join rep e"] Cons.prems(2) show ?case by (simp add: e)
qed simp

lemma components_ok:
  "ok n p rep \<Longrightarrow> \<forall>i\<in>set js. i < n \<Longrightarrow>
   components look js p comps = Some (foldl (\<lambda>m i. al_alter (rep i) (snoc_opt i) m) comps js)"
proof (induction js arbitrary: p comps)
  case (Cons i js)
  obtain p1 where "look p i = Some (rep i, p1)" "ok n p1 rep"
    using find_ok [of n p rep i] Cons.prems by auto
  with Cons.IH [of p1] Cons.prems(2) show ?case by simp
qed simp

text \<open>Unions followed by the grouping loop: the elements grouped by their set.\<close>

lemma union_components:
  assumes "ok n p (\<lambda>i. i)" and "\<forall>(a, b)\<in>set es. a < n \<and> b < n" and "\<forall>i\<in>set js. i < n"
  shows "Option.bind (union_all unite es p) (\<lambda>p'. components look js p' []) =
    Some (group_list (foldl join (\<lambda>i. i) es) js)"
proof -
  obtain p' where "union_all unite es p = Some p'" "ok n p' (foldl join (\<lambda>i. i) es)"
    using union_all_ok [OF assms(1,2)] by auto
  then show ?thesis
    using components_ok [of n p' _ js "[]"] assms(3)
    by (simp add: group_list_def group_fold_def)
qed

end

text \<open>The sets after a run of unions are the connected components of the pairs united.\<close>

lemma join_kernel:
  "{(i, j). foldl join rep es i = foldl join rep es j} =
   ({(i, j). rep i = rep j} \<union> set es \<union> (set es)\<inverse>)\<^sup>*"
proof (induction es arbitrary: rep)
  case Nil
  have "{(i, j). rep i = rep j}\<^sup>* = {(i, j). rep i = rep j}"
  proof (rule equalityI)
    show "{(i, j). rep i = rep j}\<^sup>* \<subseteq> {(i, j). rep i = rep j}"
      by (rule subrelI, erule rtrancl_induct) auto
  qed auto
  then show ?case by simp
next
  case (Cons e es)
  obtain a b where e: "e = (a, b)" by (cases e)
  let ?K = "{(i, j). rep i = rep j}" and ?K' = "{(i, j). join rep e i = join rep e j}"
  let ?T = "set es \<union> (set es)\<inverse>" and ?E = "{(a, b), (b, a)}"
  have sub: "?K \<union> ?E \<union> ?T \<subseteq> ?K' \<union> ?T"
    by (auto simp: join_def e)
  have mem: "(i, j) \<in> (?K \<union> ?E)\<^sup>*" if "rep i = rep j" for i j
    using that by auto
  have via: "(i, j) \<in> (?K \<union> ?E)\<^sup>*" if "(i, a') \<in> ?K \<union> ?E" "(a', b') \<in> ?K \<union> ?E" "(b', j) \<in> ?K \<union> ?E" for i j a' b'
    using that by (meson r_into_rtrancl rtrancl.rtrancl_into_rtrancl)
  have "(i, j) \<in> (?K \<union> ?E)\<^sup>*" if "(i, j) \<in> ?K'" for i j
  proof (cases "rep i = rep a"; cases "rep j = rep a")
    assume "rep i = rep a" "rep j \<noteq> rep a"
    then show ?thesis using that via [of i a b j] by (auto simp: join_def e)
  next
    assume "rep i \<noteq> rep a" "rep j = rep a"
    then show ?thesis using that via [of i b a j] by (auto simp: join_def e)
  qed (use that mem in \<open>auto simp: join_def e\<close>)
  then have sup: "?K' \<union> ?T \<subseteq> (?K \<union> ?E \<union> ?T)\<^sup>*"
    using rtrancl_mono [of "?K \<union> ?E" "?K \<union> ?E \<union> ?T"] by auto
  have "(?K' \<union> ?T)\<^sup>* = (?K \<union> ?E \<union> ?T)\<^sup>*"
    by (rule rtrancl_subset [OF sub sup])
  moreover have "?K \<union> ?E \<union> ?T = ?K \<union> set (e # es) \<union> (set (e # es))\<inverse>"
    by (auto simp: e)
  ultimately show ?case using Cons.IH [of "join rep e"] by (simp add: Un_assoc)
qed

lemma join_all_iff:
  "foldl join (\<lambda>i. i) es i = foldl join (\<lambda>i. i) es j \<longleftrightarrow> (i, j) \<in> (set es \<union> (set es)\<inverse>)\<^sup>*"
proof -
  have "{(i, j). i = j} \<union> set es \<union> (set es)\<inverse> = Id \<union> (set es \<union> (set es)\<inverse>)" by auto
  then have "{(i, j). i = j} \<union> set es \<union> (set es)\<inverse> = (set es \<union> (set es)\<inverse>)\<^sup>= " by auto
  then show ?thesis using join_kernel [of "\<lambda>i. i" es] by auto
qed

text \<open>What every united pair has in common, every two elements of a set have in common.\<close>

lemma join_all_common:
  assumes "foldl join (\<lambda>i. i) es i = foldl join (\<lambda>i. i) es j"
    and "\<And>a b. (a, b) \<in> set es \<Longrightarrow> f a = f b"
  shows "f i = f j"
proof -
  have "(i, j) \<in> (set es \<union> (set es)\<inverse>)\<^sup>*" using assms(1) by (simp add: join_all_iff)
  then show ?thesis by (induction rule: rtrancl_induct) (auto dest: assms(2))
qed

section \<open>The array of parents meets it\<close>

text \<open>\<open>uf_path p x k r\<close>: going up from \<open>x\<close> reaches the root \<open>r\<close> after \<open>k\<close> steps.\<close>

inductive uf_path :: "nat list \<Rightarrow> nat \<Rightarrow> nat \<Rightarrow> nat \<Rightarrow> bool" for p where
  here: "x < length p \<Longrightarrow> p ! x = x \<Longrightarrow> uf_path p x 0 x"
| up: "x < length p \<Longrightarrow> p ! x \<noteq> x \<Longrightarrow> uf_path p (p ! x) k r \<Longrightarrow> uf_path p x (Suc k) r"

inductive_cases uf_pathE: "uf_path p x k r"

inductive_simps uf_path_0 [simp]: "uf_path p x 0 r"
inductive_simps uf_path_Suc: "uf_path p x (Suc k) r"

lemma uf_path_unique: "uf_path p x k r \<Longrightarrow> uf_path p x k' r' \<Longrightarrow> k = k' \<and> r = r'"
proof (induction arbitrary: k' r' rule: uf_path.induct)
  case (here x)
  from here.prems show ?case by cases (use here.hyps in simp_all)
next
  case (up x k r)
  from up.prems show ?case
  proof cases
    case here
    then show ?thesis using up.hyps(2) by simp
  next
    case (up j)
    then show ?thesis using up.IH by blast
  qed
qed

lemma uf_path_end: "uf_path p x k r \<Longrightarrow> r < length p \<and> p ! r = r"
  by (induction rule: uf_path.induct) auto

lemma uf_path_bound: "uf_path p x k r \<Longrightarrow> x < length p"
  by (erule uf_pathE) auto

text \<open>A node that is not on the way can be changed.\<close>

lemma uf_path_update:
  "uf_path p z j s \<Longrightarrow> uf_path p x k r \<Longrightarrow> j < k \<Longrightarrow> uf_path (p[x := v]) z j s"
proof (induction rule: uf_path.induct)
  case (here z)
  then have "z \<noteq> x" using uf_path_unique [of p x k r 0 z] uf_path.here [of z p] by auto
  then show ?case using here by (auto simp: nth_list_update)
next
  case (up z j s)
  then have "z \<noteq> x" using uf_path_unique [of p x k r "Suc j" s] uf_path.up [of z p j s] by auto
  then show ?case using up by (auto intro!: uf_path.up simp: nth_list_update)
qed

lemma uf_path_halve:
  assumes "uf_path p x (Suc k) r" and "uf_path p z j s"
  shows "\<exists>j'. uf_path (p[x := p ! (p ! x)]) z j' s"
  using assms(2)
proof (induction rule: uf_path.induct)
  case (here z)
  then have "z \<noteq> x" using assms(1) by (auto simp: uf_path_Suc)
  then show ?case using here by (intro exI [of _ 0]) (auto simp: nth_list_update)
next
  case (up z j s)
  let ?p = "p[x := p ! (p ! x)]"
  show ?case
  proof (cases "z = x")
    case False
    obtain j' where "uf_path ?p (p ! z) j' s" using up by blast
    then have "uf_path ?p z (Suc j') s"
      using up False by (intro uf_path.up) (simp_all add: nth_list_update)
    then show ?thesis by blast
  next
    case True
    have x: "x < length p" "p ! x \<noteq> x" "uf_path p (p ! x) k r" using assms(1) by (auto simp: uf_path_Suc)
    have s: "s = r" using up True uf_path_unique x(3) by blast
    obtain m where m: "uf_path p (p ! (p ! x)) m r" "m \<le> k"
    proof (cases k)
      case 0
      then show ?thesis using x(3) that [of 0] by auto
    next
      case (Suc k')
      then show ?thesis using x(3) that [of k'] by (auto simp: uf_path_Suc)
    qed
    have "p ! (p ! x) \<noteq> x"
    proof
      assume "p ! (p ! x) = x"
      then have "m = Suc k" using uf_path_unique [OF _ assms(1)] m(1) by metis
      then show False using m(2) by simp
    qed
    moreover have "uf_path ?p (p ! (p ! x)) m r"
      using uf_path_update [OF m(1) assms(1)] m(2) by simp
    ultimately have "uf_path ?p x (Suc m) r"
      using x(1) by (intro uf_path.up) simp_all
    then show ?thesis using True s by blast
  qed
qed

definition uf_ok :: "nat \<Rightarrow> nat list \<Rightarrow> (nat \<Rightarrow> nat) \<Rightarrow> bool" where
  "uf_ok n p rep \<longleftrightarrow> length p = n \<and> (\<forall>x<n. \<exists>k. uf_path p x k (rep x))"

lemma uf_find_ok_path:
  "uf_ok n p rep \<Longrightarrow> uf_path p x k (rep x) \<Longrightarrow> rep x = r \<Longrightarrow>
   \<exists>p'. uf_find p x = Some (r, p') \<and> uf_ok n p' rep"
proof (induction k arbitrary: p x rule: less_induct)
  case (less k)
  show ?case
  proof (cases k)
    case 0
    then show ?thesis using less.prems by (subst uf_find.simps) auto
  next
    case (Suc k')
    let ?y = "p ! (p ! x)" and ?p = "p[x := p ! (p ! x)]"
    have x: "p ! x \<noteq> x" "uf_path p (p ! x) k' r" using less.prems Suc by (auto simp: uf_path_Suc)
    obtain m where m: "uf_path p ?y m r" "m \<le> k'"
    proof (cases k')
      case 0
      then show ?thesis using x(2) that [of 0] by auto
    next
      case (Suc k'')
      then show ?thesis using x(2) that [of k''] by (auto simp: uf_path_Suc)
    qed
    have ok: "uf_ok n ?p rep"
      using less.prems(1,2) uf_path_halve [of p x k' "rep x"] Suc by (auto simp: uf_ok_def)
    have path: "uf_path ?p ?y m r"
      using uf_path_update [OF m(1) less.prems(2)] m(2) Suc by simp
    have "?y < n" using uf_path_bound [OF m(1)] less.prems(1) by (simp add: uf_ok_def)
    then have rep: "rep ?y = r"
      using uf_path_unique [OF m(1)] less.prems(1) by (auto simp: uf_ok_def)
    have "\<exists>p'. uf_find ?p ?y = Some (r, p') \<and> uf_ok n p' rep"
      using less.IH [of m ?p ?y] ok path rep m(2) Suc by simp
    then show ?thesis using x(1) by (subst uf_find.simps) simp
  qed
qed

lemma uf_find_ok: "uf_ok n p rep \<Longrightarrow> x < n \<Longrightarrow> \<exists>p'. uf_find p x = Some (rep x, p') \<and> uf_ok n p' rep"
  using uf_find_ok_path by (metis uf_ok_def)

lemma uf_root:
  assumes "uf_ok n p rep" and "x < n"
  shows "rep x < n \<and> p ! rep x = rep x \<and> rep (rep x) = rep x"
proof -
  obtain k where k: "uf_path p x k (rep x)" using assms by (auto simp: uf_ok_def)
  have r: "rep x < n" "p ! rep x = rep x" using uf_path_end [OF k] assms(1) by (auto simp: uf_ok_def)
  then obtain j where "uf_path p (rep x) j (rep (rep x))" using assms(1) by (auto simp: uf_ok_def)
  moreover have "uf_path p (rep x) 0 (rep x)" using r assms(1) by (simp add: uf_ok_def)
  ultimately show ?thesis using r uf_path_unique by blast
qed

lemma uf_link_path:
  assumes "uf_path p z k s" and "ra < length p" "p ! ra = ra" "rb < length p" "p ! rb = rb" "ra \<noteq> rb"
  shows "\<exists>j. uf_path (p[ra := rb]) z j (if s = ra then rb else s)"
  using assms
proof (induction rule: uf_path.induct)
  case (here z)
  let ?p = "p[ra := rb]"
  have rb: "uf_path ?p rb 0 rb" using here by (simp add: nth_list_update)
  show ?case
  proof (cases "z = ra")
    case True
    then have "uf_path ?p z (Suc 0) rb"
      using here rb by (intro uf_path.up) (simp_all add: nth_list_update)
    then show ?thesis using True by auto
  next
    case False
    then have "uf_path ?p z 0 z" using here by (simp add: nth_list_update)
    then show ?thesis using False unfolding if_not_P [OF False] by blast
  qed
next
  case (up z k s)
  then have z: "z \<noteq> ra" by auto
  obtain j where "uf_path (p[ra := rb]) (p ! z) j (if s = ra then rb else s)" using up by blast
  then have "uf_path (p[ra := rb]) z (Suc j) (if s = ra then rb else s)"
    using up z by (intro uf_path.up) (simp_all add: nth_list_update)
  then show ?case by blast
qed

lemma uf_union_ok:
  assumes "uf_ok n p rep" and "a < n" "b < n"
  shows "\<exists>p'. uf_union p a b = Some p' \<and> uf_ok n p' (join rep (a, b))"
proof -
  obtain p1 where p1: "uf_find p a = Some (rep a, p1)" "uf_ok n p1 rep"
    using uf_find_ok [OF assms(1,2)] by auto
  obtain p2 where p2: "uf_find p1 b = Some (rep b, p2)" "uf_ok n p2 rep"
    using uf_find_ok [OF p1(2) assms(3)] by auto
  have roots: "rep a < n" "p2 ! rep a = rep a" "rep b < n" "p2 ! rep b = rep b"
    using uf_root [OF p2(2)] assms(2,3) by auto
  have "uf_ok n (p2[rep a := rep b]) (join rep (a, b))"
  proof (cases "rep a = rep b")
    case True
    then have "p2[rep a := rep b] = p2" using roots by (metis list_update_id)
    moreover have "join rep (a, b) = rep" using True by (auto simp: join_def)
    ultimately show ?thesis using p2(2) by simp
  next
    case False
    then show ?thesis
      using p2(2) roots uf_link_path [of p2 _ _ _ "rep a" "rep b"]
      unfolding uf_ok_def join_def by (auto, (metis (full_types))+)
  qed
  then show ?thesis using p1(1) p2(1) by (simp add: uf_union_def)
qed

lemma uf_start: "uf_ok n [0..<n] (\<lambda>i. i)"
  by (auto simp: uf_ok_def intro!: exI [of _ 0])

interpretation uf: disjoint_sets uf_ok uf_find uf_union
  by unfold_locales (rule uf_find_ok uf_union_ok, assumption+)+

section \<open>Properties\<close>

text \<open>
  C6: the disjoint sets of groupPatterns. Starting from singletons, any run of unions ends, and the
  loop that groups elements by find ends with the connected components of the pairs united.
\<close>

theorem components_connected:
  assumes "\<forall>(a, b)\<in>set es. a < n \<and> b < n" and "\<forall>i\<in>set js. i < n"
  shows "\<exists>rep. Option.bind (union_all uf_union es [0..<n]) (\<lambda>parent. components uf_find js parent []) =
      Some (group_list rep js) \<and>
    (\<forall>i j. rep i = rep j \<longleftrightarrow> (i, j) \<in> (set es \<union> (set es)\<inverse>)\<^sup>*)"
  using uf.union_components [OF uf_start assms] join_all_iff [of es] by blast

theorem components_connected_witness:
  "\<exists>rep. Option.bind (union_all uf_union [(0, 2), (3, 2)] [0..<4])
       (\<lambda>parent. components uf_find [0, 1, 2, 3] parent []) = Some (group_list rep [0, 1, 2, 3]) \<and>
     (\<forall>i j. rep i = rep j \<longleftrightarrow> (i, j) \<in> (set [(0, 2), (3, 2)] \<union> (set [(0, 2), (3, 2)])\<inverse>)\<^sup>*)"
  by (rule components_connected) simp_all


end
