(* ===== verification/Patterns.thy ===== *)
theory Patterns
  imports Problems UnionFind
begin

text \<open>
  The patterns of the home page (problems.go): namespace problems that look like one cause are
  linked, the linked sets found with disjoint sets, and every set that spans two or more
  namespaces becomes one row. An index the Go code would panic on is \<open>None\<close>.
\<close>

section \<open>Links\<close>

definition primary :: "Problem \<Rightarrow> string" where
  "primary p = (case pbReasons p of [] \<Rightarrow> '''' | r # _ \<Rightarrow> rcReason r)"

text \<open>\<open>Namespaces[0]\<close>, where it is there (\<open>groupPatterns\<close> checks all of them).\<close>

definition home_ns :: "Problem \<Rightarrow> string" where
  "home_ns p = pbNamespaces p ! 0"

text \<open>\<open>-d\<close> in 64 bits: the most negative duration is its own negative.\<close>

definition neg_duration :: "duration \<Rightarrow> duration" where
  "neg_duration d = (if d = min_duration then min_duration else - d)"

definition linked :: "Problem \<Rightarrow> Problem \<Rightarrow> bool" where
  "linked pa pb \<longleftrightarrow>
     \<not> (home_ns pa = home_ns pb \<or> pbTier pa \<noteq> pbTier pb) \<and>
     (let d0 = time_sub (pbFirstSeen pa) (pbFirstSeen pb);
          d = (if d0 < 0 then neg_duration d0 else d0)
      in d \<le> patternStartWindow \<or> pbTitle pa = pbTitle pb \<and> primary pa = primary pb)"

fun linked_pairs :: "Problem list \<Rightarrow> nat list \<Rightarrow> (nat \<times> nat) list" where
  "linked_pairs problems [] = []"
| "linked_pairs problems (a # idx) =
     map (Pair a) (filter (\<lambda>b. linked (problems ! a) (problems ! b)) idx) @ linked_pairs problems idx"

text \<open>\<open>len(nss)\<close>: how many namespaces a set of problems spans.\<close>

definition ns_count :: "Problem list \<Rightarrow> nat list \<Rightarrow> nat" where
  "ns_count problems members = length (remdups (map (\<lambda>i. home_ns (problems ! i)) members))"

definition infra_pairs :: "Problem list \<Rightarrow> nat list \<Rightarrow> (nat \<times> nat) list" where
  "infra_pairs problems idx =
     (let byReason = group_list (\<lambda>i. (primary (problems ! i), pbTier (problems ! i)))
                       (filter (\<lambda>i. infraReasons (primary (problems ! i))) idx)
      in concat (map (\<lambda>(_, members).
           if ns_count problems members \<ge> 3 then map (Pair (members ! 0)) (drop 1 members) else [])
         byReason))"

section \<open>A pattern row\<close>

definition member_less :: "Problem \<Rightarrow> Problem \<Rightarrow> bool" where
  "member_less a b =
     (if pbOccurrences a \<noteq> pbOccurrences b then pbOccurrences a > pbOccurrences b
      else pbKey a < pbKey b)"

interpretation member_order: keyed_order member_less "\<lambda>p. (- pbOccurrences p, pbKey p)"
  by unfold_locales (auto simp: member_less_def)

definition patternItem :: "Problem \<Rightarrow> PatternItem" where
  "patternItem m = \<lparr>piNamespace = home_ns m, piKind = pbKind m, piName = pbTitle m,
     piReason = rcReason (pbReasons m ! 0), piOccurrences = pbOccurrences m, piLast = pbLast m,
     piIdle = pbIdle m, piFocus = pbFocus m\<rparr>"

record pattern_state =
  psCounts :: "(string, int) gomap"
  psPrimaries :: "(string, int) gomap"
  psOccurrences :: int
  psFirstSeen :: time
  psLastSeen :: time
  psMessage :: string
  psCascade :: bool

definition pattern_step :: "pattern_state \<Rightarrow> Problem \<Rightarrow> pattern_state" where
  "pattern_step s m =
     s\<lparr>psCounts := foldl (\<lambda>c r. count_add (rcReason r) (rcCount r) c) (psCounts s) (pbReasons m),
       psPrimaries := count_add (rcReason (pbReasons m ! 0)) (pbOccurrences m) (psPrimaries s),
       psOccurrences := psOccurrences s + pbOccurrences m,
       psFirstSeen := (if psFirstSeen s = 0 \<or> pbFirstSeen m < psFirstSeen s
                       then pbFirstSeen m else psFirstSeen s),
       psLastSeen := (if pbLastSeen m > psLastSeen s then pbLastSeen m else psLastSeen s),
       psMessage := (if pbLastSeen m > psLastSeen s then pbMessage m else psMessage s),
       psCascade := psCascade s \<or> pbCascade m\<rparr>"

definition pattern_title :: "bool \<Rightarrow> string \<Rightarrow> ReasonCount list \<Rightarrow> nat \<Rightarrow> string" where
  "pattern_title sameName name prim n =
     (let suffix = '' in '' @ itoa (int n) @ '' namespaces'' in
      if sameName then name @ suffix
      else if length prim = 1 then rcReason (prim ! 0) @ suffix
      else if length prim = 2 then rcReason (prim ! 0) @ '' + '' @ rcReason (prim ! 1) @ suffix
      else rcReason (prim ! 0) @ '' + '' @ itoa (int (length prim) - 1) @ '' more'' @ suffix)"

definition en_dash :: string where
  "en_dash = [CHR 0xE2, CHR 0x80, CHR 0x93]"

text \<open>
  Why the members were grouped, from the spread of their first occurrences. \<open>int(x+0.5)\<close> rounds
  the seconds to the nearest whole one; float64 is exact enough below ten seconds.
\<close>

definition pattern_reason :: "time_format \<Rightarrow> bool \<Rightarrow> string \<Rightarrow> nat \<Rightarrow> time \<Rightarrow> time \<Rightarrow> string" where
  "pattern_reason fmt sameName name n minFirst maxFirst =
     (let spread = time_sub maxFirst minFirst in
      if spread < second then
        ''All started in the same second, '' @ fmt ''2 Jan 15:04:05'' minFirst @ ''.''
      else if spread \<le> patternStartWindow then
        ''All first seen within '' @ itoa ((spread + second div 2) div second) @
        ''s of each other, '' @ fmt ''2 Jan 15:04:05'' minFirst @ en_dash @
        fmt ''15:04:05'' maxFirst @ ''.''
      else if sameName then
        ''The same workload, '' @ name @ '', failing the same way in '' @ itoa (int n) @ '' namespaces.''
      else ''The same reason in '' @ itoa (int n) @ '' namespaces.'')"

definition first_span :: "Problem list \<Rightarrow> time \<times> time" where
  "first_span ps =
     foldl (\<lambda>(lo, hi) m.
       (if lo = 0 \<or> pbFirstSeen m < lo then pbFirstSeen m else lo,
        if pbFirstSeen m > hi then pbFirstSeen m else hi)) (0, 0) ps"

definition makePattern :: "time_format \<Rightarrow> Problem list \<Rightarrow> time \<Rightarrow> Problem option" where
  "makePattern fmt members now =
     (if members = [] \<or> (\<exists>m\<in>set members. pbNamespaces m = [] \<or> pbReasons m = []) then None
      else
        let ps = go_sort member_less members;
            s = foldl pattern_step \<lparr>psCounts = [], psPrimaries = [], psOccurrences = 0,
                  psFirstSeen = 0, psLastSeen = 0, psMessage = '''', psCascade = False\<rparr> ps;
            namespaces = sort (remdups (map home_ns ps));
            n = length namespaces;
            sameKind = list_all (\<lambda>m. pbKind m = pbKind (hd ps)) (tl ps);
            sameName = list_all (\<lambda>m. pbTitle m = pbTitle (hd ps)) (tl ps);
            (minFirst, maxFirst) = first_span ps;
            p0 = zeroProblem\<lparr>pbScope := ''pattern'',
                   pbKey := ''pattern:'' @ str_join '','' (sort (map pbKey ps)),
                   pbNamespaces := namespaces,
                   pbKind := (if sameKind then pbKind (hd ps) else ''''),
                   pbOccurrences := psOccurrences s, pbFirstSeen := psFirstSeen s,
                   pbLastSeen := psLastSeen s, pbMessage := psMessage s,
                   pbCascade := psCascade s, pbItems := map patternItem ps,
                   pbReasons := sortedReasons (psCounts s)\<rparr>
        in Some ((setTiming now p0)\<lparr>pbTier := pbTier (hd ps),
              pbTitle := pattern_title sameName (pbTitle (hd ps)) (sortedReasons (psPrimaries s)) n,
              pbPattern := pattern_reason fmt sameName (pbTitle (hd ps)) n minFirst maxFirst\<rparr>))"

section \<open>Grouping\<close>

definition groupPatterns :: "time_format \<Rightarrow> Problem list \<Rightarrow> time \<Rightarrow> Problem list option" where
  "groupPatterns fmt problems now =
     (let n = length problems;
          idx = filter (\<lambda>i. pbScope (problems ! i) = ''namespace'') [0..<n]
      in if \<exists>i\<in>set idx. pbNamespaces (problems ! i) = [] then None
         else
           Option.bind (union_all uf_union (linked_pairs problems idx @ infra_pairs problems idx) [0..<n]) (\<lambda>parent.
           Option.bind (components uf_find idx parent []) (\<lambda>comps.
             let wide = filter (\<lambda>(_, members). \<not> ns_count problems members < 2) comps;
                 merged = concat (map snd wide)
             in Option.bind (those (map (\<lambda>(_, members). makePattern fmt (map ((!) problems) members) now) wide))
                  (\<lambda>patterns.
                    Some (patterns @
                      map ((!) problems) (filter (\<lambda>i. i \<notin> set merged) [0..<n]))))))"

definition problem_less :: "Problem \<Rightarrow> Problem \<Rightarrow> bool" where
  "problem_less a b =
     (if tierOrder (pbTier a) \<noteq> tierOrder (pbTier b) then tierOrder (pbTier a) < tierOrder (pbTier b)
      else if pbCascade a \<noteq> pbCascade b then pbCascade a
      else if pbIdle a \<noteq> pbIdle b then \<not> pbIdle a
      else if pbLastSeen a \<noteq> pbLastSeen b then pbLastSeen a > pbLastSeen b
      else pbKey a < pbKey b)"

definition problem_key :: "Problem \<Rightarrow> nat \<times> bool \<times> bool \<times> int \<times> string" where
  "problem_key p = (tierOrder (pbTier p), \<not> pbCascade p, pbIdle p, - pbLastSeen p, pbKey p)"

interpretation problem_order: keyed_order problem_less problem_key
  by unfold_locales (auto simp: problem_less_def problem_key_def)

definition sortProblems :: "Problem list \<Rightarrow> Problem list" where
  "sortProblems ps = go_sort problem_less ps"

section \<open>A pattern keeps what its members say\<close>

text \<open>What a problem must have for the indexing to be in range.\<close>

definition indexable :: "Problem \<Rightarrow> bool" where
  "indexable p \<longleftrightarrow> pbNamespaces p \<noteq> [] \<and> pbReasons p \<noteq> []"

lemma pattern_fold_occurrences:
  "psOccurrences (foldl pattern_step s ps) = psOccurrences s + sum_list (map pbOccurrences ps)"
  by (induction ps arbitrary: s) (auto simp: pattern_step_def)

lemma sum_reasons_fold:
  "sum_list (map snd (foldl (\<lambda>c r. count_add (rcReason r) (rcCount r) c) c rs)) =
   sum_list (map snd c) + sum_list (map rcCount rs)"
  by (induction rs arbitrary: c) (auto simp: sum_count_add)

lemma pattern_fold_counts:
  "sum_list (map snd (psCounts (foldl pattern_step s ps))) =
   sum_list (map snd (psCounts s)) + sum_list (map (\<lambda>p. sum_list (map rcCount (pbReasons p))) ps)"
  by (induction ps arbitrary: s) (auto simp: pattern_step_def sum_reasons_fold)

lemma makePattern_Some:
  assumes "makePattern fmt ms now = Some p"
  shows "ms \<noteq> []" and "\<forall>m\<in>set ms. indexable m"
    and "pbScope p = ''pattern''"
    and "pbNamespaces p = sort (remdups (map home_ns (go_sort member_less ms)))"
    and "pbOccurrences p = sum_list (map pbOccurrences ms)"
    and "sum_list (map rcCount (pbReasons p)) = sum_list (map (\<lambda>p. sum_list (map rcCount (pbReasons p))) ms)"
    and "pbItems p = map patternItem (go_sort member_less ms)"
    and "pbTier p = pbTier (hd (go_sort member_less ms))"
    and "pbKey p = ''pattern:'' @ str_join '','' (sort (map pbKey ms))"
proof -
  have ms: "ms \<noteq> []" "\<forall>m\<in>set ms. indexable m"
    using assms by (auto simp: makePattern_def indexable_def split: if_splits)
  then show "ms \<noteq> []" "\<forall>m\<in>set ms. indexable m" by simp_all
  let ?ps = "go_sort member_less ms"
  let ?s = "foldl pattern_step \<lparr>psCounts = [], psPrimaries = [], psOccurrences = 0,
      psFirstSeen = 0, psLastSeen = 0, psMessage = '''', psCascade = False\<rparr> ?ps"
  have sums: "sum_list (map f ?ps) = sum_list (map f ms)" for f :: "Problem \<Rightarrow> int"
    by (rule sum_list_mset_cong) simp
  have keys: "sort (map pbKey ?ps) = sort (map pbKey ms)"
    by (rule properties_for_sort) simp_all
  have p: "pbScope p = ''pattern''" "pbNamespaces p = sort (remdups (map home_ns ?ps))"
    "pbOccurrences p = psOccurrences ?s" "pbReasons p = sortedReasons (psCounts ?s)"
    "pbItems p = map patternItem ?ps" "pbTier p = pbTier (hd ?ps)"
    "pbKey p = ''pattern:'' @ str_join '','' (sort (map pbKey ?ps))"
    using assms
    by (auto simp: makePattern_def Let_def setTiming_def split: if_splits prod.splits)
  show "pbScope p = ''pattern''" "pbNamespaces p = sort (remdups (map home_ns ?ps))"
    "pbItems p = map patternItem ?ps" "pbTier p = pbTier (hd ?ps)"
    using p by simp_all
  show "pbOccurrences p = sum_list (map pbOccurrences ms)"
    by (simp add: p pattern_fold_occurrences sums)
  show "sum_list (map rcCount (pbReasons p)) = sum_list (map (\<lambda>p. sum_list (map rcCount (pbReasons p))) ms)"
    by (simp add: p sum_sortedReasons pattern_fold_counts sums)
  show "pbKey p = ''pattern:'' @ str_join '','' (sort (map pbKey ms))"
    by (simp add: p keys)
qed

lemma makePattern_returns:
  "ms \<noteq> [] \<Longrightarrow> \<forall>m\<in>set ms. indexable m \<Longrightarrow> \<exists>p. makePattern fmt ms now = Some p"
  by (auto simp: makePattern_def indexable_def Let_def split: prod.splits)

section \<open>The linked sets\<close>

definition ns_problems :: "Problem list \<Rightarrow> nat list" where
  "ns_problems ps = filter (\<lambda>i. pbScope (ps ! i) = ''namespace'') [0..<length ps]"

definition pairs_of :: "Problem list \<Rightarrow> (nat \<times> nat) list" where
  "pairs_of ps = linked_pairs ps (ns_problems ps) @ infra_pairs ps (ns_problems ps)"

definition rep_of :: "Problem list \<Rightarrow> nat \<Rightarrow> nat" where
  "rep_of ps = foldl join (\<lambda>i. i) (pairs_of ps)"

definition wide_sets :: "Problem list \<Rightarrow> (nat \<times> nat list) list" where
  "wide_sets ps = filter (\<lambda>(_, ms). 2 \<le> ns_count ps ms) (group_list (rep_of ps) (ns_problems ps))"

definition merged_of :: "Problem list \<Rightarrow> nat list" where
  "merged_of ps = concat (map snd (wide_sets ps))"

text \<open>Every namespace problem can be indexed; what \<open>groupProblem\<close> builds always can.\<close>

definition all_indexable :: "Problem list \<Rightarrow> bool" where
  "all_indexable ps \<longleftrightarrow> (\<forall>p\<in>set ps. pbScope p = ''namespace'' \<longrightarrow> indexable p)"

lemma ns_problems_set: "set (ns_problems ps) = {i. i < length ps \<and> pbScope (ps ! i) = ''namespace''}"
  by (auto simp: ns_problems_def)

lemma distinct_ns_problems [simp]: "distinct (ns_problems ps)"
  by (simp add: ns_problems_def)

lemma linked_pairs_mem:
  "(a, b) \<in> set (linked_pairs ps idx) \<Longrightarrow> a \<in> set idx \<and> b \<in> set idx \<and> linked (ps ! a) (ps ! b)"
  by (induction idx) auto

lemma linked_pairs_complete:
  "sorted_wrt (<) idx \<Longrightarrow> a \<in> set idx \<Longrightarrow> b \<in> set idx \<Longrightarrow> a < b \<Longrightarrow> linked (ps ! a) (ps ! b) \<Longrightarrow>
   (a, b) \<in> set (linked_pairs ps idx)"
  by (induction idx) auto

lemma infra_pairs_mem:
  assumes "(a, b) \<in> set (infra_pairs ps idx)"
  shows "a \<in> set idx \<and> b \<in> set idx \<and> pbTier (ps ! a) = pbTier (ps ! b) \<and>
    primary (ps ! a) = primary (ps ! b) \<and> infraReasons (primary (ps ! a))"
proof -
  let ?sel = "filter (\<lambda>i. infraReasons (primary (ps ! i))) idx"
  let ?key = "\<lambda>i. (primary (ps ! i), pbTier (ps ! i))"
  from assms obtain k ms where km: "(k, ms) \<in> set (group_list ?key ?sel)"
    and ab: "(a, b) \<in> set (map (Pair (ms ! 0)) (drop 1 ms))"
    by (auto simp: infra_pairs_def Let_def split: if_splits)
  have ms: "ms = filter (\<lambda>i. ?key i = k) ?sel" "ms \<noteq> []"
    using km unfolding group_list_entry by blast+
  have "a \<in> set ms" "b \<in> set ms"
    using ab ms(2) by (auto dest: in_set_dropD)
  then show ?thesis unfolding ms(1) by auto
qed

lemma pairs_of_mem:
  "(a, b) \<in> set (pairs_of ps) \<Longrightarrow>
   a \<in> set (ns_problems ps) \<and> b \<in> set (ns_problems ps) \<and> pbTier (ps ! a) = pbTier (ps ! b)"
  by (auto simp: pairs_of_def linked_def dest: linked_pairs_mem infra_pairs_mem)

lemma rep_of_tier: "rep_of ps i = rep_of ps j \<Longrightarrow> pbTier (ps ! i) = pbTier (ps ! j)"
  unfolding rep_of_def
  by (rule join_all_common [of "pairs_of ps" i j "\<lambda>i. pbTier (ps ! i)"]) (auto dest: pairs_of_mem)

lemma wide_set_mem:
  assumes "(r, ms) \<in> set (wide_sets ps)"
  shows "ms = filter (\<lambda>i. rep_of ps i = r) (ns_problems ps)" and "ms \<noteq> []"
    and "2 \<le> ns_count ps ms" and "set ms \<subseteq> set (ns_problems ps)"
  using assms by (auto simp: wide_sets_def group_list_entry)

lemma merged_subset: "mset (merged_of ps) \<subseteq># mset (ns_problems ps)"
  unfolding merged_of_def wide_sets_def
  by (metis concat_filter_subset group_list_partition)

lemma merged_of_props: "distinct (merged_of ps)" "set (merged_of ps) \<subseteq> set (ns_problems ps)"
proof -
  show "distinct (merged_of ps)"
    by (rule distinct_submset [OF merged_subset distinct_ns_problems])
  show "set (merged_of ps) \<subseteq> set (ns_problems ps)"
    using merged_subset set_mset_mono by fastforce
qed

lemma groupPatterns_eq:
  assumes "all_indexable ps"
  shows "\<exists>patterns. groupPatterns fmt ps now =
      Some (patterns @ map ((!) ps) (filter (\<lambda>i. i \<notin> set (merged_of ps)) [0..<length ps])) \<and>
    list_all2 (\<lambda>w p. makePattern fmt (map ((!) ps) (snd w)) now = Some p) (wide_sets ps) patterns"
proof -
  let ?n = "length ps"
  have idx: "\<forall>i\<in>set (ns_problems ps). i < ?n \<and> indexable (ps ! i)"
    using assms by (auto simp: ns_problems_set all_indexable_def)
  have no_panic: "\<not> (\<exists>i\<in>set (ns_problems ps). pbNamespaces (ps ! i) = [])"
    using idx by (auto simp: indexable_def)
  have comps: "Option.bind (union_all uf_union (pairs_of ps) [0..<?n])
      (\<lambda>p'. components uf_find (ns_problems ps) p' []) = Some (group_list (rep_of ps) (ns_problems ps))"
    unfolding rep_of_def
    by (rule uf.union_components [OF uf_start]) (use idx pairs_of_mem in auto)
  have returns: "\<exists>p. makePattern fmt (map ((!) ps) (snd w)) now = Some p" if "w \<in> set (wide_sets ps)" for w
  proof (rule makePattern_returns)
    obtain r ms where w: "w = (r, ms)" by (cases w)
    show "map ((!) ps) (snd w) \<noteq> []" "\<forall>m\<in>set (map ((!) ps) (snd w)). indexable m"
      using wide_set_mem [of r ms ps] that idx by (auto simp: w)
  qed
  define pat where "pat w = the (makePattern fmt (map ((!) ps) (snd w)) now)" for w :: "nat \<times> nat list"
  have pat: "makePattern fmt (map ((!) ps) (snd w)) now = Some (pat w)" if "w \<in> set (wide_sets ps)" for w
    using returns [OF that] by (auto simp: pat_def)
  have th: "those (map (\<lambda>(_, ms). makePattern fmt (map ((!) ps) ms) now) (wide_sets ps)) =
      Some (map pat (wide_sets ps))"
    by (rule those_map_Some) (use pat in \<open>auto simp: case_prod_beta\<close>)
  obtain parent where parent: "union_all uf_union (pairs_of ps) [0..<?n] = Some parent"
    "components uf_find (ns_problems ps) parent [] = Some (group_list (rep_of ps) (ns_problems ps))"
    using comps by (auto simp: Option.bind_eq_Some_conv)
  have "groupPatterns fmt ps now =
      Some (map pat (wide_sets ps) @ map ((!) ps) (filter (\<lambda>i. i \<notin> set (merged_of ps)) [0..<?n]))"
    unfolding groupPatterns_def Let_def ns_problems_def [symmetric] pairs_of_def [symmetric] not_less
      if_not_P [OF no_panic] parent bind.bind_lunit wide_sets_def [symmetric]
      merged_of_def [symmetric] th ..
  moreover have "list_all2 (\<lambda>w p. makePattern fmt (map ((!) ps) (snd w)) now = Some p)
      (wide_sets ps) (map pat (wide_sets ps))"
    by (simp add: list_all2_conv_all_nth pat)
  ultimately show ?thesis by blast
qed


section \<open>What the grouping guarantees\<close>

lemma list_all2_sum:
  "list_all2 (\<lambda>w p. f w = g p) ws ps \<Longrightarrow> sum_list (map f ws) = sum_list (map g ps)"
  by (induction rule: list_all2_induct) auto

lemma sum_list_concat: "sum_list (map f (concat xss)) = sum_list (map (\<lambda>xs. sum_list (map f xs)) xss)"
  by (induction xss) auto

text \<open>A quantity a pattern takes as the sum over its members is the same before and after.\<close>

lemma groupPatterns_sum:
  fixes f :: "Problem \<Rightarrow> int"
  assumes ok: "all_indexable ps" and g: "groupPatterns fmt ps now = Some out"
    and f: "\<And>ms p. makePattern fmt ms now = Some p \<Longrightarrow> f p = sum_list (map f ms)"
  shows "sum_list (map f out) = sum_list (map f ps)"
proof -
  let ?rest = "filter (\<lambda>i. i \<notin> set (merged_of ps)) [0..<length ps]"
  obtain pats where out: "out = pats @ map ((!) ps) ?rest"
    and pats: "list_all2 (\<lambda>w p. makePattern fmt (map ((!) ps) (snd w)) now = Some p) (wide_sets ps) pats"
    using groupPatterns_eq [OF ok, of fmt now] g by auto
  have "list_all2 (\<lambda>w p. sum_list (map (\<lambda>i. f (ps ! i)) (snd w)) = f p) (wide_sets ps) pats"
    using pats by (rule list_all2_mono) (simp add: f comp_def)
  then have "sum_list (map (\<lambda>w. sum_list (map (\<lambda>i. f (ps ! i)) (snd w))) (wide_sets ps)) = sum_list (map f pats)"
    by (rule list_all2_sum)
  then have "sum_list (map f pats) = sum_list (map (\<lambda>i. f (ps ! i)) (merged_of ps))"
    by (simp add: merged_of_def sum_list_concat comp_def)
  moreover have "sum_list (map (\<lambda>i. f (ps ! i)) [0..<length ps]) =
      sum_list (map (\<lambda>i. f (ps ! i)) (merged_of ps)) + sum_list (map (\<lambda>i. f (ps ! i)) ?rest)"
    using merged_of_props [of ps] by (intro sum_split_indexes) (auto simp: ns_problems_set)
  moreover have "map (\<lambda>i. f (ps ! i)) [0..<length ps] = map f ps"
    using map_nth_upt [of ps] by (metis (no_types, lifting) comp_def map_eq_conv map_map)
  ultimately show ?thesis by (simp add: out comp_def)
qed

lemma groupPatterns_occurrences:
  "all_indexable ps \<Longrightarrow> groupPatterns fmt ps now = Some out \<Longrightarrow>
   sum_list (map pbOccurrences out) = sum_list (map pbOccurrences ps)"
  by (rule groupPatterns_sum) (auto dest: makePattern_Some(5))

lemma groupPatterns_reasons:
  "all_indexable ps \<Longrightarrow> groupPatterns fmt ps now = Some out \<Longrightarrow>
   sum_list (map (\<lambda>p. sum_list (map rcCount (pbReasons p))) out) =
   sum_list (map (\<lambda>p. sum_list (map rcCount (pbReasons p))) ps)"
  by (rule groupPatterns_sum) (auto dest: makePattern_Some(6))

text \<open>The number of rows a pattern replaces is the number of its items.\<close>

lemma groupPatterns_items:
  assumes "all_indexable ps" and "groupPatterns fmt ps now = Some out"
    and "\<forall>p\<in>set ps. pbScope p \<noteq> ''pattern''"
  shows "sum_list (map (\<lambda>p. if pbScope p = ''pattern'' then length (pbItems p) else 1) out) = length ps"
proof -
  let ?f = "\<lambda>p. if pbScope p = ''pattern'' then length (pbItems p) else 1"
  let ?rest = "filter (\<lambda>i. i \<notin> set (merged_of ps)) [0..<length ps]"
  obtain pats where out: "out = pats @ map ((!) ps) ?rest"
    and pats: "list_all2 (\<lambda>w p. makePattern fmt (map ((!) ps) (snd w)) now = Some p) (wide_sets ps) pats"
    using groupPatterns_eq [OF assms(1), of fmt now] assms(2) by auto
  have "list_all2 (\<lambda>w p. length (snd w) = ?f p) (wide_sets ps) pats"
    using pats by (rule list_all2_mono) (simp add: makePattern_Some(3,7))
  then have "sum_list (map (\<lambda>w. length (snd w)) (wide_sets ps)) = sum_list (map ?f pats)"
    by (rule list_all2_sum)
  then have "sum_list (map ?f pats) = length (merged_of ps)"
    by (simp add: merged_of_def length_concat comp_def)
  moreover have "sum_list (map ?f (map ((!) ps) ?rest)) = length ?rest"
  proof -
    have "map ?f (map ((!) ps) ?rest) = map (\<lambda>_. 1) ?rest"
      using assms(3) by auto
    then show ?thesis by (simp only: sum_list_triv length_map) simp
  qed
  moreover have "sum_list (map (\<lambda>_. 1::nat) [0..<length ps]) =
      sum_list (map (\<lambda>_. 1) (merged_of ps)) + sum_list (map (\<lambda>_. 1) ?rest)"
    using merged_of_props [of ps] by (intro sum_split_indexes) (auto simp: ns_problems_set)
  ultimately show ?thesis by (simp add: out sum_list_triv)
qed

text \<open>A pattern spans two or more namespaces, and all its members share its tier.\<close>

lemma pattern_members:
  assumes ok: "all_indexable ps" and g: "groupPatterns fmt ps now = Some out"
    and p: "p \<in> set out" and new: "p \<notin> set ps \<or> pbScope p = ''pattern'' \<and> (\<forall>q\<in>set ps. pbScope q \<noteq> ''pattern'')"
  obtains r ms where "(r, ms) \<in> set (wide_sets ps)" "makePattern fmt (map ((!) ps) ms) now = Some p"
proof -
  obtain pats where out: "out = pats @ map ((!) ps) (filter (\<lambda>i. i \<notin> set (merged_of ps)) [0..<length ps])"
    and pats: "list_all2 (\<lambda>w p. makePattern fmt (map ((!) ps) (snd w)) now = Some p) (wide_sets ps) pats"
    using groupPatterns_eq [OF ok, of fmt now] g by auto
  have "p \<in> set pats" using p new by (auto simp: out)
  then obtain w where "w \<in> set (wide_sets ps)" "makePattern fmt (map ((!) ps) (snd w)) now = Some p"
    using list_all2_rightD [OF pats] by blast
  then show ?thesis using that [of "fst w" "snd w"] by simp
qed

lemma wide_pattern_facts:
  assumes w: "(r, ms) \<in> set (wide_sets ps)" and m: "makePattern fmt (map ((!) ps) ms) now = Some p"
  shows "\<forall>i\<in>set ms. pbTier (ps ! i) = pbTier p"
    and "2 \<le> length (pbNamespaces p)"
    and "set (pbItems p) = (\<lambda>i. patternItem (ps ! i)) ` set ms"
    and "set (pbNamespaces p) = (\<lambda>i. home_ns (ps ! i)) ` set ms"
proof -
  let ?sorted = "go_sort member_less (map ((!) ps) ms)"
  have ms: "ms = filter (\<lambda>i. rep_of ps i = r) (ns_problems ps)" "ms \<noteq> []" "2 \<le> ns_count ps ms"
    using wide_set_mem [OF w] by blast+
  have "set ?sorted = (!) ps ` set ms" by simp
  moreover have "?sorted \<noteq> []" using ms(2) by simp
  ultimately obtain j where j: "j \<in> set ms" "hd ?sorted = ps ! j"
    by (metis hd_in_set imageE)
  have rep: "rep_of ps i = r" if "i \<in> set ms" for i using that unfolding ms(1) by simp
  have tier: "pbTier p = pbTier (ps ! j)"
    using makePattern_Some(8) [OF m] j(2) by simp
  show "\<forall>i\<in>set ms. pbTier (ps ! i) = pbTier p"
    using rep_of_tier rep j(1) unfolding tier by metis
  have ns: "pbNamespaces p = sort (remdups (map home_ns ?sorted))"
    using makePattern_Some(4) [OF m] .
  show sns: "set (pbNamespaces p) = (\<lambda>i. home_ns (ps ! i)) ` set ms"
    by (simp add: ns image_image)
  have "length (pbNamespaces p) = card (set (pbNamespaces p))"
    by (simp add: ns length_remdups_card_conv)
  also have "\<dots> = ns_count ps ms"
    by (simp add: sns ns_count_def length_remdups_card_conv)
  finally show "2 \<le> length (pbNamespaces p)" using ms(3) by simp
  show "set (pbItems p) = (\<lambda>i. patternItem (ps ! i)) ` set ms"
    by (simp add: makePattern_Some(7) [OF m] image_image)
qed

text \<open>Two problems that are linked end up as items of one pattern.\<close>

lemma linked_together:
  assumes ok: "all_indexable ps" and g: "groupPatterns fmt ps now = Some out"
    and ij: "i < j" "j < length ps" "pbScope (ps ! i) = ''namespace''" "pbScope (ps ! j) = ''namespace''"
    and l: "linked (ps ! i) (ps ! j)"
  shows "\<exists>p\<in>set out. pbScope p = ''pattern'' \<and> pbTier p = pbTier (ps ! i) \<and>
    patternItem (ps ! i) \<in> set (pbItems p) \<and> patternItem (ps ! j) \<in> set (pbItems p)"
proof -
  have mem: "i \<in> set (ns_problems ps)" "j \<in> set (ns_problems ps)"
    using ij by (auto simp: ns_problems_set)
  have "sorted_wrt (<) (ns_problems ps)"
    by (simp add: ns_problems_def sorted_wrt_filter)
  then have "(i, j) \<in> set (pairs_of ps)"
    using linked_pairs_complete [OF _ mem ij(1) l] by (simp add: pairs_of_def)
  then have rep: "rep_of ps i = rep_of ps j"
    unfolding rep_of_def join_all_iff by blast
  let ?ms = "filter (\<lambda>k. rep_of ps k = rep_of ps i) (ns_problems ps)"
  have ms: "i \<in> set ?ms" "j \<in> set ?ms" using mem rep by auto
  have "home_ns (ps ! i) \<noteq> home_ns (ps ! j)" using l by (simp add: linked_def)
  then have "card {home_ns (ps ! i), home_ns (ps ! j)} = 2" by simp
  moreover have "card {home_ns (ps ! i), home_ns (ps ! j)} \<le> card (set (map (\<lambda>i. home_ns (ps ! i)) ?ms))"
    using ms by (intro card_mono) auto
  ultimately have "2 \<le> ns_count ps ?ms"
    unfolding ns_count_def length_remdups_card_conv by linarith
  then have w: "(rep_of ps i, ?ms) \<in> set (wide_sets ps)"
    using ms unfolding wide_sets_def by (auto simp: group_list_entry filter_empty_conv)
  obtain pats where out: "out = pats @ map ((!) ps) (filter (\<lambda>i. i \<notin> set (merged_of ps)) [0..<length ps])"
    and pats: "list_all2 (\<lambda>w p. makePattern fmt (map ((!) ps) (snd w)) now = Some p) (wide_sets ps) pats"
    using groupPatterns_eq [OF ok, of fmt now] g by auto
  obtain p where p: "p \<in> set pats" "makePattern fmt (map ((!) ps) ?ms) now = Some p"
    using list_all2_leftD [OF pats w] by auto
  show ?thesis
    using wide_pattern_facts [OF w p(2)] makePattern_Some(3) [OF p(2)] ms p(1)
    by (intro bexI [of _ p]) (auto simp: out)
qed

lemma groupPatterns_tiers:
  assumes ok: "all_indexable ps" and g: "groupPatterns fmt ps now = Some out" and i: "i < length ps"
  shows "ps ! i \<in> set out \<or>
    (\<exists>p\<in>set out. pbScope p = ''pattern'' \<and> pbTier p = pbTier (ps ! i) \<and> patternItem (ps ! i) \<in> set (pbItems p))"
proof (cases "i \<in> set (merged_of ps)")
  case True
  then obtain r ms where w: "(r, ms) \<in> set (wide_sets ps)" "i \<in> set ms"
    by (auto simp: merged_of_def)
  obtain pats where out: "out = pats @ map ((!) ps) (filter (\<lambda>i. i \<notin> set (merged_of ps)) [0..<length ps])"
    and pats: "list_all2 (\<lambda>w p. makePattern fmt (map ((!) ps) (snd w)) now = Some p) (wide_sets ps) pats"
    using groupPatterns_eq [OF ok, of fmt now] g by auto
  obtain p where p: "p \<in> set pats" "makePattern fmt (map ((!) ps) ms) now = Some p"
    using list_all2_leftD [OF pats w(1)] by auto
  show ?thesis
    using wide_pattern_facts [OF w(1) p(2)] makePattern_Some(3) [OF p(2)] w(2) p(1)
    by (intro disjI2 bexI [of _ p]) (auto simp: out)
next
  case False
  then show ?thesis
    using groupPatterns_eq [OF ok, of fmt now] g i by auto
qed

lemma sorted_sortProblems: "sorted (map problem_key (sortProblems ps))"
  unfolding sortProblems_def by (rule problem_order.sorted_key_go_sort)

lemma set_sortProblems [simp]: "set (sortProblems ps) = set ps"
  by (simp add: sortProblems_def)

lemma mset_sortProblems [simp]: "mset (sortProblems ps) = mset ps"
  by (simp add: sortProblems_def)


section \<open>Properties\<close>

text \<open>
  C4: a pattern row spans two or more namespaces and all its members share its tier, so a new
  problem is never hidden inside an old pattern.
\<close>

theorem pattern_rows:
  assumes "all_indexable ps" and "\<forall>q\<in>set ps. pbScope q \<noteq> ''pattern''"
    and "groupPatterns fmt ps now = Some out" and "p \<in> set out" and "pbScope p = ''pattern''"
  shows "2 \<le> length (pbNamespaces p) \<and>
    (\<exists>ms \<subseteq> set ps. set (pbItems p) = patternItem ` ms \<and>
       (\<forall>m\<in>ms. pbTier m = pbTier p \<and> home_ns m \<in> set (pbNamespaces p)))"
proof -
  obtain r is' where w: "(r, is') \<in> set (wide_sets ps)" "makePattern fmt (map ((!) ps) is') now = Some p"
    using pattern_members [OF assms(1,3,4)] assms(2,5) by blast
  note f = wide_pattern_facts [OF w]
  have "(!) ps ` set is' \<subseteq> set ps"
    using wide_set_mem(4) [OF w(1)] by (auto simp: ns_problems_set)
  then show ?thesis using f
    by (intro conjI exI [of _ "(!) ps ` set is'"]) (auto simp: image_image)
qed

text \<open>
  C3: two namespace rows of one tier, in different namespaces, first seen within the window or with
  the same name and main reason, end up as items of one pattern row.
\<close>

theorem linked_rows_merge:
  assumes "all_indexable ps" and "groupPatterns fmt ps now = Some out"
    and "i < j" and "j < length ps" and "pbScope (ps ! i) = ''namespace''" "pbScope (ps ! j) = ''namespace''"
    and "linked (ps ! i) (ps ! j)"
  shows "\<exists>p\<in>set out. pbScope p = ''pattern'' \<and> pbTier p = pbTier (ps ! i) \<and>
    patternItem (ps ! i) \<in> set (pbItems p) \<and> patternItem (ps ! j) \<in> set (pbItems p)"
  by (rule linked_together [OF assms])

text \<open>
  C5: grouping loses nothing. Each row is there afterwards, itself or as an item of a pattern of its
  tier, and the occurrences shown add up to the same.
\<close>

theorem grouping_keeps_rows:
  assumes "all_indexable ps" and "groupPatterns fmt ps now = Some out"
  shows "(\<forall>p\<in>set ps. p \<in> set out \<or>
      (\<exists>q\<in>set out. pbScope q = ''pattern'' \<and> pbTier q = pbTier p \<and> patternItem p \<in> set (pbItems q))) \<and>
    sum_list (map pbOccurrences out) = sum_list (map pbOccurrences ps)"
  using groupPatterns_tiers [OF assms] groupPatterns_occurrences [OF assms]
  by (metis in_set_conv_nth)

text \<open>Three rows of one app: two start within a second of each other, one is a day older.\<close>

definition sample_row :: "string \<Rightarrow> string \<Rightarrow> time \<Rightarrow> Problem" where
  "sample_row ns tier first = zeroProblem\<lparr>pbKey := ''ns:'' @ ns @ ''/web'', pbScope := ''namespace'',
     pbKind := ''Deployment'', pbTitle := ''web'', pbNamespaces := [ns], pbTier := tier,
     pbReasons := [\<lparr>rcReason = ''BackOff'', rcCount = 3\<rparr>], pbOccurrences := 3,
     pbFirstSeen := first, pbLastSeen := first + second\<rparr>"

definition sample_rows :: "Problem list" where
  "sample_rows = [sample_row ''a'' ''new'' (100 * hour), sample_row ''b'' ''new'' (100 * hour + second),
     sample_row ''c'' ''chronic'' (70 * hour)]"

lemma sample_rows_ok: "all_indexable sample_rows" "\<forall>q\<in>set sample_rows. pbScope q \<noteq> ''pattern''"
  by (simp_all add: sample_rows_def sample_row_def zeroProblem_def all_indexable_def indexable_def)

lemma sample_rows_linked:
  "(0::nat) < 1" "1 < length sample_rows" "pbScope (sample_rows ! 0) = ''namespace''"
  "pbScope (sample_rows ! 1) = ''namespace''" "linked (sample_rows ! 0) (sample_rows ! 1)"
  by (simp_all add: sample_rows_def sample_row_def zeroProblem_def linked_def home_ns_def time_sub_def
      time_units patternStartWindow_def primary_def Let_def neg_duration_def max_duration_def min_duration_def)

theorem linked_rows_merge_witness:
  "\<exists>out. groupPatterns (\<lambda>_ _. '''') sample_rows (101 * hour) = Some out \<and>
     (\<exists>p\<in>set out. pbScope p = ''pattern'' \<and> pbTier p = ''new'' \<and>
        patternItem (sample_rows ! 0) \<in> set (pbItems p) \<and> patternItem (sample_rows ! 1) \<in> set (pbItems p))"
proof -
  obtain out where out: "groupPatterns (\<lambda>_ _. '''') sample_rows (101 * hour) = Some out"
    using groupPatterns_eq [OF sample_rows_ok(1)] by blast
  have "pbTier (sample_rows ! 0) = ''new''"
    by (simp add: sample_rows_def sample_row_def)
  then show ?thesis
    using linked_rows_merge [OF sample_rows_ok(1) out sample_rows_linked] out by auto
qed

theorem pattern_rows_witness:
  "\<exists>out p. groupPatterns (\<lambda>_ _. '''') sample_rows (101 * hour) = Some out \<and> p \<in> set out \<and>
     pbScope p = ''pattern'' \<and> 2 \<le> length (pbNamespaces p)"
proof -
  obtain out where out: "groupPatterns (\<lambda>_ _. '''') sample_rows (101 * hour) = Some out"
    using groupPatterns_eq [OF sample_rows_ok(1)] by blast
  obtain p where p: "p \<in> set out" "pbScope p = ''pattern''"
    using linked_together [OF sample_rows_ok(1) out sample_rows_linked] by blast
  show ?thesis using pattern_rows [OF sample_rows_ok out p] out p by blast
qed

theorem grouping_keeps_rows_witness:
  "\<exists>out. groupPatterns (\<lambda>_ _. '''') sample_rows (101 * hour) = Some out \<and>
     sum_list (map pbOccurrences out) = 9"
proof -
  obtain out where out: "groupPatterns (\<lambda>_ _. '''') sample_rows (101 * hour) = Some out"
    using groupPatterns_eq [OF sample_rows_ok(1)] by blast
  have "sum_list (map pbOccurrences sample_rows) = 9"
    by (simp add: sample_rows_def sample_row_def)
  then show ?thesis using grouping_keeps_rows [OF sample_rows_ok(1) out] out by simp
qed

text \<open>
  A row with no time at all is linked with any later row of its tier: the difference saturates, and
  its negative is negative again.
\<close>

lemma zero_time_links:
  "linked (sample_row ''a'' ''chronic'' 0) ((sample_row ''b'' ''chronic'' (2 ^ 63))\<lparr>pbTitle := ''db''\<rparr>)"
  by (simp add: sample_row_def zeroProblem_def linked_def home_ns_def time_sub_def
      time_units patternStartWindow_def Let_def neg_duration_def max_duration_def min_duration_def)


end
