(* ===== verification/Build.thy ===== *)
theory Build
  imports Patterns
begin

text \<open>
  \<open>buildProblems\<close> (problems.go): from the merged event caches to the sorted rows of the home page,
  with the lookups it asks of the owner resolver. The map of events is read in some order; the
  lemmas at the end say what does not depend on it.
\<close>

section \<open>The loop\<close>

text \<open>
  One group of a namespace: skipped without a warning, else confirmed and turned into a problem.
  \<open>clk\<close> is the clock the owner cache reads, \<open>now\<close> the one of the page.
\<close>

definition emit_group :: "time_format \<Rightarrow> time \<Rightarrow> time \<Rightarrow> Problem list \<times> ownerState \<Rightarrow>
    problemGroup \<Rightarrow> Problem list \<times> ownerState" where
  "emit_group fmt clk now acc g0 =
     (case acc of (problems, st) \<Rightarrow>
        if length (pgWarnings g0) = 0 then (problems, st)
        else
          let g = g0\<lparr>pgInferred := pgHasLinks g0 \<and> \<not> pgConfirmedLink g0\<rparr>;
              st' = confirmOwners clk g st
          in (problems @ [groupProblem fmt clk st' g now], st'))"

definition namespace_step :: "time_format \<Rightarrow> time \<Rightarrow> time \<Rightarrow>
    Problem list \<times> EventSummary list \<times> ownerState \<Rightarrow> string \<times> EventSummary list \<Rightarrow>
    Problem list \<times> EventSummary list \<times> ownerState" where
  "namespace_step fmt clk now acc nsevs =
     (case (acc, nsevs) of ((problems, clusterWarnings, st), (ns, evs)) \<Rightarrow>
        let (groups, clusterWarnings') =
              foldl (event_step (ownerChain clk st ns) ns) ([], clusterWarnings) evs;
            (problems', st') = foldl (emit_group fmt clk now) (problems, st) (map snd groups)
        in (problems', clusterWarnings', st'))"

definition buildProblems :: "time_format \<Rightarrow> time \<Rightarrow> (string, EventSummary list) gomap \<Rightarrow> time \<Rightarrow>
    ownerState \<Rightarrow> Problem list option \<times> ownerState" where
  "buildProblems fmt clk events now st =
     (let (problems, clusterWarnings, st') = foldl (namespace_step fmt clk now) ([], [], st) events;
          rows = problems @ clusterProblems clusterWarnings now
      in (map_option sortProblems (groupPatterns fmt rows now), st'))"

section \<open>The groups of a namespace\<close>

definition ns_event :: "EventSummary \<Rightarrow> bool" where
  "ns_event e \<longleftrightarrow> evKind e \<noteq> '''' \<and> evObjectName e \<noteq> '''' \<and> evObjectNamespace e \<noteq> ''''"

definition cluster_warning :: "EventSummary \<Rightarrow> bool" where
  "cluster_warning e \<longleftrightarrow>
     evKind e \<noteq> '''' \<and> evObjectName e \<noteq> '''' \<and> evObjectNamespace e = '''' \<and> is_warning e"

text \<open>The warnings a home page counts: those about an object with a kind and a name.\<close>

definition counted :: "EventSummary \<Rightarrow> bool" where
  "counted e \<longleftrightarrow> evKind e \<noteq> '''' \<and> evObjectName e \<noteq> '''' \<and> is_warning e"

lemma event_fold:
  "foldl (event_step resolve ns) (gs, cw) evs =
     (foldl (\<lambda>m e. al_alter (chain_root resolve e) (group_add resolve ns e) m) gs (filter ns_event evs),
      cw @ filter cluster_warning evs)"
  by (induction evs arbitrary: gs cw) (auto simp: event_step_def ns_event_def cluster_warning_def)

definition ns_groups :: "(objRef \<Rightarrow> objRef list \<times> bool) \<Rightarrow> string \<Rightarrow> EventSummary list \<Rightarrow>
    (objRef, problemGroup) gomap" where
  "ns_groups resolve ns evs =
     group_fold (chain_root resolve) (group_add resolve ns) (filter ns_event evs)"

lemma event_fold_groups:
  "foldl (event_step resolve ns) ([], cw) evs =
     (ns_groups resolve ns evs, cw @ filter cluster_warning evs)"
  by (simp add: event_fold ns_groups_def group_fold_def)

lemma group_add_sel [simp]:
  "pgWarnings (group_add resolve ns e (Some g)) = pgWarnings g @ (if is_warning e then [e] else [])"
  "pgWarnings (group_add resolve ns e None) = (if is_warning e then [e] else [])"
  "pgNs (group_add resolve ns e (Some g)) = pgNs g"
  "pgNs (group_add resolve ns e None) = ns"
  "pgRoot (group_add resolve ns e (Some g)) = pgRoot g"
  "pgRoot (group_add resolve ns e None) = chain_root resolve e"
  "pgMembers (group_add resolve ns e (Some g)) =
     al_alter (event_ref e) (member_add (length (fst (resolve (event_ref e))) - 1) e) (pgMembers g)"
  "pgMembers (group_add resolve ns e None) =
     al_alter (event_ref e) (member_add (length (fst (resolve (event_ref e))) - 1) e) []"
  by (simp_all add: group_add_def new_group_def chain_root_def Let_def split: prod.splits)

lemma opt_fold_group:
  "opt_fold (group_add resolve ns) es (Some g) = Some g' \<Longrightarrow>
   pgWarnings g' = pgWarnings g @ filter is_warning es \<and> pgNs g' = pgNs g \<and> pgRoot g' = pgRoot g \<and>
   pgMembers g' = foldl (\<lambda>m e. al_alter (event_ref e)
     (member_add (length (fst (resolve (event_ref e))) - 1) e) m) (pgMembers g) es"
proof (induction es arbitrary: g)
  case (Cons e es)
  from Cons.IH [of "group_add resolve ns e (Some g)"] Cons.prems show ?case by simp
qed simp

text \<open>A group holds exactly the warnings whose chain ends at its root.\<close>

lemma ns_groups_entry:
  assumes "(root, g) \<in> set (ns_groups resolve ns evs)"
  shows "pgWarnings g = filter is_warning (filter (\<lambda>e. chain_root resolve e = root) (filter ns_event evs))"
    and "pgNs g = ns" and "pgRoot g = root"
    and "pgMembers g = group_fold event_ref (\<lambda>e. member_add (length (fst (resolve (event_ref e))) - 1) e)
      (filter (\<lambda>e. chain_root resolve e = root) (filter ns_event evs))"
proof -
  obtain e es where es: "filter (\<lambda>e. chain_root resolve e = root) (filter ns_event evs) = e # es"
    and g: "opt_fold (group_add resolve ns) (e # es) None = Some g"
    using assms unfolding ns_groups_def group_fold_entry
    by (cases "filter (\<lambda>e. chain_root resolve e = root) (filter ns_event evs)") auto
  have root: "chain_root resolve e = root" using filter_ConsD [OF es] .
  from g have "opt_fold (group_add resolve ns) es (Some (group_add resolve ns e None)) = Some g" by simp
  note f = opt_fold_group [OF this]
  show "pgWarnings g = filter is_warning (filter (\<lambda>e. chain_root resolve e = root) (filter ns_event evs))"
    "pgNs g = ns" "pgRoot g = root"
    "pgMembers g = group_fold event_ref (\<lambda>e. member_add (length (fst (resolve (event_ref e))) - 1) e)
      (filter (\<lambda>e. chain_root resolve e = root) (filter ns_event evs))"
    using f root unfolding es by (simp_all add: group_fold_def)
qed

text \<open>No warning is lost or counted twice: over all groups, they are the namespace's warnings.\<close>

lemma ns_groups_warnings:
  "mset (concat (map (\<lambda>rg. pgWarnings (snd rg)) (ns_groups resolve ns evs))) =
   mset (filter is_warning (filter ns_event evs))"
proof -
  have "mset (concat (map (\<lambda>rg. pgWarnings (snd rg)) (ns_groups resolve ns evs))) =
      mset (concat (map (\<lambda>e. if is_warning e then [e] else []) (filter ns_event evs)))"
    unfolding ns_groups_def by (rule group_fold_collect) simp_all
  then show ?thesis by (simp only: concat_singletons)
qed

section \<open>The members of a group\<close>

lemma opt_fold_member:
  "opt_fold (\<lambda>e. member_add d e) es (Some m) = Some m' \<Longrightarrow>
   gmDepth m' = gmDepth m \<and> (gmWarn m' \<longleftrightarrow> gmWarn m \<or> (\<exists>e\<in>set es. is_warning e)) \<and>
   gmLast m' = Max (insert (gmLast m) (evLastTime ` {e \<in> set es. is_warning e}))"
proof (induction es arbitrary: m)
  case (Cons e es)
  let ?m = "member_add d e (Some m)"
  have m: "gmDepth ?m = gmDepth m" "gmWarn ?m \<longleftrightarrow> gmWarn m \<or> is_warning e"
    "gmLast ?m = (if is_warning e then max (gmLast m) (evLastTime e) else gmLast m)"
    by (simp_all add: member_add_def Let_def)
  have ev: "{x \<in> set (e # es). is_warning x} =
      (if is_warning e then insert e {x \<in> set es. is_warning x} else {x \<in> set es. is_warning x})"
    by auto
  from Cons.IH [of ?m] Cons.prems have
    "gmDepth m' = gmDepth ?m \<and> (gmWarn m' \<longleftrightarrow> gmWarn ?m \<or> (\<exists>e\<in>set es. is_warning e)) \<and>
     gmLast m' = Max (insert (gmLast ?m) (evLastTime ` {e \<in> set es. is_warning e}))"
    by simp
  then show ?case unfolding m ev by (auto simp: Max_insert_max)
qed simp

lemma group_member:
  assumes "(root, g) \<in> set (ns_groups resolve ns evs)" and "(ref, m) \<in> set (pgMembers g)"
  shows "gmDepth m = length (fst (resolve ref)) - 1"
    and "gmWarn m \<longleftrightarrow> (\<exists>e\<in>set evs. ns_event e \<and> event_ref e = ref \<and> is_warning e)"
    and "last (fst (resolve ref)) = root"
proof -
  let ?es = "filter (\<lambda>e. chain_root resolve e = root) (filter ns_event evs)"
  let ?mine = "filter (\<lambda>e. event_ref e = ref) ?es"
  let ?d = "length (fst (resolve ref)) - 1"
  have "opt_fold (\<lambda>e. member_add (length (fst (resolve (event_ref e))) - 1) e) ?mine None = Some m"
    using assms(2) unfolding ns_groups_entry(4) [OF assms(1)] group_fold_entry .
  moreover have "opt_fold (\<lambda>e. member_add (length (fst (resolve (event_ref e))) - 1) e) es v =
      opt_fold (\<lambda>e. member_add ?d e) es v" if "\<forall>e\<in>set es. event_ref e = ref" for es v
    using that by (induction es arbitrary: v) auto
  ultimately have m: "opt_fold (\<lambda>e. member_add ?d e) ?mine None = Some m" by simp
  then obtain e es where mine: "?mine = e # es" by (cases ?mine) auto
  have e: "event_ref e = ref" "chain_root resolve e = root" "e \<in> set evs" "ns_event e"
    using mine [THEN arg_cong, of set] by auto
  have m': "opt_fold (\<lambda>e. member_add ?d e) es (Some (member_add ?d e None)) = Some m"
    using m unfolding mine by simp
  have first: "gmDepth (member_add ?d e None) = ?d" "gmWarn (member_add ?d e None) = is_warning e"
    by (simp_all add: member_add_def Let_def)
  show "gmDepth m = ?d" using opt_fold_member [OF m'] first by simp
  show "last (fst (resolve ref)) = root" using e by (simp add: chain_root_def)
  have "gmWarn m \<longleftrightarrow> (\<exists>x\<in>set ?mine. is_warning x)"
    using opt_fold_member [OF m'] first unfolding mine by simp
  also have "\<dots> \<longleftrightarrow> (\<exists>x\<in>set evs. ns_event x \<and> event_ref x = ref \<and> is_warning x)"
    using e by (auto simp: chain_root_def)
  finally show "gmWarn m \<longleftrightarrow> (\<exists>e\<in>set evs. ns_event e \<and> event_ref e = ref \<and> is_warning e)" .
qed

section \<open>The rows before grouping\<close>

lemma cronjob_since_sel [simp]:
  "pbScope (cronjob_since fmt now f p) = pbScope p"
  "pbKey (cronjob_since fmt now f p) = pbKey p"
  "pbNamespaces (cronjob_since fmt now f p) = pbNamespaces p"
  "pbOccurrences (cronjob_since fmt now f p) = pbOccurrences p"
  "pbReasons (cronjob_since fmt now f p) = pbReasons p"
  "pbLastSeen (cronjob_since fmt now f p) = pbLastSeen p"
  by (simp_all add: cronjob_since_def split: option.splits)

lemma cronjob_since_tier:
  "pbTier p \<in> {''new'', ''ongoing'', ''chronic''} \<Longrightarrow>
   pbTier (cronjob_since fmt now f p) \<in> {''new'', ''ongoing'', ''chronic''}"
  using setTiming_tier_cases by (auto simp: cronjob_since_def split: option.splits)

lemma groupProblem_sel [simp]:
  "pbScope (groupProblem fmt clk st g now) = ''namespace''"
  "pbKey (groupProblem fmt clk st g now) = ''ns:'' @ pgNs g @ ''/'' @ rName (pgRoot g)"
  "pbNamespaces (groupProblem fmt clk st g now) = [pgNs g]"
  "pbOccurrences (groupProblem fmt clk st g now) = total_count (pgWarnings g)"
  "sum_list (map rcCount (pbReasons (groupProblem fmt clk st g now))) = total_count (pgWarnings g)"
  "rcReason ` set (pbReasons (groupProblem fmt clk st g now)) = evReason ` set (pgWarnings g)"
  by (simp_all add: groupProblem_def Let_def fill_reasons zeroProblem_def)

lemma groupProblem_tier: "pbTier (groupProblem fmt clk st g now) \<in> {''new'', ''ongoing'', ''chronic''}"
  using cronjob_since_tier [OF fill_tier_cases] fill_tier_cases by (simp add: groupProblem_def Let_def)

lemma groupProblem_indexable: "pgWarnings g \<noteq> [] \<Longrightarrow> indexable (groupProblem fmt clk st g now)"
  using groupProblem_sel(6) [of fmt clk st g now]
  by (cases "pbReasons (groupProblem fmt clk st g now)") (simp_all add: indexable_def)

lemma clusterProblem_sel [simp]:
  "pbScope (clusterProblem now kevs) = ''cluster''"
  "pbOccurrences (clusterProblem now kevs) = total_count (snd kevs)"
  "pbNamespaces (clusterProblem now kevs) = []"
  by (simp_all add: clusterProblem_def Let_def zeroProblem_def split: prod.splits)
    (rule sum_list_mset_cong, simp)

lemma clusterProblem_tier: "pbTier (clusterProblem now kevs) \<in> {''new'', ''ongoing'', ''chronic''}"
  unfolding clusterProblem_def Let_def using fill_tier_cases by (auto split: prod.splits)

lemma clusterProblems_occurrences:
  "sum_list (map pbOccurrences (clusterProblems ws now)) = total_count ws"
proof -
  have "sum_list (map pbOccurrences (clusterProblems ws now)) =
      total_count (concat (map snd (group_list (\<lambda>e. (evKind e, evReason e)) ws)))"
    by (simp add: clusterProblems_def comp_def sum_list_concat)
  also have "\<dots> = total_count ws"
    by (rule sum_list_mset_cong) (rule group_list_partition)
  finally show ?thesis .
qed

text \<open>A row built from a group or from cluster warnings, before grouping.\<close>

definition plain_row :: "Problem \<Rightarrow> bool" where
  "plain_row p \<longleftrightarrow> (pbScope p = ''namespace'' \<and> indexable p \<or> pbScope p = ''cluster'') \<and>
     pbTier p \<in> {''new'', ''ongoing'', ''chronic''} \<and>
     distinct (pbNamespaces p) \<and> (pbScope p = ''cluster'' \<longrightarrow> pbNamespaces p = [])"

lemma emit_groups:
  "fst (foldl (emit_group fmt clk now) (problems, st) gs) = problems @ new \<Longrightarrow>
   sum_list (map pbOccurrences new) = total_count (concat (map pgWarnings gs)) \<and> list_all plain_row new"
proof (induction gs arbitrary: problems st new)
  case (Cons g gs)
  show ?case
  proof (cases "pgWarnings g = []")
    case True
    then show ?thesis using Cons by (simp add: emit_group_def)
  next
    case False
    let ?g = "g\<lparr>pgInferred := pgHasLinks g \<and> \<not> pgConfirmedLink g\<rparr>"
    let ?p = "groupProblem fmt clk (confirmOwners clk ?g st) ?g now"
    have step: "emit_group fmt clk now (problems, st) g = (problems @ [?p], confirmOwners clk ?g st)"
      using False by (simp add: emit_group_def Let_def)
    have ext: "\<exists>more. fst (foldl (emit_group fmt clk now) (ps, s) gs) = ps @ more" for ps s
    proof (induction gs arbitrary: ps s)
      case (Cons h gs)
      show ?case using Cons.IH by (auto simp: emit_group_def Let_def) (metis append_assoc)
    qed simp
    obtain more where more: "fst (foldl (emit_group fmt clk now) (problems @ [?p], confirmOwners clk ?g st) gs) =
        (problems @ [?p]) @ more" using ext by blast
    have new: "new = ?p # more" using Cons.prems more by (simp add: step)
    have "plain_row ?p"
      using groupProblem_indexable [of ?g fmt clk] groupProblem_tier [of fmt clk _ ?g now] False
      by (simp add: plain_row_def)
    then show ?thesis
      using Cons.IH [OF more] by (simp add: new)
  qed
qed simp

text \<open>What the events of one namespace add: their counted warnings, split between the rows and the
  cluster warnings.\<close>

lemma namespace_step_adds:
  assumes "namespace_step fmt clk now (problems, cw, st) (ns, evs) = (problems', cw', st')"
  shows "\<exists>new. problems' = problems @ new \<and> list_all plain_row new \<and>
      sum_list (map pbOccurrences new) = total_count (filter is_warning (filter ns_event evs))"
    and "cw' = cw @ filter cluster_warning evs"
proof -
  let ?gs = "map snd (ns_groups (ownerChain clk st ns) ns evs)"
  have s: "fst (foldl (emit_group fmt clk now) (problems, st) ?gs) = problems'" "cw' = cw @ filter cluster_warning evs"
    using assms by (auto simp: namespace_step_def event_fold_groups Let_def split: prod.splits)
  have ext: "\<exists>more. fst (foldl (emit_group fmt clk now) (ps, s) gs) = ps @ more" for ps s gs
  proof (induction gs arbitrary: ps s)
    case (Cons h gs)
    show ?case using Cons.IH by (auto simp: emit_group_def Let_def) (metis append_assoc)
  qed simp
  obtain new where new: "problems' = problems @ new" using ext [of problems st ?gs] s(1) by auto
  have "total_count (concat (map pgWarnings ?gs)) = total_count (filter is_warning (filter ns_event evs))"
    using sum_list_mset_cong [OF ns_groups_warnings [of "ownerChain clk st ns" ns evs], of evCount]
    by (simp add: comp_def)
  then show "\<exists>new. problems' = problems @ new \<and> list_all plain_row new \<and>
      sum_list (map pbOccurrences new) = total_count (filter is_warning (filter ns_event evs))"
    using emit_groups [of fmt clk now problems st ?gs new] s(1) new by auto
  show "cw' = cw @ filter cluster_warning evs" by (rule s(2))
qed

lemma counted_split:
  "total_count (filter counted evs) =
   total_count (filter is_warning (filter ns_event evs)) + total_count (filter cluster_warning evs)"
  by (induction evs) (auto simp: counted_def ns_event_def cluster_warning_def)

lemma namespace_steps:
  assumes "foldl (namespace_step fmt clk now) (problems, cw, st) events = (problems', cw', st')"
  shows "\<exists>new. problems' = problems @ new \<and> list_all plain_row new \<and>
      sum_list (map pbOccurrences new) + total_count cw' =
        total_count cw + sum_list (map (\<lambda>(_, evs). total_count (filter counted evs)) events)"
  using assms
proof (induction events arbitrary: problems cw st)
  case (Cons nsevs events)
  obtain ns evs where ne: "nsevs = (ns, evs)" by (cases nsevs)
  obtain ps1 cw1 st1 where s: "namespace_step fmt clk now (problems, cw, st) (ns, evs) = (ps1, cw1, st1)"
    by (metis prod_cases3)
  note one = namespace_step_adds [OF s]
  obtain new1 where n1: "ps1 = problems @ new1" "list_all plain_row new1"
    "sum_list (map pbOccurrences new1) = total_count (filter is_warning (filter ns_event evs))"
    using one(1) by blast
  obtain new2 where n2: "problems' = ps1 @ new2" "list_all plain_row new2"
    "sum_list (map pbOccurrences new2) + total_count cw' =
       total_count cw1 + sum_list (map (\<lambda>(_, evs). total_count (filter counted evs)) events)"
    using Cons.IH [of ps1 cw1 st1] Cons.prems s ne by auto
  show ?case
    using n1 n2 one(2) by (intro exI [of _ "new1 @ new2"]) (simp add: ne counted_split)
qed simp

section \<open>The whole page\<close>

lemma plain_rows_indexable: "list_all plain_row ps \<Longrightarrow> all_indexable ps"
  by (auto simp: list_all_iff all_indexable_def plain_row_def)

text \<open>
  Building the page never panics, every warning with a kind and a name is counted in exactly one
  row, and the rows come in the page's order.
\<close>

lemma buildProblems_rows:
  obtains rows out st' where
    "buildProblems fmt clk events now st = (Some (sortProblems out), st')"
    "groupPatterns fmt rows now = Some out" "list_all plain_row rows"
    "sum_list (map pbOccurrences rows) =
       sum_list (map (\<lambda>(_, evs). total_count (filter counted evs)) events)"
proof -
  obtain problems cw st' where f: "foldl (namespace_step fmt clk now) ([], [], st) events = (problems, cw, st')"
    by (metis prod_cases3)
  let ?rows = "problems @ clusterProblems cw now"
  note s = namespace_steps [OF f]
  have plain: "list_all plain_row ?rows"
    using s clusterProblem_tier by (auto simp: clusterProblems_def plain_row_def list_all_iff)
  then obtain out where out: "groupPatterns fmt ?rows now = Some out"
    using groupPatterns_eq [OF plain_rows_indexable] by metis
  have "sum_list (map pbOccurrences ?rows) =
      sum_list (map (\<lambda>(_, evs). total_count (filter counted evs)) events)"
    using s by (auto simp: clusterProblems_occurrences)
  then show ?thesis
    using that [of out st' ?rows] f out plain by (simp add: buildProblems_def Let_def)
qed


section \<open>Properties\<close>

text \<open>
  C1: building the home page never panics; the rows come in the page's order, and the occurrences
  they show add up to those of every warning that names an object: none is lost or counted twice.
\<close>

theorem page_counts_every_warning:
  "\<exists>rows st'. buildProblems fmt clk events now st = (Some rows, st') \<and>
     sum_list (map pbOccurrences rows) =
       sum_list (map (\<lambda>(ns, evs). sum_list (map evCount (filter counted evs))) events) \<and>
     sorted (map problem_key rows)"
proof -
  obtain rows out st' where b: "buildProblems fmt clk events now st = (Some (sortProblems out), st')"
    and g: "groupPatterns fmt rows now = Some out" and p: "list_all plain_row rows"
    and s: "sum_list (map pbOccurrences rows) =
       sum_list (map (\<lambda>(_, evs). total_count (filter counted evs)) events)"
    by (rule buildProblems_rows)
  have "sum_list (map pbOccurrences (sortProblems out)) = sum_list (map pbOccurrences out)"
    by (rule sum_list_mset_cong) simp
  also have "\<dots> = sum_list (map pbOccurrences rows)"
    by (rule groupPatterns_occurrences [OF plain_rows_indexable [OF p] g])
  finally show ?thesis using b s sorted_sortProblems [of out] by simp
qed

text \<open>
  C2: within a namespace every warning about a namespaced object is in the group of the root its
  owner chain ends at, and a group holds no other warnings.
\<close>

theorem warnings_grouped_by_root:
  assumes "foldl (event_step resolve ns) ([], []) evs = (groups, cluster)"
  shows "(\<forall>(root, g)\<in>set groups. pgRoot g = root \<and> pgNs g = ns \<and>
      pgWarnings g = filter (\<lambda>e. is_warning e \<and> ns_event e \<and> chain_root resolve e = root) evs) \<and>
    (\<forall>e\<in>set evs. is_warning e \<and> ns_event e \<longrightarrow>
      (\<exists>g. (chain_root resolve e, g) \<in> set groups \<and> e \<in> set (pgWarnings g))) \<and>
    distinct (map fst groups) \<and>
    cluster = filter cluster_warning evs"
proof -
  have gs: "groups = ns_groups resolve ns evs" and cl: "cluster = filter cluster_warning evs"
    using assms by (simp_all add: event_fold_groups)
  have "distinct (map fst groups)" by (simp add: gs ns_groups_def)
  moreover have "\<exists>g. (chain_root resolve e, g) \<in> set groups \<and> e \<in> set (pgWarnings g)"
    if "e \<in> set evs" "is_warning e" "ns_event e" for e
  proof -
    have "chain_root resolve e \<in> fst ` set groups"
      using that by (auto simp: gs ns_groups_def keys_group_fold)
    then obtain g where g: "(chain_root resolve e, g) \<in> set groups" by auto
    then have "e \<in> set (pgWarnings g)"
      using ns_groups_entry(1) [of "chain_root resolve e" g resolve ns evs] that by (simp add: gs)
    then show ?thesis using g by blast
  qed
  moreover have "pgRoot g = root \<and> pgNs g = ns \<and>
      pgWarnings g = filter (\<lambda>e. is_warning e \<and> ns_event e \<and> chain_root resolve e = root) evs"
    if "(root, g) \<in> set groups" for root g
    using ns_groups_entry(1-3) [of root g resolve ns evs] that unfolding gs
    by (auto intro: filter_cong)
  ultimately show ?thesis using cl by auto
qed

definition sample_pods :: "EventSummary list" where
  "sample_pods = [sample_event ''Pod'' ''web-5d8f7c9b6d-x7k2p'' ''BackOff'' 100 3,
     (sample_event ''Node'' ''n1'' ''NotReady'' 100 1)\<lparr>evObjectNamespace := ''''\<rparr>,
     sample_event ''Pod'' ''web-5d8f7c9b6d-q9zvd'' ''BackOff'' 90 2]"

theorem warnings_grouped_by_root_witness:
  "\<exists>groups cluster g. foldl (event_step (ownerChain 0 empty_owners ''shop'') ''shop'') ([], []) sample_pods =
       (groups, cluster) \<and>
     (ObjRef ''Deployment'' ''web'', g) \<in> set groups \<and> length (pgWarnings g) = 2"
proof -
  let ?res = "ownerChain 0 empty_owners ''shop''"
  obtain groups cluster where f: "foldl (event_step ?res ''shop'') ([], []) sample_pods = (groups, cluster)"
    by fastforce
  note t = warnings_grouped_by_root [OF f]
  let ?e = "sample_event ''Pod'' ''web-5d8f7c9b6d-x7k2p'' ''BackOff'' 100 3"
  have root: "chain_root ?res ?e = ObjRef ''Deployment'' ''web''" by code_simp
  have two: "length (filter (\<lambda>e. is_warning e \<and> ns_event e \<and> chain_root ?res e = ObjRef ''Deployment'' ''web'')
      sample_pods) = 2" by code_simp
  have e: "?e \<in> set sample_pods" "is_warning ?e" "ns_event ?e"
    by (simp add: sample_pods_def, code_simp, code_simp)
  obtain g where g: "(chain_root ?res ?e, g) \<in> set groups" using t e by blast
  then have "length (pgWarnings g) = 2"
    using t two unfolding root by auto
  then show ?thesis using f g unfolding root by blast
qed

text \<open>
  The key of a row leaves the kind out: two roots of one name in a namespace share it.
\<close>

lemma rows_share_a_key:
  "map (\<lambda>g. pbKey (groupProblem (\<lambda>_ _. '''') 0 empty_owners (snd g) 200))
     (fst (foldl (event_step (ownerChain 0 empty_owners ''shop'') ''shop'') ([], [])
       [sample_event ''Deployment'' ''web'' ''A'' 100 1,
        sample_event ''HorizontalPodAutoscaler'' ''web'' ''B'' 100 1])) =
   [''ns:shop/web'', ''ns:shop/web'']"
  by code_simp


end
