(* ===== verification/Families.thy ===== *)
theory Families
  imports Objects Names
begin

text \<open>
  The ownership trees of the namespace page (main.go, \<open>buildFamilies\<close>): which object's name makes
  it the child of which other object, the trees wired from that index, their totals, and the
  objects left over. The recursive closures \<open>wire\<close> and \<open>markClaimed\<close> get fuel; a child's name is
  longer than its parent's, so \<open>family_fuel\<close> is always enough, which is proved.
\<close>

section \<open>The index of parents and children\<close>

definition object_ref :: "ObjectEvents \<Rightarrow> objRef" where
  "object_ref ob = ObjRef (oeKind ob) (oeName ob)"

definition by_key :: "ObjectEvents list \<Rightarrow> (objRef, ObjectEvents) gomap" where
  "by_key objects = foldl (\<lambda>m ob. al_set (object_ref ob) ob m) [] objects"

definition parent_step :: "(objRef, ObjectEvents) gomap \<Rightarrow> (objRef, objRef) gomap \<Rightarrow>
    ObjectEvents \<Rightarrow> (objRef, objRef) gomap" where
  "parent_step bk m ob =
     (case detectParent (oeKind ob) (oeName ob) (\<lambda>k n. al_has (ObjRef k n) bk) of
        (pk, pn) \<Rightarrow> if pk \<noteq> '''' then al_set (object_ref ob) (ObjRef pk pn) m else m)"

definition parent_of :: "ObjectEvents list \<Rightarrow> (objRef, objRef) gomap" where
  "parent_of objects = foldl (parent_step (by_key objects)) [] objects"

definition children_of :: "(objRef, objRef) gomap \<Rightarrow> (objRef, objRef list) gomap" where
  "children_of parentOf =
     foldl (\<lambda>m (child, parent). al_alter parent (snoc_opt child) m) [] parentOf"

section \<open>The trees\<close>

datatype FamilyMember =
  Member (fmObject: ObjectEvents) (fmDepth: nat) (fmChildren: "FamilyMember list")

text \<open>
  \<open>wire\<close>: \<open>None\<close> is out of fuel, \<open>Some []\<close> is the nil member of a key without an object.
\<close>

fun wire :: "nat \<Rightarrow> (objRef, ObjectEvents) gomap \<Rightarrow> (objRef, objRef list) gomap \<Rightarrow> objRef \<Rightarrow> nat \<Rightarrow>
    FamilyMember list option" where
  "wire 0 bk ch key depth = None"
| "wire (Suc n) bk ch key depth =
     (case map_of bk key of
        None \<Rightarrow> Some []
      | Some ob \<Rightarrow>
          (case those (map (\<lambda>ck. wire n bk ch ck (depth + 1)) (go_sort ref_less (al_get [] ch key))) of
             None \<Rightarrow> None
           | Some kids \<Rightarrow> Some [Member ob depth (concat kids)]))"

fun markClaimed :: "nat \<Rightarrow> (objRef, objRef list) gomap \<Rightarrow> objRef \<Rightarrow> objRef list option" where
  "markClaimed 0 ch key = None"
| "markClaimed (Suc n) ch key =
     (case those (map (markClaimed n ch) (go_sort ref_less (al_get [] ch key))) of
        None \<Rightarrow> None
      | Some cs \<Rightarrow> Some (key # concat cs))"

text \<open>The members of a tree in the order \<open>walk\<close> visits them, and its leaves.\<close>

fun tree_objects :: "FamilyMember \<Rightarrow> ObjectEvents list" where
  "tree_objects (Member ob d cs) = ob # concat (map tree_objects cs)"

fun leaf_objects :: "FamilyMember \<Rightarrow> ObjectEvents list" where
  "leaf_objects (Member ob d cs) = (if cs = [] then [ob] else concat (map leaf_objects cs))"

section \<open>Families\<close>

record ObjectFamily =
  famRoot :: FamilyMember
  famHasWarning :: bool
  famIdle :: bool
  famCascadeFailure :: bool
  famWarningCount :: nat
  famNormalCount :: nat
  famKinds :: "string list"

definition family_of :: "FamilyMember \<Rightarrow> ObjectFamily" where
  "family_of root =
     (let ms = tree_objects root;
          warn = (\<exists>m\<in>set ms. oeHasWarning m);
          activeWarning = (\<exists>m\<in>set ms. oeHasWarning m \<and> \<not> oeIdle m)
      in \<lparr>famRoot = root,
          famHasWarning = warn,
          famIdle = (warn \<and> \<not> activeWarning),
          famCascadeFailure =
            (if oeHasWarning (fmObject root) then list_all oeHasWarning (leaf_objects root) else False),
          famWarningCount = sum_list (map oeWarningCount ms),
          famNormalCount = sum_list (map oeNormalCount ms),
          famKinds = sort (remdups (map oeKind ms))\<rparr>)"

definition family_less :: "ObjectFamily \<Rightarrow> ObjectFamily \<Rightarrow> bool" where
  "family_less a b =
     (if famCascadeFailure a \<noteq> famCascadeFailure b then famCascadeFailure a
      else if famHasWarning a \<noteq> famHasWarning b then famHasWarning a
      else oeName (fmObject (famRoot a)) < oeName (fmObject (famRoot b)))"

definition family_key :: "ObjectFamily \<Rightarrow> bool \<times> bool \<times> string" where
  "family_key f = (\<not> famCascadeFailure f, \<not> famHasWarning f, oeName (fmObject (famRoot f)))"

interpretation family_order: keyed_order family_less family_key
  by unfold_locales (auto simp: family_less_def family_key_def)

text \<open>The roots: objects with children and no parent.\<close>

definition family_roots :: "ObjectEvents list \<Rightarrow> objRef list" where
  "family_roots objects =
     (let po = parent_of objects; ch = children_of po in
      go_sort ref_less
        (filter (\<lambda>k. \<not> al_has k po \<and> al_has k ch) (map object_ref objects)))"

fun families_loop :: "nat \<Rightarrow> (objRef, ObjectEvents) gomap \<Rightarrow> (objRef, objRef list) gomap \<Rightarrow>
    objRef list \<Rightarrow> (ObjectFamily list \<times> objRef list) option" where
  "families_loop n bk ch [] = Some ([], [])"
| "families_loop n bk ch (r # rs) =
     (case wire n bk ch r 0 of
        None \<Rightarrow> None
      | Some [] \<Rightarrow> families_loop n bk ch rs
      | Some (root # _) \<Rightarrow>
          (case markClaimed n ch r of
             None \<Rightarrow> None
           | Some claimed \<Rightarrow>
               (case families_loop n bk ch rs of
                  None \<Rightarrow> None
                | Some (fs, cs) \<Rightarrow> Some (family_of root # fs, claimed @ cs))))"

definition family_fuel :: "ObjectEvents list \<Rightarrow> nat" where
  "family_fuel objects = Suc (foldl (\<lambda>m ob. max m (length (oeName ob))) 0 objects)"

definition orphan_objects :: "ObjectEvents list \<Rightarrow> objRef list \<Rightarrow> ObjectEvents list" where
  "orphan_objects objects claimed = filter (\<lambda>ob. object_ref ob \<notin> set claimed) objects"

definition buildFamilies :: "ObjectEvents list \<Rightarrow> (ObjectFamily list \<times> KindGroup list) option" where
  "buildFamilies objects =
     (let ch = children_of (parent_of objects) in
      case families_loop (family_fuel objects) (by_key objects) ch (family_roots objects) of
        None \<Rightarrow> None
      | Some (fams, claimed) \<Rightarrow>
          Some (go_sort family_less fams, groupByKind (orphan_objects objects claimed)))"

section \<open>Forests\<close>

text \<open>
  A parent relation in which the parent is always smaller than the child, and the list of children
  it has. The subtrees of two siblings, and of two roots, share nothing, and every node is below
  exactly one root.
\<close>

locale forest =
  fixes parent :: "'k \<Rightarrow> 'k option" and size_of :: "'k \<Rightarrow> nat" and kids :: "'k \<Rightarrow> 'k list"
  assumes parent_smaller: "parent c = Some p \<Longrightarrow> size_of p < size_of c"
    and kids_parent: "c \<in> set (kids p) \<longleftrightarrow> parent c = Some p"
    and kids_distinct: "distinct (kids p)"
begin

definition up :: "('k \<times> 'k) set" where
  "up = {(c, p). parent c = Some p}"

definition desc :: "'k \<Rightarrow> 'k set" where
  "desc k = {x. (x, k) \<in> up\<^sup>*}"

lemma single_valued_up: "single_valued up"
  by (simp add: single_valued_def up_def)

lemma up_smaller: "(x, k) \<in> up\<^sup>* \<Longrightarrow> x = k \<or> size_of k < size_of x"
  by (induction rule: rtrancl_induct) (auto simp: up_def dest: parent_smaller)

lemma desc_refl: "k \<in> desc k"
  by (simp add: desc_def)

lemma desc_unfold: "desc k = insert k (\<Union>c\<in>set (kids k). desc c)"
proof (intro equalityI subsetI)
  fix x assume "x \<in> desc k"
  then have "(x, k) \<in> up\<^sup>*" by (simp add: desc_def)
  then show "x \<in> insert k (\<Union>c\<in>set (kids k). desc c)"
  proof (cases rule: rtranclE)
    case (step c)
    then have "c \<in> set (kids k)" "x \<in> desc c"
      by (simp_all add: desc_def up_def kids_parent)
    then show ?thesis by blast
  qed simp
next
  fix x assume "x \<in> insert k (\<Union>c\<in>set (kids k). desc c)"
  then consider "x = k" | c where "(c, k) \<in> up" "(x, c) \<in> up\<^sup>*"
    by (auto simp: kids_parent up_def desc_def)
  then show "x \<in> desc k"
    unfolding desc_def by cases (auto intro: rtrancl_into_rtrancl)
qed

lemma root_not_below: "c \<in> set (kids k) \<Longrightarrow> k \<notin> desc c"
  using up_smaller [of k c] parent_smaller [of c k] by (auto simp: desc_def kids_parent)

lemma common_desc:
  assumes "x \<in> desc a" and "x \<in> desc b"
  shows "a \<in> desc b \<or> b \<in> desc a"
  using assms single_valued_confluent [OF single_valued_up] unfolding desc_def by blast

lemma sibling_not_below:
  assumes "parent a = parent b" and "a \<noteq> b"
  shows "a \<notin> desc b"
proof
  assume "a \<in> desc b"
  then have "(a, b) \<in> up\<^sup>*" by (simp add: desc_def)
  then obtain p where p: "parent a = Some p" "(p, b) \<in> up\<^sup>*"
    using assms(2) by (auto elim: converse_rtranclE simp: up_def)
  then have "p = b \<or> size_of b < size_of p" using up_smaller by blast
  moreover have "size_of p < size_of b" using p(1) assms(1) parent_smaller by simp
  ultimately show False by auto
qed

lemma siblings_disjoint:
  assumes "parent a = parent b" and "a \<noteq> b"
  shows "desc a \<inter> desc b = {}"
  using assms common_desc sibling_not_below by (metis disjoint_iff)

lemma below_a_root: "\<exists>r. parent r = None \<and> x \<in> desc r"
proof (induction "size_of x" arbitrary: x rule: less_induct)
  case less
  show ?case
  proof (cases "parent x")
    case None
    then show ?thesis using desc_refl by blast
  next
    case (Some p)
    then obtain r where "parent r = None" "p \<in> desc r"
      using less parent_smaller by blast
    then show ?thesis using Some
      unfolding desc_def up_def by (auto intro: converse_rtrancl_into_rtrancl)
  qed
qed

text \<open>The list a depth-first walk collects, given what it collects below each child.\<close>

lemma walk_distinct:
  assumes "\<And>c. c \<in> set (kids k) \<Longrightarrow> distinct (f c) \<and> set (f c) = desc c"
    and "mset ks = mset (kids k)"
  shows "distinct (k # concat (map f ks)) \<and> set (k # concat (map f ks)) = desc k"
proof -
  have ks: "set ks = set (kids k)" "distinct ks"
    using assms(2) kids_distinct mset_eq_imp_distinct_iff by (auto dest: mset_eq_setD)
  have dis: "set (f a) \<inter> set (f b) = {}" if "a \<in> set ks" "b \<in> set ks" "a \<noteq> b" for a b
  proof -
    have "parent a = parent b" using that(1,2) ks(1) by (simp add: kids_parent)
    then have "desc a \<inter> desc b = {}" using that(3) by (rule siblings_disjoint)
    then show ?thesis using that(1,2) ks(1) assms(1) by simp
  qed
  have un: "set (concat (map f ks)) = (\<Union>c\<in>set (kids k). desc c)"
    using ks(1) assms(1) by simp
  have "distinct (concat (map f ks))"
  proof (rule distinct_concat_map)
    show "distinct (f c)" if "c \<in> set ks" for c using that ks(1) assms(1) by blast
  qed (use ks(2) dis in blast)+
  moreover have "k \<notin> (\<Union>c\<in>set (kids k). desc c)"
    using root_not_below by blast
  ultimately show ?thesis
    by (simp only: distinct.simps list.simps un desc_unfold [of k]) blast
qed

end

section \<open>The model's parent relation is a forest\<close>

lemma by_key_Some: "map_of (by_key objects) k = Some ob \<Longrightarrow> ob \<in> set objects \<and> object_ref ob = k"
proof -
  have "\<forall>k ob. map_of (by_key objects) k = Some ob \<longrightarrow> ob \<in> set objects \<and> object_ref ob = k"
    unfolding by_key_def by (rule foldl_invariant) auto
  then show "map_of (by_key objects) k = Some ob \<Longrightarrow> ob \<in> set objects \<and> object_ref ob = k"
    by blast
qed

lemma by_key_keys: "fst ` set (by_key objects) = object_ref ` set objects"
proof -
  have "fst ` set (foldl (\<lambda>m ob. al_set (object_ref ob) ob m) m0 objects) =
      fst ` set m0 \<union> object_ref ` set objects" for m0 :: "(objRef, ObjectEvents) gomap"
    by (induction objects arbitrary: m0) (auto simp: al_set_def)
  then show ?thesis by (simp add: by_key_def)
qed

lemma by_key_distinct_Some:
  assumes "distinct (map object_ref objects)" and "ob \<in> set objects"
  shows "map_of (by_key objects) (object_ref ob) = Some ob"
proof -
  have "object_ref ob \<in> fst ` set (by_key objects)"
    using assms(2) by (simp add: by_key_keys)
  then obtain ob' where o': "map_of (by_key objects) (object_ref ob) = Some ob'"
    by (metis domIff dom_map_of_conv_image_fst option.exhaust)
  then have "ob' \<in> set objects" "object_ref ob' = object_ref ob"
    by (auto dest: by_key_Some)
  then have "ob' = ob" using assms by (auto simp: distinct_map dest: inj_onD)
  then show ?thesis using o' by simp
qed

definition parent_fact :: "ObjectEvents list \<Rightarrow> (objRef, objRef) gomap \<Rightarrow> bool" where
  "parent_fact objects m \<longleftrightarrow> distinct (map fst m) \<and>
     (\<forall>c p. map_of m c = Some p \<longrightarrow>
        c \<in> object_ref ` set objects \<and> p \<in> object_ref ` set objects \<and>
        length (rName p) < length (rName c))"

lemma parent_of_fact: "parent_fact objects (parent_of objects)"
  unfolding parent_of_def
proof (rule foldl_invariant)
  show "parent_fact objects []" by (simp add: parent_fact_def)
next
  fix m ob assume m: "parent_fact objects m" and ob: "ob \<in> set objects"
  obtain pk pn where d: "detectParent (oeKind ob) (oeName ob)
      (\<lambda>k n. al_has (ObjRef k n) (by_key objects)) = (pk, pn)" by fastforce
  show "parent_fact objects (parent_step (by_key objects) m ob)"
  proof (cases "pk = ''''")
    case True
    then show ?thesis using m d by (simp add: parent_step_def)
  next
    case False
    note f = detectParent_found [OF d False]
    then have "ObjRef pk pn \<in> object_ref ` set objects"
      by (simp add: al_has_iff by_key_keys)
    then show ?thesis
      using m ob d False f(2) by (auto simp: parent_step_def parent_fact_def object_ref_def)
  qed
qed

lemma children_of_group:
  "children_of po = group_fold snd (\<lambda>cp. snoc_opt (fst cp)) po"
  by (simp add: children_of_def group_fold_def case_prod_beta')

lemma opt_fold_snoc_map: "opt_fold (\<lambda>x. snoc_opt (f x)) xs (Some ys) = Some (ys @ map f xs)"
  by (induction xs arbitrary: ys) (auto simp: snoc_opt_def)

lemma children_of_get:
  "al_get [] (children_of po) p = map fst (filter (\<lambda>cp. snd cp = p) po)"
proof (cases "filter (\<lambda>cp. snd cp = p) po")
  case Nil
  then show ?thesis by (simp add: al_get_def children_of_group map_of_group_fold)
next
  case (Cons x xs)
  then show ?thesis
    by (simp add: al_get_def children_of_group map_of_group_fold)
      (simp add: snoc_opt_def opt_fold_snoc_map)
qed

lemma children_of_has: "al_has p (children_of po) \<longleftrightarrow> p \<in> snd ` set po"
  by (simp add: al_has_iff children_of_group keys_group_fold)

lemma children_distinct: "distinct (map fst po) \<Longrightarrow> distinct (al_get [] (children_of po) p)"
  by (simp add: children_of_get distinct_map_filter)

lemma children_mem:
  "distinct (map fst po) \<Longrightarrow> c \<in> set (al_get [] (children_of po) p) \<longleftrightarrow> map_of po c = Some p"
  by (force simp: children_of_get)

interpretation fam: forest "map_of (parent_of objects)" "\<lambda>r. length (rName r)"
    "\<lambda>p. al_get [] (children_of (parent_of objects)) p" for objects
  using parent_of_fact [of objects]
  by unfold_locales (auto simp: parent_fact_def children_mem children_distinct)

section \<open>The loops return, with enough fuel\<close>

lemma foldl_max_ge: "n \<le> foldl (\<lambda>m x. max m (f x)) n xs" for f :: "'a \<Rightarrow> nat"
  by (induction xs arbitrary: n) (auto intro: le_trans [OF max.cobounded1])

lemma foldl_max_mem: "x \<in> set xs \<Longrightarrow> f x \<le> foldl (\<lambda>m x. max m (f x)) n xs" for f :: "'a \<Rightarrow> nat"
  by (induction xs arbitrary: n) (auto intro: le_trans [OF max.cobounded2 foldl_max_ge])

lemma family_fuel_bound: "r \<in> object_ref ` set objects \<Longrightarrow> length (rName r) < family_fuel objects"
  by (auto simp: family_fuel_def less_Suc_eq_le object_ref_def
      intro: foldl_max_mem [where f = "\<lambda>ob. length (oeName ob)"])

text \<open>Fuel \<open>n\<close> suffices for a node when its name is at most \<open>n\<close> shorter than the longest.\<close>

definition fuel_ok :: "ObjectEvents list \<Rightarrow> nat \<Rightarrow> objRef \<Rightarrow> bool" where
  "fuel_ok objects n k \<longleftrightarrow>
     k \<in> object_ref ` set objects \<and> family_fuel objects \<le> n + length (rName k)"

lemma fuel_ok_zero: "\<not> fuel_ok objects 0 k"
  using family_fuel_bound [of k objects] by (auto simp: fuel_ok_def)

lemma fuel_ok_start: "k \<in> object_ref ` set objects \<Longrightarrow> fuel_ok objects (family_fuel objects) k"
  by (simp add: fuel_ok_def)

lemma fuel_ok_kid:
  assumes "fuel_ok objects (Suc n) k" and "c \<in> set (al_get [] (children_of (parent_of objects)) k)"
  shows "fuel_ok objects n c"
  using assms parent_of_fact [of objects] unfolding fam.kids_parent
  by (fastforce simp: fuel_ok_def parent_fact_def)

lemma markClaimed_returns:
  "fuel_ok objects n k \<Longrightarrow>
   \<exists>cs. markClaimed n (children_of (parent_of objects)) k = Some cs \<and> distinct cs \<and>
     set cs = fam.desc objects k"
proof (induction n arbitrary: k)
  case 0
  then show ?case using fuel_ok_zero by blast
next
  case (Suc n)
  let ?kids = "al_get [] (children_of (parent_of objects)) k"
  have "\<exists>cs. markClaimed n (children_of (parent_of objects)) c = Some cs \<and> distinct cs \<and>
      set cs = fam.desc objects c" if "c \<in> set ?kids" for c
    using fuel_ok_kid [OF Suc.prems that] by (rule Suc.IH)
  then obtain f where f: "\<And>c. c \<in> set ?kids \<Longrightarrow>
      markClaimed n (children_of (parent_of objects)) c = Some (f c) \<and> distinct (f c) \<and>
      set (f c) = fam.desc objects c" by metis
  let ?ks = "go_sort ref_less ?kids"
  have th: "those (map (markClaimed n (children_of (parent_of objects))) ?ks) = Some (map f ?ks)"
    using f by (intro those_map_Some) simp
  have "distinct (k # concat (map f ?ks)) \<and> set (k # concat (map f ?ks)) = fam.desc objects k"
    using f by (intro fam.walk_distinct) simp_all
  then show ?case using th by simp
qed

lemma wire_returns:
  "distinct (map object_ref objects) \<Longrightarrow> fuel_ok objects n k \<Longrightarrow>
   \<exists>m. wire n (by_key objects) (children_of (parent_of objects)) k d = Some [m] \<and>
     distinct (map object_ref (tree_objects m)) \<and>
     object_ref ` set (tree_objects m) = fam.desc objects k \<and>
     set (tree_objects m) \<subseteq> set objects"
proof (induction n arbitrary: k d)
  case 0
  then show ?case using fuel_ok_zero by blast
next
  case (Suc n)
  let ?ch = "children_of (parent_of objects)"
  let ?kids = "al_get [] ?ch k"
  obtain ob where ob: "ob \<in> set objects" "object_ref ob = k"
    using Suc.prems(2) by (auto simp: fuel_ok_def)
  then have bk: "map_of (by_key objects) k = Some ob"
    using by_key_distinct_Some [OF Suc.prems(1)] by blast
  have "\<exists>m. wire n (by_key objects) ?ch c (d + 1) = Some [m] \<and>
      distinct (map object_ref (tree_objects m)) \<and>
      object_ref ` set (tree_objects m) = fam.desc objects c \<and>
      set (tree_objects m) \<subseteq> set objects" if "c \<in> set ?kids" for c
    using Suc.prems(1) fuel_ok_kid [OF Suc.prems(2) that] by (rule Suc.IH)
  then obtain f where f: "\<And>c. c \<in> set ?kids \<Longrightarrow>
      wire n (by_key objects) ?ch c (d + 1) = Some [f c] \<and>
      distinct (map object_ref (tree_objects (f c))) \<and>
      object_ref ` set (tree_objects (f c)) = fam.desc objects c \<and>
      set (tree_objects (f c)) \<subseteq> set objects" by metis
  let ?ks = "go_sort ref_less ?kids"
  let ?m = "Member ob d (map f ?ks)"
  have th: "those (map (\<lambda>ck. wire n (by_key objects) ?ch ck (d + 1)) ?ks) =
      Some (map (\<lambda>c. [f c]) ?ks)"
    using f by (intro those_map_Some) simp
  have refs: "map object_ref (tree_objects ?m) =
      k # concat (map (\<lambda>c. map object_ref (tree_objects (f c))) ?ks)"
    using ob by (simp add: map_concat comp_def)
  have "distinct (map object_ref (tree_objects ?m)) \<and>
      set (map object_ref (tree_objects ?m)) = fam.desc objects k"
    unfolding refs using f by (intro fam.walk_distinct) simp_all
  moreover have "set (tree_objects ?m) \<subseteq> set objects" using f ob by auto
  moreover have "concat (map (\<lambda>c. [f c]) ?ks) = map f ?ks" by (rule concat_map_singleton)
  ultimately show ?case using th bk by (simp add: th)
qed

section \<open>Every object is in exactly one tree or left over\<close>

definition family_objects :: "ObjectFamily \<Rightarrow> ObjectEvents list" where
  "family_objects f = tree_objects (famRoot f)"

lemma family_of_objects [simp]: "family_objects (family_of root) = tree_objects root"
  by (simp add: family_objects_def family_of_def Let_def)

lemma families_loop_returns:
  assumes "distinct (map object_ref objects)"
  shows "\<lbrakk>set rs \<subseteq> object_ref ` set objects; distinct rs;
      \<forall>r\<in>set rs. map_of (parent_of objects) r = None\<rbrakk> \<Longrightarrow>
    \<exists>fs cs. families_loop (family_fuel objects) (by_key objects)
        (children_of (parent_of objects)) rs = Some (fs, cs) \<and>
      set cs = (\<Union>r\<in>set rs. fam.desc objects r) \<and>
      distinct (map object_ref (concat (map family_objects fs))) \<and>
      object_ref ` set (concat (map family_objects fs)) = (\<Union>r\<in>set rs. fam.desc objects r) \<and>
      set (concat (map family_objects fs)) \<subseteq> set objects"
proof (induction rs)
  case (Cons r rs)
  obtain fs cs where IH: "families_loop (family_fuel objects) (by_key objects)
        (children_of (parent_of objects)) rs = Some (fs, cs)"
      "set cs = (\<Union>r\<in>set rs. fam.desc objects r)"
      "distinct (map object_ref (concat (map family_objects fs)))"
      "object_ref ` set (concat (map family_objects fs)) = (\<Union>r\<in>set rs. fam.desc objects r)"
      "set (concat (map family_objects fs)) \<subseteq> set objects"
    using Cons.IH Cons.prems by auto
  have fo: "fuel_ok objects (family_fuel objects) r"
    using Cons.prems(1) by (simp add: fuel_ok_start)
  obtain m where m: "wire (family_fuel objects) (by_key objects)
        (children_of (parent_of objects)) r 0 = Some [m]"
      "distinct (map object_ref (tree_objects m))"
      "object_ref ` set (tree_objects m) = fam.desc objects r" "set (tree_objects m) \<subseteq> set objects"
    using wire_returns [OF assms fo] by blast
  obtain ks where ks: "markClaimed (family_fuel objects) (children_of (parent_of objects)) r = Some ks"
      "set ks = fam.desc objects r"
    using markClaimed_returns [OF fo] by blast
  have "fam.desc objects r \<inter> fam.desc objects r' = {}" if "r' \<in> set rs" for r'
  proof -
    have "r \<noteq> r'" and "map_of (parent_of objects) r = map_of (parent_of objects) r'"
      using Cons.prems(2,3) that by auto
    then show ?thesis by (intro fam.siblings_disjoint)
  qed
  then have "fam.desc objects r \<inter> (\<Union>r\<in>set rs. fam.desc objects r) = {}" by blast
  then have "distinct (map object_ref (concat (map family_objects (family_of m # fs))))"
    using m(2,3) IH(3,4)
    by (simp only: list.map concat.simps map_append distinct_append set_map family_of_objects)
  moreover have "families_loop (family_fuel objects) (by_key objects)
      (children_of (parent_of objects)) (r # rs) = Some (family_of m # fs, ks @ cs)"
    using IH(1) m(1) ks(1) by simp
  moreover have "set (ks @ cs) = (\<Union>r\<in>set (r # rs). fam.desc objects r)"
    using IH(2) ks(2) by simp
  moreover have "object_ref ` set (concat (map family_objects (family_of m # fs))) =
      (\<Union>r\<in>set (r # rs). fam.desc objects r)"
    using IH(4) m(3) by (simp only: list.map concat.simps set_append image_Un family_of_objects
        list.set UN_insert)
  moreover have "set (concat (map family_objects (family_of m # fs))) \<subseteq> set objects"
    using IH(5) m(4) by (simp only: list.map concat.simps set_append family_of_objects Un_least)
  ultimately show ?case by blast
qed simp

lemma family_roots_facts:
  assumes "distinct (map object_ref objects)"
  shows "set (family_roots objects) \<subseteq> object_ref ` set objects"
    and "distinct (family_roots objects)"
    and "\<forall>r\<in>set (family_roots objects). map_of (parent_of objects) r = None"
  using assms by (auto simp: family_roots_def Let_def al_has_def)

lemma buildFamilies_returns:
  assumes "distinct (map object_ref objects)"
  shows "\<exists>fams orphans. buildFamilies objects = Some (fams, orphans) \<and>
    mset (concat (map family_objects fams)) + mset (concat (map kgObjects orphans)) = mset objects"
proof -
  note r = family_roots_facts [OF assms]
  obtain fs cs where l: "families_loop (family_fuel objects) (by_key objects)
        (children_of (parent_of objects)) (family_roots objects) = Some (fs, cs)"
      "set cs = (\<Union>r\<in>set (family_roots objects). fam.desc objects r)"
      "distinct (map object_ref (concat (map family_objects fs)))"
      "object_ref ` set (concat (map family_objects fs)) =
        (\<Union>r\<in>set (family_roots objects). fam.desc objects r)"
      "set (concat (map family_objects fs)) \<subseteq> set objects"
    using families_loop_returns [OF assms r] by (elim exE conjE) (rule that)
  let ?ms = "concat (map family_objects fs)"
  let ?rest = "orphan_objects objects cs"
  have claimed: "set cs = object_ref ` set ?ms"
    using l(2) l(4) by (rule trans [OF _ sym])
  have inj: "inj_on object_ref (set objects)" "distinct objects"
    using assms by (auto simp: distinct_map)
  have rest: "set ?rest = set objects - set ?ms"
  proof -
    have "object_ref ob \<in> set cs \<longleftrightarrow> ob \<in> set ?ms" if "ob \<in> set objects" for ob
      using inj_on_image_mem_iff [OF inj(1) that l(5)] unfolding claimed .
    then show ?thesis unfolding orphan_objects_def set_filter by blast
  qed
  have "distinct ?rest" using inj(2) by (simp add: orphan_objects_def)
  then have "mset (?ms @ ?rest) = mset objects"
  proof (intro set_eq_iff_mset_eq_distinct [THEN iffD1])
    have "distinct ?ms" using l(3) by (simp only: distinct_map)
    then show "distinct (?ms @ ?rest)"
      using rest \<open>distinct ?rest\<close> by (simp only: distinct_append) blast
    show "set (?ms @ ?rest) = set objects"
      using rest l(5) by (simp only: set_append) blast
  qed (rule inj(2))
  moreover have "mset (concat (map family_objects (go_sort family_less fs))) = mset ?ms"
    by (rule mset_concat_map_cong) simp
  moreover have "mset (concat (map kgObjects (groupByKind ?rest))) = mset ?rest"
    by (rule groupByKind_objects)
  ultimately show ?thesis using l(1) by (simp add: buildFamilies_def Let_def)
qed

lemma object_ref_id: "distinct (map object_ref obs) = distinct (map object_id obs)"
  by (induction obs) (auto simp: object_ref_def object_id_def image_iff)

lemma groupByObject_distinct_refs: "distinct (map object_ref (groupByObject clk events))"
  by (simp add: object_ref_id groupByObject_distinct)

text \<open>The totals of a family are sums over its objects; so are an orphan column's.\<close>

lemma sum_objects_mset:
  "mset xs = mset ys \<Longrightarrow> sum_list (map f xs) = sum_list (map f ys)" for f :: "'a \<Rightarrow> nat"
  by (metis mset_map sum_mset_sum_list)

lemma family_objects_of:
  assumes "families_loop n bk ch rs = Some (fs, cs)" and "f \<in> set fs"
  shows "\<exists>root. f = family_of root"
  using assms by (induction rs arbitrary: fs cs) (auto split: option.splits list.splits)

lemma family_counts:
  assumes "buildFamilies objects = Some (fams, orphans)" and "f \<in> set fams"
  shows "famWarningCount f = sum_list (map oeWarningCount (family_objects f))"
    and "famNormalCount f = sum_list (map oeNormalCount (family_objects f))"
    and "famIdle f \<Longrightarrow> famHasWarning f"
    and "famCascadeFailure f \<longleftrightarrow>
      oeHasWarning (fmObject (famRoot f)) \<and> list_all oeHasWarning (leaf_objects (famRoot f))"
proof -
  obtain root where "f = family_of root"
    using assms family_objects_of by (fastforce simp: buildFamilies_def Let_def split: option.splits)
  then show "famWarningCount f = sum_list (map oeWarningCount (family_objects f))"
    and "famNormalCount f = sum_list (map oeNormalCount (family_objects f))"
    and "famIdle f \<Longrightarrow> famHasWarning f"
    and "famCascadeFailure f \<longleftrightarrow>
      oeHasWarning (fmObject (famRoot f)) \<and> list_all oeHasWarning (leaf_objects (famRoot f))"
    by (simp_all add: family_of_def family_objects_def Let_def)
qed

section \<open>Properties\<close>

text \<open>
  C18: building the trees always ends, and splits the objects of a namespace: each is in exactly one
  family tree or exactly one orphan column, and every event stays with its object.
\<close>

theorem families_partition:
  "\<exists>families orphans. buildFamilies (groupByObject clk events) = Some (families, orphans) \<and>
     mset (concat (map family_objects families)) + mset (concat (map kgObjects orphans)) =
       mset (groupByObject clk events) \<and>
     mset (concat (map oeEvents (groupByObject clk events))) = mset events"
  using buildFamilies_returns [OF groupByObject_distinct_refs] groupByObject_events by blast

text \<open>
  the totals of a family are those of its objects, an idle family has a warning, and it is
  marked as cascading exactly when its root and all its leaves have warnings.
\<close>

lemma family_totals:
  assumes "buildFamilies objects = Some (fams, orphans)" and "f \<in> set fams"
  shows "famWarningCount f = sum_list (map oeWarningCount (family_objects f)) \<and>
    famNormalCount f = sum_list (map oeNormalCount (family_objects f)) \<and>
    (famIdle f \<longrightarrow> famHasWarning f) \<and>
    (famCascadeFailure f \<longleftrightarrow>
      oeHasWarning (fmObject (famRoot f)) \<and> list_all oeHasWarning (leaf_objects (famRoot f)))"
  using family_counts [OF assms] by blast

definition sample_tree_events :: "EventSummary list" where
  "sample_tree_events =
     [(sample_summary ''e1'' 10 3)\<lparr>evKind := ''ReplicaSet'', evObjectName := ''web-5d8f7c9b6d''\<rparr>,
      (sample_summary ''e2'' 12 2)\<lparr>evKind := ''Pod'', evObjectName := ''web-5d8f7c9b6d-x7k2p''\<rparr>]"

lemma family_totals_witness:
  "\<exists>f orphans. buildFamilies (groupByObject 100 sample_tree_events) = Some ([f], orphans) \<and>
     famWarningCount f = 2 \<and> famCascadeFailure f"
proof -
  let ?r = "buildFamilies (groupByObject 100 sample_tree_events)"
  have "map_option (\<lambda>(fs, _). map (\<lambda>f. (map oeWarningCount (family_objects f),
      oeHasWarning (fmObject (famRoot f)), list_all oeHasWarning (leaf_objects (famRoot f)))) fs) ?r =
      Some [([1, 1], True, True)]"
    by code_simp
  then obtain f orphans where r: "?r = Some ([f], orphans)"
    and f: "map oeWarningCount (family_objects f) = [1, 1]" "oeHasWarning (fmObject (famRoot f))"
      "list_all oeHasWarning (leaf_objects (famRoot f))"
    by auto
  show ?thesis using family_totals [OF r, of f] r f by simp
qed


end
