(* ===== verification/ApiErrors.thy ===== *)
theory ApiErrors
  imports GoTime
begin

text \<open>
  Errors of the Kubernetes API client and what kind of error one is (tunnels.go, \<open>errKind\<close>). An error
  is its text and what \<open>errors.As\<close> and the API machinery say of the chain of errors behind it.
\<close>

record api_error =
  aeText :: string
  aeDenied :: bool
  aeNetwork :: bool

text \<open>
  \<open>aeDenied\<close>: unauthorized or forbidden. \<open>aeNetwork\<close>: a DNS or network operation error, a timeout, a
  deadline exceeded or an unexpected end of the stream.
\<close>

definition network_words :: "string list" where
  "network_words = [''connection refused'', ''i/o timeout'', ''no route to host'', ''network is unreachable'',
     ''no such host'', ''proxyconnect'', ''socks connect'', ''tls handshake timeout'', ''connection reset'',
     ''eof'']"

definition errKind :: "api_error option \<Rightarrow> string" where
  "errKind err =
     (case err of
        None \<Rightarrow> ''''
      | Some e \<Rightarrow>
          (let msg = to_lower (aeText e) in
           if aeDenied e then ''auth''
           else if str_contains msg ''x509:'' \<or> str_contains msg ''certificate'' then ''tls''
           else if aeNetwork e then ''unreachable''
           else if list_ex (str_contains msg) network_words then ''unreachable''
           else ''other''))"

text \<open>\<open>fmt.Errorf\<close> with \<open>%w\<close>: another text in front, the same chain.\<close>

definition wrap_error :: "string \<Rightarrow> api_error \<Rightarrow> api_error" where
  "wrap_error prefix e = e\<lparr>aeText := prefix @ aeText e\<rparr>"

end
