(* ===== verification/Feed.thy ===== *)
theory Feed
  imports Families ApiErrors
begin

text \<open>
  The event caches of one cluster and everything that fills or reads them (warnings.go, and the
  worker of main.go): the per-namespace sweep, the cluster-wide warning feed, the dashboard data,
  and the views of a namespace. The API server is a function argument that answers a list call;
  the clock readings are arguments too.
\<close>

section \<open>State\<close>

record nsEntry =
  neEvents :: "EventSummary list"
  neUpdatedAt :: time
  neTruncated :: bool

record warnFeedState =
  wfByNS :: "(string, EventSummary list) gomap"
  wfFetchedAt :: time
  wfAttemptedAt :: time
  wfTruncated :: bool
  wfDisabled :: bool
  wfLastErr :: string

record NamespaceEvents =
  nvNamespace :: string
  nvEvents :: "EventSummary list"
  nvObjects :: "ObjectEvents list"
  nvKindGroups :: "KindGroup list"
  nvFamilies :: "ObjectFamily list"
  nvOrphanKinds :: "KindGroup list"
  nvWarningCount :: nat
  nvNormalCount :: nat

record DashboardData =
  ddNamespaces :: "NamespaceEvents list"
  ddLastUpdated :: string
  ddTotalWarn :: nat
  ddTotalNormal :: nat

record workerState =
  wsTotal :: nat
  wsNamespaces :: "string list"
  wsReady :: bool
  wsLastErr :: string
  wsLastErrKind :: string

text \<open>The part of \<open>clusterState\<close> that holds events.\<close>

record eventCache =
  ecNsCache :: "(string, nsEntry) gomap"
  ecFeed :: warnFeedState
  ecDashboard :: "DashboardData option"
  ecWorker :: workerState

text \<open>
  What an events list call answers: the items and the continue token, or an error with its text,
  whether it is Forbidden, and whether the call's context was cancelled by then.
\<close>

datatype list_result =
  ListOk (lrItems: "core_event list") (lrContinue: string)
| ListErr (lrErr: string) (lrForbidden: bool) (lrCancelled: bool)

definition warnFeedInterval :: duration where "warnFeedInterval = 10 * second"
definition warnFeedMaxPages :: nat where "warnFeedMaxPages = 20"
definition clusterScopeNS :: string where "clusterScopeNS = ''_cluster''"

section \<open>Reading the caches\<close>

definition namespaceEvents :: "eventCache \<Rightarrow> string \<Rightarrow> EventSummary list" where
  "namespaceEvents c ns =
     mergeEvents (case map_of (ecNsCache c) ns of Some entry \<Rightarrow> neEvents entry | None \<Rightarrow> [])
       (al_get [] (wfByNS (ecFeed c)) ns)"

text \<open>The namespaces known to the sweep or the feed; \<open>names\<close> is a Go set.\<close>

definition known_namespaces :: "eventCache \<Rightarrow> string list" where
  "known_namespaces c =
     remdups (map fst (ecNsCache c) @ map fst (wfByNS (ecFeed c)))"

definition allNamespaceEvents :: "eventCache \<Rightarrow> (string, EventSummary list) gomap" where
  "allNamespaceEvents c = map (\<lambda>ns. (ns, namespaceEvents c ns)) (known_namespaces c)"

definition scopeEvents :: "eventCache \<Rightarrow> string \<Rightarrow> EventSummary list" where
  "scopeEvents c ns =
     (if ns = clusterScopeNS then
        sortNewestFirst
          (concat (map (\<lambda>(_, evs). filter (\<lambda>e. evObjectNamespace e = '''' \<and> evKind e \<noteq> '''') evs)
             (allNamespaceEvents c)))
      else filter (\<lambda>e. evObjectNamespace e \<noteq> '''' \<or> evKind e = '''') (namespaceEvents c ns))"

definition apiNamespace :: "string \<Rightarrow> string" where
  "apiNamespace ns = (if ns = clusterScopeNS then '''' else ns)"

section \<open>The dashboard\<close>

definition dashboard_entry :: "time \<Rightarrow> string \<Rightarrow> EventSummary list \<Rightarrow> NamespaceEvents" where
  "dashboard_entry clock ns events =
     (let objects = groupByObject clock events in
      \<lparr>nvNamespace = ns, nvEvents = events, nvObjects = objects,
       nvKindGroups = groupByKind objects, nvFamilies = [], nvOrphanKinds = [],
       nvWarningCount = length (filter is_warning events),
       nvNormalCount = length (filter (\<lambda>e. \<not> is_warning e) events)\<rparr>)"

definition dashboard_less :: "NamespaceEvents \<Rightarrow> NamespaceEvents \<Rightarrow> bool" where
  "dashboard_less a b =
     (if nvWarningCount a \<noteq> nvWarningCount b then nvWarningCount a > nvWarningCount b
      else nvNamespace a < nvNamespace b)"

definition dashboard_key :: "NamespaceEvents \<Rightarrow> int \<times> string" where
  "dashboard_key n = (- int (nvWarningCount n), nvNamespace n)"

interpretation dashboard_order: keyed_order dashboard_less dashboard_key
  by unfold_locales (auto simp: dashboard_less_def dashboard_key_def)

definition assembleDashboard :: "time_format \<Rightarrow> time \<Rightarrow> eventCache \<Rightarrow> eventCache" where
  "assembleDashboard fmt now c =
     (let results = map (\<lambda>(ns, events). dashboard_entry now ns events) (allNamespaceEvents c) in
      c\<lparr>ecDashboard := Some
          \<lparr>ddNamespaces = go_sort dashboard_less results,
           ddLastUpdated = fmt ''2006-01-02 15:04:05 MST'' now,
           ddTotalWarn = sum_list (map nvWarningCount results),
           ddTotalNormal = sum_list (map nvNormalCount results)\<rparr>\<rparr>)"

section \<open>The warning feed\<close>

text \<open>The feed only runs when all namespaces are watched.\<close>

definition warnFeedDue :: "bool \<Rightarrow> time \<Rightarrow> warnFeedState \<Rightarrow> bool" where
  "warnFeedDue allNS now f =
     (if \<not> allNS then False
      else \<not> wfDisabled f \<and> time_sub now (wfAttemptedAt f) \<ge> warnFeedInterval)"

datatype feed_outcome =
  FeedOk "(string, EventSummary list) gomap" bool
| FeedErr string bool
| FeedCancelled

definition feed_add :: "time \<Rightarrow> (string, EventSummary list) gomap \<Rightarrow> core_event \<Rightarrow>
    (string, EventSummary list) gomap" where
  "feed_add clock byNS e = al_alter (ceNamespace e) (snoc_opt (toSummary clock e)) byNS"

text \<open>The loop over pages; \<open>list page token\<close> is the API's answer to the call for that page.\<close>

function feed_pages :: "(nat \<Rightarrow> string \<Rightarrow> list_result) \<Rightarrow> time \<Rightarrow> nat \<Rightarrow> string \<Rightarrow>
    (string, EventSummary list) gomap \<Rightarrow> feed_outcome" where
  "feed_pages list clock page token byNS =
     (case list page token of
        ListErr err forbidden cancelled \<Rightarrow>
          if cancelled then FeedCancelled else FeedErr err forbidden
      | ListOk items cont \<Rightarrow>
          let byNS' = foldl (feed_add clock) byNS items in
          if cont = '''' then FeedOk byNS' False
          else if page \<ge> warnFeedMaxPages then FeedOk byNS' True
          else feed_pages list clock (page + 1) cont byNS')"
  by pat_completeness auto
termination
  by (relation "measure (\<lambda>(l, c, page, t, b). warnFeedMaxPages - page)") auto

declare feed_pages.simps [simp del]

text \<open>
  \<open>refreshWarnings\<close>: \<open>t0\<close> is the clock when the fetch starts, \<open>t1\<close> when it has ended.
\<close>

definition refreshWarnings :: "time_format \<Rightarrow> (nat \<Rightarrow> string \<Rightarrow> list_result) \<Rightarrow> time \<Rightarrow> time \<Rightarrow>
    eventCache \<Rightarrow> eventCache" where
  "refreshWarnings fmt list t0 t1 c =
     (let f0 = (ecFeed c)\<lparr>wfAttemptedAt := t0\<rparr> in
      case feed_pages list t1 1 '''' [] of
        FeedCancelled \<Rightarrow> c\<lparr>ecFeed := f0\<rparr>
      | FeedErr err forbidden \<Rightarrow>
          c\<lparr>ecFeed := (let f1 = f0\<lparr>wfLastErr := err\<rparr> in
                       if forbidden then f1\<lparr>wfDisabled := True\<rparr> else f1)\<rparr>
      | FeedOk byNS truncated \<Rightarrow>
          assembleDashboard fmt t1
            (c\<lparr>ecFeed := f0\<lparr>wfByNS := map (\<lambda>(ns, evs). (ns, sortNewestFirst evs)) byNS,
                            wfFetchedAt := t1, wfTruncated := truncated, wfLastErr := ''''\<rparr>\<rparr>))"

record warnFeedStatus =
  stMode :: string
  stCheckedAt :: string
  stAgeSec :: int
  stTruncated :: bool
  stError :: string

definition warnFeedStatus_of :: "time_format \<Rightarrow> bool \<Rightarrow> time \<Rightarrow> warnFeedState \<Rightarrow> warnFeedStatus" where
  "warnFeedStatus_of fmt allNS now f =
     \<lparr>stMode = (if \<not> allNS \<or> wfDisabled f then ''sweep'' else ''cluster''),
      stCheckedAt = (if wfFetchedAt f \<noteq> 0 then fmt ''2006-01-02T15:04:05Z07:00'' (wfFetchedAt f) else ''''),
      stAgeSec = (if wfFetchedAt f \<noteq> 0 then secs (time_sub now (wfFetchedAt f)) else 0),
      stTruncated = wfTruncated f, stError = wfLastErr f\<rparr>"

section \<open>The sweep\<close>

text \<open>\<open>fetchEvents\<close>: the summaries, and whether the namespace has more events.\<close>

definition fetchEvents :: "time \<Rightarrow> list_result \<Rightarrow> (EventSummary list \<times> bool) option" where
  "fetchEvents clock answer =
     (case answer of
        ListErr _ _ _ \<Rightarrow> None
      | ListOk items cont \<Rightarrow> Some (sortNewestFirst (map (toSummary clock) items), cont \<noteq> ''''))"

definition refreshNamespace :: "time_format \<Rightarrow> (string \<Rightarrow> list_result) \<Rightarrow> time \<Rightarrow> string \<Rightarrow>
    eventCache \<Rightarrow> eventCache" where
  "refreshNamespace fmt list now ns c =
     (case fetchEvents now (list ns) of
        None \<Rightarrow> c
      | Some (events, truncated) \<Rightarrow>
          assembleDashboard fmt now
            (c\<lparr>ecNsCache := al_set ns
                 \<lparr>neEvents = events, neUpdatedAt = now, neTruncated = truncated\<rparr> (ecNsCache c)\<rparr>))"

text \<open>The namespace whose cache is oldest, or the first one without a cache.\<close>

fun pick_stalest :: "(string, nsEntry) gomap \<Rightarrow> string \<Rightarrow> time \<Rightarrow> string list \<Rightarrow> string" where
  "pick_stalest cache stalest stalestTime [] = stalest"
| "pick_stalest cache stalest stalestTime (ns # rest) =
     (case map_of cache ns of
        None \<Rightarrow> ns
      | Some entry \<Rightarrow>
          if stalest = '''' \<or> neUpdatedAt entry < stalestTime
          then pick_stalest cache ns (neUpdatedAt entry) rest
          else pick_stalest cache stalest stalestTime rest)"

text \<open>What the API server answers during one tick.\<close>

record api_answers =
  apiWarnings :: "nat \<Rightarrow> string \<Rightarrow> list_result"
  apiEvents :: "string \<Rightarrow> list_result"

definition workerTick :: "time_format \<Rightarrow> bool \<Rightarrow> api_answers \<Rightarrow> time \<Rightarrow> string list \<Rightarrow>
    eventCache \<Rightarrow> eventCache" where
  "workerTick fmt allNS api now namespaces c =
     (if warnFeedDue allNS now (ecFeed c) then refreshWarnings fmt (apiWarnings api) now now c
      else if namespaces = [] then c
      else
        let stalest = pick_stalest (ecNsCache c) '''' 0 namespaces;
            c1 = (if stalest \<noteq> '''' then refreshNamespace fmt (apiEvents api) now stalest c else c);
            loaded = length (ecNsCache c1)
        in c1\<lparr>ecWorker := (ecWorker c1)\<lparr>wsReady := (loaded \<ge> length namespaces \<and>
                                                     length namespaces > 0)\<rparr>\<rparr>)"

text \<open>
  One round of \<open>runWorker\<close>: the namespace list is resolved again when it is due (an error keeps the
  old one and is shown), then one tick.
\<close>

record workerVars =
  wvNamespaces :: "string list"
  wvNextNSFetch :: time

datatype ns_answer = NsList "string list" | NsErr api_error

definition resolveNamespaces :: "bool \<Rightarrow> string list \<Rightarrow> ns_answer \<Rightarrow> ns_answer" where
  "resolveNamespaces allNS cfgNamespaces answer =
     (if \<not> allNS then NsList cfgNamespaces
      else case answer of NsErr e \<Rightarrow> NsErr (wrap_error ''list namespaces: '' e) | NsList l \<Rightarrow> NsList (sort l))"

definition workerRound :: "time_format \<Rightarrow> bool \<Rightarrow> string list \<Rightarrow> ns_answer \<Rightarrow>
    api_answers \<Rightarrow> time \<Rightarrow> workerVars \<times> eventCache \<Rightarrow> workerVars \<times> eventCache" where
  "workerRound fmt allNS cfgNamespaces nsAnswer api now st =
     (case st of (v, c) \<Rightarrow>
        let (v1, c1) =
          (if now > wvNextNSFetch v then
             (case resolveNamespaces allNS cfgNamespaces nsAnswer of
                NsErr e \<Rightarrow> (v, c\<lparr>ecWorker := (ecWorker c)\<lparr>wsLastErr := aeText e, wsLastErrKind := errKind (Some e)\<rparr>\<rparr>)
              | NsList ns \<Rightarrow>
                  (\<lparr>wvNamespaces = ns, wvNextNSFetch = now + 5 * minute\<rparr>,
                   c\<lparr>ecWorker := (ecWorker c)\<lparr>wsTotal := length ns, wsNamespaces := ns,
                                                wsLastErr := '''', wsLastErrKind := ''''\<rparr>\<rparr>))
           else (v, c))
        in (v1, workerTick fmt allNS api now (wvNamespaces v1) c1))"

section \<open>The namespace page\<close>

record nsPageData =
  pgEvents :: NamespaceEvents
  pgTitle :: string
  pgWarnings :: "EventSummary list"
  pgLoadedAt :: string

definition statusWarnings :: nat where "statusWarnings = 8"

text \<open>\<open>None\<close> would be the trees out of fuel; \<open>namespacePage_returns\<close> rules it out.\<close>

definition namespacePage :: "time_format \<Rightarrow> time \<Rightarrow> eventCache \<Rightarrow> string \<Rightarrow> nsPageData option" where
  "namespacePage fmt clock c ns =
     (let events = scopeEvents c ns;
          objects = groupByObject clock events
      in case buildFamilies objects of
           None \<Rightarrow> None
         | Some (families, orphans) \<Rightarrow>
             Some \<lparr>pgEvents =
                     \<lparr>nvNamespace = ns, nvEvents = events, nvObjects = objects,
                      nvKindGroups = groupByKind objects, nvFamilies = families,
                      nvOrphanKinds = orphans, nvWarningCount = 0, nvNormalCount = 0\<rparr>,
                   pgTitle = (if ns = clusterScopeNS then ''Cluster-wide objects'' else ns),
                   pgWarnings = take statusWarnings (filter is_warning events),
                   pgLoadedAt = fmt ''15:04:05'' clock\<rparr>)"

section \<open>What the feed stores\<close>

text \<open>The items of the pages the loop reads, in order.\<close>

function feed_items :: "(nat \<Rightarrow> string \<Rightarrow> list_result) \<Rightarrow> nat \<Rightarrow> string \<Rightarrow> core_event list" where
  "feed_items list page token =
     (case list page token of
        ListErr _ _ _ \<Rightarrow> []
      | ListOk items cont \<Rightarrow>
          if cont = '''' \<or> page \<ge> warnFeedMaxPages then items
          else items @ feed_items list (page + 1) cont)"
  by pat_completeness auto
termination
  by (relation "measure (\<lambda>(l, page, t). warnFeedMaxPages - page)") auto

declare feed_items.simps [simp del]

lemma feed_add_group:
  "map_of (foldl (feed_add clk) m es) ns =
   opt_fold (\<lambda>e. snoc_opt (toSummary clk e)) (filter (\<lambda>e. ceNamespace e = ns) es) (map_of m ns)"
  using map_of_foldl_alter [of ceNamespace "\<lambda>e. snoc_opt (toSummary clk e)" m es ns]
  unfolding feed_add_def by simp

lemma opt_fold_feed:
  "opt_fold (\<lambda>e. snoc_opt (toSummary clk e)) es v =
   (if es = [] then v else Some ((case v of None \<Rightarrow> [] | Some l \<Rightarrow> l) @ map (toSummary clk) es))"
proof (induction es arbitrary: v)
  case (Cons e es)
  show ?case by (cases v; cases "es = []") (simp_all add: Cons.IH)
qed simp

lemma feed_get:
  "al_get [] (foldl (feed_add clk) m es) ns =
   al_get [] m ns @ map (toSummary clk) (filter (\<lambda>e. ceNamespace e = ns) es)"
  by (auto simp: al_get_def feed_add_group opt_fold_feed split: option.splits)

lemma feed_pages_get:
  "feed_pages list clk page token m = FeedOk byNS tr \<Longrightarrow>
   al_get [] byNS ns =
     al_get [] m ns @ map (toSummary clk) (filter (\<lambda>e. ceNamespace e = ns) (feed_items list page token))"
proof (induction list clk page token m rule: feed_pages.induct)
  case (1 list clk page token m)
  show ?case
  proof (cases "list page token")
    case (ListErr e f c)
    then show ?thesis using "1.prems" by (simp add: feed_pages.simps [of list] split: if_splits)
  next
    case (ListOk items cont)
    show ?thesis
    proof (cases "cont = '''' \<or> page \<ge> warnFeedMaxPages")
      case True
      then show ?thesis
        using "1.prems" ListOk
        by (auto simp: feed_pages.simps [of list clk page] feed_items.simps [of list page] feed_get
            Let_def split: if_splits)
    next
      case False
      then have "feed_pages list clk (page + 1) cont (foldl (feed_add clk) m items) = FeedOk byNS tr"
        using "1.prems" ListOk by (simp add: feed_pages.simps [of list clk page] Let_def)
      then show ?thesis
        using "1.IH" [OF ListOk refl] False ListOk
        by (simp add: feed_items.simps [of list page] feed_get)
    qed
  qed
qed

text \<open>The loop never makes a call for a page after the last allowed one.\<close>

lemma feed_pages_bounded:
  assumes "\<And>p t. p \<le> warnFeedMaxPages \<Longrightarrow> l1 p t = l2 p t" and "page \<le> warnFeedMaxPages"
  shows "feed_pages l1 clk page token m = feed_pages l2 clk page token m"
  using assms
proof (induction l1 clk page token m rule: feed_pages.induct)
  case (1 l1 clk page token m)
  then have eq: "l1 page token = l2 page token" by blast
  show ?case
  proof (cases "l2 page token")
    case (ListErr e f c)
    then show ?thesis using eq
      by (simp add: feed_pages.simps [of l1 clk page] feed_pages.simps [of l2 clk page])
  next
    case (ListOk items cont)
    show ?thesis
    proof (cases "cont = '''' \<or> page \<ge> warnFeedMaxPages")
      case True
      then show ?thesis using eq ListOk
        by (auto simp: feed_pages.simps [of l1 clk page] feed_pages.simps [of l2 clk page] Let_def)
    next
      case False
      have "l1 page token = ListOk items cont" using eq ListOk by simp
      from "1.IH" [OF this refl] False "1.prems"
      have "feed_pages l1 clk (page + 1) cont (foldl (feed_add clk) m items) =
          feed_pages l2 clk (page + 1) cont (foldl (feed_add clk) m items)" by simp
      then show ?thesis using False eq ListOk
        by (simp add: feed_pages.simps [of l1 clk page] feed_pages.simps [of l2 clk page] Let_def)
    qed
  qed
qed

lemma al_get_map_snd:
  "al_get [] (map (\<lambda>(k, v). (k, f v)) m) k = (if al_has k m then f (al_get [] m k) else [])"
  by (induction m) (auto simp: al_get_def al_has_def)

lemma al_get_missing: "\<not> al_has k m \<Longrightarrow> al_get z m k = z"
  by (simp add: al_get_def al_has_def)

lemma assembleDashboard_frame [simp]:
  "ecNsCache (assembleDashboard fmt now c) = ecNsCache c"
  "ecFeed (assembleDashboard fmt now c) = ecFeed c"
  "ecWorker (assembleDashboard fmt now c) = ecWorker c"
  by (simp_all add: assembleDashboard_def Let_def)

lemma refreshWarnings_frame [simp]:
  "ecNsCache (refreshWarnings fmt list t0 t1 c) = ecNsCache c"
  "ecWorker (refreshWarnings fmt list t0 t1 c) = ecWorker c"
  by (simp_all add: refreshWarnings_def Let_def split: feed_outcome.splits)

lemma refreshWarnings_disabled:
  "wfDisabled (ecFeed c) \<Longrightarrow> wfDisabled (ecFeed (refreshWarnings fmt list t0 t1 c))"
  by (auto simp: refreshWarnings_def Let_def split: feed_outcome.splits)

lemma refreshNamespace_frame [simp]:
  "ecFeed (refreshNamespace fmt list now ns c) = ecFeed c"
  "ecWorker (refreshNamespace fmt list now ns c) = ecWorker c"
  by (simp_all add: refreshNamespace_def split: option.splits prod.splits)

lemma workerTick_disabled:
  "wfDisabled (ecFeed c) \<Longrightarrow> wfDisabled (ecFeed (workerTick fmt allNS api now nss c))"
  by (cases "warnFeedDue allNS now (ecFeed c)")
    (simp_all add: workerTick_def Let_def refreshWarnings_disabled)

section \<open>The sweep reaches every namespace\<close>

definition missing :: "string list \<Rightarrow> eventCache \<Rightarrow> string set" where
  "missing nss c = {ns \<in> set nss. \<not> al_has ns (ecNsCache c)}"

lemma pick_missing:
  "\<exists>ns\<in>set nss. \<not> al_has ns cache \<Longrightarrow>
   pick_stalest cache s t nss \<in> set nss \<and> \<not> al_has (pick_stalest cache s t nss) cache"
  by (induction cache s t nss rule: pick_stalest.induct) (auto simp: al_has_def split: option.splits)

definition oldest_of :: "(string, nsEntry) gomap \<Rightarrow> string \<Rightarrow> time \<Rightarrow> string list \<Rightarrow> string \<Rightarrow> bool" where
  "oldest_of cache s t nss p \<longleftrightarrow>
     (\<exists>e. map_of cache p = Some e \<and> p \<in> set nss \<union> {s} \<and> p \<noteq> '''' \<and>
        (s \<noteq> '''' \<longrightarrow> neUpdatedAt e \<le> t) \<and>
        (\<forall>ns\<in>set nss. \<forall>e'. map_of cache ns = Some e' \<longrightarrow> neUpdatedAt e \<le> neUpdatedAt e'))"

lemma oldest_of_take:
  assumes "map_of cache ns = Some e" and "s = '''' \<or> neUpdatedAt e < t" and "ns \<noteq> ''''"
    and "oldest_of cache ns (neUpdatedAt e) rest p"
  shows "oldest_of cache s t (ns # rest) p"
proof -
  obtain e' where "map_of cache p = Some e'" "p \<in> set rest \<union> {ns}" "p \<noteq> ''''"
    "neUpdatedAt e' \<le> neUpdatedAt e"
    "\<forall>n\<in>set rest. \<forall>x. map_of cache n = Some x \<longrightarrow> neUpdatedAt e' \<le> neUpdatedAt x"
    using assms(3,4) by (auto simp: oldest_of_def)
  then show ?thesis
    unfolding oldest_of_def using assms(1,2) by (intro exI [of _ e']) auto
qed

lemma oldest_of_keep:
  assumes "map_of cache ns = Some e" and "s \<noteq> ''''" and "t \<le> neUpdatedAt e"
    and "oldest_of cache s t rest p"
  shows "oldest_of cache s t (ns # rest) p"
proof -
  obtain e' where "map_of cache p = Some e'" "p \<in> set rest \<union> {s}" "p \<noteq> ''''"
    "neUpdatedAt e' \<le> t"
    "\<forall>n\<in>set rest. \<forall>x. map_of cache n = Some x \<longrightarrow> neUpdatedAt e' \<le> neUpdatedAt x"
    using assms(2,4) by (auto simp: oldest_of_def)
  then show ?thesis
    unfolding oldest_of_def using assms(1,3) by (intro exI [of _ e']) auto
qed

lemma pick_oldest_gen:
  assumes "\<forall>ns\<in>set nss. al_has ns cache \<and> ns \<noteq> ''''"
    and "s \<noteq> '''' \<Longrightarrow> \<exists>e. map_of cache s = Some e \<and> neUpdatedAt e = t"
    and "s \<noteq> '''' \<or> nss \<noteq> []"
  shows "oldest_of cache s t nss (pick_stalest cache s t nss)"
  using assms
proof (induction cache s t nss rule: pick_stalest.induct)
  case (1 cache s t)
  then show ?case by (auto simp: oldest_of_def)
next
  case (2 cache s t ns rest)
  then obtain e where e: "map_of cache ns = Some e" "ns \<noteq> ''''" by (auto simp: al_has_def)
  have rest: "\<forall>ns\<in>set rest. al_has ns cache \<and> ns \<noteq> ''''" using "2.prems"(1) by simp
  show ?case
  proof (cases "s = '''' \<or> neUpdatedAt e < t")
    case True
    have "oldest_of cache ns (neUpdatedAt e) rest (pick_stalest cache ns (neUpdatedAt e) rest)"
      using e by (intro "2.IH"(1) [OF e(1) True rest]) simp_all
    from oldest_of_take [OF e(1) True e(2) this] show ?thesis using e(1) True by simp
  next
    case False
    have "oldest_of cache s t rest (pick_stalest cache s t rest)"
      using False "2.prems"(2) by (intro "2.IH"(2) [OF e(1) False rest]) simp_all
    from oldest_of_keep [OF e(1) _ _ this] show ?thesis using e(1) False by simp
  qed
qed

text \<open>When every namespace is cached, the sweep takes one whose copy is the oldest.\<close>

lemma pick_oldest:
  assumes "\<forall>ns\<in>set nss. al_has ns cache \<and> ns \<noteq> ''''" and "nss \<noteq> []"
  shows "pick_stalest cache '''' 0 nss \<in> set nss \<and>
    (\<forall>ns\<in>set nss. \<forall>e e'. map_of cache (pick_stalest cache '''' 0 nss) = Some e \<longrightarrow>
       map_of cache ns = Some e' \<longrightarrow> neUpdatedAt e \<le> neUpdatedAt e')"
proof -
  have "oldest_of cache '''' 0 nss (pick_stalest cache '''' 0 nss)"
    using assms by (intro pick_oldest_gen) simp_all
  then show ?thesis unfolding oldest_of_def by auto
qed

lemma refreshNamespace_cached:
  assumes "list ns = ListOk items cont"
  shows "ecNsCache (refreshNamespace fmt list now ns c) =
    al_set ns \<lparr>neEvents = sortNewestFirst (map (toSummary now) items), neUpdatedAt = now,
               neTruncated = (cont \<noteq> '''')\<rparr> (ecNsCache c)"
  using assms by (simp add: refreshNamespace_def fetchEvents_def)

lemma refreshNamespace_keys:
  "fst ` set (ecNsCache c) \<subseteq> fst ` set (ecNsCache (refreshNamespace fmt list now ns c))"
  by (auto simp: refreshNamespace_def al_set_def split: option.splits)

definition sweep_tick :: "bool \<Rightarrow> time \<Rightarrow> eventCache \<Rightarrow> bool" where
  "sweep_tick allNS now c \<longleftrightarrow> \<not> warnFeedDue allNS now (ecFeed c)"

lemma workerTick_cache:
  "ecNsCache (workerTick fmt allNS api now nss c) =
   (if sweep_tick allNS now c \<and> nss \<noteq> [] \<and> pick_stalest (ecNsCache c) '''' 0 nss \<noteq> ''''
    then ecNsCache (refreshNamespace fmt (apiEvents api) now (pick_stalest (ecNsCache c) '''' 0 nss) c)
    else ecNsCache c)"
  by (simp add: workerTick_def sweep_tick_def Let_def)

lemma workerTick_keys:
  "fst ` set (ecNsCache c) \<subseteq> fst ` set (ecNsCache (workerTick fmt allNS api now nss c))"
  by (simp add: workerTick_cache refreshNamespace_keys)

lemma workerTick_missing:
  assumes "'''' \<notin> set nss" and "\<forall>ns\<in>set nss. \<exists>items cont. apiEvents api ns = ListOk items cont"
    and "sweep_tick allNS now c" and "missing nss c \<noteq> {}"
  shows "card (missing nss (workerTick fmt allNS api now nss c)) < card (missing nss c)"
proof -
  let ?p = "pick_stalest (ecNsCache c) '''' 0 nss"
  have p: "?p \<in> missing nss c"
    using pick_missing [of nss "ecNsCache c"] assms(4) by (auto simp: missing_def)
  then have ne: "?p \<noteq> ''''" "nss \<noteq> []" using assms(1) by (auto simp: missing_def)
  obtain items cont where ok: "apiEvents api ?p = ListOk items cont"
    using assms(2) p by (auto simp: missing_def)
  have "ecNsCache (workerTick fmt allNS api now nss c) =
      ecNsCache (refreshNamespace fmt (apiEvents api) now ?p c)"
    using assms(3) ne by (simp add: workerTick_cache)
  then have "missing nss (workerTick fmt allNS api now nss c) = missing nss c - {?p}"
    using ok by (auto simp: missing_def refreshNamespace_cached al_has_def)
  then show ?thesis
    using p by (simp only:) (rule card_Diff1_less, simp_all add: missing_def)
qed

text \<open>A run of ticks, and how many of them the sweep got.\<close>

fun run_ticks :: "time_format \<Rightarrow> bool \<Rightarrow> string list \<Rightarrow> (api_answers \<times> time) list \<Rightarrow>
    eventCache \<Rightarrow> eventCache" where
  "run_ticks fmt allNS nss [] c = c"
| "run_ticks fmt allNS nss ((api, now) # ts) c =
     run_ticks fmt allNS nss ts (workerTick fmt allNS api now nss c)"

fun sweep_ticks :: "time_format \<Rightarrow> bool \<Rightarrow> string list \<Rightarrow> (api_answers \<times> time) list \<Rightarrow>
    eventCache \<Rightarrow> nat" where
  "sweep_ticks fmt allNS nss [] c = 0"
| "sweep_ticks fmt allNS nss ((api, now) # ts) c =
     (if sweep_tick allNS now c then 1 else 0) +
     sweep_ticks fmt allNS nss ts (workerTick fmt allNS api now nss c)"

lemma missing_mono: "missing nss (workerTick fmt allNS api now nss c) \<subseteq> missing nss c"
  using workerTick_keys [of c fmt allNS api now nss]
  unfolding missing_def al_has_iff by (intro Collect_mono) blast

lemma run_ticks_missing:
  "\<lbrakk>'''' \<notin> set nss;
    \<forall>(api, now)\<in>set ts. \<forall>ns\<in>set nss. \<exists>items cont. apiEvents api ns = ListOk items cont\<rbrakk> \<Longrightarrow>
   card (missing nss (run_ticks fmt allNS nss ts c)) \<le>
     card (missing nss c) - sweep_ticks fmt allNS nss ts c"
proof (induction ts arbitrary: c)
  case (Cons a ts)
  obtain api now where a: "a = (api, now)" by fastforce
  let ?c = "workerTick fmt allNS api now nss c"
  have ok: "\<forall>ns\<in>set nss. \<exists>items cont. apiEvents api ns = ListOk items cont"
    using Cons.prems(2) a by auto
  have fin: "finite (missing nss c)" by (simp add: missing_def)
  have le: "card (missing nss ?c) \<le> card (missing nss c)"
    using missing_mono fin by (rule card_mono [rotated])
  have step: "card (missing nss ?c) \<le> card (missing nss c) - 1" if "sweep_tick allNS now c"
  proof (cases "missing nss c = {}")
    case True
    then show ?thesis using missing_mono [of nss fmt allNS api now c] by simp
  next
    case False
    then show ?thesis using workerTick_missing [OF Cons.prems(1) ok that False, of fmt] by linarith
  qed
  have "card (missing nss (run_ticks fmt allNS nss ts ?c)) \<le>
      card (missing nss ?c) - sweep_ticks fmt allNS nss ts ?c"
    using Cons.prems by (intro Cons.IH) auto
  then show ?case using a le step by auto
qed simp

section \<open>Scopes\<close>

lemma known_namespaces_set:
  "set (known_namespaces c) = fst ` set (ecNsCache c) \<union> fst ` set (wfByNS (ecFeed c))"
  by (auto simp: known_namespaces_def)

lemma allNamespaceEvents_keys [simp]: "map fst (allNamespaceEvents c) = known_namespaces c"
  by (simp add: allNamespaceEvents_def comp_def)

lemma distinct_known_namespaces [simp]: "distinct (known_namespaces c)"
  by (simp add: known_namespaces_def)

lemma namespaceEvents_unknown: "ns \<notin> set (known_namespaces c) \<Longrightarrow> namespaceEvents c ns = []"
proof -
  assume "ns \<notin> set (known_namespaces c)"
  then have "\<not> al_has ns (ecNsCache c)" "\<not> al_has ns (wfByNS (ecFeed c))"
    by (auto simp: known_namespaces_set al_has_iff)
  then show ?thesis
    by (simp add: namespaceEvents_def al_get_missing mergeEvents_def al_has_def)
qed

lemma scopeEvents_cluster:
  "e \<in> set (scopeEvents c clusterScopeNS) \<longleftrightarrow>
   (\<exists>ns. e \<in> set (namespaceEvents c ns)) \<and> evObjectNamespace e = '''' \<and> evKind e \<noteq> ''''"
  using namespaceEvents_unknown by (fastforce simp: scopeEvents_def allNamespaceEvents_def)

lemma scopeEvents_namespace:
  "ns \<noteq> clusterScopeNS \<Longrightarrow> e \<in> set (scopeEvents c ns) \<longleftrightarrow>
   e \<in> set (namespaceEvents c ns) \<and> (evObjectNamespace e \<noteq> '''' \<or> evKind e = '''')"
  by (auto simp: scopeEvents_def)

lemma namespacePage_returns: "\<exists>page. namespacePage fmt clk c ns = Some page"
  using buildFamilies_returns [OF groupByObject_distinct_refs, of clk "scopeEvents c ns"]
  by (auto simp: namespacePage_def Let_def)

section \<open>Properties\<close>

text \<open>
  C9: while the API answers, every tick the sweep gets fetches a namespace that has no events yet:
  after as many such ticks as there are namespaces, none is left out. The feed, which takes ticks
  away, cannot undo that.
\<close>

theorem sweep_reaches_all:
  assumes "'''' \<notin> set nss"
    and "\<forall>(api, now)\<in>set ts. \<forall>ns\<in>set nss. \<exists>items cont. apiEvents api ns = ListOk items cont"
    and "sweep_ticks fmt allNS nss ts c \<ge> length nss"
  shows "\<forall>ns\<in>set nss. al_has ns (ecNsCache (run_ticks fmt allNS nss ts c))"
proof -
  have "card (missing nss c) \<le> card (set nss)" by (intro card_mono) (auto simp: missing_def)
  also have "\<dots> \<le> length nss" by (rule card_length)
  finally have "card (missing nss (run_ticks fmt allNS nss ts c)) = 0"
    using run_ticks_missing [OF assms(1,2), of fmt allNS c] assms(3) by linarith
  then have "missing nss (run_ticks fmt allNS nss ts c) = {}" by (simp add: missing_def)
  then show ?thesis by (auto simp: missing_def)
qed

definition sample_api :: api_answers where
  "sample_api = \<lparr>apiWarnings = (\<lambda>_ _. ListOk [] ''''), apiEvents = (\<lambda>_. ListOk [] '''')\<rparr>"

definition sample_cache :: eventCache where
  "sample_cache = \<lparr>ecNsCache = [],
     ecFeed = \<lparr>wfByNS = [], wfFetchedAt = 0, wfAttemptedAt = 0, wfTruncated = False,
                wfDisabled = False, wfLastErr = ''''\<rparr>,
     ecDashboard = None,
     ecWorker = \<lparr>wsTotal = 0, wsNamespaces = [], wsReady = False, wsLastErr = '''', wsLastErrKind = ''''\<rparr>\<rparr>"

lemma sweep_ticks_single: "sweep_ticks fmt False nss ts c = length ts"
  by (induction fmt False nss ts c rule: sweep_ticks.induct) (simp_all add: sweep_tick_def warnFeedDue_def)

theorem sweep_reaches_all_witness:
  "let c = run_ticks (\<lambda>_ _. '''') False [''a'', ''b'']
     [(sample_api, second), (sample_api, 3 * second)] sample_cache
   in al_has ''a'' (ecNsCache c) \<and> al_has ''b'' (ecNsCache c)"
proof -
  have "\<forall>ns\<in>set [''a'', ''b'']. al_has ns (ecNsCache (run_ticks (\<lambda>_ _. '''') False [''a'', ''b'']
      [(sample_api, second), (sample_api, 3 * second)] sample_cache))"
    by (rule sweep_reaches_all) (simp, simp add: sample_api_def, simp only: sweep_ticks_single, simp)
  then show ?thesis by (simp add: Let_def)
qed

text \<open>
  a feed fetch reads at most twenty pages, and what it stores for a namespace is exactly the
  warnings of that namespace on the pages it read, in the API's order.
\<close>

lemma feed_stores_pages:
  assumes "feed_pages list clk 1 '''' [] = FeedOk byNS truncated"
    and "\<And>page token. page \<le> 20 \<Longrightarrow> list' page token = list page token"
  shows "al_get [] byNS ns = map (toSummary clk) (filter (\<lambda>e. ceNamespace e = ns) (feed_items list 1 '''')) \<and>
    feed_pages list' clk 1 '''' [] = FeedOk byNS truncated"
  using feed_pages_get [OF assms(1), of ns]
    feed_pages_bounded [of list' list 1 clk "''''" "[]"] assms
  by (simp add: warnFeedMaxPages_def al_get_def)

definition sample_core :: "string \<Rightarrow> string \<Rightarrow> core_event" where
  "sample_core ns name = \<lparr>ceNamespace = ns, ceName = name, ceReason = ''BackOff'', ceMessage = ''m'',
     ceType = ''Warning'', ceCount = 1, ceKind = ''Pod'', ceObjectName = ''p'', ceObjectNamespace = ns,
     ceFirstTimestamp = 1, ceLastTimestamp = 2, ceEventTime = 0, ceSeries = None\<rparr>"

definition sample_list :: "nat \<Rightarrow> string \<Rightarrow> list_result" where
  "sample_list page token =
     (if page = 1 then ListOk [sample_core ''a'' ''x'', sample_core ''b'' ''y''] ''more''
      else ListOk [sample_core ''a'' ''z''] '''')"

lemma feed_stores_pages_witness:
  "\<exists>byNS. feed_pages sample_list 5 1 '''' [] = FeedOk byNS False \<and>
     map evName (al_get [] byNS ''a'') = [''x'', ''z'']"
proof -
  have "feed_pages sample_list 5 1 '''' [] = FeedOk (foldl (feed_add 5) []
      [sample_core ''a'' ''x'', sample_core ''b'' ''y'', sample_core ''a'' ''z'']) False"
    by (simp add: feed_pages.simps sample_list_def warnFeedMaxPages_def Let_def)
  note f = this
  have i: "feed_items sample_list 1 '''' =
      [sample_core ''a'' ''x'', sample_core ''b'' ''y'', sample_core ''a'' ''z'']"
    by (simp add: feed_items.simps sample_list_def warnFeedMaxPages_def)
  have "map evName (al_get [] (foldl (feed_add 5) []
      [sample_core ''a'' ''x'', sample_core ''b'' ''y'', sample_core ''a'' ''z'']) ''a'') = [''x'', ''z'']"
    unfolding feed_stores_pages [OF f refl, THEN conjunct1] i
    by (simp add: sample_core_def toSummary_def)
  with f show ?thesis by (intro exI conjI)
qed

text \<open>
  no event of the caches is out of reach: one with a kind is on its namespace's page or, about a
  cluster-scoped object, on the cluster-wide one, never on both; the namespace page always builds.
\<close>

lemma scopes_cover:
  assumes "ns \<noteq> clusterScopeNS" and "e \<in> set (namespaceEvents c ns)" and "evKind e \<noteq> ''''"
  shows "(e \<in> set (scopeEvents c ns)) \<noteq> (e \<in> set (scopeEvents c clusterScopeNS)) \<and>
    (\<exists>page. namespacePage fmt clk c ns = Some page)"
  using assms scopeEvents_namespace [OF assms(1)] scopeEvents_cluster [of e c]
    namespacePage_returns [of fmt clk c ns] by auto

lemma scopes_cover_witness:
  "let c = sample_cache\<lparr>ecNsCache := [(''default'',
       \<lparr>neEvents = [(sample_summary ''n'' 10 1)\<lparr>evObjectNamespace := ''''\<rparr>], neUpdatedAt = 5, neTruncated = False\<rparr>)]\<rparr>;
       e = (sample_summary ''n'' 10 1)\<lparr>evObjectNamespace := ''''\<rparr>
   in e \<in> set (scopeEvents c clusterScopeNS) \<and> e \<notin> set (scopeEvents c ''default'')"
proof -
  let ?e = "(sample_summary ''n'' 10 1)\<lparr>evObjectNamespace := ''''\<rparr>"
  let ?c = "sample_cache\<lparr>ecNsCache := [(''default'', \<lparr>neEvents = [?e], neUpdatedAt = 5, neTruncated = False\<rparr>)]\<rparr>"
  have ns: "namespaceEvents ?c ''default'' = [?e]"
    by (simp add: namespaceEvents_def sample_cache_def mergeEvents_def al_get_def)
  then have "(?e \<in> set (scopeEvents ?c ''default'')) \<noteq> (?e \<in> set (scopeEvents ?c clusterScopeNS))"
    using scopes_cover [of "''default''" ?e ?c] by (simp add: clusterScopeNS_def sample_summary_def)
  moreover have "?e \<notin> set (scopeEvents ?c ''default'')"
    unfolding scopeEvents_def ns by (simp add: clusterScopeNS_def sample_summary_def)
  ultimately show ?thesis unfolding Let_def by blast
qed


end
