(* ===== verification/BriefFacts.thy ===== *)
theory BriefFacts
  imports Problems
begin

text \<open>
  The facts of the cluster brief (brief.go): the sentences computed from the ranked problem list,
  each a bullet of text and chips, a chip being the key and title of a problem. \<open>mentioned\<close> is the
  set of keys a chip has shown, a list here.
\<close>

section \<open>Data and small helpers\<close>

record briefPart =
  bpText :: string
  bpRef :: string
  bpLabel :: string

record briefBullet =
  bbLabel :: string
  bbParts :: "briefPart list"

definition briefMaxChips :: nat where "briefMaxChips = 5"

definition text_part :: "string \<Rightarrow> briefPart" where
  "text_part t = \<lparr>bpText = t, bpRef = '''', bpLabel = ''''\<rparr>"

definition chip :: "Problem \<Rightarrow> briefPart" where
  "chip p = \<lparr>bpText = '''', bpRef = pbKey p, bpLabel = pbTitle p\<rparr>"

text \<open>\<open>chips\<close>: at most five, then how many more; the loop with its index.\<close>

fun chips_from :: "nat \<Rightarrow> nat \<Rightarrow> Problem list \<Rightarrow> string list \<Rightarrow> briefPart list \<times> string list" where
  "chips_from cnt i [] mentioned = ([], mentioned)"
| "chips_from cnt i (p # ps) mentioned =
     (if i = briefMaxChips then
        ([text_part (''and '' @ itoa (int cnt - int briefMaxChips) @ '' more'')], mentioned)
      else
        (case chips_from cnt (Suc i) ps (pbKey p # mentioned) of
           (parts, mentioned') \<Rightarrow> (chip p # parts, mentioned')))"

definition chips :: "Problem list \<Rightarrow> string list \<Rightarrow> briefPart list \<times> string list" where
  "chips ps mentioned = chips_from (length ps) 0 ps mentioned"

text \<open>\<open>s[:1]\<close> is a byte: one that is not ASCII becomes the replacement rune in \<open>ToLower\<close>.\<close>

definition lowerFirst :: "string \<Rightarrow> string" where
  "lowerFirst s =
     (case s of
        [] \<Rightarrow> []
      | c # t \<Rightarrow> (if (of_char c :: nat) < 128 then to_lower [c] else rune_error) @ t)"

text \<open>\<open>commas\<close>: the loop from \<open>len(s)-3\<close> down in threes.\<close>

fun commas_at :: "nat \<Rightarrow> string \<Rightarrow> string" where
  "commas_at i s = (if i = 0 then s else commas_at (i - 3) (take i s @ '','' @ drop i s))"

declare commas_at.simps [simp del]

definition commas :: "int \<Rightarrow> string" where
  "commas n = commas_at (length (itoa n) - 3) (itoa n)"

definition times_sign :: string where
  "times_sign = [CHR 0xC3, CHR 0x97]"

section \<open>The start-here sentence\<close>

definition describeProblem :: "Problem \<Rightarrow> string" where
  "describeProblem p =
     (let scope = (if pbScope p = ''cluster'' then ''(cluster-wide)''
                   else if pbScope p = ''pattern'' then
                     ''in '' @ itoa (int (length (pbNamespaces p))) @ '' namespaces''
                   else ''('' @ pbKind p @ '' in '' @ str_join '', '' (pbNamespaces p) @ '')'');
          rs = map (\<lambda>r. rcReason r @ '' '' @ times_sign @ commas (rcCount r)) (take 2 (pbReasons p));
          members = (if pbCascade p \<and> pbMembers p \<noteq> '''' then
                       '', every one of '' @ pbMembers p @ '' failing''
                     else if pbScope p = ''cluster'' \<and> pbMembers p \<noteq> '''' then '' on '' @ pbMembers p
                     else if pbMembers p \<noteq> '''' then '', '' @ pbMembers p
                     else '''');
          since = (if pbSinceNote p \<noteq> '''' then
                     ''Failing for '' @ pbSince p @ '' ('' @ lowerFirst (pbSinceNote p) @ '')''
                   else ''First seen '' @ pbSince p @ '' ago'');
          quiet = (if pbIdle p then '', quiet for '' @ pbLast p @ ''.''
                   else '', last '' @ pbLast p @ '' ago.'')
      in scope @ '': '' @ str_join '' and '' rs @ members @ ''. '' @ since @ quiet)"

section \<open>The bullets\<close>

definition bullet :: "string \<Rightarrow> briefPart list \<Rightarrow> briefBullet" where
  "bullet label parts = \<lparr>bbLabel = label, bbParts = parts\<rparr>"

definition newest_problem :: "Problem list \<Rightarrow> Problem" where
  "newest_problem ps =
     foldl (\<lambda>newest p. if pbFirstSeen p > pbFirstSeen newest then p else newest) (hd ps) ps"

definition new_bullet :: "Problem list \<Rightarrow> string list \<Rightarrow> briefBullet \<times> string list" where
  "new_bullet problems mentioned =
     (let fresh = filter (\<lambda>p. pbTier p = ''new'') problems;
          newest = newest_problem problems;
          n = length fresh
      in if n > 0 then
           (let (parts, mentioned') = chips fresh mentioned
            in (bullet ''New''
                  (text_part (itoa (int n) @ '' '' @
                     pluralWord ''problem started'' ''problems started'' (int n) @
                     '' in the last 2 h:'') # parts), mentioned'))
         else
           (bullet ''New''
              [text_part (''Nothing started in the last 2 h. The newest problem was first seen '' @
                 pbSince newest @ '' ago:''), chip newest], pbKey newest # mentioned))"

definition linked_bullet :: "Problem list \<Rightarrow> string list \<Rightarrow> briefBullet list \<times> string list" where
  "linked_bullet problems mentioned =
     (let linked = filter (\<lambda>p. pbScope p = ''pattern'' \<and> pbKey p \<notin> set mentioned) problems in
      case linked of
        [] \<Rightarrow> ([], mentioned)
      | [p] \<Rightarrow> ([bullet ''Linked'' [chip p, text_part (lowerFirst (pbPattern p))]], pbKey p # mentioned)
      | _ \<Rightarrow>
          (let (parts, mentioned') = chips linked mentioned
           in ([bullet ''Linked''
                  (text_part (itoa (int (length linked)) @
                     '' groups of problems look like one cause each, across namespaces:'') # parts)],
               mentioned')))"

fun cluster_bullets :: "Problem list \<Rightarrow> string list \<Rightarrow> briefBullet list \<times> string list" where
  "cluster_bullets [] mentioned = ([], mentioned)"
| "cluster_bullets (p # ps) mentioned =
     (if pbScope p \<noteq> ''cluster'' \<or> pbKey p \<in> set mentioned then cluster_bullets ps mentioned
      else
        (case cluster_bullets ps (pbKey p # mentioned) of
           (bs, mentioned') \<Rightarrow>
             (bullet ''Cluster-wide''
                [chip p, text_part (''affects cluster-scoped objects, ongoing for '' @ pbSince p @ ''.'')]
              # bs, mentioned')))"

definition old_bullet :: "Problem list \<Rightarrow> string list \<Rightarrow> briefBullet list" where
  "old_bullet problems mentioned =
     (let old = filter (\<lambda>p. pbTier p = ''chronic'' \<and> pbKey p \<notin> set mentioned) problems in
      if length old > 0 then
        [bullet ''Older, still open''
           (fst (chips old mentioned) @
            [text_part (''have been failing for more than a day, so they are unlikely to explain a '' @
                        ''new alert.'')])]
      else [])"

definition briefFacts :: "Problem list \<Rightarrow> briefBullet list" where
  "briefFacts problems =
     (case problems of
        [] \<Rightarrow> []
      | first # _ \<Rightarrow>
          let start = bullet ''Start here'' [chip first, text_part (describeProblem first)];
              (new, m1) = new_bullet problems [pbKey first];
              (linked, m2) = linked_bullet problems m1;
              (cluster, m3) = cluster_bullets problems m2
          in [start, new] @ linked @ cluster @ old_bullet problems m3)"

section \<open>What the facts show\<close>

text \<open>The keys of the chips of some bullets.\<close>

definition chip_keys :: "briefPart list \<Rightarrow> string set" where
  "chip_keys parts = {pbKey p |p. chip p \<in> set parts}"

definition fact_keys :: "briefBullet list \<Rightarrow> string set" where
  "fact_keys bs = (\<Union>b\<in>set bs. chip_keys (bbParts b))"

lemma chip_key: "chip p = chip q \<Longrightarrow> pbKey p = pbKey q"
  by (simp add: chip_def)

lemma chip_not_text: "pbKey p \<noteq> '''' \<Longrightarrow> chip p \<noteq> text_part t"
  by (simp add: chip_def text_part_def)

lemma chip_keys_simps:
  "chip_keys [] = {}"
  "chip_keys (chip p # parts) = insert (pbKey p) (chip_keys parts)"
  "chip_keys (xs @ ys) = chip_keys xs \<union> chip_keys ys"
  by (auto simp: chip_keys_def chip_def)

lemma fact_keys_simps:
  "fact_keys [] = {}" "fact_keys (b # bs) = chip_keys (bbParts b) \<union> fact_keys bs"
  "fact_keys (bs @ cs) = fact_keys bs \<union> fact_keys cs"
  by (auto simp: fact_keys_def)

lemma bullet_parts [simp]: "bbParts (bullet l ps) = ps"
  by (simp add: bullet_def)

text \<open>\<open>chips\<close> shows the first five and marks exactly those.\<close>

lemma chips_from_shown:
  assumes "i \<le> briefMaxChips"
  shows "snd (chips_from n i ps m) = rev (map pbKey (take (briefMaxChips - i) ps)) @ m"
    and "filter (\<lambda>x. bpText x = '''') (fst (chips_from n i ps m)) =
      map chip (take (briefMaxChips - i) ps)"
  using assms
proof (induction n i ps m rule: chips_from.induct)
  case (2 cnt i p ps m)
  have t: "i \<noteq> briefMaxChips \<Longrightarrow> i \<le> briefMaxChips \<Longrightarrow> take (briefMaxChips - i) (p # ps) = p # take (briefMaxChips - Suc i) ps"
    by (simp add: take_Cons' Suc_diff_le)
  {
    case 1
    then show ?case using 2 t by (auto split: prod.splits)
  next
    case 2
    then show ?case using "2.IH" t by (auto simp: chip_def text_part_def split: prod.splits)
  }
qed simp_all

lemma chips_marked: "set (snd (chips ps m)) = pbKey ` set (take briefMaxChips ps) \<union> set m"
  unfolding chips_def by (subst chips_from_shown(1)) auto

lemma chips_keys_marked:
  "set (snd (chips ps m)) \<subseteq> set m \<union> chip_keys (fst (chips ps m))"
proof -
  have "chip p \<in> set (fst (chips ps m))" if "p \<in> set (take briefMaxChips ps)" for p
  proof -
    have "chip p \<in> set (map chip (take (briefMaxChips - 0) ps))" using that by simp
    then have "chip p \<in> set (filter (\<lambda>x. bpText x = '''') (fst (chips_from (length ps) 0 ps m)))"
      by (subst chips_from_shown(2)) simp_all
    then show ?thesis by (simp add: chips_def)
  qed
  then show ?thesis unfolding chips_marked by (auto simp: chip_keys_def)
qed

text \<open>Whatever is marked as mentioned has a chip: nothing is left out as said and never said.\<close>

lemma new_bullet_marked:
  "set (snd (new_bullet ps m)) \<subseteq> set m \<union> chip_keys (bbParts (fst (new_bullet ps m)))"
  using chips_keys_marked [of "filter (\<lambda>p. pbTier p = ''new'') ps" m]
  by (auto simp: new_bullet_def Let_def chip_keys_def split: prod.splits) blast

lemma linked_bullet_marked:
  "set (snd (linked_bullet ps m)) \<subseteq> set m \<union> fact_keys (fst (linked_bullet ps m))"
  using chips_keys_marked [of "filter (\<lambda>p. pbScope p = ''pattern'' \<and> pbKey p \<notin> set m) ps" m]
  by (auto simp: linked_bullet_def Let_def fact_keys_simps chip_keys_simps split: list.splits prod.splits)
    (auto simp: chip_keys_def)

lemma cluster_bullets_marked:
  "set (snd (cluster_bullets ps m)) \<subseteq> set m \<union> fact_keys (fst (cluster_bullets ps m))"
  by (induction ps m rule: cluster_bullets.induct)
    (auto simp: fact_keys_simps chip_keys_simps split: prod.splits)

lemma cluster_bullets_all:
  "p \<in> set ps \<Longrightarrow> pbScope p = ''cluster'' \<Longrightarrow> pbKey p \<in> set (snd (cluster_bullets ps m))"
proof -
  have mono: "set m \<subseteq> set (snd (cluster_bullets ps m))" for ps m
    by (induction ps m rule: cluster_bullets.induct) (auto split: prod.splits)
  show "p \<in> set ps \<Longrightarrow> pbScope p = ''cluster'' \<Longrightarrow> pbKey p \<in> set (snd (cluster_bullets ps m))"
  proof (induction ps m rule: cluster_bullets.induct)
    case (2 q ps m)
    then show ?case using mono [of m ps] mono [of "pbKey q # m" ps] by (auto split: prod.splits)
  qed simp
qed

text \<open>Every cluster-wide problem is mentioned, and the first bullet is the top problem's.\<close>

lemma briefFacts_cluster:
  assumes "p \<in> set ps" and "pbScope p = ''cluster''"
  shows "pbKey p \<in> fact_keys (briefFacts ps)"
proof -
  obtain first rest where ps: "ps = first # rest" using assms(1) by (cases ps) auto
  obtain new m1 where 1: "new_bullet ps [pbKey first] = (new, m1)" by (cases "new_bullet ps [pbKey first]")
  obtain linked m2 where 2: "linked_bullet ps m1 = (linked, m2)" by (cases "linked_bullet ps m1")
  obtain cluster m3 where 3: "cluster_bullets ps m2 = (cluster, m3)" by (cases "cluster_bullets ps m2")
  have facts: "briefFacts ps = [bullet ''Start here'' [chip first, text_part (describeProblem first)], new] @
      linked @ cluster @ old_bullet ps m3"
    using 1 2 3 unfolding ps by (simp add: briefFacts_def Let_def)
  have "pbKey p \<in> set m3"
    using cluster_bullets_all [OF assms, of m2] 3 by simp
  then show ?thesis
    using new_bullet_marked [of ps "[pbKey first]"] linked_bullet_marked [of ps m1]
      cluster_bullets_marked [of ps m2] 1 2 3
    unfolding facts by (auto simp: fact_keys_simps chip_keys_simps)
qed

section \<open>Thousands separators\<close>

lemma str_join_snoc: "gs \<noteq> [] \<Longrightarrow> str_join sep (gs @ [t]) = str_join sep gs @ sep @ t"
  by (induction sep gs rule: str_join.induct) auto

lemma str_join_last: "str_join sep (gs @ [g @ sep @ t]) = str_join sep (gs @ [g, t])"
  by (induction sep gs rule: str_join.induct) (auto simp: append_eq_append_conv2)

text \<open>Groups of three, the first one shorter where the length is not a multiple.\<close>

definition in_threes :: "string list \<Rightarrow> bool" where
  "in_threes gs \<longleftrightarrow> gs \<noteq> [] \<and> 1 \<le> length (hd gs) \<and> length (hd gs) \<le> 3 \<and> (\<forall>g\<in>set (tl gs). length g = 3)"

lemma commas_at_groups:
  "length x = i \<Longrightarrow> i > 0 \<Longrightarrow>
   \<exists>gs. commas_at i (x @ t) = str_join '','' (gs @ [t]) \<and> concat gs = x \<and> in_threes gs"
proof (induction i arbitrary: x t rule: less_induct)
  case (less i)
  let ?x = "take (i - 3) x" and ?g = "drop (i - 3) x"
  have step: "commas_at i (x @ t) = commas_at (i - 3) (?x @ ?g @ '','' @ t)"
    using less.prems by (subst commas_at.simps) (simp flip: append_assoc)
  show ?case
  proof (cases "i - 3 = 0")
    case True
    then show ?thesis
      using less.prems unfolding step
      by (subst commas_at.simps) (auto intro!: exI [of _ "[x]"] simp: in_threes_def Suc_le_eq)
  next
    case False
    obtain gs where gs: "commas_at (i - 3) (?x @ (?g @ '','' @ t)) = str_join '','' (gs @ [?g @ '','' @ t])"
      "concat gs = ?x" "in_threes gs"
      using less.IH [of "i - 3" ?x "?g @ '','' @ t"] False less.prems by auto
    have "in_threes (gs @ [?g])"
      using gs(3) less.prems False by (auto simp: in_threes_def)
    then show ?thesis
      using gs(1,2) unfolding step str_join_last by (intro exI [of _ "gs @ [?g]"]) simp
  qed
qed

lemma commas_groups: "\<exists>gs. commas n = str_join '','' gs \<and> concat gs = itoa n \<and> in_threes gs"
proof -
  let ?s = "itoa n"
  let ?i = "length ?s - 3"
  have ne: "?s \<noteq> []" by (simp add: itoa_def)
  show ?thesis
  proof (cases "?i = 0")
    case True
    then show ?thesis
      using ne unfolding commas_def
      by (subst commas_at.simps) (auto intro!: exI [of _ "[?s]"] simp: in_threes_def Suc_le_eq)
  next
    case False
    obtain gs where gs: "commas_at ?i (take ?i ?s @ drop ?i ?s) = str_join '','' (gs @ [drop ?i ?s])"
      "concat gs = take ?i ?s" "in_threes gs"
      using commas_at_groups [of "take ?i ?s" ?i "drop ?i ?s"] False by auto
    then show ?thesis
      using False unfolding commas_def
      by (intro exI [of _ "gs @ [drop ?i ?s]"]) (auto simp: in_threes_def)
  qed
qed

section \<open>Properties\<close>

text \<open>
  the brief names every cluster-wide problem of the list, and the numbers in it are the counts
  with their digits in groups of three.
\<close>

lemma brief_names_cluster_problems:
  assumes "p \<in> set ps" and "pbScope p = ''cluster''"
  shows "pbKey p \<in> fact_keys (briefFacts ps) \<and>
    (\<exists>gs. commas n = str_join '','' gs \<and> concat gs = itoa n \<and> in_threes gs)"
  using briefFacts_cluster [OF assms] commas_groups by blast

lemma brief_names_cluster_problems_witness:
  "''k2'' \<in> fact_keys (briefFacts
     [zeroProblem\<lparr>pbKey := ''k1'', pbTier := ''new'', pbScope := ''namespace''\<rparr>,
      zeroProblem\<lparr>pbKey := ''k2'', pbTier := ''chronic'', pbScope := ''cluster''\<rparr>]) \<and>
   commas 1234567 = ''1,234,567''"
proof -
  let ?p = "zeroProblem\<lparr>pbKey := ''k2'', pbTier := ''chronic'', pbScope := ''cluster''\<rparr>"
  have c: "commas 1234567 = ''1,234,567''"
    by (simp add: commas_def itoa_def nat_str.simps digit_def commas_at.simps) code_simp
  show ?thesis
    using brief_names_cluster_problems [of ?p
        "[zeroProblem\<lparr>pbKey := ''k1'', pbTier := ''new'', pbScope := ''namespace''\<rparr>, ?p]" 0] c
    by simp
qed


end
