(* ===== verification/BriefText.thy ===== *)
theory BriefText
  imports BriefFacts
begin

text \<open>
  What the model is asked and what is shown of its answer (brief.go): picking log lines, the token
  estimate and the budget of the prompt, and extracting the note. The four regular expressions are
  matchers written out for Go's leftmost-first semantics. The Unicode tables of \<open>unicode.IsLetter\<close>,
  \<open>IsDigit\<close> and \<open>IsSpace\<close> beyond ASCII are the parameter \<open>uni\<close>.
\<close>

definition briefMaxOutput :: int where "briefMaxOutput = 220"
definition briefNoteLen :: nat where "briefNoteLen = 360"
definition briefLogLines :: nat where "briefLogLines = 30"
definition briefDefaultCtx :: int where "briefDefaultCtx = 8192"
definition briefBudgetShare :: int where "briefBudgetShare = 4"

section \<open>Regular expressions\<close>

text \<open>\<open>\s\<close> of RE2.\<close>

definition re_space :: "char \<Rightarrow> bool" where
  "re_space c \<longleftrightarrow> c \<in> set [CHR 0x09, CHR 0x0A, CHR 0x0C, CHR 0x0D, CHR '' '']"

definition skip_space :: "string \<Rightarrow> string" where
  "skip_space s = dropWhile re_space s"

definition is_upper :: "char \<Rightarrow> bool" where "is_upper c \<longleftrightarrow> in_range 65 90 c"
definition is_alpha :: "char \<Rightarrow> bool" where "is_alpha c \<longleftrightarrow> in_range 65 90 c \<or> in_range 97 122 c"

text \<open>\<open>[\w.$]\<close>\<close>

definition frame_char :: "char \<Rightarrow> bool" where
  "frame_char c \<longleftrightarrow> is_alpha c \<or> is_digit c \<or> c \<in> set ''_.$''"

fun re_search :: "(string \<Rightarrow> bool) \<Rightarrow> string \<Rightarrow> bool" where
  "re_search here [] = here []"
| "re_search here (c # s) = (here (c # s) \<or> re_search here s)"

definition starts_digit :: "string \<Rightarrow> bool" where
  "starts_digit s = (case s of c # _ \<Rightarrow> is_digit c | [] \<Rightarrow> False)"

definition starts_space :: "string \<Rightarrow> bool" where
  "starts_space s = (case s of c # _ \<Rightarrow> re_space c | [] \<Rightarrow> False)"

definition quote :: char where "quote = CHR 0x22"

text \<open>\<open>stackFrameRe\<close>\<close>

definition stackFrame :: "string \<Rightarrow> bool" where
  "stackFrame l =
     (let t = skip_space l in
      (has_prefix t ''#'' \<and> starts_digit (drop 1 t) \<and> starts_space (dropWhile is_digit (drop 1 t))) \<or>
      (has_prefix t ''at'' \<and> starts_space (drop 2 t) \<and>
        (let w = skip_space (drop 2 t); rest = dropWhile frame_char w in
         w \<noteq> rest \<and> has_prefix rest ''('')) \<or>
      (has_prefix t (''File '' @ [quote]) \<and>
        re_search (\<lambda>r. has_prefix r (quote # '', line '') \<and> starts_digit (drop 8 r))
          (takeWhile (\<lambda>c. c \<noteq> CHR 0x0A) (drop 6 t))))"

text \<open>
  \<open>logErrorRe\<close>: the words in any case; under \<open>(?i)\<close> an s also matches the long s, two bytes, and a k
  the Kelvin sign, three.
\<close>

fun fold_prefix :: "string \<Rightarrow> string \<Rightarrow> bool" where
  "fold_prefix [] s = True"
| "fold_prefix (c # p) s =
     (case s of
        [] \<Rightarrow> False
      | x # t \<Rightarrow>
          if to_lower_byte x = c then fold_prefix p t
          else if c = CHR ''s'' \<and> has_prefix s [CHR 0xC5, CHR 0xBF] then fold_prefix p (drop 2 s)
          else c = CHR ''k'' \<and> has_prefix s [CHR 0xE2, CHR 0x84, CHR 0xAA] \<and> fold_prefix p (drop 3 s))"

definition error_words :: "string list" where
  "error_words = [''error'', ''exception'', ''fatal'', ''fail'', ''denied'', ''refused'', ''no space'',
     ''out of memory'', ''oom'', ''panic'', ''timeout'', ''cannot'', ''unable'', ''not found'', ''invalid'']"

definition logError :: "string \<Rightarrow> bool" where
  "logError l = re_search (\<lambda>s. list_ex (\<lambda>w. fold_prefix w s) error_words) l"

section \<open>Log lines\<close>

definition readableLogLines :: "string \<Rightarrow> string list" where
  "readableLogLines logs =
     map (\<lambda>l. truncate_runes (trim_right_blank l) 200)
       (filter (\<lambda>l. \<not> (trim_space l = '''' \<or> stackFrame l \<or> has_prefix l ''==='' \<or>
                        has_prefix l ''[previous container run]''))
         (split_byte (CHR 0x0A) logs))"

text \<open>\<open>for ... && len(pick) < bound \{ pick[i] = true \}\<close>; the set of picked indexes is a list.\<close>

fun pick_until :: "nat \<Rightarrow> nat list \<Rightarrow> nat list \<Rightarrow> nat list" where
  "pick_until bound [] pick = pick"
| "pick_until bound (i # js) pick =
     (if length pick < bound then pick_until bound js (List.insert i pick) else pick)"

definition pickLogLines :: "string list \<Rightarrow> nat \<Rightarrow> string list" where
  "pickLogLines kept limit =
     (if length kept \<le> limit then kept
      else
        let idx = [0..<length kept];
            errs = filter (\<lambda>i. logError (kept ! i)) idx;
            p1 = pick_until (limit * 2 div 3) (rev errs) [];
            p2 = pick_until limit (rev idx) p1
        in map ((!) kept) (filter (\<lambda>i. i \<in> set p2) idx))"

definition interestingLogLines :: "string \<Rightarrow> string list" where
  "interestingLogLines logs = pickLogLines (readableLogLines logs) briefLogLines"

section \<open>The token estimate\<close>

datatype rune_kind = LetterRune | DigitRune | SpaceRune | OtherRune

definition rune_kind_of :: "(string \<Rightarrow> rune_kind) \<Rightarrow> string \<Rightarrow> rune_kind" where
  "rune_kind_of uni r =
     (case r of
        [c] \<Rightarrow>
          if (of_char c :: nat) < 128 then
            (if is_alpha c then LetterRune else if is_digit c then DigitRune
             else if in_range 9 13 c \<or> c = CHR '' '' then SpaceRune else OtherRune)
          else uni r
      | _ \<Rightarrow> uni r)"

definition count_kind :: "(string \<Rightarrow> rune_kind) \<Rightarrow> rune_kind \<Rightarrow> string \<Rightarrow> nat" where
  "count_kind uni k s = length (filter (\<lambda>r. rune_kind_of uni r = k) (runes s))"

text \<open>
  The four products and their sum in float64: every value is a multiple of 2^-55, the unit here, and
  each operation rounds to 53 significant bits, ties to even. (The Go compiler may fuse a multiply
  and an add on some processors; on amd64 it does not.) The constants are 0.23, 1.36, 0.52 and 0.55.
\<close>

function bit_length :: "int \<Rightarrow> nat" where
  "bit_length n = (if n \<le> 0 then 0 else Suc (bit_length (n div 2)))"
  by pat_completeness auto
termination
  by (relation "measure nat") auto

declare bit_length.simps [simp del]

definition f64_round :: "int \<Rightarrow> int" where
  "f64_round v =
     (let k = bit_length v - 53; u = 2 ^ k; q = v div u; r = v mod u
      in (if 2 * r > u \<or> 2 * r = u \<and> odd q then q + 1 else q) * u)"

definition w_letter :: int where "w_letter = 8286623314361713"
definition w_digit :: int where "w_digit = 6124895493223875 * 8"
definition w_other :: int where "w_other = 4683743612465316 * 4"
definition w_space :: int where "w_space = 4953959590107546 * 4"

definition weigh :: "int \<Rightarrow> int \<Rightarrow> int \<Rightarrow> int \<Rightarrow> int" where
  "weigh letters digits others spaces =
     f64_round (f64_round (f64_round (f64_round (w_letter * letters) + f64_round (w_digit * digits))
       + f64_round (w_other * others)) + f64_round (w_space * spaces))"

definition estimateTokens :: "(string \<Rightarrow> rune_kind) \<Rightarrow> string \<Rightarrow> int" where
  "estimateTokens uni s =
     (let count = (\<lambda>k. int (count_kind uni k s))
      in weigh (count LetterRune) (count DigitRune) (count OtherRune) (count SpaceRune) div 2 ^ 55 + 1)"

section \<open>The prompt\<close>

definition containerStatePrefix :: string where
  "containerStatePrefix = ''Container state: ''"

definition nl :: string where "nl = [CHR 0x0A]"

definition note_facts :: "Problem \<Rightarrow> string" where
  "note_facts p =
     (if pbScope p = ''pattern'' then
        pbTitle p @ '' across namespaces '' @ str_join '', '' (pbNamespaces p) @ ''. '' @ pbPattern p @ nl
      else if pbScope p = ''cluster'' then
        ''Cluster-wide: '' @ pbKind p @ '' '' @ pbTitle p @ ''.'' @ nl
      else
        pbKind p @ ''/'' @ pbTitle p @ '' in namespace '' @ str_join '', '' (pbNamespaces p) @ ''.'' @
        (if pbMembers p \<noteq> '''' then '' '' @ pbMembers p @ ''.'' else '''') @ nl) @
     ''Reasons: '' @
     str_join '', '' (map (\<lambda>r. rcReason r @ '' '' @ times_sign @ itoa (rcCount r)) (pbReasons p)) @
     ''. First seen '' @ pbSince p @ '' ago, last '' @ pbLast p @ '' ago.'' @
     (if pbSinceNote p \<noteq> '''' then '' '' @ pbSinceNote p @ ''.'' else '''') @ nl @
     (if pbMessage p \<noteq> '''' then ''Latest event: '' @ str_join '' '' (str_fields (pbMessage p)) @ nl
      else '''')"

definition note_question :: string where
  "note_question = nl @ ''In one or two sentences, what should the engineer check first?''"

definition log_block :: "string \<Rightarrow> string list \<Rightarrow> string" where
  "log_block pod ls = ''Last log lines from pod '' @ pod @ '':'' @ nl @ str_join nl ls @ nl"

text \<open>Log lines are dropped from the front until the exact prompt fits.\<close>

fun fit_lines :: "(string \<Rightarrow> int) \<Rightarrow> (string list \<Rightarrow> string) \<Rightarrow> int \<Rightarrow> string list \<Rightarrow> string list" where
  "fit_lines estimate prompt budget [] = []"
| "fit_lines estimate prompt budget (l # ls) =
     (if estimate (prompt (l # ls)) > budget then fit_lines estimate prompt budget ls else l # ls)"

definition buildNotePrompt :: "(string \<Rightarrow> rune_kind) \<Rightarrow> Problem \<Rightarrow> string \<Rightarrow> int \<Rightarrow> string \<times> string" where
  "buildNotePrompt uni p logs0 budget =
     (let stated = has_prefix logs0 containerStatePrefix;
          (state, rest) = cut_line logs0;
          head0 = note_facts p @ (if stated then state @ nl else '''');
          logs = (if stated then rest else logs0);
          evidence0 = (if stated then ''its events and the pod''@ [CHR 0x27] @ ''s container state''
                       else ''its events'');
          lines = fit_lines (estimateTokens uni)
                    (\<lambda>ls. head0 @ log_block (pbPod p) ls @ note_question) budget
                    (interestingLogLines logs);
          n = (if length lines = 1 then ''1 log line'' else itoa (int (length lines)) @ '' log lines'')
      in if lines = [] then (head0 @ note_question, evidence0)
         else (head0 @ log_block (pbPod p) lines @ note_question,
               (if str_contains evidence0 ''container state''
                then ''its events, the container state and '' @ n @ '' from pod '' @ pbPod p
                else ''its events and '' @ n @ '' from pod '' @ pbPod p)))"

section \<open>The answer\<close>

definition think_open :: string where "think_open = ''<think>''"
definition think_close :: string where "think_close = ''</think>''"

text \<open>The loop of \<open>stripThink\<close>: every block goes, an unfinished one with all that follows.\<close>

function strip_blocks :: "string \<Rightarrow> string \<times> bool" where
  "strip_blocks s =
     (case str_index s think_open of
        None \<Rightarrow> (s, True)
      | Some i \<Rightarrow>
          (case str_index (drop i s) think_close of
             None \<Rightarrow> (take i s, False)
           | Some j \<Rightarrow> strip_blocks (take i s @ drop (i + j + length think_close) s)))"
  by pat_completeness auto

lemma str_index_bound: "str_index s sub = Some i \<Longrightarrow> i + length sub \<le> length s"
  by (drule str_index_Some) (auto simp: has_prefix_def)

termination strip_blocks
proof (relation "measure length", simp)
  fix s i j
  assume "str_index s think_open = Some i"
  then have "i + length think_open \<le> length s" by (rule str_index_bound)
  then show "(take i s @ drop (i + j + length think_close) s, s) \<in> measure length"
    by (auto simp: think_close_def think_open_def)
qed

declare strip_blocks.simps [simp del]

definition stripThink :: "string \<Rightarrow> string" where
  "stripThink s =
     (case strip_blocks s of
        (t, finished) \<Rightarrow>
          if \<not> finished then t
          else (case str_index t think_close of
                  None \<Rightarrow> t | Some i \<Rightarrow> drop (i + length think_close) t))"

text \<open>\<open>strings.NewReplacer\<close> of two asterisks and of a backquote by nothing.\<close>

fun strip_marks :: "string \<Rightarrow> string" where
  "strip_marks [] = []"
| "strip_marks (c # s) =
     (if c = CHR ''*'' \<and> has_prefix s ''*'' then strip_marks (drop 1 s)
      else if c = CHR 0x60 then strip_marks s
      else c # strip_marks s)"

text \<open>
  \<open>noteLabelRe\<close>: an optional bullet, a capital and 1 to 24 more letters, slashes or spaces (as few as
  will do), a colon, and something after it. The result is the label and the trimmed value.
\<close>

definition label_char :: "char \<Rightarrow> bool" where
  "label_char c \<longleftrightarrow> is_alpha c \<or> c = CHR ''/'' \<or> c = CHR '' ''"

definition drop_bullet :: "string \<Rightarrow> string" where
  "drop_bullet t =
     (if has_prefix t ''-'' \<or> has_prefix t ''*'' then skip_space (drop 1 t)
      else if has_prefix t [CHR 0xE2, CHR 0x80, CHR 0xA2] then skip_space (drop 3 t)
      else t)"

definition label_at :: "string \<Rightarrow> nat \<Rightarrow> string option" where
  "label_at rest k =
     (let u = skip_space (drop k rest) in
      if k \<le> length rest \<and> list_all label_char (take k rest) \<and> has_prefix u '':'' \<and> drop 1 u \<noteq> ''''
      then Some (trim_space (drop 1 u)) else None)"

definition noteLabel :: "string \<Rightarrow> (string \<times> string) option" where
  "noteLabel line =
     (case drop_bullet (skip_space line) of
        [] \<Rightarrow> None
      | c # rest \<Rightarrow>
          if \<not> is_upper c then None
          else
            (case find (\<lambda>k. label_at rest k \<noteq> None) [1..<25] of
               None \<Rightarrow> None
             | Some k \<Rightarrow> Some (c # take k rest, the (label_at rest k))))"

text \<open>\<open>noteSentenceRe\<close>, all matches: no ender, then enders, then a space or the end of the text.\<close>

definition ender :: "char \<Rightarrow> bool" where
  "ender c \<longleftrightarrow> c \<in> set ''.!?''"

function sentences :: "string \<Rightarrow> string list" where
  "sentences s =
     (let t = dropWhile ender s;
          body = takeWhile (\<lambda>c. \<not> ender c) t;
          t' = dropWhile (\<lambda>c. \<not> ender c) t;
          ends = takeWhile ender t';
          rest = dropWhile ender t'
      in if ends = [] then []
         else if rest = [] then [body @ ends]
         else if re_space (hd rest) then (body @ ends @ [hd rest]) # sentences (tl rest)
         else sentences rest)"
  by pat_completeness auto

lemma length_dropWhile_le': "length (dropWhile P (dropWhile Q (dropWhile P s))) \<le> length s"
  by (meson le_trans length_dropWhile_le)

lemma sentence_shorter:
  assumes "takeWhile ender (dropWhile (\<lambda>c. \<not> ender c) (dropWhile ender s)) \<noteq> []"
  shows "length (dropWhile ender (dropWhile (\<lambda>c. \<not> ender c) (dropWhile ender s))) < length s"
proof -
  let ?t = "dropWhile (\<lambda>c. \<not> ender c) (dropWhile ender s)"
  have "length (takeWhile ender ?t) + length (dropWhile ender ?t) = length ?t"
    by (metis length_append takeWhile_dropWhile_id)
  moreover have "length ?t \<le> length s" by (meson le_trans length_dropWhile_le)
  moreover have "length (takeWhile ender ?t) > 0" using assms by simp
  ultimately show ?thesis by linarith
qed

termination sentences
  by (relation "measure length") (auto dest: sentence_shorter)

declare sentences.simps [simp del]

definition label_step :: "(string, string) gomap \<times> string list \<Rightarrow> string \<Rightarrow>
    (string, string) gomap \<times> string list" where
  "label_step st line =
     (case st of (labelled, order) \<Rightarrow>
        case noteLabel line of
          None \<Rightarrow> (labelled, order)
        | Some (m1, m2) \<Rightarrow>
            let k = to_lower (trim_space m1) in
            (al_set k m2 labelled, if al_has k labelled then order else order @ [k]))"

definition preferred_labels :: "string list" where
  "preferred_labels = [''observed'', ''fix/next'', ''fix'', ''next'', ''check'', ''action'', ''correlate'']"

definition extractNote :: "string \<Rightarrow> string" where
  "extractNote out0 =
     (let out = strip_marks (stripThink out0);
          (labelled, order) = foldl label_step ([], []) (split_byte (CHR 0x0A) out);
          note =
            (if length labelled \<ge> 2 then
               let picks = take 2 (map (\<lambda>k. al_get '''' labelled k)
                                    (filter (\<lambda>k. al_has k labelled) preferred_labels))
               in str_join '' '' (if picks = [] then [al_get '''' labelled (order ! 0)] else picks)
             else
               let text = str_join '' '' (str_fields out); ss = take 2 (sentences text)
               in if ss \<noteq> [] then concat ss else text)
      in truncate_runes (str_join '' '' (str_fields note)) briefNoteLen)"

section \<open>Picked lines\<close>

lemma pick_until_props:
  "distinct pick \<Longrightarrow>
   distinct (pick_until b js pick) \<and> set pick \<subseteq> set (pick_until b js pick) \<and>
   set (pick_until b js pick) \<subseteq> set pick \<union> set js \<and>
   length (pick_until b js pick) \<le> max b (length pick) \<and>
   (length (pick_until b js pick) < b \<longrightarrow> set js \<subseteq> set (pick_until b js pick))"
proof (induction b js pick rule: pick_until.induct)
  case (2 b i js pick)
  show ?case
  proof (cases "length pick < b")
    case True
    have "length (List.insert i pick) \<le> max b (length pick)" using True by (simp add: List.insert_def)
    then show ?thesis using True "2.IH" "2.prems" by (fastforce simp: max_def split: if_splits)
  next
    case False
    then show ?thesis using "2.prems" by auto
  qed
qed simp

lemma pickLogLines_short: "length kept \<le> limit \<Longrightarrow> pickLogLines kept limit = kept"
  by (simp add: pickLogLines_def)

lemma pickLogLines_long:
  assumes "limit < length kept"
  obtains p where "pickLogLines kept limit = map ((!) kept) (filter (\<lambda>i. i \<in> set p) [0..<length kept])"
    "distinct p" "length p = limit" "set p \<subseteq> {0..<length kept}"
    "length (filter logError kept) \<le> limit * 2 div 3 \<Longrightarrow>
     \<forall>i<length kept. logError (kept ! i) \<longrightarrow> i \<in> set p"
proof -
  let ?n = "length kept"
  let ?errs = "filter (\<lambda>i. logError (kept ! i)) [0..<?n]"
  let ?b = "limit * 2 div 3"
  define p1 where "p1 = pick_until ?b (rev ?errs) []"
  define p2 where "p2 = pick_until limit (rev [0..<?n]) p1"
  have 1: "distinct p1" "set p1 \<subseteq> set ?errs" "length p1 \<le> ?b" "length p1 < ?b \<longrightarrow> set ?errs \<subseteq> set p1"
    using pick_until_props [of "[]" ?b "rev ?errs"] unfolding p1_def by auto
  have 2: "distinct p2" "set p1 \<subseteq> set p2" "set p2 \<subseteq> set p1 \<union> {0..<?n}" "length p2 \<le> max limit (length p1)"
    "length p2 < limit \<longrightarrow> {0..<?n} \<subseteq> set p2"
    using pick_until_props [OF 1(1), of limit "rev [0..<?n]"] unfolding p2_def by auto
  have sub: "set p2 \<subseteq> {0..<?n}" using 1(2) 2(3) by auto
  have "\<not> length p2 < limit"
  proof
    assume *: "length p2 < limit"
    then have "card {0..<?n} \<le> card (set p2)" using 2(5) by (intro card_mono) auto
    then show False using * assms 2(1) by (simp add: distinct_card)
  qed
  then have len: "length p2 = limit" using 1(3) 2(4) by linarith
  have errs: "\<forall>i<?n. logError (kept ! i) \<longrightarrow> i \<in> set p2" if few: "length (filter logError kept) \<le> ?b"
  proof -
    have "length ?errs = length (filter logError kept)"
      using filter_map [of logError "(!) kept" "[0..<?n]"] by (simp add: comp_def)
    then have "card (set ?errs) \<le> ?b" using few by (metis card_length le_trans)
    then have "set ?errs \<subseteq> set p1"
    proof (cases "length p1 < ?b")
      case False
      then have "card (set p1) = ?b" using 1(1,3) by (simp add: distinct_card)
      then have "set p1 = set ?errs"
        using 1(2) \<open>card (set ?errs) \<le> ?b\<close> by (intro card_seteq) auto
      then show ?thesis by simp
    qed (use 1(4) in blast)
    then show ?thesis using 2(2) by auto
  qed
  have "pickLogLines kept limit = map ((!) kept) (filter (\<lambda>i. i \<in> set p2) [0..<?n])"
    using assms by (simp add: pickLogLines_def Let_def p1_def p2_def)
  then show ?thesis using that [of p2] 2(1) len sub errs by blast
qed

text \<open>At most the limit, and exactly the limit when there is more to choose from.\<close>

lemma pickLogLines_length: "length (pickLogLines kept limit) = min limit (length kept)"
proof (cases "limit < length kept")
  case True
  then obtain p where p: "pickLogLines kept limit = map ((!) kept) (filter (\<lambda>i. i \<in> set p) [0..<length kept])"
    "distinct p" "length p = limit" "set p \<subseteq> {0..<length kept}"
    using pickLogLines_long by blast
  have "set (filter (\<lambda>i. i \<in> set p) [0..<length kept]) = set p" using p(4) by auto
  then have "length (filter (\<lambda>i. i \<in> set p) [0..<length kept]) = length p"
    using p(2) by (metis distinct_card distinct_filter distinct_upt)
  then show ?thesis using p True by simp
qed (simp add: pickLogLines_short)

text \<open>No line is invented, and with few enough error lines all of them stay.\<close>

lemma pickLogLines_mem: "set (pickLogLines kept limit) \<subseteq> set kept"
  by (auto simp: pickLogLines_def Let_def)

lemma pickLogLines_errors:
  assumes "length (filter logError kept) \<le> limit * 2 div 3" and "l \<in> set kept" and "logError l"
  shows "l \<in> set (pickLogLines kept limit)"
proof (cases "limit < length kept")
  case True
  then obtain p where p: "pickLogLines kept limit = map ((!) kept) (filter (\<lambda>i. i \<in> set p) [0..<length kept])"
    "\<forall>i<length kept. logError (kept ! i) \<longrightarrow> i \<in> set p"
    using pickLogLines_long assms(1) by metis
  obtain i where "i < length kept" "kept ! i = l" using assms(2) by (auto simp: in_set_conv_nth)
  then show ?thesis using p assms(3) by auto
qed (use assms in \<open>simp add: pickLogLines_short\<close>)

section \<open>The budget\<close>

lemma fit_lines_fits:
  "fit_lines estimate prompt budget ls \<noteq> [] \<Longrightarrow> estimate (prompt (fit_lines estimate prompt budget ls)) \<le> budget"
  by (induction ls) (auto split: if_splits)

lemma fit_lines_suffix: "\<exists>dropped. ls = dropped @ fit_lines estimate prompt budget ls"
  by (induction ls) (auto, metis append_Cons)

text \<open>What was dropped did not fit.\<close>

lemma fit_lines_maximal:
  "\<exists>dropped. ls = dropped @ fit_lines estimate prompt budget ls \<and>
     (dropped = [] \<or> estimate (prompt (last dropped # fit_lines estimate prompt budget ls)) > budget)"
proof (induction ls)
  case (Cons l ls)
  show ?case
  proof (cases "estimate (prompt (l # ls)) > budget")
    case True
    obtain dropped where d: "ls = dropped @ fit_lines estimate prompt budget ls"
      "dropped = [] \<or> estimate (prompt (last dropped # fit_lines estimate prompt budget ls)) > budget"
      using Cons.IH by blast
    then show ?thesis using True by (intro exI [of _ "l # dropped"]) (cases "dropped = []"; simp)
  qed simp
qed simp

text \<open>The prompt with the log lines it shows: the facts, the container state, the lines, the question.\<close>

definition note_head :: "Problem \<Rightarrow> string \<Rightarrow> string" where
  "note_head p logs =
     note_facts p @ (if has_prefix logs containerStatePrefix then fst (cut_line logs) @ nl else '''')"

definition note_logs :: "string \<Rightarrow> string" where
  "note_logs logs = (if has_prefix logs containerStatePrefix then snd (cut_line logs) else logs)"

definition prompt_with :: "Problem \<Rightarrow> string \<Rightarrow> string list \<Rightarrow> string" where
  "prompt_with p logs ls =
     note_head p logs @ (if ls = [] then '''' else log_block (pbPod p) ls) @ note_question"

lemma buildNotePrompt_eq:
  "fst (buildNotePrompt uni p logs budget) =
     prompt_with p logs (fit_lines (estimateTokens uni)
       (\<lambda>ls. note_head p logs @ log_block (pbPod p) ls @ note_question) budget
       (interestingLogLines (note_logs logs)))"
  by (simp add: buildNotePrompt_def prompt_with_def note_head_def note_logs_def Let_def case_prod_beta)

section \<open>The note\<close>

text \<open>No opening tag survives, and nothing after an unfinished one.\<close>

lemma strip_blocks_no_open:
  "\<not> str_contains (fst (strip_blocks s)) think_open"
proof (induction s rule: strip_blocks.induct)
  case (1 s)
  show ?case
  proof (cases "str_index s think_open")
    case None
    then show ?thesis by (subst strip_blocks.simps) (simp add: str_contains_def)
  next
    case (Some i)
    have before: "\<not> str_contains (take i s) think_open"
      using str_index_before [OF Some, of "take i s" "drop i s"] str_index_Some [OF Some]
      by (simp add: think_open_def)
    show ?thesis
    proof (cases "str_index (drop i s) think_close")
      case None
      then show ?thesis using Some before by (subst strip_blocks.simps) simp
    next
      case (Some j)
      then show ?thesis
        using 1 \<open>str_index s think_open = Some i\<close> by (subst strip_blocks.simps) simp
    qed
  qed
qed

lemma stripThink_no_open: "\<not> str_contains (stripThink s) think_open"
proof -
  obtain t fin where t: "strip_blocks s = (t, fin)" by (cases "strip_blocks s")
  then have no: "\<not> str_contains t think_open" using strip_blocks_no_open [of s] by simp
  then have "\<not> str_contains (drop k t) think_open" for k
    by (metis append_take_drop_id str_contains_iff append.assoc)
  then show ?thesis using t no by (auto simp: stripThink_def split: option.splits)
qed

text \<open>An answer without tags is not touched.\<close>

lemma stripThink_plain:
  "\<not> str_contains s think_open \<Longrightarrow> \<not> str_contains s think_close \<Longrightarrow> stripThink s = s"
  by (simp add: stripThink_def strip_blocks.simps [of s] str_contains_def)


section \<open>Properties\<close>


text \<open>
  of the readable log lines a prompt keeps as many as the limit allows and invents none; when
  the error lines fill at most two thirds of it, every one of them is kept.
\<close>

lemma error_lines_survive:
  assumes "length (filter logError kept) \<le> limit * 2 div 3" and "l \<in> set kept" and "logError l"
  shows "l \<in> set (pickLogLines kept limit) \<and> set (pickLogLines kept limit) \<subseteq> set kept \<and>
    length (pickLogLines kept limit) = min limit (length kept)"
  using pickLogLines_errors [OF assms] pickLogLines_mem pickLogLines_length by blast

lemma error_lines_survive_witness:
  "''disk ERROR'' \<in> set (pickLogLines [''disk ERROR'', ''b'', ''c'', ''d'', ''e''] 3)"
  by (rule error_lines_survive [THEN conjunct1]; code_simp)

text \<open>
  the model's reasoning is cut from its answer: no opening tag survives, finished or not, and an
  answer without tags is not touched.
\<close>

lemma no_reasoning_shown:
  "\<not> str_contains (stripThink s) think_open \<and>
   (\<not> str_contains s think_open \<and> \<not> str_contains s think_close \<longrightarrow> stripThink s = s)"
  using stripThink_no_open stripThink_plain by blast

lemma no_reasoning_shown_witness:
  "stripThink ''Check the disk.'' = ''Check the disk.''"
  by (rule no_reasoning_shown [THEN conjunct2, rule_format]) code_simp

text \<open>
  A dot inside a word ends what the sentence pattern takes for a sentence: the text before it is
  lost when no space follows.
\<close>

lemma note_loses_text_before_a_dot:
  "extractNote ''Check image nginx:1.25 first.'' = ''25 first.''"
  by code_simp

end
