(* ===== verification/Settings.thy ===== *)
theory Settings
  imports Prelude
begin

text \<open>
  The settings and the model's concurrency slots (settings.go). Every setter clamps; the handler
  changes only what a request names. The slots are a counter taken and given back by concurrent
  callers, a step relation here: \<open>acquireLLMSlot\<close> reads the maximum before it takes the lock of
  the counter, so a caller may decide on a maximum that has just been lowered.
\<close>

section \<open>Values\<close>

record settings =
  stLogTailLines :: int
  stRCAMaxIter :: int
  stLLMMaxCalls :: int
  stEmbeddedCtxSize :: int
  stLLMTimeout :: int
  stLinkFollow :: bool

text \<open>The initial values; following links starts switched as \<open>linked.go\<close> says.\<close>

definition default_settings :: "bool \<Rightarrow> settings" where
  "default_settings follow = \<lparr>stLogTailLines = 150, stRCAMaxIter = 5, stLLMMaxCalls = 3,
     stEmbeddedCtxSize = 8192, stLLMTimeout = 10, stLinkFollow = follow\<rparr>"

definition setLogTailLines :: "int \<Rightarrow> settings \<Rightarrow> settings" where
  "setLogTailLines n0 s =
     (let n1 = (if n0 < 10 then 10 else n0); n = (if n1 > 5000 then 5000 else n1)
      in s\<lparr>stLogTailLines := n\<rparr>)"

definition setRCAMaxIter :: "int \<Rightarrow> settings \<Rightarrow> settings" where
  "setRCAMaxIter n0 s =
     (let n1 = (if n0 < 1 then 1 else n0); n = (if n1 > 20 then 20 else n1)
      in s\<lparr>stRCAMaxIter := n\<rparr>)"

definition clampLLMMaxCalls :: "int \<Rightarrow> int" where
  "clampLLMMaxCalls n0 = (let n1 = (if n0 < 1 then 1 else n0) in if n1 > 10 then 10 else n1)"

definition setLLMMaxCalls :: "int \<Rightarrow> settings \<Rightarrow> settings" where
  "setLLMMaxCalls n s = s\<lparr>stLLMMaxCalls := clampLLMMaxCalls n\<rparr>"

definition setEmbeddedCtxSize :: "int \<Rightarrow> settings \<Rightarrow> settings" where
  "setEmbeddedCtxSize n0 s =
     (let n1 = (if n0 < 512 then 512 else n0); n = (if n1 > 131072 then 131072 else n1)
      in s\<lparr>stEmbeddedCtxSize := n\<rparr>)"

definition setLLMTimeout :: "int \<Rightarrow> settings \<Rightarrow> settings" where
  "setLLMTimeout n0 s =
     (let n1 = (if n0 < 1 then 1 else n0); n = (if n1 > 60 then 60 else n1)
      in s\<lparr>stLLMTimeout := n\<rparr>)"

section \<open>The handler\<close>

record SettingsPayload =
  spLogTailLines :: int
  spRCAMaxIter :: int
  spLLMMaxCalls :: int
  spLLMTimeout :: int
  spLinkFollow :: "bool option"

datatype settings_request =
  GetSettings
| PostSettings "SettingsPayload option"
| OtherMethod

datatype settings_reply =
  SettingsReply SettingsPayload
| SettingsOk
| SettingsError nat

text \<open>A body that is not JSON is \<open>PostSettings None\<close>; a field left out reads as zero.\<close>

definition handleAPISettings :: "settings_request \<Rightarrow> settings \<Rightarrow> settings \<times> settings_reply" where
  "handleAPISettings r s =
     (case r of
        GetSettings \<Rightarrow>
          (s, SettingsReply \<lparr>spLogTailLines = stLogTailLines s, spRCAMaxIter = stRCAMaxIter s,
                spLLMMaxCalls = stLLMMaxCalls s, spLLMTimeout = stLLMTimeout s,
                spLinkFollow = Some (stLinkFollow s)\<rparr>)
      | PostSettings None \<Rightarrow> (s, SettingsError 400)
      | PostSettings (Some body) \<Rightarrow>
          let s1 = (if spLogTailLines body > 0 then setLogTailLines (spLogTailLines body) s else s);
              s2 = (if spRCAMaxIter body > 0 then setRCAMaxIter (spRCAMaxIter body) s1 else s1);
              s3 = (if spLLMMaxCalls body > 0 then setLLMMaxCalls (spLLMMaxCalls body) s2 else s2);
              s4 = (if spLLMTimeout body > 0 then setLLMTimeout (spLLMTimeout body) s3 else s3);
              s5 = (case spLinkFollow body of None \<Rightarrow> s4 | Some b \<Rightarrow> s4\<lparr>stLinkFollow := b\<rparr>)
          in (s5, SettingsOk)
      | OtherMethod \<Rightarrow> (s, SettingsError 405))"

definition settings_ok :: "settings \<Rightarrow> bool" where
  "settings_ok s \<longleftrightarrow>
     10 \<le> stLogTailLines s \<and> stLogTailLines s \<le> 5000 \<and>
     1 \<le> stRCAMaxIter s \<and> stRCAMaxIter s \<le> 20 \<and>
     1 \<le> stLLMMaxCalls s \<and> stLLMMaxCalls s \<le> 10 \<and>
     512 \<le> stEmbeddedCtxSize s \<and> stEmbeddedCtxSize s \<le> 131072 \<and>
     1 \<le> stLLMTimeout s \<and> stLLMTimeout s \<le> 60"

lemma clampLLMMaxCalls_range: "1 \<le> clampLLMMaxCalls n \<and> clampLLMMaxCalls n \<le> 10"
  by (simp add: clampLLMMaxCalls_def Let_def)

lemmas setters = setLogTailLines_def setRCAMaxIter_def setLLMMaxCalls_def setEmbeddedCtxSize_def
  setLLMTimeout_def clampLLMMaxCalls_def Let_def

lemma setters_ok:
  "settings_ok s \<Longrightarrow> settings_ok (setLogTailLines n s)"
  "settings_ok s \<Longrightarrow> settings_ok (setRCAMaxIter n s)"
  "settings_ok s \<Longrightarrow> settings_ok (setLLMMaxCalls n s)"
  "settings_ok s \<Longrightarrow> settings_ok (setEmbeddedCtxSize n s)"
  "settings_ok s \<Longrightarrow> settings_ok (setLLMTimeout n s)"
  by (simp_all add: settings_ok_def setters)

lemma handleAPISettings_ok:
  "settings_ok s \<Longrightarrow> settings_ok (fst (handleAPISettings r s))"
  by (cases r) (auto simp: handleAPISettings_def Let_def setters_ok settings_ok_def [of "_\<lparr>stLinkFollow := _\<rparr>"]
      settings_ok_def [symmetric] split: option.splits)

text \<open>What a GET shows, posted back, changes nothing.\<close>

lemma settings_roundtrip:
  assumes "settings_ok s" and "handleAPISettings GetSettings s = (s, SettingsReply p)"
  shows "handleAPISettings (PostSettings (Some p)) s = (s, SettingsOk)"
  using assms by (auto simp: handleAPISettings_def settings_ok_def setters)

section \<open>The slots\<close>

text \<open>
  The shared counter, the maximum, the maxima read by callers that have not taken the counter's
  lock yet, and how many slots are held.
\<close>

record llm_slots =
  slMax :: int
  slActive :: int
  slReading :: "int list"
  slHeld :: nat

definition initial_slots :: llm_slots where
  "initial_slots = \<lparr>slMax = 3, slActive = 0, slReading = [], slHeld = 0\<rparr>"

text \<open>The part of \<open>acquireLLMSlot\<close> under the counter's lock, with the maximum it read.\<close>

definition acquireLLMSlot :: "int \<Rightarrow> llm_slots \<Rightarrow> bool \<times> llm_slots" where
  "acquireLLMSlot limit s =
     (if slActive s \<ge> limit then (False, s) else (True, s\<lparr>slActive := slActive s + 1\<rparr>))"

definition releaseLLMSlot :: "llm_slots \<Rightarrow> llm_slots" where
  "releaseLLMSlot s = s\<lparr>slActive := slActive s - 1\<rparr>"

inductive slot_step :: "llm_slots \<Rightarrow> llm_slots \<Rightarrow> bool" where
  read_max: "slot_step s (s\<lparr>slReading := slReading s @ [slMax s]\<rparr>)"
| take: "slReading s = pre @ m # post \<Longrightarrow> acquireLLMSlot m s = (got, s') \<Longrightarrow>
    slot_step s (s'\<lparr>slReading := pre @ post, slHeld := (if got then Suc (slHeld s) else slHeld s)\<rparr>)"
| release: "slHeld s = Suc h \<Longrightarrow> slot_step s ((releaseLLMSlot s)\<lparr>slHeld := h\<rparr>)"
| set_max: "slot_step s (s\<lparr>slMax := clampLLMMaxCalls n\<rparr>)"

inductive slots_reachable :: "llm_slots \<Rightarrow> bool" where
  start: "slots_reachable initial_slots"
| step: "slots_reachable s \<Longrightarrow> slot_step s s' \<Longrightarrow> slots_reachable s'"

text \<open>
  The counter is exactly the number of slots held: never negative, never above the highest
  maximum that can be set, and back to zero once every caller is done.
\<close>

definition slots_ok :: "llm_slots \<Rightarrow> bool" where
  "slots_ok s \<longleftrightarrow> slActive s = int (slHeld s) \<and> slActive s \<le> 10 \<and> 1 \<le> slMax s \<and> slMax s \<le> 10 \<and>
     (\<forall>m\<in>set (slReading s). 1 \<le> m \<and> m \<le> 10)"

lemma slot_step_ok: "slot_step s s' \<Longrightarrow> slots_ok s \<Longrightarrow> slots_ok s'"
proof (induction rule: slot_step.induct)
  case (take s pre m post got s')
  then show ?case by (auto simp: slots_ok_def acquireLLMSlot_def split: if_splits)
next
  case (set_max s n)
  then show ?case using clampLLMMaxCalls_range [of n] by (simp add: slots_ok_def)
qed (auto simp: slots_ok_def releaseLLMSlot_def)

lemma initial_slots_ok: "slots_ok initial_slots"
  by (simp add: slots_ok_def initial_slots_def)

lemma slots_reachable_ok: "slots_reachable s \<Longrightarrow> slots_ok s"
  by (induction rule: slots_reachable.induct) (auto intro: slot_step_ok initial_slots_ok)

section \<open>Properties\<close>

text \<open>
  no request moves a setting out of its bounds, an error changes nothing, and posting back what
  a GET shows changes nothing.
\<close>

lemma settings_stay_in_bounds:
  assumes "settings_ok s"
  shows "settings_ok (fst (handleAPISettings r s)) \<and>
    (case snd (handleAPISettings r s) of
       SettingsError code \<Rightarrow> fst (handleAPISettings r s) = s
     | SettingsReply p \<Rightarrow> handleAPISettings (PostSettings (Some p)) s = (s, SettingsOk)
     | SettingsOk \<Rightarrow> True)"
  using handleAPISettings_ok [OF assms, of r] settings_roundtrip [OF assms]
  by (cases r) (auto simp: handleAPISettings_def Let_def split: option.splits)

lemma settings_stay_in_bounds_witness:
  "settings_ok (fst (handleAPISettings (PostSettings (Some \<lparr>spLogTailLines = 9999, spRCAMaxIter = 0,
     spLLMMaxCalls = 50, spLLMTimeout = -3, spLinkFollow = None\<rparr>)) (default_settings True)))"
  by (rule settings_stay_in_bounds [THEN conjunct1]) (simp add: settings_ok_def default_settings_def)

text \<open>
  the count of the model's slots in use is exactly the number of callers that hold one, at
  every moment: never negative, never above ten, whatever is set while calls wait for the lock.
\<close>

lemma slots_accounted:
  assumes "slots_reachable s"
  shows "slActive s = int (slHeld s) \<and> slHeld s \<le> 10 \<and>
    (slHeld s = 0 \<longrightarrow> fst (acquireLLMSlot (slMax s) s))"
  using slots_reachable_ok [OF assms] by (auto simp: slots_ok_def acquireLLMSlot_def)

lemma slots_accounted_witness:
  "\<exists>s. slots_reachable s \<and> slHeld s = 1 \<and> slActive s = 1 \<and> slMax s = 1"
proof -
  let ?s1 = "initial_slots\<lparr>slReading := [3]\<rparr>"
  let ?s2 = "?s1\<lparr>slMax := 1\<rparr>"
  let ?s3 = "?s2\<lparr>slActive := 1, slReading := [], slHeld := 1\<rparr>"
  have 1: "slot_step initial_slots ?s1"
    using slot_step.read_max [of initial_slots] by (simp add: initial_slots_def)
  have 2: "slot_step ?s1 ?s2"
    using slot_step.set_max [of ?s1 0] by (simp add: clampLLMMaxCalls_def)
  have 3: "slot_step ?s2 ?s3"
    using slot_step.take [of ?s2 "[]" 3 "[]" True "?s2\<lparr>slActive := 1\<rparr>"]
    by (simp add: acquireLLMSlot_def initial_slots_def)
  have r: "slots_reachable ?s3"
    using slots_reachable.step [OF slots_reachable.step [OF slots_reachable.step [OF slots_reachable.start 1] 2] 3] .
  show ?thesis using slots_accounted [OF r] r by (intro exI [of _ ?s3]) simp
qed


end
