(* ===== verification/Brief.thy ===== *)
theory Brief
  imports BriefText Settings
begin

text \<open>
  The life of the model's note (brief.go): when one is started, how its end is recorded, what the
  page shows, and how runs, their stop functions and the model's slots interact as a step relation.
  The model's answer, the pod's logs and the model's context length are parameters.
\<close>

section \<open>State\<close>

definition briefDebounce :: duration where "briefDebounce = 30 * second"
definition briefSlotRetry :: duration where "briefSlotRetry = 5 * second"
definition briefErrorRetry :: duration where "briefErrorRetry = 60 * second"
definition briefSettle :: duration where "briefSettle = 20 * second"

record briefState =
  brStatus :: string
  brReason :: string
  brNoteID :: string
  brTarget :: Problem
  brText :: string
  brEvidence :: string
  brTokens :: int
  brBudget :: int
  brDoneAt :: time
  brRunID :: string
  brRunTarget :: Problem
  brRunEvidence :: string
  brPartial :: string
  brPreempted :: bool
  brSeenID :: string
  brSeenAt :: time
  brRetryAt :: time
  brForce :: bool

definition empty_brief :: briefState where
  "empty_brief = \<lparr>brStatus = '''', brReason = '''', brNoteID = '''', brTarget = zeroProblem,
     brText = '''', brEvidence = '''', brTokens = 0, brBudget = 0, brDoneAt = 0, brRunID = '''',
     brRunTarget = zeroProblem, brRunEvidence = '''', brPartial = '''', brPreempted = False,
     brSeenID = '''', brSeenAt = 0, brRetryAt = 0, brForce = False\<rparr>"

definition noteID :: "Problem \<Rightarrow> string" where
  "noteID p = pbKey p @ ''|'' @ pbTier p"

section \<open>Starting a note\<close>

definition brief_due :: "Problem \<Rightarrow> time \<Rightarrow> briefState \<Rightarrow> bool" where
  "brief_due top_problem now b \<longleftrightarrow>
     (let id = noteID top_problem;
          settled = \<not> pbInferred top_problem \<or> time_sub now (brSeenAt b) \<ge> briefSettle
      in brForce b \<or> brNoteID b = '''' \<and> settled \<or>
         id \<noteq> brNoteID b \<and> time_sub now (brSeenAt b) \<ge> briefDebounce)"

text \<open>The result says which problem a run was started for, if one was.\<close>

definition maybeStartBrief :: "bool \<Rightarrow> Problem list \<Rightarrow> time \<Rightarrow> briefState \<times> llm_slots \<Rightarrow>
    (briefState \<times> llm_slots) \<times> Problem option" where
  "maybeStartBrief enabled problems now st =
     (case st of (b0, slots) \<Rightarrow>
        if \<not> enabled \<or> problems = [] then (st, None)
        else
          let p = hd problems; id = noteID p;
              b = (if id \<noteq> brSeenID b0 then b0\<lparr>brSeenID := id, brSeenAt := now\<rparr> else b0)
          in if brStatus b = ''running'' then ((b, slots), None)
             else if \<not> brief_due p now b \<or> \<not> brForce b \<and> now < brRetryAt b then ((b, slots), None)
             else
               (case acquireLLMSlot (slMax slots) slots of
                  (False, slots') \<Rightarrow>
                    ((b\<lparr>brStatus := ''waiting'',
                        brReason := ''Waiting for the model: an AI analysis or RCA is using it.'',
                        brRetryAt := now + briefSlotRetry\<rparr>, slots'), None)
                | (True, slots') \<Rightarrow>
                    ((b\<lparr>brStatus := ''running'', brReason := '''', brPartial := '''', brForce := False,
                        brPreempted := False, brRunID := id, brRunTarget := p, brRunEvidence := ''''\<rparr>,
                      slots'), Some p)))"

section \<open>Running and ending a note\<close>

text \<open>A quarter of the model's context, by \<open>/\<close>; the default when the model does not say.\<close>

definition brief_budget :: "int option \<Rightarrow> int" where
  "brief_budget ctxLen =
     (case ctxLen of
        Some n \<Rightarrow> if n > 0 then go_div n briefBudgetShare else go_div briefDefaultCtx briefBudgetShare
      | None \<Rightarrow> go_div briefDefaultCtx briefBudgetShare)"

text \<open>What is sent: no logs without a pod, or when they cannot be fetched.\<close>

definition brief_request :: "(string \<Rightarrow> rune_kind) \<Rightarrow> int option \<Rightarrow> (string \<Rightarrow> string \<Rightarrow> string option) \<Rightarrow>
    Problem \<Rightarrow> string \<times> string \<times> int \<times> int" where
  "brief_request uni ctxLen fetchLogs p =
     (let budget = brief_budget ctxLen;
          logs = (if pbPod p \<noteq> '''' then
                    (case fetchLogs (pbOpenNS p) (pbPod p) of Some raw \<Rightarrow> raw | None \<Rightarrow> '''')
                  else '''');
          (prompt, evidence) = buildNotePrompt uni p logs budget
      in (prompt, evidence, estimateTokens uni prompt, budget))"

text \<open>The last part of \<open>runBrief\<close>; \<open>out\<close> and \<open>err\<close> are what \<open>streamChat\<close> returned.\<close>

definition finishBrief :: "time \<Rightarrow> Problem \<Rightarrow> string \<Rightarrow> int \<Rightarrow> int \<Rightarrow> string \<Rightarrow> string option \<Rightarrow>
    briefState \<Rightarrow> briefState" where
  "finishBrief now p evidence tokens budget out err b0 =
     (let b = b0\<lparr>brPartial := ''''\<rparr>; note = extractNote out in
      if brPreempted b then
        b\<lparr>brStatus := ''waiting'', brReason := ''Paused while an analysis you started uses the model.'',
          brRetryAt := now + briefSlotRetry, brForce := True\<rparr>
      else
        (case err of
           Some e \<Rightarrow> b\<lparr>brStatus := ''error'', brReason := e, brRetryAt := now + briefErrorRetry\<rparr>
         | None \<Rightarrow>
             if note = '''' then
               b\<lparr>brStatus := ''error'',
                 brReason := ''The model'' @ [CHR 0x27] @ ''s answer was empty.'',
                 brRetryAt := now + briefErrorRetry\<rparr>
             else
               b\<lparr>brStatus := ''ready'', brReason := '''', brNoteID := brRunID b, brTarget := p,
                 brText := note, brEvidence := evidence, brTokens := tokens, brBudget := budget,
                 brDoneAt := now\<rparr>))"

section \<open>What the page shows\<close>

record BriefNote =
  bnStatus :: string
  bnReason :: string
  bnText :: string
  bnRef :: string
  bnLabel :: string
  bnOpenNS :: string
  bnFocus :: string
  bnPod :: string
  bnModel :: string
  bnAge :: string
  bnEvidence :: string
  bnTokens :: int
  bnBudget :: int
  bnStale :: bool
  bnNextIn :: int

record BriefPayload =
  byFacts :: "briefBullet list"
  byNote :: "BriefNote option"

definition briefPayload :: "bool \<Rightarrow> string \<Rightarrow> Problem list \<Rightarrow> time \<Rightarrow> briefState \<Rightarrow> BriefPayload" where
  "briefPayload enabled model problems now b =
     \<lparr>byFacts = briefFacts problems,
      byNote =
       (if \<not> enabled \<or> problems = [] then None
        else
          let running = brStatus b = ''running'';
              t = (if running then brRunTarget b else if brText b \<noteq> '''' then brTarget b else hd problems);
              shown = \<not> running \<and> brText b \<noteq> '''';
              stale = brNoteID b \<noteq> '''' \<and> brStatus b \<noteq> ''running'' \<and> noteID (hd problems) \<noteq> brNoteID b;
              w0 = briefDebounce - time_sub now (brSeenAt b);
              r = time_sub (brRetryAt b) now;
              wait = (if r > w0 then r else w0)
          in Some \<lparr>bnStatus = (if brStatus b = '''' then ''idle'' else brStatus b),
               bnReason = brReason b,
               bnText = (if running then extractNote (brPartial b) else if shown then brText b else ''''),
               bnRef = pbKey t, bnLabel = pbTitle t, bnOpenNS = pbOpenNS t, bnFocus = pbFocus t,
               bnPod = pbPod t, bnModel = model,
               bnAge = (if shown then formatAge (time_sub now (brDoneAt b)) else ''''),
               bnEvidence = (if running then brRunEvidence b else if shown then brEvidence b else ''''),
               bnTokens = (if shown then brTokens b else 0),
               bnBudget = (if shown then brBudget b else 0),
               bnStale = stale,
               bnNextIn = (if stale \<and> wait > 0 then secs wait + 1 else 0)\<rparr>)\<rparr>"

text \<open>Regenerate: the problems are built anew by the caller.\<close>

definition regenerateBrief :: "bool \<Rightarrow> Problem list \<Rightarrow> time \<Rightarrow> briefState \<times> llm_slots \<Rightarrow>
    (briefState \<times> llm_slots) \<times> Problem option" where
  "regenerateBrief enabled problems now st =
     (case st of (b, slots) \<Rightarrow> maybeStartBrief enabled problems now (b\<lparr>brForce := True\<rparr>, slots))"

datatype brief_reply = BriefStatus nat | BriefShown BriefPayload

definition handleAPIBrief :: "bool \<Rightarrow> bool \<Rightarrow> string \<Rightarrow> Problem list \<Rightarrow> time \<Rightarrow> briefState \<times> llm_slots \<Rightarrow>
    (briefState \<times> llm_slots) \<times> Problem option \<times> brief_reply" where
  "handleAPIBrief isPost enabled model problems now st =
     (if \<not> isPost then (st, None, BriefStatus 405)
      else if \<not> enabled then (st, None, BriefStatus 503)
      else
        (case regenerateBrief enabled problems now st of
           (st', started) \<Rightarrow> (st', started, BriefShown (briefPayload enabled model problems now (fst st')))))"

section \<open>Rules a start obeys\<close>

lemma acquire_cases:
  "acquireLLMSlot m s = (got, s') \<Longrightarrow>
   (if got then slActive s < m \<and> s' = s\<lparr>slActive := slActive s + 1\<rparr> else slActive s \<ge> m \<and> s' = s)"
  by (auto simp: acquireLLMSlot_def split: if_splits)

text \<open>The brief after the top problem has been noted.\<close>

definition seen :: "Problem \<Rightarrow> time \<Rightarrow> briefState \<Rightarrow> briefState" where
  "seen p now b = (if noteID p \<noteq> brSeenID b then b\<lparr>brSeenID := noteID p, brSeenAt := now\<rparr> else b)"

lemma maybeStartBrief_started:
  assumes "maybeStartBrief enabled problems now (b, slots) = ((b', slots'), Some p)"
  shows "enabled" and "problems \<noteq> []" and "p = hd problems" and "brStatus b \<noteq> ''running''"
    and "brief_due p now (seen p now b)" and "brForce b \<or> brRetryAt b \<le> now"
    and "slActive slots < slMax slots" and "slots' = slots\<lparr>slActive := slActive slots + 1\<rparr>"
    and "brStatus b' = ''running''" and "brRunID b' = noteID p" and "brRunTarget b' = p"
    and "\<not> brForce b'" and "\<not> brPreempted b'"
  using assms
  by (auto simp: maybeStartBrief_def seen_def Let_def split: if_splits prod.splits bool.splits
      dest: acquire_cases)

lemma maybeStartBrief_not_started:
  assumes "maybeStartBrief enabled problems now (b, slots) = ((b', slots'), None)"
  shows "slots' = slots" and "brStatus b' = ''running'' \<longleftrightarrow> brStatus b = ''running''"
    and "brForce b' = brForce b" and "brNoteID b' = brNoteID b" and "brText b' = brText b"
    and "brPreempted b' = brPreempted b"
  using assms
  by (auto simp: maybeStartBrief_def Let_def split: if_splits prod.splits bool.splits dest: acquire_cases)

lemma finishBrief_not_running: "brStatus (finishBrief now p evidence tokens budget out err b) \<noteq> ''running''"
  by (simp add: finishBrief_def Let_def split: option.splits)

text \<open>A note that ends keeps the old one unless it has a new text to show.\<close>

lemma finishBrief_keeps:
  "brStatus (finishBrief now p evidence tokens budget out err b) \<noteq> ''ready'' \<Longrightarrow>
   brText (finishBrief now p evidence tokens budget out err b) = brText b \<and>
   brNoteID (finishBrief now p evidence tokens budget out err b) = brNoteID b \<and>
   brTarget (finishBrief now p evidence tokens budget out err b) = brTarget b"
  by (auto simp: finishBrief_def Let_def split: option.splits)

section \<open>Runs, stop functions and slots\<close>

text \<open>
  A run streams; when it has recorded its end it removes the cluster's stop function, then gives its
  slot back. \<open>sysStop\<close> is the entry of \<open>briefRuns\<close> for the cluster: the number of the run it would
  stop. \<open>preemptBrief\<close> takes the entry out first and calls the stop function afterwards.
\<close>

datatype run_phase = Streaming | Ended | Unregistered

record brief_sys =
  sysBrief :: briefState
  sysSlots :: llm_slots
  sysStop :: "nat option"
  sysStopping :: "nat list"
  sysRuns :: "(nat \<times> run_phase) list"
  sysNext :: nat
  sysUsers :: nat

definition brief_start :: "llm_slots \<Rightarrow> brief_sys" where
  "brief_start slots = \<lparr>sysBrief = empty_brief, sysSlots = slots, sysStop = None, sysStopping = [],
     sysRuns = [], sysNext = 0, sysUsers = nat (slActive slots)\<rparr>"

definition add_run :: "brief_sys \<Rightarrow> brief_sys" where
  "add_run y = y\<lparr>sysRuns := (sysNext y, Streaming) # sysRuns y, sysStop := Some (sysNext y),
                 sysNext := Suc (sysNext y)\<rparr>"

definition after_view :: "brief_sys \<Rightarrow> (briefState \<times> llm_slots) \<times> Problem option \<Rightarrow> brief_sys" where
  "after_view y r =
     (case r of ((b, slots), started) \<Rightarrow>
        let y' = y\<lparr>sysBrief := b, sysSlots := slots\<rparr>
        in if started = None then y' else add_run y')"

inductive brief_step :: "brief_sys \<Rightarrow> brief_sys \<Rightarrow> bool" where
  view: "brief_step y (after_view y (maybeStartBrief enabled problems now (sysBrief y, sysSlots y)))"
| regenerate: "brief_step y (after_view y (regenerateBrief enabled problems now (sysBrief y, sysSlots y)))"
| evidence: "(i, Streaming) \<in> set (sysRuns y) \<Longrightarrow>
    brief_step y (y\<lparr>sysBrief := (sysBrief y)\<lparr>brRunEvidence := e\<rparr>\<rparr>)"
| partial: "(i, Streaming) \<in> set (sysRuns y) \<Longrightarrow>
    brief_step y (y\<lparr>sysBrief := (sysBrief y)\<lparr>brPartial := t\<rparr>\<rparr>)"
| finish: "sysRuns y = pre @ (i, Streaming) # post \<Longrightarrow>
    brief_step y (y\<lparr>sysBrief := finishBrief now p ev tokens budget out err (sysBrief y),
                    sysRuns := pre @ (i, Ended) # post\<rparr>)"
| unregister: "sysRuns y = pre @ (i, Ended) # post \<Longrightarrow>
    brief_step y (y\<lparr>sysStop := None, sysRuns := pre @ (i, Unregistered) # post\<rparr>)"
| release: "sysRuns y = pre @ (i, Unregistered) # post \<Longrightarrow>
    brief_step y (y\<lparr>sysSlots := releaseLLMSlot (sysSlots y), sysRuns := pre @ post\<rparr>)"
| take_stop: "sysStop y = Some i \<Longrightarrow>
    brief_step y (y\<lparr>sysStop := None, sysStopping := i # sysStopping y\<rparr>)"
| call_stop: "sysStopping y = pre @ i # post \<Longrightarrow>
    brief_step y (y\<lparr>sysBrief := (sysBrief y)\<lparr>brPreempted := True\<rparr>, sysStopping := pre @ post\<rparr>)"
| user_acquire: "acquireLLMSlot (slMax (sysSlots y)) (sysSlots y) = (True, slots) \<Longrightarrow>
    brief_step y (y\<lparr>sysSlots := slots, sysUsers := Suc (sysUsers y)\<rparr>)"
| user_release: "sysUsers y = Suc n \<Longrightarrow>
    brief_step y (y\<lparr>sysSlots := releaseLLMSlot (sysSlots y), sysUsers := n\<rparr>)"

inductive brief_reachable :: "brief_sys \<Rightarrow> bool" where
  start: "slActive slots = 0 \<Longrightarrow> brief_reachable (brief_start slots)"
| step: "brief_reachable y \<Longrightarrow> brief_step y y' \<Longrightarrow> brief_reachable y'"

text \<open>
  At most one run streams, exactly when the brief says "running"; every slot counted is held by a
  run that has not ended its work or by a user's analysis.
\<close>

definition streaming :: "brief_sys \<Rightarrow> nat" where
  "streaming y = length (filter (\<lambda>(_, ph). ph = Streaming) (sysRuns y))"

definition brief_inv :: "brief_sys \<Rightarrow> bool" where
  "brief_inv y \<longleftrightarrow>
     streaming y = (if brStatus (sysBrief y) = ''running'' then 1 else 0) \<and>
     slActive (sysSlots y) = int (length (sysRuns y)) + int (sysUsers y)"

lemma after_view_inv:
  assumes "brief_inv y" and "maybeStartBrief enabled problems now (b, sysSlots y) = r"
    and "brStatus b = brStatus (sysBrief y)"
  shows "brief_inv (after_view y r)"
proof -
  obtain b' slots' started where r: "r = ((b', slots'), started)" by (metis prod.collapse)
  show ?thesis
  proof (cases started)
    case None
    then show ?thesis
      using assms maybeStartBrief_not_started [of enabled problems now b "sysSlots y" b' slots'] r
      by (auto simp: after_view_def brief_inv_def streaming_def)
  next
    case (Some p)
    note s = maybeStartBrief_started [of enabled problems now b "sysSlots y" b' slots' p]
    show ?thesis
      using assms s r Some by (auto simp: after_view_def add_run_def brief_inv_def streaming_def Let_def)
  qed
qed

lemma brief_step_inv: "brief_step y y' \<Longrightarrow> brief_inv y \<Longrightarrow> brief_inv y'"
proof (induction rule: brief_step.induct)
  case (view y enabled problems now)
  then show ?case by (intro after_view_inv [OF _ refl]) simp_all
next
  case (regenerate y enabled problems now)
  then show ?case
    unfolding regenerateBrief_def by (auto intro!: after_view_inv [OF _ refl])
next
  case (finish y pre i post now p ev tokens budget out err)
  then show ?case
    using finishBrief_not_running by (auto simp: brief_inv_def streaming_def split: if_splits)
next
  case (user_acquire y slots)
  then show ?case by (auto simp: brief_inv_def streaming_def dest: acquire_cases)
qed (auto simp: brief_inv_def streaming_def releaseLLMSlot_def)

lemma brief_reachable_inv: "brief_reachable y \<Longrightarrow> brief_inv y"
proof (induction rule: brief_reachable.induct)
  case (start slots)
  then show ?case by (simp add: brief_inv_def brief_start_def streaming_def empty_brief_def)
qed (auto intro: brief_step_inv)

section \<open>Properties\<close>

text \<open>
  C12: whatever views, runs, stops and analyses interleave, at most one note streams per cluster,
  exactly when the brief says it is running, and the slots counted are those held by notes that have
  not given theirs back and by the user's analyses.
\<close>

theorem one_note_streams:
  assumes "brief_reachable y"
  shows "streaming y \<le> 1 \<and> (streaming y = 1 \<longleftrightarrow> brStatus (sysBrief y) = ''running'') \<and>
    slActive (sysSlots y) = int (length (sysRuns y)) + int (sysUsers y)"
  using brief_reachable_inv [OF assms] by (simp add: brief_inv_def)

text \<open>A run started by the first view, for a failing pod.\<close>

definition first_problem :: Problem where
  "first_problem = zeroProblem\<lparr>pbKey := ''k'', pbTier := ''new''\<rparr>"

definition first_run :: brief_sys where
  "first_run = after_view (brief_start initial_slots)
     (maybeStartBrief True [first_problem] 100 (empty_brief, initial_slots))"

lemma first_run_reachable: "brief_reachable first_run"
proof -
  have "brief_reachable (brief_start initial_slots)"
    by (rule brief_reachable.start) (simp add: initial_slots_def)
  from brief_reachable.step [OF this
      brief_step.view [of "brief_start initial_slots" True "[first_problem]" 100]]
  show ?thesis by (simp add: first_run_def brief_start_def)
qed

lemma first_run_eq:
  "sysRuns first_run = [(0, Streaming)]" "sysStop first_run = Some 0" "sysStopping first_run = []"
  "sysNext first_run = 1" "sysUsers first_run = 0" "slActive (sysSlots first_run) = 1"
  "slMax (sysSlots first_run) = 3" "brStatus (sysBrief first_run) = ''running''"
  "brRunID (sysBrief first_run) = ''k|new''" "\<not> brPreempted (sysBrief first_run)"
  "brForce (sysBrief first_run) = False" "brNoteID (sysBrief first_run) = ''''"
  by code_simp+

theorem one_note_streams_witness:
  "brief_reachable first_run \<and> streaming first_run \<le> 1 \<and> slActive (sysSlots first_run) = 1"
  using one_note_streams [OF first_run_reachable] first_run_reachable by (simp add: first_run_eq)

text \<open>
  a note starts only for the page's first problem, when the model is on and no note is running,
  when it was asked for or is due (no note yet and the problem has settled, or another problem that
  has been first for thirty seconds), not before the retry time unless asked for, and with a free
  slot, which it takes.
\<close>

lemma note_start_rules:
  assumes "maybeStartBrief enabled problems now (b, slots) = ((b', slots'), Some p)"
  shows "enabled \<and> problems \<noteq> [] \<and> p = hd problems \<and> brStatus b \<noteq> ''running'' \<and>
    (brForce b \<or> brNoteID b \<noteq> noteID p) \<and>
    (brForce b \<or> brRetryAt b \<le> now) \<and>
    (brForce b \<or> brNoteID b = '''' \<or> time_sub now (brSeenAt (seen p now b)) \<ge> briefDebounce) \<and>
    slActive slots < slMax slots \<and> slots' = slots\<lparr>slActive := slActive slots + 1\<rparr> \<and>
    brStatus b' = ''running'' \<and> brRunID b' = noteID p \<and> \<not> brForce b' \<and> \<not> brPreempted b'"
proof -
  note s = maybeStartBrief_started [OF assms]
  have "noteID p \<noteq> ''''" by (simp add: noteID_def)
  moreover have "brNoteID (seen p now b) = brNoteID b" "brForce (seen p now b) = brForce b"
    by (simp_all add: seen_def)
  ultimately show ?thesis using s by (auto simp: brief_due_def Let_def)
qed

lemma note_start_rules_witness:
  "\<exists>b' slots'. maybeStartBrief True [first_problem] 100 (empty_brief, initial_slots) =
     ((b', slots'), Some first_problem) \<and> slots' = initial_slots\<lparr>slActive := slActive initial_slots + 1\<rparr>"
proof -
  have "snd (maybeStartBrief True [first_problem] 100 (empty_brief, initial_slots)) = Some first_problem"
    by code_simp
  then obtain b' slots' where r: "maybeStartBrief True [first_problem] 100 (empty_brief, initial_slots) =
      ((b', slots'), Some first_problem)" by (metis prod.collapse)
  show ?thesis using note_start_rules [OF r] r by blast
qed

text \<open>
  a note that fails, is empty or is preempted leaves the old note on the page; one that succeeds
  replaces it and is filed under the problem it was started for.
\<close>

lemma old_note_kept:
  "if \<not> brPreempted b \<and> err = None \<and> extractNote out \<noteq> ''''
   then brText (finishBrief now p evidence tokens budget out err b) = extractNote out \<and>
        brNoteID (finishBrief now p evidence tokens budget out err b) = brRunID b \<and>
        brTarget (finishBrief now p evidence tokens budget out err b) = p \<and>
        brStatus (finishBrief now p evidence tokens budget out err b) = ''ready''
   else brText (finishBrief now p evidence tokens budget out err b) = brText b \<and>
        brNoteID (finishBrief now p evidence tokens budget out err b) = brNoteID b \<and>
        brTarget (finishBrief now p evidence tokens budget out err b) = brTarget b \<and>
        brStatus (finishBrief now p evidence tokens budget out err b) =
          (if brPreempted b then ''waiting'' else ''error'') \<and>
        brRetryAt (finishBrief now p evidence tokens budget out err b) > now"
  by (auto simp: finishBrief_def Let_def briefSlotRetry_def briefErrorRetry_def second_def split: option.splits)

text \<open>
  A preempted note is tried again by the next view, whatever its retry time: it was forced, and a
  forced note does not wait.
\<close>

lemma preempted_note_does_not_wait:
  assumes "brPreempted b" and "slActive slots < slMax slots"
  shows "snd (maybeStartBrief True [p] now
    (finishBrief now q evidence tokens budget out err b, slots)) = Some p"
  using assms
  by (simp add: maybeStartBrief_def finishBrief_def Let_def brief_due_def acquireLLMSlot_def)

text \<open>
  A run that ends takes out whatever stop function is filed for the cluster: when the next run has
  started in between, that run can no longer be preempted.
\<close>

lemma stop_of_the_next_run_lost:
  "\<exists>y. brief_reachable y \<and> streaming y = 1 \<and> sysStop y = None \<and> sysStopping y = []"
proof -
  let ?fin = "finishBrief 200 first_problem '''' 0 0 '''' (Some ''timeout'') (sysBrief first_run)"
  let ?y1 = "first_run\<lparr>sysBrief := ?fin, sysRuns := [(0, Ended)]\<rparr>"
  let ?r = "regenerateBrief True [first_problem] 300 (sysBrief ?y1, sysSlots ?y1)"
  let ?y2 = "after_view ?y1 ?r"
  let ?y3 = "?y2\<lparr>sysStop := None, sysRuns := [(1, Streaming), (0, Unregistered)]\<rparr>"
  have 1: "brief_step first_run ?y1"
    using brief_step.finish [of first_run "[]" 0 "[]" 200 first_problem "''''" 0 0 "''''" "Some ''timeout''"]
    by (simp add: first_run_eq)
  have 2: "brief_step ?y1 ?y2" by (rule brief_step.regenerate)
  have runs: "sysRuns ?y2 = [(1, Streaming), (0, Ended)]" by code_simp
  have 3: "brief_step ?y2 ?y3"
    using brief_step.unregister [of ?y2 "[(1, Streaming)]" 0 "[]"] runs by simp
  have stopping: "sysStopping ?y2 = []" by code_simp
  have "brief_reachable ?y3"
    using brief_reachable.step [OF brief_reachable.step [OF brief_reachable.step [OF first_run_reachable 1] 2] 3] .
  moreover have "streaming ?y3 = 1" by (simp add: streaming_def)
  ultimately show ?thesis using stopping by (intro exI [of _ ?y3]) simp
qed

end
