(* ===== verification/Tunnels.thy ===== *)
theory Tunnels
  imports GoTime
begin

text \<open>
  Tunnels to private clusters (tunnels.go): the saved tunnels with their validation, and the life of
  the process behind one: starting it or using a port that is already open, waiting for its port,
  restarting it when it drops, stopping it. What \<open>url.Parse\<close> answers is a parameter, as are the
  operating system's answers (whether a port is open, whether a process starts, how it ended).
\<close>

section \<open>Saved tunnels\<close>

definition tunnelProxy :: string where "tunnelProxy = ''proxy''"
definition tunnelAddress :: string where "tunnelAddress = ''address''"
definition tunnelNone :: string where "tunnelNone = ''none''"

definition tunnelReadyTimeout :: duration where "tunnelReadyTimeout = 60 * second"
definition tunnelOutputLines :: nat where "tunnelOutputLines = 200"

record TunnelDef =
  tdName :: string
  tdCommand :: string
  tdMode :: string
  tdProxy :: string
  tdAddress :: string
  tdContexts :: "string list"

text \<open>The parts of a parsed URL that are read; \<open>uHost\<close> is host and port together.\<close>

record url_parts =
  uScheme :: string
  uHost :: string
  uHostname :: string
  uPort :: string

type_synonym url_parser = "string \<Rightarrow> url_parts option"

definition is_alnum :: "char \<Rightarrow> bool" where
  "is_alnum c \<longleftrightarrow> in_range 65 90 c \<or> in_range 97 122 c \<or> is_digit c"

definition tunnelNameRe :: "string \<Rightarrow> bool" where
  "tunnelNameRe s \<longleftrightarrow>
     (case s of
        [] \<Rightarrow> False
      | c # rest \<Rightarrow> is_alnum c \<and> length rest \<le> 63 \<and>
          list_all (\<lambda>d. is_alnum d \<or> d \<in> set ''._-'') rest)"

definition scheme_port :: "string \<Rightarrow> string" where
  "scheme_port scheme =
     al_get '''' [(''http'', ''80''), (''https'', ''443''), (''socks5'', ''1080''), (''socks5h'', ''1080'')] scheme"

text \<open>\<open>net.JoinHostPort\<close>\<close>

definition join_host_port :: "string \<Rightarrow> string \<Rightarrow> string" where
  "join_host_port host port =
     (if CHR '':'' \<in> set host then ''['' @ host @ '']:'' @ port else host @ '':'' @ port)"

definition endpoint :: "url_parser \<Rightarrow> TunnelDef \<Rightarrow> string" where
  "endpoint parse d =
     (let raw = (if tdMode d = tunnelProxy then Some (tdProxy d)
                 else if tdMode d = tunnelAddress then Some (tdAddress d) else None)
      in case raw of
           None \<Rightarrow> ''''
         | Some r \<Rightarrow>
             (case parse r of
                None \<Rightarrow> ''''
              | Some u \<Rightarrow>
                  if uHostname u = '''' then ''''
                  else join_host_port (uHostname u)
                         (if uPort u = '''' then scheme_port (uScheme u) else uPort u)))"

definition validate :: "url_parser \<Rightarrow> TunnelDef \<Rightarrow> string option" where
  "validate parse d =
     (if \<not> tunnelNameRe (tdName d) then
        Some (''name: letters, digits, '' @ [CHR 0x27] @ ''.'' @ [CHR 0x27] @ '', '' @ [CHR 0x27] @ ''_'' @
          [CHR 0x27] @ '' or '' @ [CHR 0x27] @ ''-'' @ [CHR 0x27] @ '', up to 64'')
      else if trim_space (tdCommand d) = '''' \<or> length (tdCommand d) > 4096 then
        Some ''command: required, up to 4096 characters''
      else
        (let bad =
           (if tdMode d = tunnelProxy then
              (case parse (tdProxy d) of
                 Some u \<Rightarrow>
                   if uHostname u = '''' \<or> uScheme u \<notin> set [''http'', ''https'', ''socks5'', ''socks5h'']
                   then Some ''proxy: a URL like socks5://127.0.0.1:1080 or http://127.0.0.1:8888''
                   else None
               | None \<Rightarrow> Some ''proxy: a URL like socks5://127.0.0.1:1080 or http://127.0.0.1:8888'')
            else if tdMode d = tunnelAddress then
              (case parse (tdAddress d) of
                 Some u \<Rightarrow>
                   if uHostname u = '''' \<or> uScheme u \<noteq> ''https'' \<and> uScheme u \<noteq> ''http''
                   then Some ''address: a URL like https://127.0.0.1:16443'' else None
               | None \<Rightarrow> Some ''address: a URL like https://127.0.0.1:16443'')
            else if tdMode d = tunnelNone then None
            else Some ''mode: proxy, address or none'')
         in case bad of
              Some e \<Rightarrow> Some e
            | None \<Rightarrow> if tdContexts d = [] then Some ''pick at least one cluster for this tunnel'' else None))"

definition tunnelByName :: "string \<Rightarrow> TunnelDef list \<Rightarrow> TunnelDef option" where
  "tunnelByName name defs = find (\<lambda>d. tdName d = name) defs"

definition tunnelForContext :: "string \<Rightarrow> TunnelDef list \<Rightarrow> TunnelDef option" where
  "tunnelForContext ctx defs = find (\<lambda>d. ctx \<in> set (tdContexts d)) defs"

text \<open>The loop of \<open>saveTunnel\<close>: the tunnels kept and the contexts of the one replaced, or the conflict.\<close>

fun save_loop :: "url_parser \<Rightarrow> TunnelDef \<Rightarrow> string \<Rightarrow> string list \<Rightarrow> TunnelDef list \<Rightarrow>
    TunnelDef list \<Rightarrow> string + (string list \<times> TunnelDef list)" where
  "save_loop parse d previous changed kept [] = Inr (changed, kept)"
| "save_loop parse d previous changed kept (t # ts) =
     (if tdName t = previous then save_loop parse d previous (changed @ tdContexts t) kept ts
      else if tdName t = tdName d then Inl (''a tunnel named '' @ tdName d @ '' already exists'')
      else
        (case find (\<lambda>c. c \<in> set (tdContexts t)) (tdContexts d) of
           Some c \<Rightarrow> Inl (c @ '' already uses tunnel '' @ tdName t)
         | None \<Rightarrow>
             if endpoint parse d \<noteq> '''' \<and> endpoint parse d = endpoint parse t
             then Inl (''tunnel '' @ tdName t @ '' already uses '' @ endpoint parse d @
                       '': give this one another port'')
             else save_loop parse d previous changed (kept @ [t]) ts))"

text \<open>
  \<open>save\<close> is what writing the preferences answers. The new list is in memory before it is written: an
  error of the write leaves it there.
\<close>

definition saveTunnel :: "url_parser \<Rightarrow> string option \<Rightarrow> TunnelDef \<Rightarrow> string \<Rightarrow> TunnelDef list \<Rightarrow>
    TunnelDef list \<times> (string + string list)" where
  "saveTunnel parse save d previous0 defs =
     (case validate parse d of
        Some e \<Rightarrow> (defs, Inl e)
      | None \<Rightarrow>
          let previous = (if previous0 = '''' then tdName d else previous0) in
          (case save_loop parse d previous [] [] defs of
             Inl e \<Rightarrow> (defs, Inl e)
           | Inr (changed, kept) \<Rightarrow>
               (kept @ [d],
                (case save of
                   Some e \<Rightarrow> Inl e
                 | None \<Rightarrow> Inr (remdups_adj (sort (changed @ tdContexts d)))))))"

text \<open>\<open>changed == nil\<close>: no tunnel of the name (a saved tunnel serves at least one context).\<close>

definition deleteTunnel :: "string option \<Rightarrow> string \<Rightarrow> TunnelDef list \<Rightarrow>
    TunnelDef list \<times> (string + string list)" where
  "deleteTunnel save name defs =
     (let changed = foldl (\<lambda>ch t. if tdName t = name then tdContexts t else ch) [] defs in
      if changed = [] then (defs, Inl (''no tunnel '' @ name))
      else (filter (\<lambda>t. tdName t \<noteq> name) defs,
            (case save of Some e \<Rightarrow> Inl e | None \<Rightarrow> Inr changed)))"

text \<open>
  The fields of a client's configuration that a tunnel sets; \<open>with_host\<close> prints a URL whose scheme and
  host are replaced.
\<close>

record rest_config =
  rcHost :: string
  rcServerName :: string
  rcProxy :: "url_parts option"

definition applyTunnel :: "url_parser \<Rightarrow> (string \<Rightarrow> string \<Rightarrow> string \<Rightarrow> string) \<Rightarrow> TunnelDef \<Rightarrow>
    rest_config \<Rightarrow> rest_config" where
  "applyTunnel parse with_host d rc =
     (if tdMode d = tunnelProxy then
        (case parse (tdProxy d) of Some u \<Rightarrow> rc\<lparr>rcProxy := Some u\<rparr> | None \<Rightarrow> rc)
      else if tdMode d = tunnelAddress then
        (case (parse (rcHost rc), parse (tdAddress d)) of
           (Some orig, Some addr) \<Rightarrow>
             rc\<lparr>rcServerName := (if rcServerName rc = '''' then uHostname orig else rcServerName rc),
                rcHost := with_host (rcHost rc) (uScheme addr) (uHost addr)\<rparr>
         | _ \<Rightarrow> rc)
      else rc)"

section \<open>A running tunnel\<close>

definition tsStopped :: string where "tsStopped = ''stopped''"
definition tsStarting :: string where "tsStarting = ''starting''"
definition tsRunning :: string where "tsRunning = ''running''"
definition tsExternal :: string where "tsExternal = ''external''"
definition tsExited :: string where "tsExited = ''exited''"
definition tsFailed :: string where "tsFailed = ''failed''"

lemmas tunnel_states = tsStopped_def tsStarting_def tsRunning_def tsExternal_def tsExited_def tsFailed_def

text \<open>\<open>trCmd\<close> is the number of the process in \<open>cmd\<close> and \<open>done\<close>.\<close>

record tunnelRun =
  trState :: string
  trErr :: string
  trPid :: int
  trStartedAt :: time
  trReadyAt :: time
  trExitCode :: int
  trOut :: "string list"
  trCmd :: "nat option"
  trKeep :: bool
  trRestarts :: nat
  trGen :: nat

definition new_run :: tunnelRun where
  "new_run = \<lparr>trState = tsStopped, trErr = '''', trPid = 0, trStartedAt = 0, trReadyAt = 0,
     trExitCode = 0, trOut = [], trCmd = None, trKeep = False, trRestarts = 0, trGen = 0\<rparr>"

text \<open>A run that was never asked for is not in the map: looking one up makes it.\<close>

definition runFor :: "string \<Rightarrow> (string, tunnelRun) gomap \<Rightarrow> tunnelRun" where
  "runFor name runs = al_get new_run runs name"

definition tunnelState :: "string \<Rightarrow> (string, tunnelRun) gomap \<Rightarrow> string" where
  "tunnelState name runs = trState (runFor name runs)"

definition logLocked :: "string \<Rightarrow> tunnelRun \<Rightarrow> tunnelRun" where
  "logLocked line r =
     (let out = trOut r @ [line] in r\<lparr>trOut := drop (length out - tunnelOutputLines) out\<rparr>)"

text \<open>\<open>strings.ReplaceAll\<close> of a backslash and line break by a space.\<close>

fun unfold_lines :: "string \<Rightarrow> string" where
  "unfold_lines [] = []"
| "unfold_lines (c # s) =
     (if c = CHR 0x5C \<and> has_prefix s [CHR 0x0A] then CHR '' '' # unfold_lines (drop 1 s)
      else c # unfold_lines s)"

definition command_line :: "TunnelDef \<Rightarrow> string" where
  "command_line d = ''$ '' @ str_join '' '' (str_fields (unfold_lines (tdCommand d)))"

text \<open>What the system answers when a process is started: its pid, or which step failed.\<close>

datatype spawn_answer = NoPipe string | NotStarted string | Started int

text \<open>\<open>p\<close> is the number the new process gets. The result has the error, and whether \<open>p\<close> runs.\<close>

definition spawnLocked :: "time \<Rightarrow> spawn_answer \<Rightarrow> nat \<Rightarrow> TunnelDef \<Rightarrow> tunnelRun \<Rightarrow>
    tunnelRun \<times> string option \<times> bool" where
  "spawnLocked now ans p d r =
     (case ans of
        NoPipe e \<Rightarrow> (r, Some e, False)
      | NotStarted e \<Rightarrow>
          let r1 = logLocked (command_line d) (r\<lparr>trGen := Suc (trGen r)\<rparr>) in
          (logLocked (''could not start: '' @ e) (r1\<lparr>trState := tsFailed, trErr := e\<rparr>), Some e, False)
      | Started pid \<Rightarrow>
          let r1 = logLocked (command_line d) (r\<lparr>trGen := Suc (trGen r)\<rparr>) in
          (r1\<lparr>trCmd := Some p, trPid := pid, trState := tsStarting, trErr := '''', trExitCode := 0,
              trStartedAt := now, trReadyAt := 0\<rparr>, None, True))"

text \<open>\<open>startTunnel\<close> once the tunnel's definition is found; \<open>ep\<close> is its endpoint.\<close>

definition startRun :: "string \<Rightarrow> (string \<Rightarrow> bool) \<Rightarrow> time \<Rightarrow> spawn_answer \<Rightarrow> nat \<Rightarrow> bool \<Rightarrow> TunnelDef \<Rightarrow>
    tunnelRun \<Rightarrow> tunnelRun \<times> string option \<times> bool" where
  "startRun ep portOpen now ans p keep d r0 =
     (let r = (if keep then r0\<lparr>trKeep := True\<rparr> else r0) in
      if trState r \<in> set [tsStarting, tsRunning, tsExternal] then (r, None, False)
      else
        let r1 = r\<lparr>trRestarts := 0\<rparr> in
        if ep \<noteq> '''' \<and> portOpen ep then
          (logLocked (ep @ '' is already open: using it (KubeHealth did not start it)'')
             (r1\<lparr>trState := tsExternal, trErr := '''', trPid := 0\<rparr>), None, False)
        else spawnLocked now ans p d r1)"

text \<open>\<open>watchReady\<close>: one poll, the port being open, and the end of the wait.\<close>

definition watch_active :: "nat \<Rightarrow> tunnelRun \<Rightarrow> bool" where
  "watch_active gen r \<longleftrightarrow> trGen r = gen \<and> trState r = tsStarting"

definition watch_ready :: "string \<Rightarrow> (string \<Rightarrow> bool) \<Rightarrow> duration \<Rightarrow> bool" where
  "watch_ready ep portOpen elapsed = (if ep \<noteq> '''' then portOpen ep else elapsed \<ge> 3 * second)"

definition becomeReady :: "time \<Rightarrow> nat \<Rightarrow> string \<Rightarrow> string \<Rightarrow> tunnelRun \<Rightarrow> tunnelRun" where
  "becomeReady now gen ep took r =
     (if watch_active gen r then
        (let r1 = r\<lparr>trState := tsRunning, trReadyAt := now\<rparr>
         in if ep \<noteq> '''' then logLocked (ep @ '' is open after '' @ took @ '' s'') r1 else r1)
      else r)"

text \<open>The second part of the result is the process to terminate.\<close>

definition readyTimeout :: "nat \<Rightarrow> string \<Rightarrow> tunnelRun \<Rightarrow> tunnelRun \<times> nat option" where
  "readyTimeout gen ep r =
     (if watch_active gen r then
        (let e = ep @ '' did not open within 1m0s''
         in (logLocked e (r\<lparr>trState := tsFailed, trErr := e\<rparr>), trCmd r))
      else (r, None))"

text \<open>Why a tunnel probably failed, from its last thirty lines, else how it ended.\<close>

definition tunnelHint :: "string list \<Rightarrow> string \<Rightarrow> string" where
  "tunnelHint out how =
     (let text = to_lower (str_join [CHR 0x0A] (drop (length out - 30) out));
          has = str_contains text
      in if has ''reauthentication'' \<or> has ''gcloud auth login'' then
           ''gcloud needs you to sign in again: run '' @ [CHR 0x60] @ ''gcloud auth login'' @ [CHR 0x60] @
           '' in a terminal, then start the tunnel.''
         else if has ''command not found'' \<or> has ''not found'' \<and> has ''sh:'' then
           ''Command not found: is it on the PATH KubeHealth was started with?''
         else if has ''address already in use'' then
           ''Its local port is already in use by another program.''
         else if has ''permission denied (publickey'' then ''SSH refused the key.''
         else if has ''could not resolve hostname'' \<or> has ''name or service not known'' then
           ''The host in the command could not be resolved.''
         else to_upper (take 1 how) @ drop 1 how @ ''.'')"

text \<open>How \<open>cmd.Wait\<close> ended: \<open>None\<close> without an \<open>ExitError\<close>, else its code and text.\<close>

definition exit_how :: "(int \<times> string) option \<Rightarrow> int \<times> string" where
  "exit_how w =
     (case w of
        None \<Rightarrow> (0, ''exited with code 0'')
      | Some (code, err) \<Rightarrow>
          (code, if code = -1 then ''stopped by '' @ err @ '', from outside KubeHealth''
                 else ''exited with code '' @ itoa code))"

text \<open>
  \<open>exited\<close> up to the unlock. The second part of the result is the number of restarts, when a restart
  is to be considered: the run was up and is to be kept.
\<close>

definition exitedRun :: "time \<Rightarrow> nat \<Rightarrow> (int \<times> string) option \<Rightarrow> tunnelRun \<Rightarrow> tunnelRun \<times> nat option" where
  "exitedRun now gen w r =
     (if trGen r \<noteq> gen then (r, None)
      else
        let (code, how) = exit_how w; r1 = r\<lparr>trCmd := None, trPid := 0\<rparr> in
        if trState r1 = tsStopped then (r1, None)
        else
          let r2 = (if trState r1 \<noteq> tsFailed
                    then r1\<lparr>trState := tsExited, trErr := tunnelHint (trOut r1) how\<rparr> else r1);
              r3 = logLocked how (r2\<lparr>trExitCode := code\<rparr>);
              wasUp = trReadyAt r3 \<noteq> 0;
              r4 = (if wasUp \<and> time_sub now (trReadyAt r3) > 2 * minute then r3\<lparr>trRestarts := 0\<rparr> else r3)
          in (r4, if trKeep r4 \<and> wasUp then Some (trRestarts r4) else None))"

text \<open>The delays with their text.\<close>

definition tunnelRestartDelays :: "(duration \<times> string) list" where
  "tunnelRestartDelays = [(5 * second, ''5s''), (15 * second, ''15s''), (minute, ''1m0s'')]"

definition restart_delay :: "nat \<Rightarrow> duration \<times> string" where
  "restart_delay n = tunnelRestartDelays ! min n (length tunnelRestartDelays - 1)"

text \<open>The timer of a restart: \<open>found\<close> is the tunnel's definition, if it is still saved.\<close>

definition restartRun :: "time \<Rightarrow> spawn_answer \<Rightarrow> nat \<Rightarrow> TunnelDef option \<Rightarrow> bool \<Rightarrow> nat \<Rightarrow> tunnelRun \<Rightarrow>
    tunnelRun \<times> bool" where
  "restartRun now ans p found inUse gen r =
     (case found of
        None \<Rightarrow> (r, False)
      | Some d \<Rightarrow>
          if trGen r \<noteq> gen \<or> trState r \<noteq> tsExited \<or> \<not> trKeep r \<or> \<not> inUse then (r, False)
          else (case spawnLocked now ans p d (r\<lparr>trRestarts := Suc (trRestarts r)\<rparr>) of
                  (r', _, running) \<Rightarrow> (r', running)))"

text \<open>The second part of the result is the process to terminate.\<close>

definition stopRun :: "tunnelRun \<Rightarrow> tunnelRun \<times> nat option" where
  "stopRun r0 =
     (let r = r0\<lparr>trKeep := False\<rparr> in
      if trState r = tsExternal then
        (logLocked ''no longer used (KubeHealth did not start it, so it keeps running)''
           (r\<lparr>trState := tsStopped\<rparr>), None)
      else
        (case trCmd r of
           None \<Rightarrow> (r\<lparr>trState := tsStopped\<rparr>, None)
         | Some p \<Rightarrow> (logLocked ''stopped'' (r\<lparr>trState := tsStopped, trErr := ''''\<rparr>), Some p)))"

text \<open>One run's part of \<open>stopAllTunnels\<close>.\<close>

definition quitRun :: "tunnelRun \<Rightarrow> tunnelRun \<times> nat option" where
  "quitRun r =
     (case trCmd r of
        None \<Rightarrow> (r, None)
      | Some p \<Rightarrow> (r\<lparr>trState := tsStopped, trKeep := False\<rparr>, Some p))"

section \<open>The tunnels of the program\<close>

record tunnels =
  tnDefs :: "TunnelDef list"
  tnRuns :: "(string, tunnelRun) gomap"

text \<open>What the system answers while an operation runs, and the number its new process would get.\<close>

record tunnel_world =
  twParse :: url_parser
  twPortOpen :: "string \<Rightarrow> bool"
  twSpawn :: spawn_answer
  twProcess :: nat

text \<open>The last part of the result says whether a process was started.\<close>

definition startTunnel :: "tunnel_world \<Rightarrow> time \<Rightarrow> string \<Rightarrow> bool \<Rightarrow> tunnels \<Rightarrow>
    tunnels \<times> string option \<times> bool" where
  "startTunnel w now name keep ts =
     (case tunnelByName name (tnDefs ts) of
        None \<Rightarrow> (ts, Some (''no tunnel '' @ name), False)
      | Some d \<Rightarrow>
          (case startRun (endpoint (twParse w) d) (twPortOpen w) now (twSpawn w) (twProcess w) keep d
                  (runFor name (tnRuns ts)) of
             (r, err, running) \<Rightarrow> (ts\<lparr>tnRuns := al_set name r (tnRuns ts)\<rparr>, err, running)))"

text \<open>The second part of the result is the process that is terminated.\<close>

definition stopTunnel :: "string \<Rightarrow> tunnels \<Rightarrow> tunnels \<times> nat option" where
  "stopTunnel name ts =
     (case stopRun (runFor name (tnRuns ts)) of
        (r, kill) \<Rightarrow> (ts\<lparr>tnRuns := al_set name r (tnRuns ts)\<rparr>, kill))"

definition stopAllTunnels :: "tunnels \<Rightarrow> tunnels \<times> nat list" where
  "stopAllTunnels ts =
     (ts\<lparr>tnRuns := map (\<lambda>(n, r). (n, fst (quitRun r))) (tnRuns ts)\<rparr>,
      concat (map (\<lambda>(n, r). case snd (quitRun r) of Some p \<Rightarrow> [p] | None \<Rightarrow> []) (tnRuns ts)))"

text \<open>The name of the context's tunnel, and whether it is ready, or the error.\<close>

definition startContextTunnel :: "tunnel_world \<Rightarrow> time \<Rightarrow> string \<Rightarrow> tunnels \<Rightarrow>
    tunnels \<times> string \<times> (bool + string)" where
  "startContextTunnel w now ctx ts =
     (case tunnelForContext ctx (tnDefs ts) of
        None \<Rightarrow> (ts, '''', Inl True)
      | Some d \<Rightarrow>
          (case startTunnel w now (tdName d) True ts of
             (ts', Some e, _) \<Rightarrow> (ts', tdName d, Inr e)
           | (ts', None, _) \<Rightarrow>
               (ts', tdName d, Inl (tunnelState (tdName d) (tnRuns ts') \<in> {tsRunning, tsExternal}))))"

record tunnelBrief =
  tbName :: string
  tbState :: string
  tbError :: string

definition contextTunnelBrief :: "string \<Rightarrow> tunnels \<Rightarrow> tunnelBrief option" where
  "contextTunnelBrief ctx ts =
     map_option (\<lambda>d. let r = runFor (tdName d) (tnRuns ts) in
        \<lparr>tbName = tdName d, tbState = trState r, tbError = trErr r\<rparr>)
       (tunnelForContext ctx (tnDefs ts))"

record tunnelView =
  tvDef :: TunnelDef
  tvState :: string
  tvError :: string
  tvPid :: int
  tvUpSec :: int
  tvExitCode :: int
  tvRestarts :: nat
  tvEndpoint :: string
  tvOutput :: "string list"

definition viewTunnel :: "url_parser \<Rightarrow> time \<Rightarrow> tunnels \<Rightarrow> TunnelDef \<Rightarrow> tunnelView" where
  "viewTunnel parse now ts d =
     (let r = runFor (tdName d) (tnRuns ts) in
      \<lparr>tvDef = d, tvState = trState r, tvError = trErr r, tvPid = trPid r,
       tvUpSec = (if trState r \<in> {tsRunning, tsStarting} \<and> trStartedAt r \<noteq> 0
                  then secs (time_sub now (trStartedAt r)) else 0),
       tvExitCode = trExitCode r, tvRestarts = trRestarts r, tvEndpoint = endpoint parse d,
       tvOutput = trOut r\<rparr>)"

definition tunnelList :: "url_parser \<Rightarrow> time \<Rightarrow> tunnels \<Rightarrow> tunnelView list" where
  "tunnelList parse now ts = map (viewTunnel parse now ts) (tnDefs ts)"

section \<open>The output of the process\<close>

text \<open>
  The reading goroutine of \<open>spawnLocked\<close>: the lines of what has come so far, a line ending at a
  carriage return or line feed, and what is left over; \<open>w\<close> is the line being read.
\<close>

fun break_lines :: "string \<Rightarrow> string \<Rightarrow> string list \<times> string" where
  "break_lines w [] = ([], w)"
| "break_lines w (c # s) =
     (if c \<in> set [CHR 0x0D, CHR 0x0A] then
        (let (ls, left) = break_lines [] s; line = trim_right_blank w
         in ((if line \<noteq> '''' then line # ls else ls), left))
      else break_lines (w @ [c]) s)"

definition read_chunk :: "string list \<times> string \<Rightarrow> string \<Rightarrow> string list \<times> string" where
  "read_chunk st chunk =
     (case st of (logged, left) \<Rightarrow>
        case break_lines [] (left @ chunk) of (ls, left') \<Rightarrow> (logged @ ls, left'))"

definition read_output :: "string list \<Rightarrow> string list" where
  "read_output chunks =
     (case foldl read_chunk ([], '''') chunks of
        (logged, left) \<Rightarrow> if trim_space left \<noteq> '''' then logged @ [left] else logged)"

lemma break_lines_append:
  "break_lines w (s @ t) =
     (case break_lines w s of (ls, left) \<Rightarrow>
        case break_lines left t of (ls', left') \<Rightarrow> (ls @ ls', left'))"
  by (induction w s rule: break_lines.induct) (auto simp: Let_def split: prod.splits)

lemma break_lines_left: "set (snd (break_lines w s)) \<inter> set [CHR 0x0D, CHR 0x0A] \<subseteq> set w"
  by (induction w s rule: break_lines.induct) (auto simp: Let_def split: prod.splits if_splits)

lemma break_lines_no_break:
  "set v \<inter> set [CHR 0x0D, CHR 0x0A] = {} \<Longrightarrow> break_lines w (v @ t) = break_lines (w @ v) t"
  by (induction v arbitrary: w) auto

lemma read_chunks_at_once:
  "foldl read_chunk ([], '''') chunks = break_lines [] (concat chunks)"
proof (induction chunks rule: rev_induct)
  case (snoc c chunks)
  obtain ls left where b: "break_lines [] (concat chunks) = (ls, left)" by fastforce
  then have "set left \<inter> set [CHR 0x0D, CHR 0x0A] = {}"
    using break_lines_left [of "[]" "concat chunks"] by auto
  then have "break_lines [] (left @ c) = break_lines left c"
    using break_lines_no_break [of left "[]" c] by simp
  then show ?case
    using snoc b by (simp add: read_chunk_def break_lines_append split: prod.splits)
qed simp

section \<open>Processes and goroutines\<close>

text \<open>
  One tunnel with its processes: \<open>tyAlive\<close> the numbers of those that have not exited, \<open>tyWait\<close> those
  whose exit \<open>exited\<close> has not handled, with the generation they belong to, \<open>tyTerm\<close> those told to
  stop (\<open>terminate\<close> kills what does not stop by itself), \<open>tyWatch\<close> the generations \<open>watchReady\<close> runs
  for, \<open>tyDecide\<close> the exits that consider a restart, \<open>tyTimers\<close> the generations with a restart timer.
\<close>

record tunnel_sys =
  tyRun :: tunnelRun
  tyAlive :: "nat set"
  tyWait :: "(nat \<times> nat) set"
  tyTerm :: "nat set"
  tyWatch :: "nat set"
  tyDecide :: "(nat \<times> nat) set"
  tyTimers :: "nat set"
  tyNext :: nat

definition no_tunnel :: tunnel_sys where
  "no_tunnel = \<lparr>tyRun = new_run, tyAlive = {}, tyWait = {}, tyTerm = {}, tyWatch = {}, tyDecide = {},
     tyTimers = {}, tyNext = 0\<rparr>"

text \<open>The goroutines of a process that has been started.\<close>

definition spawned :: "tunnelRun \<Rightarrow> bool \<Rightarrow> tunnel_sys \<Rightarrow> tunnel_sys" where
  "spawned r running y =
     (if running then
        y\<lparr>tyRun := r, tyAlive := insert (tyNext y) (tyAlive y),
          tyWait := insert (tyNext y, trGen r) (tyWait y), tyWatch := insert (trGen r) (tyWatch y),
          tyNext := Suc (tyNext y)\<rparr>
      else y\<lparr>tyRun := r\<rparr>)"

definition told :: "tunnelRun \<times> nat option \<Rightarrow> tunnel_sys \<Rightarrow> tunnel_sys" where
  "told res y = y\<lparr>tyRun := fst res, tyTerm := set_option (snd res) \<union> tyTerm y\<rparr>"

text \<open>What happens without the user starting the tunnel.\<close>

inductive tunnel_background :: "tunnel_sys \<Rightarrow> tunnel_sys \<Rightarrow> bool" where
  stop: "tunnel_background y (told (stopRun (tyRun y)) y)"
| quit: "tunnel_background y (told (quitRun (tyRun y)) y)"
| die: "tunnel_background y (y\<lparr>tyAlive := tyAlive y - {p}\<rparr>)"
| exited: "(p, g) \<in> tyWait y \<Longrightarrow> p \<notin> tyAlive y \<Longrightarrow> exitedRun now g w (tyRun y) = (r, decide) \<Longrightarrow>
    tunnel_background y (y\<lparr>tyRun := r, tyWait := tyWait y - {(p, g)},
      tyDecide := Pair g ` set_option decide \<union> tyDecide y\<rparr>)"
| decide: "(g, n) \<in> tyDecide y \<Longrightarrow>
    tunnel_background y (y\<lparr>tyDecide := tyDecide y - {(g, n)},
      tyRun := (if inUse then logLocked (''restarting in '' @ snd (restart_delay n)) (tyRun y) else tyRun y),
      tyTimers := (if inUse then insert g (tyTimers y) else tyTimers y)\<rparr>)"
| timer: "g \<in> tyTimers y \<Longrightarrow>
    restartRun now ans (tyNext y) found inUse g (tyRun y) = (r, running) \<Longrightarrow>
    tunnel_background y (spawned r running (y\<lparr>tyTimers := tyTimers y - {g}\<rparr>))"
| ready: "g \<in> tyWatch y \<Longrightarrow>
    tunnel_background y (y\<lparr>tyRun := becomeReady now g ep took (tyRun y), tyWatch := tyWatch y - {g}\<rparr>)"
| timeout: "g \<in> tyWatch y \<Longrightarrow>
    tunnel_background y (told (readyTimeout g ep (tyRun y)) (y\<lparr>tyWatch := tyWatch y - {g}\<rparr>))"
| print_line: "tunnel_background y (y\<lparr>tyRun := logLocked line (tyRun y)\<rparr>)"

inductive tunnel_reachable :: "tunnel_sys \<Rightarrow> bool" where
  init: "tunnel_reachable no_tunnel"
| background: "tunnel_reachable y \<Longrightarrow> tunnel_background y y' \<Longrightarrow> tunnel_reachable y'"
| start: "tunnel_reachable y \<Longrightarrow>
    startRun ep portOpen now ans (tyNext y) keep d (tyRun y) = (r, err, running) \<Longrightarrow>
    tunnel_reachable (spawned r running y)"

text \<open>
  Every process that has not exited is the run's own or has been told to stop; a run that is not
  starting or running has told its process to stop; one that is has a process whose exit is to come.
\<close>

definition tunnel_inv :: "tunnel_sys \<Rightarrow> bool" where
  "tunnel_inv y \<longleftrightarrow>
     (\<forall>p\<in>tyAlive y. trCmd (tyRun y) = Some p \<or> p \<in> tyTerm y) \<and>
     (\<forall>p. trCmd (tyRun y) = Some p \<longrightarrow> trState (tyRun y) \<in> {tsStarting, tsRunning} \<or> p \<in> tyTerm y) \<and>
     (trState (tyRun y) \<in> {tsStarting, tsRunning} \<longrightarrow>
        (\<exists>p. trCmd (tyRun y) = Some p \<and> (p, trGen (tyRun y)) \<in> tyWait y)) \<and>
     (\<forall>(p, g)\<in>tyWait y. g \<le> trGen (tyRun y) \<and> p < tyNext y) \<and>
     (\<forall>p\<in>tyAlive y. p < tyNext y) \<and>
     inj_on snd (tyWait y) \<and>
     length (trOut (tyRun y)) \<le> tunnelOutputLines"

lemma logLocked_sel [simp]:
  "trState (logLocked l r) = trState r" "trErr (logLocked l r) = trErr r" "trCmd (logLocked l r) = trCmd r"
  "trGen (logLocked l r) = trGen r" "trKeep (logLocked l r) = trKeep r" "trReadyAt (logLocked l r) = trReadyAt r"
  "trRestarts (logLocked l r) = trRestarts r"
  by (simp_all add: logLocked_def)

lemma logLocked_bounded [simp]:
  "length (trOut (logLocked l r)) \<le> tunnelOutputLines"
  by (simp add: logLocked_def tunnelOutputLines_def)

lemma states_distinct [simp]:
  "tsStopped \<noteq> tsStarting" "tsStopped \<noteq> tsRunning" "tsExternal \<noteq> tsStarting" "tsExternal \<noteq> tsRunning"
  "tsExited \<noteq> tsStarting" "tsExited \<noteq> tsRunning" "tsFailed \<noteq> tsStarting" "tsFailed \<noteq> tsRunning"
  "tsStopped \<noteq> tsExited" "tsStopped \<noteq> tsFailed" "tsStopped \<noteq> tsExternal" "tsExited \<noteq> tsStopped"
  by (simp_all add: tunnel_states)

text \<open>Starting a process from a state in which none is wanted.\<close>

lemma spawned_inv:
  assumes inv: "tunnel_inv y" and down: "trState r0 \<notin> {tsStarting, tsRunning}"
    and same: "trCmd r0 = trCmd (tyRun y)" "trGen r0 = trGen (tyRun y)" "trState r0 = trState (tyRun y)"
      "length (trOut r0) \<le> tunnelOutputLines"
    and sp: "spawnLocked now ans (tyNext y) d r0 = (r, err, running)"
  shows "tunnel_inv (spawned r running y)"
proof (cases ans)
  case (Started pid)
  have old: "\<forall>p\<in>tyAlive y. p \<in> tyTerm y" and bounds: "\<forall>(p, g)\<in>tyWait y. g \<le> trGen (tyRun y) \<and> p < tyNext y"
    "\<forall>p\<in>tyAlive y. p < tyNext y" "inj_on snd (tyWait y)"
    using inv down same by (auto simp: tunnel_inv_def)
  have r: "trState r = tsStarting" "trCmd r = Some (tyNext y)" "trGen r = Suc (trGen (tyRun y))" "running"
    "length (trOut r) \<le> tunnelOutputLines"
    using sp Started same by (auto simp: spawnLocked_def Let_def)
  have "inj_on snd (insert (tyNext y, trGen r) (tyWait y))"
    using bounds r by (auto simp: inj_on_insert)
  then show ?thesis
    using old bounds r by (auto simp: tunnel_inv_def spawned_def)
qed (use assms in \<open>auto simp: tunnel_inv_def spawned_def spawnLocked_def Let_def\<close>)

lemma startRun_inv:
  assumes "tunnel_inv y" and "startRun ep portOpen now ans (tyNext y) keep d (tyRun y) = (r, err, running)"
  shows "tunnel_inv (spawned r running y)"
proof -
  let ?r0 = "if keep then (tyRun y)\<lparr>trKeep := True\<rparr> else tyRun y"
  have len: "length (trOut (tyRun y)) \<le> tunnelOutputLines" using assms(1) by (simp add: tunnel_inv_def)
  consider (up) "trState (tyRun y) \<in> {tsStarting, tsRunning, tsExternal}"
    | (ext) "trState (tyRun y) \<notin> {tsStarting, tsRunning, tsExternal}" "ep \<noteq> '''' \<and> portOpen ep"
    | (spawn) "trState (tyRun y) \<notin> {tsStarting, tsRunning, tsExternal}" "\<not> (ep \<noteq> '''' \<and> portOpen ep)"
    by blast
  then show ?thesis
  proof cases
    case spawn
    then have "spawnLocked now ans (tyNext y) d (?r0\<lparr>trRestarts := 0\<rparr>) = (r, err, running)"
      using assms(2) by (auto simp: startRun_def Let_def split: if_splits)
    from spawned_inv [OF assms(1) _ _ _ _ _ this] show ?thesis using spawn len by auto
  qed (use assms in \<open>auto simp: tunnel_inv_def spawned_def startRun_def Let_def split: if_splits\<close>)
qed

lemma restartRun_inv:
  assumes "tunnel_inv y" and "restartRun now ans (tyNext y) found inUse g (tyRun y) = (r, running)"
  shows "tunnel_inv (spawned r running (y\<lparr>tyTimers := tm\<rparr>))"
proof (cases "found = None \<or> trGen (tyRun y) \<noteq> g \<or> trState (tyRun y) \<noteq> tsExited \<or> \<not> trKeep (tyRun y) \<or> \<not> inUse")
  case True
  then have "r = tyRun y" "\<not> running" using assms(2) by (auto simp: restartRun_def split: option.splits)
  then show ?thesis using assms(1) by (simp add: tunnel_inv_def spawned_def)
next
  case False
  then obtain d err where
    "spawnLocked now ans (tyNext y) d ((tyRun y)\<lparr>trRestarts := Suc (trRestarts (tyRun y))\<rparr>) = (r, err, running)"
    using assms(2) by (auto simp: restartRun_def split: option.splits prod.splits)
  moreover have "tunnel_inv (y\<lparr>tyTimers := tm\<rparr>)" "length (trOut (tyRun y)) \<le> tunnelOutputLines"
    using assms(1) by (simp_all add: tunnel_inv_def)
  ultimately show ?thesis
    using False spawned_inv [of "y\<lparr>tyTimers := tm\<rparr>" "(tyRun y)\<lparr>trRestarts := Suc (trRestarts (tyRun y))\<rparr>"
        now ans d r err running] by auto
qed

lemma exitedRun_sel:
  assumes "exitedRun now g w r = (r', decide)"
  shows "trGen r' = trGen r" and "trKeep r' = trKeep r"
    and "trGen r \<noteq> g \<Longrightarrow> r' = r \<and> decide = None"
    and "trGen r = g \<Longrightarrow> trCmd r' = None \<and> trState r' \<notin> {tsStarting, tsRunning}"
    and "length (trOut r) \<le> tunnelOutputLines \<Longrightarrow> length (trOut r') \<le> tunnelOutputLines"
    and "decide \<noteq> None \<Longrightarrow> trKeep r'"
  using assms by (auto simp: exitedRun_def Let_def split: if_splits prod.splits)

lemma exited_inv:
  assumes inv: "tunnel_inv y" and w: "(p, g) \<in> tyWait y" "p \<notin> tyAlive y"
    and ex: "exitedRun now g w' (tyRun y) = (r, decide)"
  shows "tunnel_inv (y\<lparr>tyRun := r, tyWait := tyWait y - {(p, g)}, tyDecide := dec\<rparr>)"
proof (cases "trGen (tyRun y) = g")
  case False
  then have "r = tyRun y" using exitedRun_sel(3) [OF ex] by simp
  then show ?thesis using inv False by (auto simp: tunnel_inv_def inj_on_def)
next
  case True
  have gone: "q \<in> tyTerm y" if "q \<in> tyAlive y" for q
  proof (rule ccontr)
    assume *: "q \<notin> tyTerm y"
    then have c: "trCmd (tyRun y) = Some q" "trState (tyRun y) \<in> {tsStarting, tsRunning}"
      using inv that by (auto simp: tunnel_inv_def)
    then have "(q, g) \<in> tyWait y" using inv True by (auto simp: tunnel_inv_def)
    moreover have "inj_on snd (tyWait y)" using inv by (simp add: tunnel_inv_def)
    ultimately have "q = p" using w(1) inj_onD [of snd "tyWait y" "(q, g)" "(p, g)"] by simp
    then show False using that w by simp
  qed
  show ?thesis
    using exitedRun_sel [OF ex] True inv gone unfolding tunnel_inv_def by (auto simp: inj_on_def)
qed

lemma tunnel_background_inv: "tunnel_background y y' \<Longrightarrow> tunnel_inv y \<Longrightarrow> tunnel_inv y'"
proof (induction rule: tunnel_background.induct)
  case (stop y)
  then show ?case
    by (auto simp: tunnel_inv_def told_def stopRun_def Let_def split: option.splits)
next
  case (quit y)
  then show ?case by (auto simp: tunnel_inv_def told_def quitRun_def split: option.splits)
next
  case (exited p g y now w r decide)
  then show ?case by (intro exited_inv)
next
  case (timer g y now ans found inUse r running)
  then show ?case by (intro restartRun_inv)
next
  case (ready g y now ep took)
  then show ?case by (auto simp: tunnel_inv_def becomeReady_def watch_active_def Let_def)
next
  case (timeout g y ep)
  then show ?case by (auto simp: tunnel_inv_def told_def readyTimeout_def watch_active_def Let_def)
qed (auto simp: tunnel_inv_def)

lemma tunnel_reachable_inv: "tunnel_reachable y \<Longrightarrow> tunnel_inv y"
proof (induction rule: tunnel_reachable.induct)
  case init
  then show ?case by (simp add: tunnel_inv_def no_tunnel_def new_run_def)
next
  case (start y ep portOpen now ans keep d r err running)
  then show ?case by (intro startRun_inv)
qed (rule tunnel_background_inv)

text \<open>A tunnel that is not to be kept is never started in the background.\<close>

lemma background_keeps_stopped:
  assumes "tunnel_background y y'" and "\<not> trKeep (tyRun y)"
  shows "\<not> trKeep (tyRun y')" and "trGen (tyRun y') = trGen (tyRun y)" and "tyAlive y' \<subseteq> tyAlive y"
  using assms
  by (induction rule: tunnel_background.induct)
    (auto simp: told_def stopRun_def quitRun_def spawned_def restartRun_def becomeReady_def readyTimeout_def
      watch_active_def Let_def dest: exitedRun_sel split: option.splits if_splits)

section \<open>The saved tunnels do not clash\<close>

text \<open>Another name, no context in common, another local endpoint.\<close>

definition compatible :: "url_parser \<Rightarrow> TunnelDef \<Rightarrow> TunnelDef \<Rightarrow> bool" where
  "compatible parse t d \<longleftrightarrow> tdName t \<noteq> tdName d \<and> set (tdContexts t) \<inter> set (tdContexts d) = {} \<and>
     (endpoint parse d = '''' \<or> endpoint parse d \<noteq> endpoint parse t)"

definition tunnels_ok :: "url_parser \<Rightarrow> TunnelDef list \<Rightarrow> bool" where
  "tunnels_ok parse defs \<longleftrightarrow> sorted_wrt (compatible parse) defs \<and> list_all (\<lambda>d. validate parse d = None) defs"

lemma save_loop_result:
  "save_loop parse d previous changed kept ts = Inr (changed', kept') \<Longrightarrow>
   kept' = kept @ filter (\<lambda>t. tdName t \<noteq> previous) ts \<and>
   changed' = changed @ concat (map tdContexts (filter (\<lambda>t. tdName t = previous) ts)) \<and>
   (\<forall>t\<in>set ts. tdName t \<noteq> previous \<longrightarrow> compatible parse t d)"
proof (induction parse d previous changed kept ts rule: save_loop.induct)
  case (2 parse d previous changed kept t ts)
  show ?case
  proof (cases "tdName t = previous")
    case True
    then show ?thesis using 2 by simp
  next
    case False
    have n: "tdName t \<noteq> tdName d" and f: "find (\<lambda>c. c \<in> set (tdContexts t)) (tdContexts d) = None"
      and e: "\<not> (endpoint parse d \<noteq> '''' \<and> endpoint parse d = endpoint parse t)"
      using "2.prems" False by (auto split: if_splits option.splits)
    have "save_loop parse d previous changed (kept @ [t]) ts = Inr (changed', kept')"
      using "2.prems" False n f e by simp
    from "2.IH"(2) [OF False n f e this] have IH: "kept' = (kept @ [t]) @ filter (\<lambda>t. tdName t \<noteq> previous) ts \<and>
      changed' = changed @ concat (map tdContexts (filter (\<lambda>t. tdName t = previous) ts)) \<and>
      (\<forall>t\<in>set ts. tdName t \<noteq> previous \<longrightarrow> compatible parse t d)" .
    moreover have "compatible parse t d"
      using n f e by (auto simp: compatible_def find_None_iff)
    ultimately show ?thesis using False by simp
  qed
qed simp

lemma sorted_wrt_snoc: "sorted_wrt P (xs @ [x]) \<longleftrightarrow> sorted_wrt P xs \<and> (\<forall>y\<in>set xs. P y x)"
  by (auto simp: sorted_wrt_append)

lemma saveTunnel_cases:
  obtains (rejected) e where "saveTunnel parse save d previous defs = (defs, Inl e)"
  | (stored) "validate parse d = None"
      "fst (saveTunnel parse save d previous defs) =
        filter (\<lambda>t. tdName t \<noteq> (if previous = '''' then tdName d else previous)) defs @ [d]"
      "\<forall>t\<in>set defs. tdName t \<noteq> (if previous = '''' then tdName d else previous) \<longrightarrow> compatible parse t d"
      "snd (saveTunnel parse save d previous defs) =
        (case save of Some e \<Rightarrow> Inl e
         | None \<Rightarrow> Inr (remdups_adj (sort (concat (map tdContexts (filter
             (\<lambda>t. tdName t = (if previous = '''' then tdName d else previous)) defs)) @ tdContexts d))))"
proof (cases "validate parse d")
  case (Some e)
  then show ?thesis using rejected [of e] by (simp add: saveTunnel_def)
next
  case None
  let ?prev = "if previous = '''' then tdName d else previous"
  show ?thesis
  proof (cases "save_loop parse d ?prev [] [] defs")
    case (Inl e)
    then show ?thesis using rejected [of e] None by (simp add: saveTunnel_def)
  next
    case (Inr r)
    obtain changed kept where r: "r = (changed, kept)" by (cases r)
    have l: "save_loop parse d ?prev [] [] defs = Inr (changed, kept)" using Inr r by simp
    show ?thesis
      using stored None l save_loop_result [OF l] by (simp add: saveTunnel_def)
  qed
qed

lemma filter_tunnels_ok: "tunnels_ok parse defs \<Longrightarrow> tunnels_ok parse (filter P defs)"
  by (auto simp: tunnels_ok_def sorted_wrt_filter list_all_iff)

lemma saveTunnel_ok:
  assumes "tunnels_ok parse defs"
  shows "tunnels_ok parse (fst (saveTunnel parse save d previous defs))"
proof (cases rule: saveTunnel_cases [of parse save d previous defs])
  case (rejected e)
  then show ?thesis using assms by simp
next
  case stored
  then show ?thesis
    using filter_tunnels_ok [OF assms] unfolding stored(2)
    by (simp add: tunnels_ok_def sorted_wrt_snoc)
qed

lemma deleteTunnel_ok:
  "tunnels_ok parse defs \<Longrightarrow> tunnels_ok parse (fst (deleteTunnel save name defs))"
  by (simp add: deleteTunnel_def Let_def filter_tunnels_ok)

lemma tunnelForContext_unique:
  assumes "tunnels_ok parse defs" and "d \<in> set defs" and "c \<in> set (tdContexts d)"
  shows "tunnelForContext c defs = Some d"
  using assms
proof (induction defs)
  case (Cons t defs)
  then show ?case
    by (cases "d = t") (auto simp: tunnelForContext_def tunnels_ok_def compatible_def)
qed simp

section \<open>Properties\<close>

text \<open>
  saving and deleting tunnels keeps them apart: names are distinct, no context has two tunnels, no
  two open the same local port, and every one is valid; a saved tunnel is the one each of its contexts
  gets, and the contexts reported as changed are those of the old and of the new definition.
\<close>

lemma tunnels_stay_apart:
  assumes "tunnels_ok parse defs"
  shows "tunnels_ok parse (fst (deleteTunnel save name defs)) \<and>
    (case saveTunnel parse save d previous defs of
       (defs', Inl e) \<Rightarrow> tunnels_ok parse defs'
     | (defs', Inr changed) \<Rightarrow> tunnels_ok parse defs' \<and>
         (\<forall>c\<in>set (tdContexts d). tunnelForContext c defs' = Some d) \<and>
         set changed = set (tdContexts d) \<union> (\<Union>t\<in>{t \<in> set defs. tdName t =
           (if previous = '''' then tdName d else previous)}. set (tdContexts t)))"
proof -
  note ok = saveTunnel_ok [OF assms, of save d previous]
  show ?thesis
  proof (cases rule: saveTunnel_cases [of parse save d previous defs])
    case (rejected e)
    then show ?thesis using ok deleteTunnel_ok [OF assms] by simp
  next
    case stored
    have "\<forall>c\<in>set (tdContexts d). tunnelForContext c (fst (saveTunnel parse save d previous defs)) = Some d"
      using tunnelForContext_unique [OF ok, of d] stored(2) by simp
    then show ?thesis
      using ok deleteTunnel_ok [OF assms] stored(4)
      by (cases "saveTunnel parse save d previous defs") (auto split: sum.splits option.splits)
  qed
qed

definition sample_tunnel :: TunnelDef where
  "sample_tunnel = \<lparr>tdName = ''bastion'', tdCommand = ''ssh -D 1080 host'', tdMode = ''none'',
     tdProxy = '''', tdAddress = '''', tdContexts = [''prod-eu'']\<rparr>"

lemma tunnels_stay_apart_witness:
  "let defs' = fst (saveTunnel (\<lambda>_. None) None sample_tunnel '''' []) in
   tunnels_ok (\<lambda>_. None) defs' \<and> tunnelForContext ''prod-eu'' defs' = Some sample_tunnel"
proof -
  have s: "saveTunnel (\<lambda>_. None) None sample_tunnel '''' [] = ([sample_tunnel], Inr [''prod-eu''])"
    by code_simp
  have "tunnels_ok (\<lambda>_. None) []" by (simp add: tunnels_ok_def)
  from tunnels_stay_apart [where save = None and d = sample_tunnel and previous = "''''", OF this] show ?thesis
    unfolding s by (simp add: s Let_def) (simp add: sample_tunnel_def)
qed

text \<open>
  C10: whatever starts, stops, timers, exits and polls interleave, a process started for a tunnel is
  either the tunnel's current one or has been told to stop; when the tunnel is not starting or running,
  all have been told; the output kept is at most two hundred lines.
\<close>

theorem no_stray_tunnel_process:
  assumes "tunnel_reachable y"
  shows "(\<forall>p\<in>tyAlive y. trCmd (tyRun y) = Some p \<or> p \<in> tyTerm y) \<and>
    (tunnelState ''t'' [(''t'', tyRun y)] \<notin> {tsStarting, tsRunning} \<longrightarrow> tyAlive y \<subseteq> tyTerm y) \<and>
    length (trOut (tyRun y)) \<le> 200"
  using tunnel_reachable_inv [OF assms]
  by (auto simp: tunnel_inv_def tunnelState_def runFor_def al_get_def tunnelOutputLines_def)

definition one_process :: tunnel_sys where
  "one_process = (let (r, err, running) = startRun '''' (\<lambda>_. False) 10 (Started 77) 0 True sample_tunnel new_run
                  in spawned r running no_tunnel)"

lemma one_process_reachable: "tunnel_reachable one_process"
proof -
  obtain r err running where s:
    "startRun '''' (\<lambda>_. False) 10 (Started 77) 0 True sample_tunnel new_run = (r, err, running)"
    by (metis prod.collapse)
  have "tunnel_reachable (spawned r running no_tunnel)"
    using tunnel_reachable.start [OF tunnel_reachable.init, of "''''" "\<lambda>_. False" 10 "Started 77" True
        sample_tunnel r err running] s by (simp add: no_tunnel_def)
  then show ?thesis by (simp add: one_process_def s)
qed

lemma one_process_sel:
  "tyAlive one_process = {0}" "trState (tyRun one_process) = tsStarting" "trKeep (tyRun one_process)"
  "trCmd (tyRun one_process) = Some 0" "tyTerm one_process = {}"
  by (simp_all add: one_process_def startRun_def spawnLocked_def new_run_def spawned_def no_tunnel_def
      states_distinct [symmetric] Let_def tunnel_states)

theorem no_stray_tunnel_process_witness:
  "let y = told (stopRun (tyRun one_process)) one_process in
   tyAlive y = {0} \<and> tyAlive y \<subseteq> tyTerm y"
proof -
  let ?y = "told (stopRun (tyRun one_process)) one_process"
  have r: "tunnel_reachable ?y"
    by (rule tunnel_reachable.background [OF one_process_reachable tunnel_background.stop])
  have "trState (tyRun ?y) = tsStopped" "tyAlive ?y = {0}"
    using one_process_sel by (simp_all add: told_def stopRun_def Let_def tunnel_states)
  then show ?thesis
    using no_stray_tunnel_process [OF r]
    by (simp add: tunnelState_def runFor_def al_get_def)
qed

text \<open>
  C11: a tunnel the user has stopped stays stopped: whatever happens in the background, pending restart
  timers included, no process is started for it until the user or a switch starts it again.
\<close>

theorem stopped_tunnel_stays_stopped:
  assumes "tunnel_background\<^sup>*\<^sup>* (told (stopRun (tyRun y)) y) y'"
  shows "tyAlive y' \<subseteq> tyAlive y \<and> trGen (tyRun y') = trGen (tyRun y) \<and> \<not> trKeep (tyRun y')"
  using assms
proof (induction rule: rtranclp_induct)
  case base
  then show ?case by (auto simp: told_def stopRun_def Let_def split: option.splits)
next
  case (step y1 y2)
  then show ?case using background_keeps_stopped [OF step.hyps(2)] by auto
qed

theorem stopped_tunnel_stays_stopped_witness:
  "\<exists>y'. tunnel_background (told (stopRun (tyRun one_process)) one_process) y' \<and>
     tyAlive y' \<subseteq> {0} \<and> \<not> trKeep (tyRun y')"
proof -
  let ?y = "told (stopRun (tyRun one_process)) one_process"
  have "tunnel_background ?y (?y\<lparr>tyAlive := tyAlive ?y - {0}\<rparr>)" by (rule tunnel_background.die)
  then show ?thesis
    using stopped_tunnel_stays_stopped [of one_process, OF r_into_rtranclp] one_process_sel(1) by metis
qed

text \<open>
  the lines read from a tunnel's command do not depend on how the system cuts its output into reads.
\<close>

lemma output_read_in_any_cut:
  "read_output chunks = read_output [concat chunks]"
  using read_chunks_at_once [of chunks] read_chunks_at_once [of "[concat chunks]"]
  by (simp add: read_output_def)


end
