(* ===== verification/Clusters.thy ===== *)
theory Clusters
  imports Feed Owners Brief Tunnels
begin

text \<open>
  The clusters KubeHealth knows (cluster.go): the registry with its active cluster, switching,
  reloading after a tunnel changed (tunnels.go), which cluster a page or an API call is about, and
  the environment of a context. The clients a new cluster gets come from client-go: making them is a
  parameter that answers a server or an error.
\<close>

section \<open>State\<close>

record clusterState =
  csName :: string
  csServer :: string
  csCache :: eventCache
  csOwners :: ownerState
  csBrief :: briefState
  csRunning :: bool
  csStoppedAt :: time

text \<open>
  The active cluster is the entry of its name, unless a reload that failed has taken that entry away:
  then the pointer \<open>active\<close> still holds the old cluster, \<open>clOrphan\<close>.
\<close>

record clusters =
  clActive :: "string option"
  clByName :: "(string, clusterState) gomap"
  clOrphan :: "clusterState option"

definition empty_cache :: eventCache where
  "empty_cache = \<lparr>ecNsCache = [],
     ecFeed = \<lparr>wfByNS = [], wfFetchedAt = 0, wfAttemptedAt = 0, wfTruncated = False,
                wfDisabled = False, wfLastErr = ''''\<rparr>,
     ecDashboard = None,
     ecWorker = \<lparr>wsTotal = 0, wsNamespaces = [], wsReady = False, wsLastErr = '''', wsLastErrKind = ''''\<rparr>\<rparr>"

definition newClusterState :: "string \<Rightarrow> string \<Rightarrow> clusterState" where
  "newClusterState name server = \<lparr>csName = name, csServer = server, csCache = empty_cache,
     csOwners = empty_owners, csBrief = empty_brief, csRunning = False, csStoppedAt = 0\<rparr>"

definition no_clusters :: clusters where
  "no_clusters = \<lparr>clActive = None, clByName = [], clOrphan = None\<rparr>"

section \<open>Looking up and switching\<close>

definition activeCluster :: "clusters \<Rightarrow> clusterState option" where
  "activeCluster cl =
     (case clActive cl of
        None \<Rightarrow> None
      | Some n \<Rightarrow> (case clOrphan cl of Some c \<Rightarrow> Some c | None \<Rightarrow> map_of (clByName cl) n))"

definition loadedCluster :: "string \<Rightarrow> clusters \<Rightarrow> clusterState option" where
  "loadedCluster name cl = map_of (clByName cl) name"

text \<open>\<open>ctx\<close> is the query parameter, empty when it is not there.\<close>

definition pageCluster :: "string \<Rightarrow> clusters \<Rightarrow> clusterState option" where
  "pageCluster ctx cl =
     (if ctx \<noteq> '''' then
        (case loadedCluster ctx cl of Some c \<Rightarrow> Some c | None \<Rightarrow> activeCluster cl)
      else activeCluster cl)"

datatype api_cluster = ApiCluster "clusterState option" | ApiConflict string

definition apiCluster :: "string \<Rightarrow> string \<Rightarrow> clusters \<Rightarrow> api_cluster" where
  "apiCluster header ctx cl =
     (let name = (if header = '''' then ctx else header) in
      if name = '''' then ApiCluster (activeCluster cl)
      else (case loadedCluster name cl of
              Some c \<Rightarrow> ApiCluster (Some c)
            | None \<Rightarrow> ApiConflict (''This page belongs to context '' @ name @
                '', which KubeHealth no longer has loaded. Reload the page.'')))"

definition start_cluster :: "clusterState \<Rightarrow> clusterState" where
  "start_cluster c = (if csRunning c then c else c\<lparr>csRunning := True\<rparr>)"

definition stop_cluster :: "time \<Rightarrow> clusterState \<Rightarrow> clusterState" where
  "stop_cluster now c = (if csRunning c then c\<lparr>csRunning := False, csStoppedAt := now\<rparr> else c)"

text \<open>\<open>byName[name]\<close> is a pointer: changing the cluster changes the entry.\<close>

definition on_cluster :: "string \<Rightarrow> (clusterState \<Rightarrow> clusterState) \<Rightarrow> clusters \<Rightarrow> clusters" where
  "on_cluster name f cl =
     cl\<lparr>clByName := map (\<lambda>(n, c). (n, if n = name then f c else c)) (clByName cl)\<rparr>"

definition switchCluster :: "(string \<Rightarrow> string + string) \<Rightarrow> time \<Rightarrow> string \<Rightarrow> clusters \<Rightarrow>
    clusters \<times> (string + string)" where
  "switchCluster connect now name cl =
     (if clActive cl = Some name then (cl, Inr name)
      else
        let loaded = (case loadedCluster name cl of
                        Some _ \<Rightarrow> Inr cl
                      | None \<Rightarrow>
                          (case connect name of
                             Inl e \<Rightarrow> Inl e
                           | Inr server \<Rightarrow>
                               Inr (cl\<lparr>clByName := al_set name (newClusterState name server) (clByName cl)\<rparr>)))
        in case loaded of
             Inl e \<Rightarrow> (cl, Inl e)
           | Inr cl1 \<Rightarrow>
               let cl2 = (case clActive cl1 of
                            None \<Rightarrow> cl1
                          | Some old \<Rightarrow>
                              if clOrphan cl1 \<noteq> None then cl1 else on_cluster old (stop_cluster now) cl1);
                   cl3 = on_cluster name start_cluster cl2
               in (cl3\<lparr>clActive := Some name, clOrphan := None\<rparr>, Inr name))"

text \<open>
  \<open>reloadClusters\<close> (tunnels.go), one context: its cluster is stopped and made anew; the watched one
  starts again.
\<close>

definition reload_step :: "(string \<Rightarrow> string + string) \<Rightarrow> time \<Rightarrow> clusters \<Rightarrow> string \<Rightarrow> clusters" where
  "reload_step connect now cl n =
     (case loadedCluster n cl of
        None \<Rightarrow> cl
      | Some c \<Rightarrow>
          let active = (clActive cl = Some n \<and> clOrphan cl = None) in
          (case connect n of
             Inl e \<Rightarrow> cl\<lparr>clByName := al_delete n (clByName cl),
                          clOrphan := (if active then Some (stop_cluster now c) else clOrphan cl)\<rparr>
           | Inr server \<Rightarrow>
               cl\<lparr>clByName := al_set n ((if active then start_cluster else id) (newClusterState n server))
                                (clByName cl)\<rparr>))"

definition reloadClusters :: "(string \<Rightarrow> string + string) \<Rightarrow> time \<Rightarrow> string list \<Rightarrow> clusters \<Rightarrow> clusters" where
  "reloadClusters connect now names cl = foldl (reload_step connect now) cl names"

text \<open>\<open>tunnelInUse\<close>: the watched cluster goes through the tunnel.\<close>

definition tunnelInUse :: "string \<Rightarrow> clusters \<Rightarrow> TunnelDef list \<Rightarrow> bool" where
  "tunnelInUse name cl defs =
     (case activeCluster cl of
        None \<Rightarrow> False
      | Some c \<Rightarrow> (case tunnelForContext (csName c) defs of Some d \<Rightarrow> tdName d = name | None \<Rightarrow> False))"

text \<open>
  Starting up: the kubeconfig's current context, or an error. Its tunnel is started first; an error of
  the tunnel is only logged.
\<close>

definition initClusters :: "(string \<Rightarrow> string + string) \<Rightarrow> tunnel_world \<Rightarrow> time \<Rightarrow> string + string \<Rightarrow>
    clusters \<times> tunnels \<Rightarrow> (clusters \<times> tunnels) \<times> (string + string)" where
  "initClusters connect w now current st =
     (case st of (cl, ts) \<Rightarrow>
        (case current of
           Inl e \<Rightarrow> ((cl, ts), Inl (''load kubeconfig: '' @ e))
         | Inr name \<Rightarrow>
             if name = '''' then ((cl, ts), Inl ''kubeconfig has no current-context'')
             else
               let ts' = fst (startContextTunnel w now name ts); (cl', r) = switchCluster connect now name cl
               in ((cl', ts'), r)))"

section \<open>Environments\<close>

definition validEnvs :: "string \<Rightarrow> bool" where
  "validEnvs env \<longleftrightarrow> env \<in> set [''prod'', ''nonprod'', ''stage'', ''dev'', ''local'']"

text \<open>\<open>strings.FieldsFunc\<close> at the bytes - _ . : / @; \<open>word\<close> is the field read so far.\<close>

fun env_tokens :: "string \<Rightarrow> string \<Rightarrow> string list" where
  "env_tokens word [] = (if word = [] then [] else [word])"
| "env_tokens word (c # s) =
     (if c \<in> set ''-_.:/@'' then (if word = [] then env_tokens [] s else word # env_tokens [] s)
      else env_tokens (word @ [c]) s)"

definition env_base :: "string \<Rightarrow> string" where
  "env_base t = rev (dropWhile is_digit (rev t))"

definition env_has :: "string list \<Rightarrow> string list \<Rightarrow> bool" where
  "env_has toks ws \<longleftrightarrow> list_ex (\<lambda>t. env_base t \<in> set ws) toks"

definition envOf :: "string \<Rightarrow> string" where
  "envOf name =
     (let lower = to_lower name; toks = env_tokens [] lower in
      if env_has toks [''nprd'', ''nonprod'', ''preprod''] \<or> str_contains lower ''non-prod'' \<or>
         str_contains lower ''pre-prod'' then ''nonprod''
      else if env_has toks [''prod'', ''prd'', ''production'', ''live''] then ''prod''
      else if (length toks > 0 \<and> toks ! 0 \<in> set [''kind'', ''minikube'', ''k3d'']) \<or>
              lower = ''docker-desktop'' then ''local''
      else if env_has toks [''stg'', ''stage'', ''staging'', ''uat'', ''qa''] then ''stage''
      else if env_has toks [''dev'', ''test'', ''sandbox''] then ''dev''
      else ''unknown'')"

text \<open>The preferences, of which the overrides of the environment.\<close>

type_synonym context_envs = "(string, string) gomap"

definition envFor :: "context_envs \<Rightarrow> string \<Rightarrow> string \<times> string" where
  "envFor prefs name =
     (let override = al_get '''' prefs name in
      if override \<noteq> '''' then (override, ''settings'') else (envOf name, ''name''))"

text \<open>\<open>save\<close> is what writing the preferences answers; an error leaves the new value in memory.\<close>

datatype env_error = UnknownEnvironment string | NotSaved string

definition setContextEnv :: "string option \<Rightarrow> string \<Rightarrow> string \<Rightarrow> context_envs \<Rightarrow>
    context_envs \<times> env_error option" where
  "setContextEnv save name env prefs =
     (if env \<noteq> '''' \<and> \<not> validEnvs env then (prefs, Some (UnknownEnvironment env))
      else if env = '''' then (al_delete name prefs, map_option NotSaved save)
      else (al_set name env prefs, map_option NotSaved save))"

section \<open>HTTP\<close>

record clusterInfo =
  ciContext :: string
  ciEnv :: string
  ciEnvSource :: string
  ciServer :: string
  ciActive :: bool
  ciError :: string
  ciErrorKind :: string
  ciTunnel :: "tunnelBrief option"

definition identity :: "context_envs \<Rightarrow> tunnels \<Rightarrow> clusterState \<Rightarrow> clusterInfo" where
  "identity prefs ts c =
     (let (env, src) = envFor prefs (csName c) in
      \<lparr>ciContext = csName c, ciEnv = env, ciEnvSource = src, ciServer = csServer c,
       ciActive = csRunning c, ciError = wsLastErr (ecWorker (csCache c)),
       ciErrorKind = wsLastErrKind (ecWorker (csCache c)), ciTunnel = contextTunnelBrief (csName c) ts\<rparr>)"

record contextEntry =
  ceName' :: string
  ceEnv :: string
  ceEnvSource :: string
  ceServer :: string
  ceActive :: bool
  ceLoaded :: bool
  ceIdleSec :: int
  ceDetected :: string
  ceTunnel :: "tunnelBrief option"

text \<open>A context of the kubeconfig: its name and, when its cluster is there, the server.\<close>

definition context_entry :: "context_envs \<Rightarrow> tunnels \<Rightarrow> time \<Rightarrow> clusters \<Rightarrow> string \<times> string option \<Rightarrow>
    contextEntry" where
  "context_entry prefs ts now cl ctx =
     (case ctx of (name, server) \<Rightarrow>
        let (env, src) = envFor prefs name;
            loaded = loadedCluster name cl
        in \<lparr>ceName' = name, ceEnv = env, ceEnvSource = src,
            ceServer = (case server of Some s \<Rightarrow> s | None \<Rightarrow> ''''),
            ceActive = (case loaded of Some c \<Rightarrow> csRunning c | None \<Rightarrow> False),
            ceLoaded = (loaded \<noteq> None),
            ceIdleSec = (case loaded of
                           Some c \<Rightarrow> if \<not> csRunning c then secs (time_sub now (csStoppedAt c)) else 0
                         | None \<Rightarrow> 0),
            ceDetected = envOf name, ceTunnel = contextTunnelBrief name ts\<rparr>)"

definition entry_name_less :: "contextEntry \<Rightarrow> contextEntry \<Rightarrow> bool" where
  "entry_name_less a b \<longleftrightarrow> ceName' a < ceName' b"

interpretation entry_name_order: keyed_order entry_name_less ceName'
  by unfold_locales (simp add: entry_name_less_def)

text \<open>
  The list and the name of the active cluster; \<open>None\<close> would be a nil pointer, before the first cluster
  is active.
\<close>

definition handleAPIContexts :: "context_envs \<Rightarrow> tunnels \<Rightarrow> time \<Rightarrow> clusters \<Rightarrow>
    (string + (string \<times> string option) list) \<Rightarrow> (string + contextEntry list \<times> string) option" where
  "handleAPIContexts prefs ts now cl kubeconfig =
     (case kubeconfig of
        Inl e \<Rightarrow> Some (Inl (''load kubeconfig: '' @ e))
      | Inr contexts \<Rightarrow>
          map_option (\<lambda>c. Inr (go_sort entry_name_less (map (context_entry prefs ts now cl) contexts), csName c))
            (activeCluster cl))"

datatype context_reply =
  ContextStatus nat
| ContextTunnel nat string
| ContextSwitched clusterInfo

text \<open>
  \<open>body\<close> is the decoded request, \<open>None\<close> when it is not JSON: the name and whether to skip the
  tunnel. \<open>origin\<close> and \<open>host\<close> are headers of the request.
\<close>

definition handleAPIContext :: "(string \<Rightarrow> string + string) \<Rightarrow> tunnel_world \<Rightarrow> context_envs \<Rightarrow> time \<Rightarrow> bool \<Rightarrow>
    (string \<times> bool) option \<Rightarrow> (string + string list) \<Rightarrow> string \<Rightarrow> string \<Rightarrow>
    clusters \<times> tunnels \<Rightarrow> (clusters \<times> tunnels) \<times> context_reply" where
  "handleAPIContext connect w prefs now isPost body kubeconfig origin host st =
     (case st of (cl, ts) \<Rightarrow>
        if \<not> isPost then (st, ContextStatus 405)
        else case body of
          None \<Rightarrow> (st, ContextStatus 400)
        | Some (name, skipTunnel) \<Rightarrow>
            if name = '''' then (st, ContextStatus 400)
            else case kubeconfig of
              Inl _ \<Rightarrow> (st, ContextStatus 500)
            | Inr names \<Rightarrow>
                if name \<notin> set names then (st, ContextStatus 404)
                else if \<not> skipTunnel \<and> origin \<noteq> '''' \<and> origin \<noteq> ''http://'' @ host
                then (st, ContextStatus 403)
                else
                  (case if skipTunnel then (ts, '''', Inl True) else startContextTunnel w now name ts of
                     (ts', t, Inr err) \<Rightarrow> ((cl, ts'), ContextTunnel 502 t)
                   | (ts', t, Inl False) \<Rightarrow> ((cl, ts'), ContextTunnel 202 t)
                   | (ts', t, Inl True) \<Rightarrow>
                       (case switchCluster connect now name cl of
                          (cl', Inl _) \<Rightarrow> ((cl', ts'), ContextStatus 502)
                        | (cl', Inr n) \<Rightarrow>
                            ((cl', ts'), (case activeCluster cl' of
                                     Some c \<Rightarrow> ContextSwitched (identity prefs ts' c)
                                   | None \<Rightarrow> ContextStatus 500)))))"

datatype env_reply = EnvStatus nat | EnvSet string string string

definition handleAPIContextEnv :: "string option \<Rightarrow> bool \<Rightarrow> (string \<times> string) option \<Rightarrow> context_envs \<Rightarrow>
    context_envs \<times> env_reply" where
  "handleAPIContextEnv save isPost body prefs =
     (if \<not> isPost then (prefs, EnvStatus 405)
      else case body of
        None \<Rightarrow> (prefs, EnvStatus 400)
      | Some (name, env) \<Rightarrow>
          if name = '''' then (prefs, EnvStatus 400)
          else (case setContextEnv save name env prefs of
                  (prefs', Some _) \<Rightarrow> (prefs', EnvStatus 400)
                | (prefs', None) \<Rightarrow>
                    (case envFor prefs' name of (e, src) \<Rightarrow> (prefs', EnvSet name e src))))"

section \<open>The registry stays consistent\<close>

text \<open>
  Every cluster is filed under its name; the only one whose worker may run is the active one, and it
  does, unless its reload failed: then it is no longer filed and no worker runs.
\<close>

definition clusters_ok :: "clusters \<Rightarrow> bool" where
  "clusters_ok cl \<longleftrightarrow>
     distinct (map fst (clByName cl)) \<and>
     (\<forall>n c. map_of (clByName cl) n = Some c \<longrightarrow>
        csName c = n \<and> (csRunning c \<longleftrightarrow> clActive cl = Some n \<and> clOrphan cl = None)) \<and>
     (case clOrphan cl of
        None \<Rightarrow> (\<forall>n. clActive cl = Some n \<longrightarrow> map_of (clByName cl) n \<noteq> None)
      | Some c \<Rightarrow> clActive cl = Some (csName c) \<and> \<not> csRunning c \<and> map_of (clByName cl) (csName c) = None)"

lemma on_cluster_keys [simp]: "map fst (clByName (on_cluster n f cl)) = map fst (clByName cl)"
  by (simp add: on_cluster_def case_prod_beta comp_def)

lemma on_cluster_active [simp]: "clActive (on_cluster n f cl) = clActive cl"
  by (simp add: on_cluster_def)

lemma on_cluster_lookup:
  "map_of (clByName (on_cluster n f cl)) m =
     (if m = n then map_option f (map_of (clByName cl) m) else map_of (clByName cl) m)"
proof -
  have "map_of (map (\<lambda>(k, c). (k, if k = n then f c else c)) xs) m =
      (if m = n then map_option f (map_of xs m) else map_of xs m)" for xs
    by (induction xs) auto
  then show ?thesis by (simp add: on_cluster_def)
qed

lemma start_cluster_sel [simp]:
  "csName (start_cluster c) = csName c" "csRunning (start_cluster c)"
  "csCache (start_cluster c) = csCache c" "csOwners (start_cluster c) = csOwners c"
  "csBrief (start_cluster c) = csBrief c"
  by (simp_all add: start_cluster_def)

lemma stop_cluster_sel [simp]:
  "csName (stop_cluster now c) = csName c" "\<not> csRunning (stop_cluster now c)"
  "csCache (stop_cluster now c) = csCache c" "csOwners (stop_cluster now c) = csOwners c"
  "csBrief (stop_cluster now c) = csBrief c"
  by (simp_all add: stop_cluster_def)

lemma on_cluster_orphan [simp]: "clOrphan (on_cluster n f cl) = clOrphan cl"
  by (simp add: on_cluster_def)

text \<open>What a switch does to every entry.\<close>

lemma switchCluster_lookup:
  assumes "switchCluster connect now name cl = (cl', Inr n)" and "clActive cl \<noteq> Some name"
  shows "n = name" and "clActive cl' = Some name" and "clOrphan cl' = None"
    and "map_of (clByName cl') m =
      (if m = name then
         Some (start_cluster (case map_of (clByName cl) name of
                 Some c \<Rightarrow> c | None \<Rightarrow> newClusterState name (case connect name of Inr s \<Rightarrow> s | Inl _ \<Rightarrow> '''')))
       else if clActive cl = Some m \<and> clOrphan cl = None
       then map_option (stop_cluster now) (map_of (clByName cl) m)
       else map_of (clByName cl) m)"
    and "distinct (map fst (clByName cl)) \<Longrightarrow> distinct (map fst (clByName cl'))"
  using assms
  by (auto simp: switchCluster_def loadedCluster_def Let_def on_cluster_lookup
      split: option.splits sum.splits if_splits)

lemma switchCluster_unchanged:
  "switchCluster connect now name cl = (cl', r) \<Longrightarrow> clActive cl = Some name \<or> (\<exists>e. r = Inl e) \<Longrightarrow> cl' = cl"
  by (auto simp: switchCluster_def Let_def split: option.splits sum.splits if_splits)

lemma switchCluster_ok:
  assumes "clusters_ok cl" and "switchCluster connect now name cl = (cl', r)"
  shows "clusters_ok cl'"
proof (cases "clActive cl = Some name \<or> (\<exists>e. r = Inl e)")
  case True
  then show ?thesis using switchCluster_unchanged [OF assms(2)] assms(1) by simp
next
  case False
  then obtain n where r: "switchCluster connect now name cl = (cl', Inr n)" and na: "clActive cl \<noteq> Some name"
    using assms(2) by (cases r) auto
  note l = switchCluster_lookup [OF r na]
  show ?thesis
    using assms(1) na unfolding clusters_ok_def l(2,3,4)
    by (auto simp: l(5) newClusterState_def split: option.splits if_splits)
qed

lemma clusters_ok_reload:
  assumes ok: "clusters_ok cl" and c: "map_of (clByName cl) n = Some c"
  defines "active \<equiv> clActive cl = Some n \<and> clOrphan cl = None"
  shows "clusters_ok (cl\<lparr>clByName := al_delete n (clByName cl),
      clOrphan := (if active then Some (stop_cluster now c) else clOrphan cl)\<rparr>)"
    and "clusters_ok (cl\<lparr>clByName := al_set n ((if active then start_cluster else id) (newClusterState n server))
      (clByName cl)\<rparr>)"
proof -
  have d: "distinct (map fst (clByName cl))"
    and e: "\<And>m x. map_of (clByName cl) m = Some x \<Longrightarrow>
      csName x = m \<and> (csRunning x \<longleftrightarrow> clActive cl = Some m \<and> clOrphan cl = None)"
    and h: "case clOrphan cl of
      None \<Rightarrow> (\<forall>n. clActive cl = Some n \<longrightarrow> map_of (clByName cl) n \<noteq> None)
    | Some c \<Rightarrow> clActive cl = Some (csName c) \<and> \<not> csRunning c \<and> map_of (clByName cl) (csName c) = None"
    using ok unfolding clusters_ok_def by blast+
  have c_name: "csName c = n" using e [OF c] by simp
  have new: "csName ((if active then start_cluster else id) (newClusterState n server)) = n"
    "csRunning ((if active then start_cluster else id) (newClusterState n server)) \<longleftrightarrow> active"
    by (simp_all add: newClusterState_def)
  show "clusters_ok (cl\<lparr>clByName := al_delete n (clByName cl),
      clOrphan := (if active then Some (stop_cluster now c) else clOrphan cl)\<rparr>)"
    unfolding clusters_ok_def clusters.simps map_of_al_delete
    using d e h c_name by (auto simp: active_def simp del: map_of_eq_Some_iff split: option.splits)
  show "clusters_ok (cl\<lparr>clByName := al_set n ((if active then start_cluster else id) (newClusterState n server))
      (clByName cl)\<rparr>)"
    unfolding clusters_ok_def clusters.simps map_of_al_set
    using d e h c new by (auto simp: active_def simp del: map_of_eq_Some_iff split: option.splits)
qed

lemma reload_step_ok:
  assumes "clusters_ok cl"
  shows "clusters_ok (reload_step connect now cl n)"
proof (cases "map_of (clByName cl) n")
  case None
  then show ?thesis using assms by (simp add: reload_step_def loadedCluster_def)
next
  case (Some c)
  then show ?thesis
    using clusters_ok_reload [OF assms Some]
    by (cases "connect n") (simp_all only: reload_step_def loadedCluster_def Let_def option.case sum.case)
qed

lemma reloadClusters_ok: "clusters_ok cl \<Longrightarrow> clusters_ok (reloadClusters connect now names cl)"
  unfolding reloadClusters_def by (induction names arbitrary: cl) (simp_all add: reload_step_ok)

lemma switchCluster_keeps:
  assumes "switchCluster connect now name cl = (cl', r)" and "loadedCluster m cl = Some c"
  shows "\<exists>c'. loadedCluster m cl' = Some c' \<and> csCache c' = csCache c \<and> csOwners c' = csOwners c \<and>
    csBrief c' = csBrief c"
proof (cases "clActive cl = Some name \<or> (\<exists>e. r = Inl e)")
  case True
  then show ?thesis using switchCluster_unchanged [OF assms(1)] assms(2) by simp
next
  case False
  then obtain n where r: "switchCluster connect now name cl = (cl', Inr n)" and na: "clActive cl \<noteq> Some name"
    using assms(1) by (cases r) auto
  show ?thesis
    using assms(2) switchCluster_lookup(4) [OF r na, of m] by (auto simp: loadedCluster_def)
qed

text \<open>Any switches and reloads, the clients being made or not as \<open>connect\<close> says at each of them.\<close>

inductive clusters_reachable :: "clusters \<Rightarrow> bool" where
  start: "clusters_reachable no_clusters"
| switch: "clusters_reachable cl \<Longrightarrow> switchCluster connect now name cl = (cl', r) \<Longrightarrow> clusters_reachable cl'"
| reload: "clusters_reachable cl \<Longrightarrow> clusters_reachable (reloadClusters connect now names cl)"

lemma clusters_reachable_ok: "clusters_reachable cl \<Longrightarrow> clusters_ok cl"
proof (induction rule: clusters_reachable.induct)
  case start
  then show ?case by (simp add: clusters_ok_def no_clusters_def)
qed (auto intro: switchCluster_ok reloadClusters_ok)

lemma switchCluster_error: "switchCluster connect now name cl = (cl', Inl e) \<Longrightarrow> cl' = cl"
  by (auto simp: switchCluster_def Let_def split: option.splits sum.splits if_splits)

section \<open>Properties\<close>


lemma one_cluster_reachable:
  "clusters_reachable (fst (switchCluster Inr 10 ''a'' no_clusters))"
  by (rule clusters_reachable.switch [OF clusters_reachable.start prod.collapse [symmetric]])


text \<open>
  C14: a switch keeps every loaded cluster with its warnings, its resolved owners and its note, and a
  switch that fails changes nothing at all.
\<close>

theorem switch_keeps_loaded:
  assumes "switchCluster connect now name cl = (cl', r)"
  shows "(\<forall>m c. loadedCluster m cl = Some c \<longrightarrow>
      (\<exists>c'. loadedCluster m cl' = Some c' \<and> csCache c' = csCache c \<and> csOwners c' = csOwners c \<and>
        csBrief c' = csBrief c)) \<and>
    (case r of Inl _ \<Rightarrow> cl' = cl | Inr n \<Rightarrow> n = name \<and> clActive cl' = Some name)"
proof (intro conjI)
  show "case r of Inl _ \<Rightarrow> cl' = cl | Inr n \<Rightarrow> n = name \<and> clActive cl' = Some name"
  proof (cases "clActive cl = Some name")
    case True
    then show ?thesis using assms by (auto simp: switchCluster_def)
  next
    case False
    then show ?thesis
      using assms switchCluster_error switchCluster_lookup(1,2) by (auto split: sum.splits)
  qed
qed (use switchCluster_keeps [OF assms] in blast)

theorem switch_keeps_loaded_witness:
  "snd (switchCluster (\<lambda>_. Inl ''no route'') 10 ''a'' no_clusters) = Inl ''no route'' \<and>
   fst (switchCluster (\<lambda>_. Inl ''no route'') 10 ''a'' no_clusters) = no_clusters"
proof -
  have "switchCluster (\<lambda>_. Inl ''no route'') 10 ''a'' no_clusters = (no_clusters, Inl ''no route'')"
    by (simp add: switchCluster_def no_clusters_def loadedCluster_def)
  from switch_keeps_loaded [OF this] this show ?thesis by simp
qed

text \<open>
  C15: an API call that names its context, by header or else by query, is answered from that cluster
  or refused, never from another one, whichever is active.
\<close>

theorem api_call_never_crosses:
  assumes "clusters_reachable cl" and "header \<noteq> '''' \<or> ctx \<noteq> ''''"
  shows "case apiCluster header ctx cl of
    ApiConflict _ \<Rightarrow> loadedCluster (if header = '''' then ctx else header) cl = None
  | ApiCluster r \<Rightarrow> (\<exists>c. r = Some c \<and> csName c = (if header = '''' then ctx else header))"
  using clusters_reachable_ok [OF assms(1)] assms(2)
  by (auto simp: apiCluster_def loadedCluster_def clusters_ok_def Let_def split: option.splits)

theorem api_call_never_crosses_witness:
  "\<exists>cl c. clusters_reachable cl \<and> apiCluster '''' ''a'' cl = ApiCluster (Some c) \<and> csName c = ''a''"
proof -
  let ?cl = "fst (switchCluster Inr 10 ''a'' no_clusters)"
  have "loadedCluster ''a'' ?cl \<noteq> None" by code_simp
  then show ?thesis
    using api_call_never_crosses [OF one_cluster_reachable, of "''''" "''a''"] one_cluster_reachable
    by (auto split: api_cluster.splits)
qed

text \<open>Parts of a name joined by an underscore are not seen as one word: non-production reads as production.\<close>

lemma non_prod_reads_as_prod: "envOf ''eks_non_prod'' = ''prod'' \<and> envOf ''eks-non-prod'' = ''nonprod''"
  by code_simp

text \<open>An override that could not be written stays in force.\<close>

lemma unsaved_override_applies:
  "handleAPIContextEnv (Some ''disk full'') True (Some (''a'', ''dev'')) [] = ([(''a'', ''dev'')], EnvStatus 400)"
  by code_simp

text \<open>
  When reloading the watched cluster fails it is stopped and no longer filed, and switching to it
  changes nothing: it stays unwatched until another cluster has been picked.
\<close>

lemma failed_reload_sticks:
  assumes "clActive cl = Some n" and "clOrphan cl = None" and "loadedCluster n cl = Some c"
  shows "let cl' = reloadClusters (\<lambda>_. Inl ''no such proxy'') 20 [n] cl in
    switchCluster connect now n cl' = (cl', Inr n) \<and> map_option csRunning (activeCluster cl') = Some False \<and>
    loadedCluster n cl' = None"
  using assms
  by (simp add: reloadClusters_def reload_step_def switchCluster_def activeCluster_def loadedCluster_def Let_def)

end
