(* ===== verification/Home.thy ===== *)
theory Home
  imports Build Clusters
begin

text \<open>
  The home page and the page header (problems.go): the status of a cluster, the rail of namespaces
  and cluster-scoped kinds, and the summary, built over the rows of \<open>buildProblems\<close>.
\<close>

section \<open>Status\<close>

record sweepStatus =
  swLoaded :: nat
  swTotal :: nat
  swReady :: bool
  swOldestAgeSec :: int

record nsStatus =
  nsName :: string
  nsUpdatedSec :: int
  nsTruncated :: bool

record StatusPayload =
  sySCluster :: clusterInfo
  syActiveContext :: string
  syWarnings :: warnFeedStatus
  sySweep :: sweepStatus
  syLLMActive :: int
  syNamespace :: "nsStatus option"
  syNamespaces :: "string list"
  syTruncated :: "(string, bool) gomap"

text \<open>What a page depends on besides the cluster: the zone, whether all namespaces are watched,
  whether AI is on, the model's name, the overrides, the active context, the calls in progress.\<close>

record page_env =
  envFormat :: time_format
  envAllNS :: bool
  envAI :: bool
  envModel :: string
  envPrefs :: context_envs
  envTunnels :: tunnels
  envActive :: string

definition sweep_step :: "time \<Rightarrow> sweepStatus \<Rightarrow> string \<times> nsEntry \<Rightarrow> sweepStatus" where
  "sweep_step now s kv =
     (let age = secs (time_sub now (neUpdatedAt (snd kv))) in
      s\<lparr>swLoaded := Suc (swLoaded s),
        swOldestAgeSec := (if age > swOldestAgeSec s then age else swOldestAgeSec s)\<rparr>)"

definition cluster_status :: "page_env \<Rightarrow> time \<Rightarrow> int \<Rightarrow> clusterState \<Rightarrow> StatusPayload" where
  "cluster_status env now llmActive c =
     (let k = csCache c; w = ecWorker k in
      \<lparr>sySCluster = identity (envPrefs env) (envTunnels env) c,
       syActiveContext = envActive env,
       syWarnings = warnFeedStatus_of (envFormat env) (envAllNS env) now (ecFeed k),
       sySweep = foldl (sweep_step now)
                   \<lparr>swLoaded = 0, swTotal = wsTotal w, swReady = wsReady w, swOldestAgeSec = 0\<rparr>
                   (ecNsCache k),
       syLLMActive = llmActive, syNamespace = None,
       syNamespaces = wsNamespaces w,
       syTruncated = map (\<lambda>(ns, e). (ns, neTruncated e)) (ecNsCache k)\<rparr>)"

text \<open>\<open>ns\<close> is the query parameter, empty when it is not there.\<close>

definition handleAPIStatus :: "page_env \<Rightarrow> time \<Rightarrow> int \<Rightarrow> string \<Rightarrow> clusterState \<Rightarrow> StatusPayload" where
  "handleAPIStatus env now llmActive ns c =
     (let st = cluster_status env now llmActive c in
      if ns \<noteq> '''' \<and> ns \<noteq> clusterScopeNS then
        st\<lparr>syNamespace := Some
             \<lparr>nsName = ns,
              nsUpdatedSec = (case map_of (ecNsCache (csCache c)) ns of
                                Some e \<Rightarrow> secs (time_sub now (neUpdatedAt e)) | None \<Rightarrow> 0),
              nsTruncated = al_get False (syTruncated st) ns\<rparr>\<rparr>
      else st)"

section \<open>The home page\<close>

record railNS =
  rnName :: string
  rnProblems :: nat
  rnState :: string
  rnTruncated :: bool
  rnRank :: nat

record homeSummary =
  hsProblems :: nat
  hsNamespaces :: nat
  hsCluster :: bool
  hsNew :: nat
  hsOngoing :: nat
  hsChronic :: nat

record homeRail =
  hrCluster :: "railNS option"
  hrActive :: "railNS list"
  hrNormal :: "railNS list"
  hrQuiet :: "railNS list"

record HomePayload =
  hpStatus :: StatusPayload
  hpSummary :: homeSummary
  hpProblems :: "Problem list"
  hpBrief :: BriefPayload
  hpRail :: homeRail

definition stateRank :: "Problem \<Rightarrow> string \<times> nat" where
  "stateRank p =
     (let r = tierOrder (pbTier p) * 3 in
      if pbCascade p then (''cascade'', r)
      else if pbIdle p then (''idle'', r + 2)
      else (''warn'', r + 1))"

text \<open>\<open>a.Problems++\<close> and the best state so far.\<close>

definition rail_add :: "railNS \<Rightarrow> string \<times> nat \<Rightarrow> railNS" where
  "rail_add a sr =
     (let a1 = a\<lparr>rnProblems := Suc (rnProblems a)\<rparr> in
      if snd sr < rnRank a then a1\<lparr>rnState := fst sr, rnRank := snd sr\<rparr> else a1)"

definition rail_new :: "string \<Rightarrow> bool \<Rightarrow> string \<times> nat \<Rightarrow> railNS" where
  "rail_new name truncated sr =
     \<lparr>rnName = name, rnProblems = 0, rnState = fst sr, rnTruncated = truncated, rnRank = snd sr\<rparr>"

record rail_state =
  rsSummary :: homeSummary
  rsCluster :: "railNS option"
  rsKinds :: "string list"
  rsActive :: "(string, railNS) gomap"

definition rail_step :: "(string, bool) gomap \<Rightarrow> rail_state \<Rightarrow> Problem \<Rightarrow> rail_state" where
  "rail_step truncated s p =
     (let h = (rsSummary s)\<lparr>hsProblems := Suc (hsProblems (rsSummary s))\<rparr>;
          h1 = (if pbTier p = ''new'' then h\<lparr>hsNew := Suc (hsNew h)\<rparr>
                else if pbTier p = ''ongoing'' then h\<lparr>hsOngoing := Suc (hsOngoing h)\<rparr>
                else h\<lparr>hsChronic := Suc (hsChronic h)\<rparr>);
          sr = stateRank p
      in if pbScope p = ''cluster'' then
           s\<lparr>rsSummary := h1\<lparr>hsCluster := True\<rparr>,
             rsKinds := List.insert (plural (pbKind p) 2) (rsKinds s),
             rsCluster := Some (rail_add (case rsCluster s of Some r \<Rightarrow> r | None \<Rightarrow> rail_new '''' False sr) sr)\<rparr>
         else
           s\<lparr>rsSummary := h1,
             rsActive := foldl (\<lambda>m ns. al_alter ns (\<lambda>a.
                 rail_add (case a of Some r \<Rightarrow> r | None \<Rightarrow> rail_new ns (al_get False truncated ns) sr) sr) m)
               (rsActive s) (pbNamespaces p)\<rparr>)"

definition rank_less :: "railNS \<Rightarrow> railNS \<Rightarrow> bool" where
  "rank_less a b = (if rnRank a \<noteq> rnRank b then rnRank a < rnRank b else rnName a < rnName b)"

interpretation rank_order: keyed_order rank_less "\<lambda>a. (rnRank a, rnName a)"
  by unfold_locales (auto simp: rank_less_def)

definition rail_name_less :: "railNS \<Rightarrow> railNS \<Rightarrow> bool" where
  "rail_name_less a b \<longleftrightarrow> rnName a < rnName b"

interpretation rail_name_order: keyed_order rail_name_less rnName
  by unfold_locales (simp add: rail_name_less_def)

definition has_events :: "EventSummary list \<Rightarrow> bool" where
  "has_events evs \<longleftrightarrow> list_ex (\<lambda>e. evObjectNamespace e \<noteq> '''') evs"

text \<open>The loop over every known namespace without a problem; \<open>seen\<close> keeps the first mention.\<close>

fun rest_loop :: "(string, EventSummary list) gomap \<Rightarrow> (string, bool) gomap \<Rightarrow> string list \<Rightarrow>
    string list \<Rightarrow> string list \<Rightarrow> railNS list \<times> railNS list" where
  "rest_loop events truncated active [] met = ([], [])"
| "rest_loop events truncated active (ns # nss) met =
     (if ns \<in> set met \<or> ns \<in> set active then rest_loop events truncated active nss met
      else
        (case rest_loop events truncated active nss (ns # met) of (normal, quiet) \<Rightarrow>
           let base = \<lparr>rnName = ns, rnProblems = 0, rnState = '''', rnTruncated = False, rnRank = 0\<rparr> in
           if has_events (al_get [] events ns)
           then (base\<lparr>rnState := ''normal'', rnTruncated := al_get False truncated ns\<rparr> # normal, quiet)
           else (normal, base\<lparr>rnState := ''quiet''\<rparr> # quiet)))"

definition build_rail :: "(string, EventSummary list) gomap \<Rightarrow> string list \<Rightarrow> (string, bool) gomap \<Rightarrow>
    Problem list \<Rightarrow> homeSummary \<times> homeRail" where
  "build_rail events allNS truncated problems =
     (let s = foldl (rail_step truncated)
                \<lparr>rsSummary = \<lparr>hsProblems = 0, hsNamespaces = 0, hsCluster = False, hsNew = 0,
                                hsOngoing = 0, hsChronic = 0\<rparr>,
                 rsCluster = None, rsKinds = [], rsActive = []\<rparr> problems;
          (normal, quiet) = rest_loop events truncated (map fst (rsActive s)) (allNS @ map fst events) []
      in ((rsSummary s)\<lparr>hsNamespaces := length (rsActive s)\<rparr>,
          \<lparr>hrCluster = map_option (\<lambda>r. r\<lparr>rnName := str_join '', '' (sort (rsKinds s))\<rparr>) (rsCluster s),
           hrActive = go_sort rank_less (map snd (rsActive s)),
           hrNormal = go_sort rail_name_less normal,
           hrQuiet = go_sort rail_name_less quiet\<rparr>))"

text \<open>
  \<open>buildHome\<close>: \<open>None\<close> would be a panic in grouping. Only the watched cluster writes new notes; the
  result says whether one was started.
\<close>

definition buildHome :: "page_env \<Rightarrow> time \<Rightarrow> time \<Rightarrow> llm_slots \<Rightarrow> clusterState \<Rightarrow>
    HomePayload option \<times> clusterState \<times> llm_slots \<times> Problem option" where
  "buildHome env clk now slots c =
     (let events = allNamespaceEvents (csCache c);
          (rows, owners) = buildProblems (envFormat env) clk events now (csOwners c);
          c1 = c\<lparr>csOwners := owners\<rparr>
      in case rows of
           None \<Rightarrow> (None, c1, slots, None)
         | Some problems \<Rightarrow>
             let st = cluster_status env now (slActive slots) c1;
                 ((b, slots'), started) =
                   (if csRunning c1 then maybeStartBrief (envAI env) problems now (csBrief c1, slots)
                    else ((csBrief c1, slots), None));
                 (summary, rail) = build_rail events (syNamespaces st) (syTruncated st) problems
             in (Some \<lparr>hpStatus = st, hpSummary = summary, hpProblems = problems,
                       hpBrief = briefPayload (envAI env) (envModel env) problems now b,
                       hpRail = rail\<rparr>,
                 c1\<lparr>csBrief := b\<rparr>, slots', started))"

section \<open>Every namespace is on the rail once\<close>

lemma rest_loop_names:
  "rest_loop events truncated active nss met = (normal, quiet) \<Longrightarrow>
   set (map rnName normal) \<union> set (map rnName quiet) = set nss - set met - set active \<and>
   distinct (map rnName normal @ map rnName quiet) \<and>
   (\<forall>r\<in>set normal. has_events (al_get [] events (rnName r))) \<and>
   (\<forall>r\<in>set quiet. \<not> has_events (al_get [] events (rnName r)))"
proof (induction events truncated active nss met arbitrary: normal quiet rule: rest_loop.induct)
  case (2 events truncated active ns nss met)
  show ?case
  proof (cases "ns \<in> set met \<or> ns \<in> set active")
    case True
    then have "rest_loop events truncated active nss met = (normal, quiet)"
      using "2.prems" by simp
    note IH = "2.IH"(1) [OF True this]
    have same: "set (ns # nss) - set met - set active = set nss - set met - set active" using True by auto
    show ?thesis unfolding same by (rule IH)
  next
    case False
    obtain n q where nq: "rest_loop events truncated active nss (ns # met) = (n, q)" by fastforce
    note IH = "2.IH"(2) [OF False nq]
    have sets: "set (map rnName n) \<union> set (map rnName q) = set nss - insert ns (set met) - set active"
      using IH by simp
    then have new: "ns \<notin> set (map rnName n)" "ns \<notin> set (map rnName q)" by blast+
    have all: "set (ns # nss) - set met - set active =
        insert ns (set (map rnName n) \<union> set (map rnName q))"
      using False sets by auto
    show ?thesis
    proof (cases "has_events (al_get [] events ns)")
      case True
      then obtain r where "normal = r # n" "quiet = q" "rnName r = ns"
        using "2.prems" False nq by (auto simp: Let_def)
      then show ?thesis using IH new True unfolding all by simp
    next
      case no: False
      then obtain r where "normal = n" "quiet = r # q" "rnName r = ns"
        using "2.prems" False nq by (auto simp: Let_def)
      then show ?thesis using IH new no unfolding all by simp
    qed
  qed
qed simp

lemma rail_names_alter:
  assumes "\<forall>(k, r)\<in>set m. rnName r = k" and "\<And>a. rnName (f a) = (case a of Some r \<Rightarrow> rnName r | None \<Rightarrow> ns)"
  shows "\<forall>(k, r)\<in>set (al_alter ns f m). rnName r = k"
  using assms by (induction ns f m rule: al_alter.induct) auto

definition rail_ok :: "(string, railNS) gomap \<Rightarrow> bool" where
  "rail_ok m \<longleftrightarrow> distinct (map fst m) \<and> (\<forall>(k, r)\<in>set m. rnName r = k)"

lemma rnName_rail_add [simp]: "rnName (rail_add a sr) = rnName a"
  by (simp add: rail_add_def Let_def)

lemma rail_step_ok:
  assumes "rail_ok (rsActive s)"
  shows "rail_ok (rsActive (rail_step truncated s p))"
    and "fst ` set (rsActive (rail_step truncated s p)) =
      fst ` set (rsActive s) \<union> (if pbScope p = ''cluster'' then {} else set (pbNamespaces p))"
proof -
  let ?f = "\<lambda>sr m ns. al_alter ns (\<lambda>a.
      rail_add (case a of Some r \<Rightarrow> r | None \<Rightarrow> rail_new ns (al_get False truncated ns) sr) sr) m"
  have *: "rail_ok (foldl (?f sr) m nss) \<and> fst ` set (foldl (?f sr) m nss) = fst ` set m \<union> set nss"
    if "rail_ok m" for sr m nss
    using that
  proof (induction nss arbitrary: m)
    case (Cons ns nss)
    have "rail_ok (?f sr m ns)"
      using Cons.prems unfolding rail_ok_def
      using rail_names_alter [of m "\<lambda>a. rail_add (case a of Some r \<Rightarrow> r
          | None \<Rightarrow> rail_new ns (al_get False truncated ns) sr) sr" ns]
      by (simp add: rail_new_def split: option.split)
    from Cons.IH [OF this] show ?case by auto
  qed simp
  show "rail_ok (rsActive (rail_step truncated s p))"
    "fst ` set (rsActive (rail_step truncated s p)) =
      fst ` set (rsActive s) \<union> (if pbScope p = ''cluster'' then {} else set (pbNamespaces p))"
    using assms * by (auto simp: rail_step_def Let_def)
qed

lemma rail_fold_ok:
  assumes "rail_ok (rsActive s)"
  shows "rail_ok (rsActive (foldl (rail_step truncated) s ps))"
    and "fst ` set (rsActive (foldl (rail_step truncated) s ps)) =
      fst ` set (rsActive s) \<union> (\<Union>p\<in>{p \<in> set ps. pbScope p \<noteq> ''cluster''}. set (pbNamespaces p))"
  using assms
  by (induction ps arbitrary: s) (simp_all add: rail_step_ok, auto split: if_splits)

text \<open>
  The rail lists every known namespace, and every one a problem names, exactly once: with its
  problems, or as normal, or as quiet.
\<close>

lemma build_rail_covers:
  assumes "build_rail events allNS truncated problems = (summary, rail)"
  shows "set (map rnName (hrActive rail)) =
      (\<Union>p\<in>{p \<in> set problems. pbScope p \<noteq> ''cluster''}. set (pbNamespaces p))"
    and "set (map rnName (hrActive rail @ hrNormal rail @ hrQuiet rail)) =
      set allNS \<union> fst ` set events \<union>
      (\<Union>p\<in>{p \<in> set problems. pbScope p \<noteq> ''cluster''}. set (pbNamespaces p))"
    and "distinct (map rnName (hrActive rail @ hrNormal rail @ hrQuiet rail))"
    and "hsNamespaces summary = length (hrActive rail)"
proof -
  let ?s = "foldl (rail_step truncated)
      \<lparr>rsSummary = \<lparr>hsProblems = 0, hsNamespaces = 0, hsCluster = False, hsNew = 0, hsOngoing = 0,
                      hsChronic = 0\<rparr>, rsCluster = None, rsKinds = [], rsActive = []\<rparr> problems"
  obtain normal quiet where nq:
    "rest_loop events truncated (map fst (rsActive ?s)) (allNS @ map fst events) [] = (normal, quiet)"
    by fastforce
  note rest = rest_loop_names [OF nq]
  have ok: "rail_ok (rsActive ?s)"
    and keys: "fst ` set (rsActive ?s) =
      (\<Union>p\<in>{p \<in> set problems. pbScope p \<noteq> ''cluster''}. set (pbNamespaces p))"
    using rail_fold_ok [of "\<lparr>rsSummary = \<lparr>hsProblems = 0, hsNamespaces = 0, hsCluster = False,
        hsNew = 0, hsOngoing = 0, hsChronic = 0\<rparr>, rsCluster = None, rsKinds = [], rsActive = []\<rparr>"
        truncated problems]
    by (simp_all add: rail_ok_def)
  have rail: "hrActive rail = go_sort rank_less (map snd (rsActive ?s))"
    "hrNormal rail = go_sort rail_name_less normal" "hrQuiet rail = go_sort rail_name_less quiet"
    "hsNamespaces summary = length (rsActive ?s)"
    using assms nq by (auto simp: build_rail_def Let_def)
  have names: "map (rnName \<circ> snd) (rsActive ?s) = map fst (rsActive ?s)"
    using ok by (auto simp: rail_ok_def)
  have set_act: "set (map rnName (hrActive rail)) = fst ` set (rsActive ?s)"
    using arg_cong [OF names, of set] by (simp add: rail image_image)
  then show "set (map rnName (hrActive rail)) =
      (\<Union>p\<in>{p \<in> set problems. pbScope p \<noteq> ''cluster''}. set (pbNamespaces p))"
    by (simp only: keys)
  have set_nq: "set (map rnName (hrNormal rail)) \<union> set (map rnName (hrQuiet rail)) =
      (set allNS \<union> fst ` set events) - fst ` set (rsActive ?s)"
    using rest by (simp add: rail)
  show "set (map rnName (hrActive rail @ hrNormal rail @ hrQuiet rail)) =
      set allNS \<union> fst ` set events \<union>
      (\<Union>p\<in>{p \<in> set problems. pbScope p \<noteq> ''cluster''}. set (pbNamespaces p))"
    using set_act set_nq keys by auto
  have "distinct (map rnName (hrActive rail))"
    unfolding rail distinct_map_go_sort map_map names using ok by (simp add: rail_ok_def)
  moreover have "distinct (map rnName (hrNormal rail) @ map rnName (hrQuiet rail))"
    using rest by (simp add: rail)
  ultimately show "distinct (map rnName (hrActive rail @ hrNormal rail @ hrQuiet rail))"
    using set_act set_nq by auto
  show "hsNamespaces summary = length (hrActive rail)" by (simp add: rail)
qed

text \<open>The summary counts every row once, by tier.\<close>

lemma rail_fold_summary:
  "hsProblems (rsSummary (foldl (rail_step truncated) s ps)) = hsProblems (rsSummary s) + length ps"
  "hsNew (rsSummary (foldl (rail_step truncated) s ps)) =
     hsNew (rsSummary s) + length (filter (\<lambda>p. pbTier p = ''new'') ps)"
  "hsOngoing (rsSummary (foldl (rail_step truncated) s ps)) =
     hsOngoing (rsSummary s) + length (filter (\<lambda>p. pbTier p = ''ongoing'') ps)"
  "hsCluster (rsSummary (foldl (rail_step truncated) s ps)) \<longleftrightarrow>
     hsCluster (rsSummary s) \<or> (\<exists>p\<in>set ps. pbScope p = ''cluster'')"
  "hsNew (rsSummary (foldl (rail_step truncated) s ps)) + hsOngoing (rsSummary (foldl (rail_step truncated) s ps)) +
     hsChronic (rsSummary (foldl (rail_step truncated) s ps)) =
     hsNew (rsSummary s) + hsOngoing (rsSummary s) + hsChronic (rsSummary s) + length ps"
  by (induction ps arbitrary: s) (auto simp: rail_step_def Let_def)

section \<open>Properties\<close>

text \<open>
  the rail lists every namespace the cluster has, every one with cached events and every one a
  problem names, exactly once: among the active ones when a problem names it, else as normal or quiet.
\<close>

lemma rail_lists_each_namespace_once:
  "set (map rnName (hrActive (snd (build_rail events allNS truncated problems)))) =
     (\<Union>p\<in>{p \<in> set problems. pbScope p \<noteq> ''cluster''}. set (pbNamespaces p)) \<and>
   set (map rnName (hrActive (snd (build_rail events allNS truncated problems)) @
          hrNormal (snd (build_rail events allNS truncated problems)) @
          hrQuiet (snd (build_rail events allNS truncated problems)))) =
     set allNS \<union> fst ` set events \<union>
     (\<Union>p\<in>{p \<in> set problems. pbScope p \<noteq> ''cluster''}. set (pbNamespaces p)) \<and>
   distinct (map rnName (hrActive (snd (build_rail events allNS truncated problems)) @
          hrNormal (snd (build_rail events allNS truncated problems)) @
          hrQuiet (snd (build_rail events allNS truncated problems))))"
proof (intro conjI)
  note covers = build_rail_covers [OF prod.collapse [symmetric], of events allNS truncated problems]
  show "set (map rnName (hrActive (snd (build_rail events allNS truncated problems)))) =
      (\<Union>p\<in>{p \<in> set problems. pbScope p \<noteq> ''cluster''}. set (pbNamespaces p))"
    by (rule covers(1))
qed (rule build_rail_covers [OF prod.collapse [symmetric]])+

text \<open>
  the summary of the home page counts every problem once, by its tier, and the namespaces of its
  rail; it says "cluster" exactly when a cluster-wide problem is listed.
\<close>

lemma summary_counts:
  "hsProblems (fst (build_rail events allNS truncated problems)) = length problems \<and>
   hsNew (fst (build_rail events allNS truncated problems)) =
     length (filter (\<lambda>p. pbTier p = ''new'') problems) \<and>
   hsOngoing (fst (build_rail events allNS truncated problems)) =
     length (filter (\<lambda>p. pbTier p = ''ongoing'') problems) \<and>
   hsChronic (fst (build_rail events allNS truncated problems)) =
     length (filter (\<lambda>p. pbTier p \<noteq> ''new'' \<and> pbTier p \<noteq> ''ongoing'') problems) \<and>
   (hsCluster (fst (build_rail events allNS truncated problems)) \<longleftrightarrow>
     list_ex (\<lambda>p. pbScope p = ''cluster'') problems) \<and>
   hsNamespaces (fst (build_rail events allNS truncated problems)) =
     length (hrActive (snd (build_rail events allNS truncated problems)))"
proof -
  have chronic: "hsChronic (rsSummary (foldl (rail_step truncated) s ps)) =
      hsChronic (rsSummary s) + length (filter (\<lambda>p. pbTier p \<noteq> ''new'' \<and> pbTier p \<noteq> ''ongoing'') ps)"
    for s ps
    by (induction ps arbitrary: s) (simp_all add: rail_step_def Let_def)
  show ?thesis
    by (simp add: build_rail_def Let_def case_prod_beta rail_fold_summary chronic list_ex_iff)
qed

end
