(* ===== verification/TunnelAPI.thy ===== *)
theory TunnelAPI
  imports Clusters
begin

text \<open>
  The endpoints that define, start and stop tunnels (tunnels.go): which requests are admitted, and
  what each does to the saved tunnels, their runs and the loaded clusters.
\<close>

section \<open>Admitted requests\<close>

definition index_byte :: "char \<Rightarrow> string \<Rightarrow> nat option" where
  "index_byte c s = str_index s [c]"

text \<open>\<open>net.SplitHostPort\<close>; \<open>None\<close> is an error.\<close>

definition split_host_port :: "string \<Rightarrow> (string \<times> string) option" where
  "split_host_port hp =
     (case last_index (CHR '':'') hp of
        None \<Rightarrow> None
      | Some i \<Rightarrow>
          (let parsed =
             (if has_prefix hp ''['' then
                (case index_byte (CHR '']'') hp of
                   None \<Rightarrow> None
                 | Some end' \<Rightarrow>
                     if end' + 1 = i then Some (drop 1 (take end' hp), 1::nat, end' + 1) else None)
              else if CHR '':'' \<in> set (take i hp) then None
              else Some (take i hp, 0, 0))
           in case parsed of
                None \<Rightarrow> None
              | Some (host, j, k) \<Rightarrow>
                  if CHR ''['' \<in> set (drop j hp) \<or> CHR '']'' \<in> set (drop k hp) then None
                  else Some (host, drop (i + 1) hp)))"

text \<open>\<open>strings.Trim\<close> by a set of bytes.\<close>

definition trim_set :: "string \<Rightarrow> string \<Rightarrow> string" where
  "trim_set bytes s =
     rev (dropWhile (\<lambda>c. c \<in> set bytes) (rev (dropWhile (\<lambda>c. c \<in> set bytes) s)))"

record tunnel_request =
  tqMethod :: string
  tqPath :: string
  tqRemote :: string
  tqHost :: string
  tqOrigin :: string
  tqContentType :: string
  tqContext :: string
  tqBody :: "(TunnelDef \<times> string \<times> bool) option"

text \<open>
  \<open>isLoopback\<close> says whether \<open>net.ParseIP\<close> reads an address and it is a loopback one. \<open>tqBody\<close> is the
  decoded body: the tunnel, its previous name and whether to start it.
\<close>

definition localRequest :: "(string \<Rightarrow> bool) \<Rightarrow> tunnel_request \<Rightarrow> bool" where
  "localRequest isLoopback r =
     (let client = (case split_host_port (tqRemote r) of Some (h, _) \<Rightarrow> h | None \<Rightarrow> '''');
          host = trim_set ''[]'' (case split_host_port (tqHost r) of Some (h, _) \<Rightarrow> h | None \<Rightarrow> tqHost r)
      in if \<not> isLoopback client \<or> host \<noteq> ''localhost'' \<and> host \<noteq> ''127.0.0.1'' \<and> host \<noteq> ''::1''
         then False
         else tqMethod r = ''GET'' \<or>
              tqOrigin r = ''http://'' @ tqHost r \<and> has_prefix (tqContentType r) ''application/json'')"

section \<open>What the dialog shows of a context\<close>

text \<open>The kubeconfig: each context with the server and the proxy of its cluster, if that is there.\<close>

type_synonym kubeconfig = "string + (string \<times> (string \<times> string) option) list"

definition checkContexts :: "kubeconfig \<Rightarrow> string list \<Rightarrow> string option" where
  "checkContexts kc names =
     (case kc of
        Inl e \<Rightarrow> Some (''load kubeconfig: '' @ e)
      | Inr contexts \<Rightarrow>
          map_option (\<lambda>n. ''no context '' @ n @ '' in the kubeconfig'')
            (find (\<lambda>n. n \<notin> fst ` set contexts) names))"

record tunnelContext =
  tcName :: string
  tcServer :: string
  tcKubeconfigProxy :: string
  tcError :: string
  tcErrorKind :: string
  tcTunnel :: string

definition contextForTunnel :: "kubeconfig \<Rightarrow> context_envs \<Rightarrow> clusters \<Rightarrow> tunnels \<Rightarrow> string \<Rightarrow> tunnelContext" where
  "contextForTunnel kc prefs cl ts name =
     (let (server, proxy) =
        (case kc of
           Inl _ \<Rightarrow> ('''', '''')
         | Inr contexts \<Rightarrow> (case map_of contexts name of Some (Some sp) \<Rightarrow> sp | _ \<Rightarrow> ('''', '''')));
        (err, kind) =
        (case loadedCluster name cl of
           Some c \<Rightarrow> (ciError (identity prefs ts c), ciErrorKind (identity prefs ts c))
         | None \<Rightarrow> ('''', ''''))
      in \<lparr>tcName = name, tcServer = server, tcKubeconfigProxy = proxy, tcError = err, tcErrorKind = kind,
          tcTunnel = (case tunnelForContext name (tnDefs ts) of Some d \<Rightarrow> tdName d | None \<Rightarrow> '''')\<rparr>)"

section \<open>The handler\<close>

datatype tunnel_reply =
  TunnelFail nat string
| TunnelsListed "tunnelView list" "tunnelContext option"
| TunnelShown tunnelView
| TunnelDeleted

record tunnel_api =
  taWorld :: tunnel_world
  taConnect :: "string \<Rightarrow> string + string"
  taSave :: "string option"
  taLoopback :: "string \<Rightarrow> bool"
  taKubeconfig :: kubeconfig
  taPrefs :: context_envs

definition drop_run :: "string \<Rightarrow> tunnels \<Rightarrow> tunnels" where
  "drop_run name ts = ts\<lparr>tnRuns := al_delete name (tnRuns ts)\<rparr>"

text \<open>POST /api/tunnels: create or edit. The list in the result holds the processes terminated.\<close>

definition postTunnel :: "tunnel_api \<Rightarrow> time \<Rightarrow> TunnelDef \<Rightarrow> string \<Rightarrow> bool \<Rightarrow> clusters \<times> tunnels \<Rightarrow>
    (clusters \<times> tunnels) \<times> nat list \<times> tunnel_reply" where
  "postTunnel api now body0 previous start st =
     (case st of (cl, ts) \<Rightarrow>
        let parse = twParse (taWorld api); body = body0\<lparr>tdCommand := trim_space (tdCommand body0)\<rparr> in
        case checkContexts (taKubeconfig api) (tdContexts body) of
          Some e \<Rightarrow> (st, [], TunnelFail 400 e)
        | None \<Rightarrow>
            let (ts1, killed) =
              (case tunnelByName previous (tnDefs ts) of
                 Some old \<Rightarrow>
                   if tdCommand old \<noteq> tdCommand body \<or> tdMode old \<noteq> tdMode body \<or>
                      endpoint parse old \<noteq> endpoint parse body
                   then stopTunnel (tdName old) ts else (ts, None)
               | None \<Rightarrow> (ts, None));
              killed' = (case killed of Some p \<Rightarrow> [p] | None \<Rightarrow> [])
            in (case saveTunnel parse (taSave api) body previous (tnDefs ts1) of
                  (defs, Inl e) \<Rightarrow> ((cl, ts1\<lparr>tnDefs := defs\<rparr>), killed', TunnelFail 400 e)
                | (defs, Inr changed) \<Rightarrow>
                    let ts2 = ts1\<lparr>tnDefs := defs\<rparr>;
                        ts3 = (if previous \<noteq> '''' \<and> previous \<noteq> tdName body then drop_run previous ts2 else ts2);
                        cl' = reloadClusters (taConnect api) now changed cl;
                        (ts4, err) =
                          (if start then (case startTunnel (taWorld api) now (tdName body) True ts3 of
                                            (ts', err, _) \<Rightarrow> (ts', err)) else (ts3, None))
                    in (case err of
                          Some e \<Rightarrow> ((cl', ts4), killed', TunnelFail 502 e)
                        | None \<Rightarrow> ((cl', ts4), killed', TunnelShown (viewTunnel parse now ts4 body)))))"

definition removeTunnel :: "tunnel_api \<Rightarrow> time \<Rightarrow> string \<Rightarrow> clusters \<times> tunnels \<Rightarrow>
    (clusters \<times> tunnels) \<times> nat list \<times> tunnel_reply" where
  "removeTunnel api now name st =
     (case st of (cl, ts) \<Rightarrow>
        let (ts1, killed) = stopTunnel name ts; killed' = (case killed of Some p \<Rightarrow> [p] | None \<Rightarrow> []) in
        (case deleteTunnel (taSave api) name (tnDefs ts1) of
           (defs, Inl e) \<Rightarrow> ((cl, ts1\<lparr>tnDefs := defs\<rparr>), killed', TunnelFail 404 e)
         | (defs, Inr changed) \<Rightarrow>
             ((reloadClusters (taConnect api) now changed cl, drop_run name (ts1\<lparr>tnDefs := defs\<rparr>)),
              killed', TunnelDeleted)))"

definition handleAPITunnels :: "tunnel_api \<Rightarrow> time \<Rightarrow> tunnel_request \<Rightarrow> clusters \<times> tunnels \<Rightarrow>
    (clusters \<times> tunnels) \<times> nat list \<times> tunnel_reply" where
  "handleAPITunnels api now r st =
     (case st of (cl, ts) \<Rightarrow>
        if \<not> localRequest (taLoopback api) r then (st, [], TunnelFail 403 ''refused'')
        else
          let parse = twParse (taWorld api);
              rest = trim_set [CHR 0x2F]
                (if has_prefix (tqPath r) ''/api/tunnels'' then drop 12 (tqPath r) else tqPath r);
              name = takeWhile (\<lambda>c. c \<noteq> CHR 0x2F) rest;
              action = drop 1 (dropWhile (\<lambda>c. c \<noteq> CHR 0x2F) rest)
          in if tqMethod r = ''GET'' \<and> name = '''' then
               (st, [], TunnelsListed (tunnelList parse now ts)
                 (if tqContext r \<noteq> ''''
                  then Some (contextForTunnel (taKubeconfig api) (taPrefs api) cl ts (tqContext r)) else None))
             else if tqMethod r = ''POST'' \<and> name = '''' then
               (case tqBody r of
                  None \<Rightarrow> (st, [], TunnelFail 400 ''invalid'')
                | Some (body, previous, start) \<Rightarrow> postTunnel api now body previous start st)
             else if tqMethod r = ''DELETE'' \<and> name \<noteq> '''' \<and> action = '''' then removeTunnel api now name st
             else if tqMethod r = ''POST'' \<and> name \<noteq> '''' \<and> (action = ''start'' \<or> action = ''stop'') then
               (case tunnelByName name (tnDefs ts) of
                  None \<Rightarrow> (st, [], TunnelFail 404 (''no tunnel '' @ name))
                | Some d \<Rightarrow>
                    if action = ''start'' then
                      (case startTunnel (taWorld api) now name True ts of
                         (ts', Some e, _) \<Rightarrow> ((cl, ts'), [], TunnelFail 502 e)
                       | (ts', None, _) \<Rightarrow> ((cl, ts'), [], TunnelShown (viewTunnel parse now ts' d)))
                    else
                      (case stopTunnel name ts of
                         (ts', killed) \<Rightarrow> ((cl, ts'), (case killed of Some p \<Rightarrow> [p] | None \<Rightarrow> []),
                                          TunnelShown (viewTunnel parse now ts' d))))
             else (st, [], TunnelFail 405 ''unknown tunnels request''))"

section \<open>What a request keeps\<close>

lemma stopTunnel_defs [simp]: "tnDefs (fst (stopTunnel name ts)) = tnDefs ts"
  by (simp add: stopTunnel_def split: prod.splits)

lemma startTunnel_defs [simp]: "tnDefs (fst (startTunnel w now name keep ts)) = tnDefs ts"
  by (simp add: startTunnel_def split: option.splits prod.splits)

lemma drop_run_defs [simp]: "tnDefs (drop_run name ts) = tnDefs ts"
  by (simp add: drop_run_def)

lemma stopTunnel_defs': "stopTunnel name ts = (ts', k) \<Longrightarrow> tnDefs ts' = tnDefs ts"
  using stopTunnel_defs [of name ts] by simp

lemma startTunnel_defs': "startTunnel w now name keep ts = (ts', res) \<Longrightarrow> tnDefs ts' = tnDefs ts"
  using startTunnel_defs [of w now name keep ts] by simp

lemma saveTunnel_ok':
  "saveTunnel parse save d previous defs = (defs', r) \<Longrightarrow> tunnels_ok parse defs \<Longrightarrow> tunnels_ok parse defs'"
  using saveTunnel_ok [of parse defs save d previous] by simp

lemma deleteTunnel_ok':
  "deleteTunnel save name defs = (defs', r) \<Longrightarrow> tunnels_ok parse defs \<Longrightarrow> tunnels_ok parse defs'"
  using deleteTunnel_ok [of parse defs save name] by simp

lemma postTunnel_ok:
  assumes "tunnels_ok (twParse (taWorld api)) (tnDefs ts)" and "clusters_ok cl"
    and "postTunnel api now body previous start (cl, ts) = ((cl', ts'), killed, reply)"
  shows "tunnels_ok (twParse (taWorld api)) (tnDefs ts') \<and> clusters_ok cl'"
  using assms
  by (auto simp: postTunnel_def Let_def reloadClusters_ok split: option.splits prod.splits sum.splits if_splits
      dest!: stopTunnel_defs' startTunnel_defs' dest: saveTunnel_ok')

lemma removeTunnel_ok:
  assumes "tunnels_ok (twParse (taWorld api)) (tnDefs ts)" and "clusters_ok cl"
    and "removeTunnel api now name (cl, ts) = ((cl', ts'), killed, reply)"
  shows "tunnels_ok (twParse (taWorld api)) (tnDefs ts') \<and> clusters_ok cl'"
  using assms
  by (auto simp: removeTunnel_def Let_def reloadClusters_ok split: option.splits prod.splits sum.splits
      dest!: stopTunnel_defs' dest: deleteTunnel_ok')

section \<open>Properties\<close>


definition sample_request :: tunnel_request where
  "sample_request = \<lparr>tqMethod = ''POST'', tqPath = ''/api/tunnels'', tqRemote = ''127.0.0.1:5000'',
     tqHost = ''localhost:8080'', tqOrigin = ''http://localhost:8080'', tqContentType = ''application/json'',
     tqContext = '''', tqBody = Some (sample_tunnel, '''', False)\<rparr>"

definition sample_tunnel_api :: tunnel_api where
  "sample_tunnel_api = \<lparr>taWorld = \<lparr>twParse = (\<lambda>_. None), twPortOpen = (\<lambda>_. False), twSpawn = Started 7,
     twProcess = 1\<rparr>, taConnect = Inr, taSave = None, taLoopback = (\<lambda>a. a = ''127.0.0.1''),
     taKubeconfig = Inr [(''prod-eu'', None)], taPrefs = []\<rparr>"


text \<open>
  Renaming a tunnel without changing it forgets the process that runs under the old name: it is not
  terminated, and \<open>stopAllTunnels\<close>, which runs at exit, no longer knows it.
\<close>

definition running_bastion :: tunnels where
  "running_bastion = \<lparr>tnDefs = [sample_tunnel],
     tnRuns = [(''bastion'', new_run\<lparr>trState := tsRunning, trCmd := Some 4, trGen := 1\<rparr>)]\<rparr>"

lemma rename_forgets_process:
  "let ((cl', ts'), killed, reply) = postTunnel sample_tunnel_api 10
     (sample_tunnel\<lparr>tdName := ''jump''\<rparr>) ''bastion'' False (no_clusters, running_bastion)
   in killed = [] \<and> snd (stopAllTunnels running_bastion) = [4] \<and> snd (stopAllTunnels ts') = [] \<and>
      map tdName (tnDefs ts') = [''jump'']"
  by code_simp

text \<open>An edit that is then refused has stopped the running tunnel already.\<close>

lemma refused_edit_stops:
  "let ((cl', ts'), killed, reply) = postTunnel sample_tunnel_api 10
     (sample_tunnel\<lparr>tdMode := ''proxy''\<rparr>) ''bastion'' False (no_clusters, running_bastion)
   in killed = [4] \<and> tnDefs ts' = tnDefs running_bastion \<and>
      reply = TunnelFail 400 ''proxy: a URL like socks5://127.0.0.1:1080 or http://127.0.0.1:8888''"
  by code_simp

end
