(* ===== verification/GoText.thy ===== *)
theory GoText
  imports BriefText
begin

text \<open>
  The parts of \<open>regexp\<close> and \<open>fmt\<close> the evidence code uses. Its expressions are small: each is a function
  that says whether it matches at the start of a string, after a given previous byte, and how long its
  (leftmost-first) match is. None of them matches the empty string.
\<close>

section \<open>Searching\<close>

text \<open>\<open>(?i)w1|w2|...\<close>: one of the words, anywhere, in any case.\<close>

definition fold_any :: "string list \<Rightarrow> string \<Rightarrow> bool" where
  "fold_any ws s = re_search (\<lambda>t. list_ex (\<lambda>w. fold_prefix w t) ws) s"

text \<open>
  \<open>strings.ToLower\<close> as far as a comparison with ASCII text can tell: besides the ASCII letters there are
  two runes with an ASCII letter for lower case, U+0130 and U+212A.
\<close>

fun ascii_lower :: "string \<Rightarrow> string" where
  "ascii_lower [] = []"
| "ascii_lower (c # s) =
     (if c = CHR 0xC4 \<and> has_prefix s [CHR 0xB0] then CHR ''i'' # ascii_lower (drop 1 s)
      else if c = CHR 0xE2 \<and> has_prefix s [CHR 0x84, CHR 0xAA] then CHR ''k'' # ascii_lower (drop 2 s)
      else to_lower_byte c # ascii_lower s)"

definition word_byte :: "char \<Rightarrow> bool" where
  "word_byte c \<longleftrightarrow> is_alpha c \<or> is_digit c \<or> c = CHR ''_''"

text \<open>\<open>\b\<close>: a word byte on one side only.\<close>

definition word_edge :: "char option \<Rightarrow> string \<Rightarrow> bool" where
  "word_edge prev s \<longleftrightarrow>
     (case prev of Some c \<Rightarrow> word_byte c | None \<Rightarrow> False) \<noteq> (case s of c # _ \<Rightarrow> word_byte c | [] \<Rightarrow> False)"

text \<open>\<open>\bw\b\<close> for a word \<open>w\<close>, anywhere in the string.\<close>

fun edged_word :: "string \<Rightarrow> char option \<Rightarrow> string \<Rightarrow> bool" where
  "edged_word w prev [] = False"
| "edged_word w prev (c # s) =
     ((word_edge prev (c # s) \<and> has_prefix (c # s) w \<and> word_edge (Some (last w)) (drop (length w) (c # s))) \<or>
      edged_word w (Some c) s)"

text \<open>\<open>FindAllString(Submatch)\<close>: the matches from left to right, none of them overlapping.\<close>

type_synonym 'm matcher = "char option \<Rightarrow> string \<Rightarrow> ('m \<times> nat) option"

function find_all :: "'m matcher \<Rightarrow> char option \<Rightarrow> string \<Rightarrow> 'm list" where
  "find_all here prev s =
     (if s = [] then []
      else case here prev s of
             None \<Rightarrow> find_all here (Some (hd s)) (tl s)
           | Some (m, n) \<Rightarrow>
               m # find_all here (Some (s ! (min n (length s) - 1))) (drop (max 1 n) s))"
  by pat_completeness auto
termination
  by (relation "measure (\<lambda>(_, _, s). length s)") (auto simp: neq_Nil_conv)

declare find_all.simps [simp del]

text \<open>The first match of \<open>FindStringSubmatch\<close>.\<close>

fun find_first :: "'m matcher \<Rightarrow> char option \<Rightarrow> string \<Rightarrow> 'm option" where
  "find_first here prev [] = None"
| "find_first here prev (c # s) =
     (case here prev (c # s) of Some (m, _) \<Rightarrow> Some m | None \<Rightarrow> find_first here (Some c) s)"

section \<open>Characters and runs\<close>

text \<open>
  \<open>[a-z0-9]\<close> under \<open>(?i)\<close>, as a number of bytes: a letter of either case, a digit, the long s or the
  Kelvin sign.
\<close>

definition alnum_size :: "string \<Rightarrow> nat" where
  "alnum_size s =
     (case s of
        [] \<Rightarrow> 0
      | c # _ \<Rightarrow> if is_alpha c \<or> is_digit c then 1
                  else if has_prefix s [CHR 0xC5, CHR 0xBF] then 2
                  else if has_prefix s [CHR 0xE2, CHR 0x84, CHR 0xAA] then 3 else 0)"

text \<open>The length of the longest run of a class, given as the size of its member at the start of a string.\<close>

function run_size :: "(string \<Rightarrow> nat) \<Rightarrow> string \<Rightarrow> nat" where
  "run_size at s = (if at s = 0 \<or> at s > length s then 0 else at s + run_size at (drop (at s) s))"
  by pat_completeness auto
termination
  by (relation "measure (\<lambda>(_, s). length s)") auto

declare run_size.simps [simp del]

definition class_or :: "char list \<Rightarrow> (string \<Rightarrow> nat) \<Rightarrow> string \<Rightarrow> nat" where
  "class_or cs at s = (case s of c # _ \<Rightarrow> if c \<in> set cs then 1 else at s | [] \<Rightarrow> 0)"

definition lower_alnum :: "string \<Rightarrow> nat" where
  "lower_alnum s = (case s of c # _ \<Rightarrow> if in_range 97 122 c \<or> is_digit c then 1 else 0 | [] \<Rightarrow> 0)"

text \<open>
  \<open>a([b]*a)?\<close> where the class \<open>b\<close> is \<open>a\<close> and some more bytes: the longest match, which ends in an \<open>a\<close>.
  The extra bytes are single ones, so what a run ends in beyond that is a number of them.
\<close>

definition inner_run :: "char list \<Rightarrow> (string \<Rightarrow> nat) \<Rightarrow> string \<Rightarrow> nat" where
  "inner_run extra at s =
     (if at s = 0 then 0
      else let run = take (run_size (class_or extra at) s) s
           in length run - length (takeWhile (\<lambda>c. c \<in> set extra) (rev run)))"

section \<open>Quoting\<close>

definition hex_digit :: "nat \<Rightarrow> char" where
  "hex_digit n = (if n < 10 then char_of (48 + n) else char_of (87 + n))"

text \<open>One rune of \<open>%q\<close>. A rune outside ASCII is taken to be printable.\<close>

definition quote_rune :: "string \<Rightarrow> string" where
  "quote_rune r =
     (case r of
        [c] \<Rightarrow>
          (let n = (of_char c :: nat) in
           if c = quote \<or> c = CHR 0x5C then [CHR 0x5C, c]
           else if 0x20 \<le> n \<and> n < 0x7F then [c]
           else if n = 7 then [CHR 0x5C, CHR ''a''] else if n = 8 then [CHR 0x5C, CHR ''b'']
           else if n = 9 then [CHR 0x5C, CHR ''t''] else if n = 10 then [CHR 0x5C, CHR ''n'']
           else if n = 11 then [CHR 0x5C, CHR ''v''] else if n = 12 then [CHR 0x5C, CHR ''f'']
           else if n = 13 then [CHR 0x5C, CHR ''r'']
           else [CHR 0x5C, CHR ''x'', hex_digit (n div 16), hex_digit (n mod 16)])
      | _ \<Rightarrow> r)"

text \<open>The runes of a string with the invalid bytes kept as they are.\<close>

function raw_runes :: "string \<Rightarrow> string list" where
  "raw_runes s = (if s = [] then [] else take (max 1 (rune_size s)) s # raw_runes (drop (max 1 (rune_size s)) s))"
  by pat_completeness auto
termination
  by (relation "measure length") auto

declare raw_runes.simps [simp del]

definition go_quote :: "string \<Rightarrow> string" where
  "go_quote s = quote # concat (map quote_rune (raw_runes s)) @ [quote]"

section \<open>Facts\<close>

lemma run_size_le: "run_size at s \<le> length s"
proof (induction at s rule: run_size.induct)
  case (1 at s)
  then show ?case by (subst run_size.simps) auto
qed

lemma find_all_Nil [simp]: "find_all here prev [] = []"
  by (simp add: find_all.simps)

text \<open>A match is found at some place of the string, after the byte before it.\<close>

lemma find_all_mem:
  "m \<in> set (find_all here prev s) \<Longrightarrow> \<exists>p u t n. here p t = Some (m, n) \<and> s = u @ t"
proof (induction here prev s rule: find_all.induct)
  case (1 here prev s)
  show ?case
  proof (cases "s = []")
    case False
    show ?thesis
    proof (cases "here prev s")
      case None
      then have "m \<in> set (find_all here (Some (hd s)) (tl s))"
        using "1.prems" False by (subst (asm) find_all.simps) simp
      then obtain p u t n where "here p t = Some (m, n)" "tl s = u @ t" using "1.IH"(1) [OF False None] by blast
      then have "here p t = Some (m, n) \<and> s = (hd s # u) @ t" using False by (cases s) auto
      then show ?thesis by blast
    next
      case (Some mn)
      obtain m' n where mn: "mn = (m', n)" by (cases mn)
      consider "m = m'" | "m \<in> set (find_all here (Some (s ! (min n (length s) - 1))) (drop (max 1 n) s))"
        using "1.prems" False Some mn by (subst (asm) find_all.simps) (auto simp del: drop_eq_Nil)
      then show ?thesis
      proof cases
        case 1
        then have "here prev s = Some (m, n) \<and> s = [] @ s" using Some mn by simp
        then show ?thesis by blast
      next
        case 2
        then obtain p u t k where "here p t = Some (m, k)" "drop (max 1 n) s = u @ t"
          using "1.IH"(2) [OF False Some mn [symmetric]] by blast
        then have "here p t = Some (m, k) \<and> s = (take (max 1 n) s @ u) @ t"
          by (metis append.assoc append_take_drop_id)
        then show ?thesis by blast
      qed
    qed
  qed (use 1 in simp)
qed

lemma contains_take_drop: "str_contains s (take n (drop k s))"
  unfolding str_contains_iff by (metis append_take_drop_id)

lemma contains_suffix: "str_contains t w \<Longrightarrow> str_contains (u @ t) w"
  unfolding str_contains_iff by (metis append.assoc)

end
