(* ===== verification/KubeObjects.thy ===== *)
theory KubeObjects
  imports GoText
begin

text \<open>
  The objects of the Kubernetes API the evidence code reads, with the fields it reads. An absent
  (\<open>nil\<close>) field is \<open>None\<close>, a map a list of pairs with distinct keys, and a quantity the string its
  \<open>String()\<close> gives.
\<close>

record k_terminated =
  ktReason :: string
  ktExitCode :: int

text \<open>One \<open>ContainerStatus\<close>; a waiting state is its reason and message.\<close>

record k_status =
  ksName :: string
  ksReady :: bool
  ksRestarts :: int
  ksLast :: "k_terminated option"
  ksWaiting :: "(string \<times> string) option"
  ksTerminated :: "k_terminated option"

text \<open>A container's memory limit and its ports: number, name and protocol.\<close>

record k_container =
  kcName :: string
  kcMemLimit :: "string option"
  kcPorts :: "(int \<times> string \<times> string) list"

text \<open>A volume with the claim it names, if any, or an ephemeral claim of its own.\<close>

record k_volume =
  kvName :: string
  kvClaim :: "string option"
  kvEphemeral :: bool

type_synonym labels = "(string, string) gomap"

text \<open>
  A Pod. \<open>kpAffinity\<close> are the keys of the required node affinity, by term; \<open>kpConditions\<close> the types
  and statuses of its conditions.
\<close>

record k_pod =
  kpName :: string
  kpNamespace :: string
  kpLabels :: labels
  kpDeleted :: bool
  kpInitContainers :: "k_container list"
  kpContainers :: "k_container list"
  kpVolumes :: "k_volume list"
  kpServiceAccount :: string
  kpPullSecrets :: "string list"
  kpNodeSelector :: labels
  kpAffinity :: "string list list"
  kpPhase :: string
  kpConditions :: "(string \<times> string) list"
  kpInitStatuses :: "k_status list"
  kpStatuses :: "k_status list"

record k_secret =
  secName :: string
  secType :: string
  secData :: "(string, string) gomap"
  secStringData :: "(string, string) gomap"

record k_config_map =
  cmName :: string
  cmData :: "(string, string) gomap"
  cmBinaryData :: "(string, string) gomap"

text \<open>A PersistentVolumeClaim: its phase, class, storage request, access modes and volume.\<close>

record k_claim =
  pvcPhase :: string
  pvcClass :: "string option"
  pvcRequest :: "string option"
  pvcModes :: "string list"
  pvcVolume :: string

record k_storage_class =
  scName :: string
  scProvisioner :: string
  scBindingMode :: "string option"
  scAnnotations :: labels

text \<open>A target port is an \<open>IntOrString\<close>.\<close>

datatype k_target = TargetInt int | TargetName string

record k_port =
  spPort :: int
  spProtocol :: string
  spTarget :: k_target

record k_service =
  svName :: string
  svNamespace :: string
  svType :: string
  svExternalName :: string
  svClusterIP :: string
  svSelector :: labels
  svPorts :: "k_port list"

text \<open>
  A Deployment, StatefulSet or DaemonSet: \<open>kwReplicas\<close> is \<open>Spec.Replicas\<close>, and of a DaemonSet
  \<open>Status.DesiredNumberScheduled\<close>; the labels are those of the Pod template.
\<close>

record k_workload =
  kwName :: string
  kwReady :: int
  kwReplicas :: "int option"
  kwLabels :: labels

text \<open>A node; taints are key, value and effect, an allocatable quantity its \<open>String()\<close> and \<open>Value()\<close>.\<close>

record k_node =
  knName :: string
  knLabels :: labels
  knUnschedulable :: bool
  knTaints :: "(string \<times> string \<times> string) list"
  knConditions :: "(string \<times> string) list"
  knAllocatable :: "(string, string \<times> int) gomap"

text \<open>An answer of the API: what was asked for, that it does not exist, or another error.\<close>

datatype 'a api_answer = Got 'a | NotFound string | ApiErr string

definition got :: "'a api_answer \<Rightarrow> 'a option" where
  "got a = (case a of Got x \<Rightarrow> Some x | _ \<Rightarrow> None)"

text \<open>
  What the API of a cluster answers. One gathering of evidence reads an object more than once only
  through caches of the code; the answers are taken to stay the same meanwhile. \<open>kbServiceAccount\<close> gives
  the names of its pull secrets, \<open>kbEndpoints\<close> the slices of a Service with the addresses and readiness
  of each endpoint, and \<open>kbMatches sel ls\<close> is \<open>labels.SelectorFromSet(sel).Matches(ls)\<close>.
\<close>

record kube =
  kbPod :: "string \<Rightarrow> string \<Rightarrow> k_pod api_answer"
  kbLog :: "string \<Rightarrow> string \<Rightarrow> string \<Rightarrow> int \<Rightarrow> bool \<Rightarrow> string + string"
  kbSecret :: "string \<Rightarrow> string \<Rightarrow> k_secret api_answer"
  kbSecrets :: "string \<Rightarrow> k_secret list api_answer"
  kbConfigMap :: "string \<Rightarrow> string \<Rightarrow> k_config_map api_answer"
  kbConfigMaps :: "string \<Rightarrow> k_config_map list api_answer"
  kbClaim :: "string \<Rightarrow> string \<Rightarrow> k_claim api_answer"
  kbStorageClass :: "string \<Rightarrow> k_storage_class api_answer"
  kbStorageClasses :: "k_storage_class list api_answer"
  kbServiceAccount :: "string \<Rightarrow> string \<Rightarrow> string list api_answer"
  kbService :: "string \<Rightarrow> string \<Rightarrow> k_service api_answer"
  kbServices :: "string \<Rightarrow> k_service list api_answer"
  kbEndpoints :: "string \<Rightarrow> string \<Rightarrow> (string list \<times> bool option) list list api_answer"
  kbPods :: "string \<Rightarrow> labels option \<Rightarrow> k_pod list api_answer"
  kbDeployments :: "string \<Rightarrow> k_workload list api_answer"
  kbStatefulSets :: "string \<Rightarrow> k_workload list api_answer"
  kbDaemonSets :: "string \<Rightarrow> k_workload list api_answer"
  kbNodes :: "k_node list api_answer"
  kbMatches :: "labels \<Rightarrow> labels \<Rightarrow> bool"

definition empty_kube :: kube where
  "empty_kube = 
     \<lparr>kbPod = (\<lambda>_ _. NotFound ''not found''), kbLog = (\<lambda>_ _ _ _ _. Inl ''no logs''), kbSecret = (\<lambda>_ _. NotFound ''not found''), kbSecrets = (\<lambda>_. Got []),
      kbConfigMap = (\<lambda>_ _. NotFound ''not found''), kbConfigMaps = (\<lambda>_. Got []), kbClaim = (\<lambda>_ _. NotFound ''not found''),
      kbStorageClass = (\<lambda>_. NotFound ''not found''), kbStorageClasses = Got [], kbServiceAccount = (\<lambda>_ _. NotFound ''not found''),
      kbService = (\<lambda>_ _. NotFound ''not found''), kbServices = (\<lambda>_. Got []), kbEndpoints = (\<lambda>_ _. Got []), kbPods = (\<lambda>_ _. Got []),
      kbDeployments = (\<lambda>_. Got []), kbStatefulSets = (\<lambda>_. Got []), kbDaemonSets = (\<lambda>_. Got []),
      kbNodes = Got [], kbMatches = (\<lambda>sel ls. list_all (\<lambda>(k, v). map_of ls k = Some v) sel)\<rparr>"

text \<open>\<open>podReady\<close> of snapshot.go\<close>

fun ready_condition :: "(string \<times> string) list \<Rightarrow> bool" where
  "ready_condition [] = False"
| "ready_condition ((t, st) # cs) = (if t = ''Ready'' then st = ''True'' else ready_condition cs)"

definition podReady :: "k_pod \<Rightarrow> bool" where
  "podReady p = ready_condition (kpConditions p)"

end
