(* ===== verification/Describe.thy ===== *)
theory Describe
  imports KubeObjects
begin

text \<open>
  The description of an object (describe.go): its record (main.go) and the text made of it.
\<close>

section \<open>An object as text\<close>

record InfoRow =
  irKey :: string
  irValue :: string

record InfoSection =
  isTitle :: string
  isRows :: "InfoRow list"

record InfoCondition =
  icType :: string
  icStatus :: string
  icReason :: string
  icMessage :: string

record ObjectInfo =
  oiKind :: string
  oiName :: string
  oiNamespace :: string
  oiNotFound :: bool
  oiError :: string
  oiAge :: string
  oiLabels :: labels
  oiAnnotations :: labels
  oiSections :: "InfoSection list"
  oiConditions :: "InfoCondition list"

definition string_less :: "string \<Rightarrow> string \<Rightarrow> bool" where "string_less s t \<longleftrightarrow> s < t"

definition sortedKeys :: "(string, 'v) gomap \<Rightarrow> string list" where
  "sortedKeys m = go_sort string_less (map fst m)"

definition writeLabels :: "labels \<Rightarrow> string" where
  "writeLabels m = concat (map (\<lambda>k. '' '' @ k @ ''='' @ al_get '''' m k) (sortedKeys m))"

definition condition_line :: "InfoCondition \<Rightarrow> string" where
  "condition_line c = ''  '' @ icType c @ '': '' @ icStatus c @
     (if icReason c \<noteq> '''' \<or> icMessage c \<noteq> '''' then '' ('' @ icReason c @ '': '' @ icMessage c @ '')'' else '''') @ nl"

definition describeBody :: "ObjectInfo \<Rightarrow> string" where
  "describeBody info =
     (if oiAge info \<noteq> '''' then ''Age: '' @ oiAge info @ nl else '''') @
     (if oiLabels info \<noteq> [] then ''Labels:'' @ writeLabels (oiLabels info) @ nl else '''') @
     (if oiAnnotations info \<noteq> [] then ''Annotations:'' @ writeLabels (oiAnnotations info) @ nl else '''') @
     concat (map (\<lambda>sec. isTitle sec @ '':'' @ nl @
                         concat (map (\<lambda>row. ''  '' @ irKey row @ '': '' @ irValue row @ nl) (isRows sec)))
               (oiSections info)) @
     (if oiConditions info \<noteq> [] then ''Conditions:'' @ nl @ concat (map condition_line (oiConditions info)) else '''')"

definition joinKV :: "labels \<Rightarrow> string" where
  "joinKV m = str_join '', '' (map (\<lambda>k. k @ ''='' @ al_get '''' m k) (sortedKeys m))"

interpretation string_order: keyed_order string_less "\<lambda>s. s"
  by unfold_locales (simp add: string_less_def)

end
