(* ===== verification/Logs.thy ===== *)
theory Logs
  imports KubeObjects Clusters Settings
begin

text \<open>
  Container logs (logs.go): which containers of a Pod are read, the line that says why its containers
  stop, the logs as evidence, and \<open>/api/logs\<close>. The bytes of a log are what the API streams, \<open>kbLog\<close>.
\<close>

section \<open>The container an event names\<close>

text \<open>\<open>containerInMsgRe\<close>\<close>

definition container_here :: "string matcher" where
  "container_here prev s =
     (let t = drop 9 s;
          u = dropWhile re_space t;
          v = (if has_prefix u [quote] then tl u else u);
          n = run_size (class_or ''_.-'' alnum_size) v
      in if fold_prefix ''container'' s \<and> starts_space t \<and> alnum_size v > 0
         then Some (take n v, length s - length v + n) else None)"

definition extractContainerFromMsg :: "string \<Rightarrow> string" where
  "extractContainerFromMsg msg = (case find_first container_here None msg of Some m \<Rightarrow> m | None \<Rightarrow> '''')"

fun event_hint :: "string \<Rightarrow> EventSummary list \<Rightarrow> string" where
  "event_hint pod [] = ''''"
| "event_hint pod (ev # evs) =
     (if evObjectName ev = pod \<and> equal_fold (evKind ev) ''Pod'' \<and> extractContainerFromMsg (evMessage ev) \<noteq> ''''
      then extractContainerFromMsg (evMessage ev) else event_hint pod evs)"

definition log_containers :: "string \<Rightarrow> k_pod \<Rightarrow> string list" where
  "log_containers hint p =
     (let names = map kcName (kpContainers p) in
      if hint \<noteq> '''' \<and> hint \<in> set names then [hint] else names)"

section \<open>Why containers stop\<close>

fun limits_of :: "k_container list \<Rightarrow> (string, string) gomap \<Rightarrow> (string, string) gomap" where
  "limits_of [] m = m"
| "limits_of (c # cs) m =
     limits_of cs (case kcMemLimit c of Some q \<Rightarrow> al_set (kcName c) q m | None \<Rightarrow> m)"

definition ended :: "(string, string) gomap \<Rightarrow> string \<Rightarrow> k_terminated \<Rightarrow> string" where
  "ended limits container t =
     (let code = ktExitCode t;
          lim = al_get '''' limits container
      in (if ktReason t = '''' then ''Error'' else ktReason t) @ '' (exit code '' @ itoa code @
         (if code = 137 then '', SIGKILL'' @ (if ktReason t \<noteq> ''OOMKilled'' then '': usually out of memory'' else '''')
          else if code = 143 then '', SIGTERM''
          else if code = 139 then '', SIGSEGV'' else '''') @
         (if lim \<noteq> '''' \<and> (code = 137 \<or> ktReason t = ''OOMKilled'') then '', memory limit '' @ lim else '''') @ '')'')"

definition status_bits :: "(string, string) gomap \<Rightarrow> k_status \<Rightarrow> string list" where
  "status_bits limits cs =
     (if ksRestarts cs > 0 then [''restarted '' @ itoa (ksRestarts cs) @ '' times''] else []) @
     (case ksLast cs of Some t \<Rightarrow> [''last run ended '' @ ended limits (ksName cs) t] | None \<Rightarrow> []) @
     (let stopped = (case ksTerminated cs of
                       Some t \<Rightarrow> [''now stopped: '' @ ended limits (ksName cs) t] | None \<Rightarrow> [])
      in case ksWaiting cs of
           Some (reason, message) \<Rightarrow>
             if reason \<noteq> ''''
             then [''now '' @ reason @
                    (if message \<noteq> '''' \<and> reason \<noteq> ''CrashLoopBackOff'' then '': '' @ truncate_runes message 200 else '''')]
             else stopped
         | None \<Rightarrow> stopped)"

definition failing_init :: "k_status \<Rightarrow> bool" where
  "failing_init cs \<longleftrightarrow>
     (case ksWaiting cs of
        Some (reason, _) \<Rightarrow> reason \<noteq> '''' \<and> reason \<noteq> ''PodInitializing'' \<and> reason \<noteq> ''ContainerCreating''
      | None \<Rightarrow> False) \<or>
     (case ksTerminated cs of Some t \<Rightarrow> ktExitCode t \<noteq> 0 | None \<Rightarrow> False) \<or>
     (case ksLast cs of Some t \<Rightarrow> ktExitCode t \<noteq> 0 | None \<Rightarrow> False)"

definition failingInitStatuses :: "k_pod \<Rightarrow> k_status list" where
  "failingInitStatuses p = filter failing_init (kpInitStatuses p)"

definition state_parts :: "k_pod \<Rightarrow> string list" where
  "state_parts p =
     (let limits = limits_of (kpInitContainers p @ kpContainers p) [];
          statuses = map (\<lambda>cs. (ksName cs @ '' (init)'', cs)) (failingInitStatuses p) @
                     map (\<lambda>cs. (ksName cs, cs)) (kpStatuses p)
      in map (\<lambda>(name, cs). name @ '' '' @ str_join '', '' (status_bits limits cs))
           (filter (\<lambda>(_, cs). status_bits limits cs \<noteq> []) statuses))"

definition containerStateLine :: "k_pod \<Rightarrow> string" where
  "containerStateLine p =
     (let parts = state_parts p in
      if parts = [] then '''' else containerStatePrefix @ str_join ''; '' parts @ ''.'')"

section \<open>Reading the logs\<close>

text \<open>\<open>hook\<close> is \<open>cl.podLogs\<close>, set when recorded clusters are replayed; errors read as no logs.\<close>

definition streamPodLogs :: "(string \<Rightarrow> string \<Rightarrow> string \<Rightarrow> int \<Rightarrow> bool \<Rightarrow> string + string) option \<Rightarrow> kube \<Rightarrow>
    string \<Rightarrow> string \<Rightarrow> string \<Rightarrow> int \<Rightarrow> bool \<Rightarrow> string" where
  "streamPodLogs hook kb ns pod container tail previous =
     (case (case hook of Some read \<Rightarrow> read | None \<Rightarrow> kbLog kb) ns pod container tail previous of
        Inr out \<Rightarrow> out | Inl _ \<Rightarrow> '''')"

definition previous_mark :: string where
  "previous_mark = ''[previous container run]'' @ nl"

definition containerLogs :: "(string \<Rightarrow> bool \<Rightarrow> string) \<Rightarrow> string \<Rightarrow> string" where
  "containerLogs read container =
     (let content = read container False; prev = read container True in
      if trim_space content = '''' \<and> trim_space prev \<noteq> '''' then previous_mark @ prev else content)"

definition log_text :: "string \<Rightarrow> string" where
  "log_text content = content @ (if has_suffix content nl then '''' else nl)"

definition fetchLogsForAI :: "(string \<Rightarrow> string \<Rightarrow> string \<Rightarrow> int \<Rightarrow> bool \<Rightarrow> string + string) option \<Rightarrow> kube \<Rightarrow>
    int \<Rightarrow> eventCache \<Rightarrow> string \<Rightarrow> string \<Rightarrow> string + string" where
  "fetchLogsForAI hook kb tail cache ns pod =
     (case kbPod kb ns pod of
        NotFound e \<Rightarrow> Inl e
      | ApiErr e \<Rightarrow> Inl e
      | Got p \<Rightarrow>
          (let read = (\<lambda>c prev. streamPodLogs hook kb ns pod c tail prev);
               containers = log_containers (event_hint pod (namespaceEvents cache ns)) p;
               state = containerStateLine p;
               inits = filter (\<lambda>c. containerLogs read c \<noteq> '''') (map ksName (failingInitStatuses p));
               headed = (length containers > 1 \<or> inits \<noteq> [])
           in Inr ((if state \<noteq> '''' then state @ nl else '''') @
                   concat (map (\<lambda>c. ''=== init container: '' @ c @ '' ==='' @ nl @ log_text (containerLogs read c)) inits) @
                   concat (map (\<lambda>c. (if headed then ''=== container: '' @ c @ '' ==='' @ nl else '''') @
                                    log_text (containerLogs read c))
                     (filter (\<lambda>c. containerLogs read c \<noteq> '''') containers)))))"

section \<open>The handler\<close>

record ContainerLogs =
  clContainer :: string
  clLogs :: string
  clError :: string

record PodLogsResponse =
  plPod :: string
  plNamespace :: string
  plContainers :: "ContainerLogs list"

definition jsonError :: "string \<Rightarrow> string \<Rightarrow> string \<Rightarrow> PodLogsResponse" where
  "jsonError ns pod msg = \<lparr>plPod = pod, plNamespace = ns,
     plContainers = [\<lparr>clContainer = ''-'', clLogs = '''', clError = msg\<rparr>]\<rparr>"

definition container_entry :: "(string \<Rightarrow> bool \<Rightarrow> string) \<Rightarrow> string \<Rightarrow> ContainerLogs" where
  "container_entry read c =
     (let now = read c False;
          again = (trim_space now = '''');
          content = (if again then read c True else now);
          previous = (again \<and> trim_space content \<noteq> '''')
      in if previous then \<lparr>clContainer = c, clLogs = previous_mark @ content, clError = ''''\<rparr>
         else if content \<noteq> '''' then \<lparr>clContainer = c, clLogs = content, clError = ''''\<rparr>
         else \<lparr>clContainer = c, clLogs = '''',
                clError = ''no logs available (pod may not be scheduled or has not produced output)''\<rparr>)"

text \<open>The reply: a status without logs, or the logs. \<open>chosen\<close> is the request's \<open>container\<close> parameter.\<close>

datatype logs_reply = LogsStatus nat | LogsReply PodLogsResponse

definition handleAPILogs :: "(string \<Rightarrow> string \<Rightarrow> string \<Rightarrow> int \<Rightarrow> bool \<Rightarrow> string + string) option \<Rightarrow>
    (clusterState \<Rightarrow> kube) \<Rightarrow> int \<Rightarrow> string \<Rightarrow> string \<Rightarrow> api_cluster \<Rightarrow> logs_reply" where
  "handleAPILogs hook kube_of tail path0 chosen target =
     (let path = (if has_prefix path0 ''/api/logs/'' then drop 10 path0 else path0);
          bad = LogsReply (jsonError '''' '''' ''invalid path: expected /api/logs/{namespace}/{pod}'')
      in case str_index path [CHR 0x2F] of
           None \<Rightarrow> bad
         | Some i \<Rightarrow>
             (let ns = take i path; pod = drop (Suc i) path in
              if ns = '''' \<or> pod = '''' then bad
              else case target of
                     ApiConflict _ \<Rightarrow> LogsStatus 409
                   | ApiCluster None \<Rightarrow> LogsStatus 200
                   | ApiCluster (Some c) \<Rightarrow>
                       (let hint = (if chosen = '''' then event_hint pod (namespaceEvents (csCache c) ns) else chosen)
                        in case kbPod (kube_of c) ns pod of
                             NotFound e \<Rightarrow> LogsReply (jsonError ns pod (''pod not found: '' @ e))
                           | ApiErr e \<Rightarrow> LogsReply (jsonError ns pod (''pod not found: '' @ e))
                           | Got p \<Rightarrow>
                               LogsReply \<lparr>plPod = pod, plNamespace = ns, plContainers =
                                 map (container_entry (\<lambda>name prev. streamPodLogs hook (kube_of c) ns pod name tail prev))
                                   (log_containers hint p)\<rparr>)))"

section \<open>What is read\<close>

lemma str_join_Nil_iff: "str_join sep ps = [] \<longleftrightarrow> ps = [] \<or> ps = [[]] \<or> sep = [] \<and> concat ps = []"
  by (induction sep ps rule: str_join.induct) auto

definition quiet :: "k_status \<Rightarrow> bool" where
  "quiet cs \<longleftrightarrow> ksRestarts cs \<le> 0 \<and> ksLast cs = None \<and> ksTerminated cs = None \<and>
     (case ksWaiting cs of Some (reason, _) \<Rightarrow> reason = '''' | None \<Rightarrow> True)"

lemma status_bits_quiet: "status_bits limits cs = [] \<longleftrightarrow> quiet cs"
  by (auto simp: status_bits_def quiet_def Let_def split: option.splits prod.splits)

lemma failing_not_quiet: "failing_init cs \<Longrightarrow> \<not> quiet cs"
  by (auto simp: failing_init_def quiet_def split: option.splits prod.splits)

lemma containerStateLine_empty: "containerStateLine p = [] \<longleftrightarrow> state_parts p = []"
  by (simp add: containerStateLine_def containerStatePrefix_def Let_def)

lemma state_parts_empty:
  "state_parts p = [] \<longleftrightarrow> list_all quiet (kpStatuses p) \<and> failingInitStatuses p = []"
proof -
  have inits: "list_all quiet (failingInitStatuses p) \<longleftrightarrow> failingInitStatuses p = []"
    using failing_not_quiet
    by (cases "failingInitStatuses p") (auto simp: failingInitStatuses_def list_all_iff dest: in_set_conv_decomp [THEN iffD2]
        filter_eq_ConsD)
  have "state_parts p = [] \<longleftrightarrow> list_all quiet (kpStatuses p) \<and> list_all quiet (failingInitStatuses p)"
    by (auto simp: state_parts_def Let_def status_bits_quiet filter_empty_conv list_all_iff)
  then show ?thesis using inits by simp
qed

text \<open>A container is read only if the Pod has it.\<close>

lemma log_containers_names: "set (log_containers hint p) \<subseteq> kcName ` set (kpContainers p)"
  by (auto simp: log_containers_def Let_def)

lemma container_entry_logs: "(clLogs (container_entry read c) = '''') \<noteq> (clError (container_entry read c) = '''')"
  by (auto simp: container_entry_def previous_mark_def Let_def)

lemma contains_part: "x \<in> set xs \<Longrightarrow> str_contains (f x) w \<Longrightarrow> str_contains (u @ concat (map f xs) @ v) w"
proof -
  assume "x \<in> set xs" "str_contains (f x) w"
  then obtain a b t r where "xs = a @ x # b" "f x = t @ w @ r" by (auto simp: str_contains_iff dest: split_list)
  then have "u @ concat (map f xs) @ v = (u @ concat (map f a) @ t) @ w @ (r @ concat (map f b) @ v)" by simp
  then show ?thesis by (metis str_contains_iff)
qed

lemma contains_empty [simp]: "str_contains s []"
  by (auto simp: str_contains_iff)

lemma contains_log_text [simp]: "str_contains (h @ log_text c) c"
  unfolding str_contains_iff log_text_def by blast

lemma contains_kept:
  assumes "c \<in> set cs"
  shows "str_contains (u @ concat (map (\<lambda>c. h c @ log_text (g c)) (filter (\<lambda>c. g c \<noteq> []) cs)) @ v) (g c)"
proof (cases "g c = []")
  case False
  then show ?thesis using assms by (intro contains_part) auto
qed simp

text \<open>
  The waiting message is cut to 200 characters but keeps its line breaks: the line with the containers'
  state can be several lines.
\<close>

definition sample_pod :: k_pod where
  "sample_pod = \<lparr>kpName = ''web'', kpNamespace = ''shop'', kpLabels = [(''app'', ''web'')], kpDeleted = False,
     kpInitContainers = [], kpContainers = [\<lparr>kcName = ''web'', kcMemLimit = Some ''64Mi'', kcPorts = []\<rparr>],
     kpVolumes = [], kpServiceAccount = '''', kpPullSecrets = [], kpNodeSelector = [], kpAffinity = [],
     kpPhase = ''Running'', kpConditions = [(''Ready'', ''False'')], kpInitStatuses = [],
     kpStatuses = [\<lparr>ksName = ''web'', ksReady = False, ksRestarts = 3,
       ksLast = Some \<lparr>ktReason = ''OOMKilled'', ktExitCode = 137\<rparr>, ksWaiting = None, ksTerminated = None\<rparr>]\<rparr>"

lemma state_line_may_break:
  "CHR 0x0A \<in> set (containerStateLine (sample_pod\<lparr>kpStatuses := [\<lparr>ksName = ''web'', ksReady = False,
     ksRestarts = 0, ksLast = None, ksWaiting = Some (''ImagePullBackOff'', ''first'' @ nl @ ''second''),
     ksTerminated = None\<rparr>]\<rparr>))"
  by code_simp

definition sample_kube :: kube where
  "sample_kube = empty_kube\<lparr>kbPod := (\<lambda>ns pod. if pod = ''web'' then Got sample_pod else NotFound ''no such pod''),
     kbLog := (\<lambda>ns pod c tail prev. if prev then Inr ''out of memory'' else Inl ''waiting'')\<rparr>"

lemma sample_state_line:
  "containerStateLine sample_pod =
     ''Container state: web restarted 3 times, last run ended OOMKilled (exit code 137, SIGKILL, memory limit 64Mi).''"
  by code_simp

section \<open>Properties\<close>

text \<open>
  nothing is said of the containers' state exactly when there is nothing to say: no container has
  restarted, has ended or waits for a reason, and no init container is failing.
\<close>

lemma state_line_silent:
  "containerStateLine p = '''' \<longleftrightarrow> list_all quiet (kpStatuses p) \<and> failingInitStatuses p = []"
  using containerStateLine_empty state_parts_empty by simp

text \<open>
  the log page has one entry for each container it reads, all of them the Pod's, and each entry has
  either logs or an error.
\<close>

lemma log_entries:
  assumes "kbPod (kube_of c) ns pod = Got p" and "ns \<noteq> ''''" and "pod \<noteq> ''''" and "CHR 0x2F \<notin> set ns"
  shows "\<exists>r. handleAPILogs hook kube_of tail (''/api/logs/'' @ ns @ ''/'' @ pod) chosen (ApiCluster (Some c)) = LogsReply r \<and>
     plNamespace r = ns \<and> plPod r = pod \<and>
     set (map clContainer (plContainers r)) \<subseteq> set (map kcName (kpContainers p)) \<and>
     list_all (\<lambda>e. (clLogs e = '''') \<noteq> (clError e = '''')) (plContainers r)"
proof -
  have path: "str_index (ns @ ''/'' @ pod) [CHR 0x2F] = Some (length ns)"
    using assms(4) by (induction ns) (auto simp: has_prefix_def)
  have prefix: "has_prefix (''/api/logs/'' @ ns @ ''/'' @ pod) ''/api/logs/''" by (rule has_prefix_append)
  have name: "clContainer (container_entry read n) = n" for read n
    by (simp add: container_entry_def Let_def)
  let ?hint = "if chosen = '''' then event_hint pod (namespaceEvents (csCache c) ns) else chosen"
  let ?read = "\<lambda>name prev. streamPodLogs hook (kube_of c) ns pod name tail prev"
  have "handleAPILogs hook kube_of tail (''/api/logs/'' @ ns @ ''/'' @ pod) chosen (ApiCluster (Some c)) =
      LogsReply \<lparr>plPod = pod, plNamespace = ns, plContainers = map (container_entry ?read) (log_containers ?hint p)\<rparr>"
    using assms(1-3) path prefix by (simp add: handleAPILogs_def Let_def)
  then show ?thesis
    using container_entry_logs log_containers_names [of ?hint p] by (auto simp: list_all_iff name)
qed

lemma log_entries_witness:
  "\<exists>r. handleAPILogs None (\<lambda>_. sample_kube) 150 (''/api/logs/'' @ ''shop'' @ ''/'' @ ''web'') ''''
      (ApiCluster (Some (newClusterState ''c'' ''c''))) = LogsReply r \<and>
    set (map clContainer (plContainers r)) \<subseteq> {''web''}"
proof -
  have "kbPod sample_kube ''shop'' ''web'' = Got sample_pod" by (simp add: sample_kube_def)
  from log_entries [of "\<lambda>_. sample_kube", OF this, of None 150 "''''"] show ?thesis
    by (fastforce simp: sample_pod_def)
qed

text \<open>
  the logs read for the model hold everything: they start with the containers' state, and have the
  logs of every failing init container and of every container chosen. They are refused only when the
  Pod cannot be read.
\<close>

lemma fetched_logs_complete:
  "case fetchLogsForAI hook kb tail cache ns pod of
     Inl e \<Rightarrow> got (kbPod kb ns pod) = None
   | Inr t \<Rightarrow> (\<exists>p. kbPod kb ns pod = Got p \<and> has_prefix t (containerStateLine p) \<and>
       list_all (\<lambda>c. str_contains t (containerLogs (\<lambda>c prev. streamPodLogs hook kb ns pod c tail prev) c))
         (map ksName (failingInitStatuses p) @
          log_containers (event_hint pod (namespaceEvents cache ns)) p))"
proof (cases "kbPod kb ns pod")
  case (Got p)
  let ?g = "containerLogs (\<lambda>c prev. streamPodLogs hook kb ns pod c tail prev)"
  let ?cs = "log_containers (event_hint pod (namespaceEvents cache ns)) p"
  let ?inits = "map ksName (failingInitStatuses p)"
  let ?state = "if containerStateLine p \<noteq> '''' then containerStateLine p @ nl else ''''"
  let ?h1 = "\<lambda>c. ''=== init container: '' @ c @ '' ==='' @ nl"
  obtain h2 where t: "fetchLogsForAI hook kb tail cache ns pod =
      Inr (?state @ concat (map (\<lambda>c. ?h1 c @ log_text (?g c)) (filter (\<lambda>c. ?g c \<noteq> []) ?inits)) @
           concat (map (\<lambda>c. h2 c @ log_text (?g c)) (filter (\<lambda>c. ?g c \<noteq> []) ?cs)))"
    using Got unfolding fetchLogsForAI_def Let_def by auto
  have one: "str_contains (?state @ concat (map (\<lambda>c. ?h1 c @ log_text (?g c)) (filter (\<lambda>c. ?g c \<noteq> []) ?inits)) @
      v) (?g c)" if "c \<in> set ?inits" for c v
    using contains_kept [OF that] .
  have two: "str_contains (?state @ u @ concat (map (\<lambda>c. h2 c @ log_text (?g c)) (filter (\<lambda>c. ?g c \<noteq> []) ?cs))) (?g c)"
    if "c \<in> set ?cs" for c u
    using contains_kept [OF that, of "?state @ u" h2 ?g "[]"] by simp
  have pre: "has_prefix (?state @ w) (containerStateLine p)" for w by (auto simp: has_prefix_iff)
  show ?thesis unfolding t using Got one two pre by (simp only: sum.case list_all_iff set_append Un_iff) blast
qed (simp_all add: fetchLogsForAI_def got_def)

end
