(* ===== verification/LinkedText.thy ===== *)
theory LinkedText
  imports BriefText
begin

text \<open>
  The linked evidence as text (linked.go): the followed objects, their block within a token budget, and
  the small string functions the rules use. Tokens are counted by \<open>estimateTokens\<close>.
\<close>

section \<open>Items and their block\<close>

definition linkedShare :: int where "linkedShare = 15"
definition linkedMaxPods :: nat where "linkedMaxPods = 3"
definition linkedMaxServices :: nat where "linkedMaxServices = 3"
definition linkedMaxNodes :: nat where "linkedMaxNodes = 6"
definition linkedMaxBacking :: nat where "linkedMaxBacking = 3"
definition linkedMaxEvents :: nat where "linkedMaxEvents = 3"
definition linkedMaxNames :: nat where "linkedMaxNames = 8"
definition linkedMsgLen :: nat where "linkedMsgLen = 300"

definition linkedHeading :: string where
  "linkedHeading = nl @ ''Linked evidence (followed from the evidence above):'' @ nl"

record linkedItem =
  liRule :: string
  liKind :: string
  liNS :: string
  liName :: string
  liFacts :: string
  liLines :: "string list"

definition linked_key :: "linkedItem \<Rightarrow> string" where
  "linked_key it = liKind it @ ''/'' @ liNS it @ ''/'' @ liName it"

definition linked_tag :: "linkedItem \<Rightarrow> string" where
  "linked_tag it = liRule it @ '':'' @ liKind it @ ''/'' @ liName it"

definition linked_text :: "linkedItem \<Rightarrow> string" where
  "linked_text it = ''- '' @ liKind it @ '' '' @ liName it @ '': '' @ liFacts it @ nl @
     concat (map (\<lambda>l. ''  - '' @ l @ nl) (liLines it))"

definition writeLinked :: "linkedItem list \<Rightarrow> int \<Rightarrow> string" where
  "writeLinked items trimmed =
     linkedHeading @ concat (map linked_text items) @
     (if trimmed > 0
      then ''('' @ itoa trimmed @ '' linked evidence '' @ pluralWord ''line'' ''lines'' trimmed @
           '' trimmed to fit the model'' @ [CHR 0x27] @ ''s context)'' @ nl
      else '''')"

text \<open>
  The loop of \<open>renderLinked\<close>: the last object goes, then the last line of the only object left.
\<close>

function render_loop :: "(string \<Rightarrow> int) \<Rightarrow> int \<Rightarrow> linkedItem list \<Rightarrow> int \<Rightarrow> string \<times> linkedItem list \<times> int" where
  "render_loop estimate budget kept trimmed =
     (let text = writeLinked kept trimmed in
      if budget \<le> 0 \<or> estimate text \<le> budget then (text, kept, trimmed)
      else if length kept > 1 then
        render_loop estimate budget (butlast kept) (trimmed + 1 + int (length (liLines (last kept))))
      else if kept \<noteq> [] \<and> liLines (last kept) \<noteq> [] then
        render_loop estimate budget [(last kept)\<lparr>liLines := butlast (liLines (last kept))\<rparr>] (trimmed + 1)
      else ('''', [], trimmed + 1))"
  by pat_completeness auto
termination
  by (relation "measures [\<lambda>(_, _, kept, _). length kept, \<lambda>(_, _, kept, _). length (liLines (last kept))]")
    (auto simp: not_less le_Suc_eq)

declare render_loop.simps [simp del]

definition renderLinked :: "(string \<Rightarrow> int) \<Rightarrow> linkedItem list \<Rightarrow> int \<Rightarrow> string \<times> linkedItem list \<times> int" where
  "renderLinked estimate items budget =
     (if items = [] then ('''', [], 0) else render_loop estimate budget items 0)"

text \<open>0 when the context length is unknown: no limit.\<close>

definition linkedBudget :: "int \<Rightarrow> int" where
  "linkedBudget ctxLen = (if ctxLen \<le> 0 then 0 else max (go_div (ctxLen * linkedShare) 100) 1)"

section \<open>Strings\<close>

definition linkedEventLine :: "EventSummary \<Rightarrow> string" where
  "linkedEventLine ev = ''['' @ evType ev @ ''] '' @ evReason ev @ '': '' @
     oneLine (truncate_runes (evMessage ev) linkedMsgLen) @ ''  ('' @ times_sign @ itoa (evCount ev) @
     '', '' @ evAge ev @ '' ago)''"

definition listNames :: "string list \<Rightarrow> nat \<Rightarrow> string" where
  "listNames names n =
     (if length names > n
      then str_join '', '' (take n names) @ '', '' @ ellipsis @ '' ('' @ itoa (int (length names)) @ '' in all)''
      else str_join '', '' names)"

definition name_byte :: "char \<Rightarrow> bool" where
  "name_byte c \<longleftrightarrow> c \<in> set ''-._'' \<or> in_range 97 122 c \<or> in_range 65 90 c \<or> is_digit c"

text \<open>Whether the word at index \<open>j\<close> is a whole name: a dot that ends a sentence does not belong to it.\<close>

definition whole_word :: "string \<Rightarrow> string \<Rightarrow> nat \<Rightarrow> bool" where
  "whole_word s w j \<longleftrightarrow>
     (let e = j + length w in
      (j = 0 \<or> \<not> name_byte (s ! (j - 1))) \<and>
      (e = length s \<or> \<not> name_byte (s ! e) \<or>
       s ! e = CHR ''.'' \<and> (e + 1 = length s \<or> \<not> name_byte (s ! (e + 1)))))"

lemma str_index_drop: "str_index (drop i s) w = Some j \<Longrightarrow> w \<noteq> [] \<Longrightarrow> i + j < length s"
  by (drule str_index_bound) (cases w; simp)

text \<open>The loop of \<open>containsWord\<close>, from index \<open>i\<close>.\<close>

function word_from :: "string \<Rightarrow> string \<Rightarrow> nat \<Rightarrow> bool" where
  "word_from s w i =
     (case str_index (drop i s) w of
        None \<Rightarrow> False
      | Some j0 \<Rightarrow> if w = [] then False else if whole_word s w (i + j0) then True else word_from s w (Suc (i + j0)))"
  by pat_completeness auto
termination
  by (relation "measure (\<lambda>(s, w, i). length s - i)") (auto dest: str_index_drop)

declare word_from.simps [simp del]

definition containsWord :: "string \<Rightarrow> string \<Rightarrow> bool" where
  "containsWord s w = (if w = '''' then False else word_from s w 0)"

text \<open>\<open>editDistance\<close>: one row of the table after another; \<open>diag\<close> is the entry up and to the left.\<close>

fun edit_row :: "char \<Rightarrow> string \<Rightarrow> nat \<Rightarrow> nat list \<Rightarrow> nat \<Rightarrow> nat list" where
  "edit_row c (b # bs) diag (p # prev) left =
     (let v = min (min (p + 1) (left + 1)) (diag + (if c = b then 0 else 1))
      in v # edit_row c bs p prev v)"
| "edit_row c _ diag _ left = []"

definition next_row :: "string \<Rightarrow> nat list \<Rightarrow> char \<Rightarrow> nat list" where
  "next_row b prev c = (let left = Suc (hd prev) in left # edit_row c b (hd prev) (tl prev) left)"

definition editDistance :: "string \<Rightarrow> string \<Rightarrow> nat" where
  "editDistance a b = last (foldl (next_row b) [0..<Suc (length b)] a)"

section \<open>What the block keeps\<close>

text \<open>An item is a line of its own and its lines.\<close>

definition linked_lines :: "linkedItem list \<Rightarrow> nat" where
  "linked_lines items = sum_list (map (\<lambda>it. Suc (length (liLines it))) items)"

text \<open>The first items, the last one with its first lines.\<close>

definition first_items :: "linkedItem list \<Rightarrow> linkedItem list \<Rightarrow> bool" where
  "first_items kept items \<longleftrightarrow> kept = [] \<or>
     (\<exists>k it rest. items = butlast kept @ it # rest \<and> last kept = it\<lparr>liLines := take k (liLines it)\<rparr> \<and>
        (k \<ge> length (liLines it) \<or> butlast kept = []))"

lemma linked_lines_snoc:
  "kept \<noteq> [] \<Longrightarrow> linked_lines kept = linked_lines (butlast kept) + Suc (length (liLines (last kept)))"
  by (induction kept rule: rev_induct) (simp_all add: linked_lines_def)

lemma first_items_butlast:
  assumes "first_items kept items" and "length kept > 1"
  shows "first_items (butlast kept) items"
proof -
  obtain k it rest where k: "items = butlast kept @ it # rest" using assms by (auto simp: first_items_def)
  have ne: "butlast kept \<noteq> []" using assms(2) by (cases kept rule: rev_cases) auto
  let ?l = "last (butlast kept)"
  have "items = butlast (butlast kept) @ ?l # (it # rest)" using k ne by simp
  moreover have "?l = ?l\<lparr>liLines := take (length (liLines ?l)) (liLines ?l)\<rparr>" by simp
  ultimately show ?thesis unfolding first_items_def by blast
qed

lemma render_loop_spec:
  assumes "render_loop estimate budget kept trimmed = (text, kept', trimmed')"
    and "first_items kept items" and "kept \<noteq> []" and "trimmed + int (linked_lines kept) = int (linked_lines items)"
    and "trimmed \<ge> 0"
  shows "trimmed' + int (linked_lines kept') = int (linked_lines items) \<and> first_items kept' items \<and>
    (kept' = [] \<and> text = '''' \<and> budget > 0 \<or>
     kept' \<noteq> [] \<and> text = writeLinked kept' trimmed' \<and> (budget \<le> 0 \<or> estimate text \<le> budget))"
  using assms
proof (induction estimate budget kept trimmed rule: render_loop.induct)
  case (1 estimate budget kept trimmed)
  let ?text = "writeLinked kept trimmed"
  consider (fits) "budget \<le> 0 \<or> estimate ?text \<le> budget"
    | (many) "\<not> (budget \<le> 0 \<or> estimate ?text \<le> budget)" "length kept > 1"
    | (lines) "\<not> (budget \<le> 0 \<or> estimate ?text \<le> budget)" "\<not> length kept > 1" "liLines (last kept) \<noteq> []"
    | (none) "\<not> (budget \<le> 0 \<or> estimate ?text \<le> budget)" "\<not> length kept > 1" "liLines (last kept) = []"
    by blast
  then show ?case
  proof cases
    case fits
    then have "text = ?text" "kept' = kept" "trimmed' = trimmed"
      using "1.prems"(1) by (auto simp: render_loop.simps [of estimate budget kept] Let_def)
    then show ?thesis using fits "1.prems" by blast
  next
    case many
    have "butlast kept \<noteq> []" using many(2) by (cases kept rule: rev_cases) auto
    moreover have "render_loop estimate budget (butlast kept) (trimmed + 1 + int (length (liLines (last kept)))) =
        (text, kept', trimmed')"
      using "1.prems"(1) many by (simp add: render_loop.simps [of estimate budget kept] Let_def)
    moreover have "trimmed + 1 + int (length (liLines (last kept))) + int (linked_lines (butlast kept)) =
        int (linked_lines items)"
      using "1.prems"(3,4) linked_lines_snoc [of kept] by simp
    ultimately show ?thesis
      using "1.IH"(1) [OF refl many] first_items_butlast [OF "1.prems"(2) many(2)] "1.prems"(5) by simp
  next
    case lines
    obtain it where it: "kept = [it]" using lines(2) "1.prems"(3) by (cases kept) auto
    obtain it0 k rest where i0: "items = it0 # rest" "it = it0\<lparr>liLines := take k (liLines it0)\<rparr>"
      using "1.prems"(2) it by (auto simp: first_items_def)
    let ?it' = "it\<lparr>liLines := butlast (liLines it)\<rparr>"
    have "?it' = it0\<lparr>liLines := take (min k (length (liLines it0)) - 1) (liLines it0)\<rparr>"
      by (simp add: i0(2) butlast_conv_take min.commute min_diff)
    then have "first_items [?it'] items" using i0(1) by (auto simp: first_items_def)
    moreover have "render_loop estimate budget [?it'] (trimmed + 1) = (text, kept', trimmed')"
      using "1.prems"(1) lines it by (simp add: render_loop.simps [of estimate budget "[it]" trimmed] Let_def)
    moreover have "trimmed + 1 + int (linked_lines [?it']) = int (linked_lines items)"
      using "1.prems"(4) it lines(3) by (auto simp: linked_lines_def) 
    ultimately show ?thesis
      using "1.IH"(2) [OF refl lines(1,2)] lines(3) it "1.prems"(5) by simp
  next
    case none
    obtain it where it: "kept = [it]" using none(2) "1.prems"(3) by (cases kept) auto
    have "text = ''''" "kept' = []" "trimmed' = trimmed + 1"
      using "1.prems"(1) none it by (auto simp: render_loop.simps [of estimate budget "[it]" trimmed] Let_def)
    then show ?thesis using none it "1.prems"(4) by (simp add: linked_lines_def first_items_def)
  qed
qed

section \<open>Whole words\<close>

lemma str_index_least:
  assumes "str_index s w = Some j" and "has_prefix (drop k s) w" and "k \<le> length s"
  shows "j \<le> k"
proof -
  obtain u where "drop k s = w @ u" using assms(2) by (auto simp: has_prefix_iff)
  then have "s = take k s @ w @ u" by (metis append_take_drop_id)
  then show ?thesis using str_index_first [of "take k s" w u j] assms(1,3) by simp
qed

lemma str_index_prefix: "str_index s w = Some j \<Longrightarrow> has_prefix (drop j s) w"
  by (induction s arbitrary: j) (auto simp: has_prefix_iff split: if_splits option.splits)

lemma word_from_iff:
  "w \<noteq> [] \<Longrightarrow> word_from s w i \<longleftrightarrow> (\<exists>j\<ge>i. j < length s \<and> has_prefix (drop j s) w \<and> whole_word s w j)"
proof (induction s w i rule: word_from.induct)
  case (1 s w i)
  show ?case
  proof (cases "str_index (drop i s) w")
    case None
    have "\<not> has_prefix (drop j s) w" if "i \<le> j" for j
    proof
      assume "has_prefix (drop j s) w"
      then obtain u where "drop j s = w @ u" by (auto simp: has_prefix_iff)
      moreover have "drop i s = take (j - i) (drop i s) @ drop j s"
        using that by (metis append_take_drop_id drop_drop le_add_diff_inverse2)
      ultimately show False using None by (metis str_index_None_iff)
    qed
    then show ?thesis using None by (subst word_from.simps) auto
  next
    case (Some j0)
    have least: "i + j0 \<le> j" if "i \<le> j" "j < length s" "has_prefix (drop j s) w" for j
    proof -
      have "has_prefix (drop (j - i) (drop i s)) w" using that by simp
      from str_index_least [OF Some this] that show ?thesis by (simp add: le_diff_conv2 less_imp_le)
    qed
    have here: "has_prefix (drop (i + j0) s) w" using str_index_prefix [OF Some] by (simp add: add.commute)
    have bound: "i + j0 < length s" using str_index_drop [OF Some "1.prems"] .
    show ?thesis
    proof (cases "whole_word s w (i + j0)")
      case True
      then show ?thesis using Some "1.prems" here bound
        by (subst word_from.simps) (auto intro!: exI [of _ "i + j0"])
    next
      case False
      have "word_from s w i \<longleftrightarrow> word_from s w (Suc (i + j0))"
        using Some "1.prems" False by (subst word_from.simps) simp
      also have "\<dots> \<longleftrightarrow> (\<exists>j\<ge>Suc (i + j0). j < length s \<and> has_prefix (drop j s) w \<and> whole_word s w j)"
        using "1.IH" [OF Some "1.prems" False] "1.prems" by blast
      also have "\<dots> \<longleftrightarrow> (\<exists>j\<ge>i. j < length s \<and> has_prefix (drop j s) w \<and> whole_word s w j)"
        using least False by (metis Suc_leI add_leD1 le_neq_implies_less Suc_leD)
      finally show ?thesis .
    qed
  qed
qed

section \<open>The edit distance\<close>

text \<open>Turning one string into another at a cost: keep or replace, delete, insert.\<close>

inductive edits :: "string \<Rightarrow> string \<Rightarrow> nat \<Rightarrow> bool" where
  nothing: "edits [] [] 0"
| delete: "edits a b n \<Longrightarrow> edits (x # a) b (n + 1)"
| insert: "edits a b n \<Longrightarrow> edits a (y # b) (n + 1)"
| replace: "edits a b n \<Longrightarrow> edits (x # a) (y # b) (n + (if x = y then 0 else 1))"

fun lev :: "string \<Rightarrow> string \<Rightarrow> nat" where
  "lev [] b = length b"
| "lev (x # a) [] = Suc (length a)"
| "lev (x # a) (y # b) =
     min (min (lev a (y # b) + 1) (lev (x # a) b + 1)) (lev a b + (if x = y then 0 else 1))"

lemma edits_all_in: "edits [] b (length b)"
  by (induction b) (auto intro: edits.intros dest: edits.insert)

lemma edits_all_out: "edits a [] (length a)"
  by (induction a) (auto intro: edits.intros dest: edits.delete)

lemma edits_lev: "edits a b (lev a b)"
proof (induction a b rule: lev.induct)
  case (3 x a y b)
  then show ?case
    using edits.delete [of a "y # b" "lev a (y # b)" x] edits.insert [of "x # a" b "lev (x # a) b" y]
      edits.replace [of a b "lev a b" x y]
    by (auto simp: min_def)
next
  case (2 x a)
  then show ?case using edits_all_out [of "x # a"] by simp
qed (simp add: edits_all_in)

lemma lev_delete: "lev (x # a) b \<le> lev a b + 1"
  by (cases b; cases a) auto

lemma lev_insert: "lev a (y # b) \<le> lev a b + 1"
  by (cases a; cases b) auto

lemma lev_least: "edits a b n \<Longrightarrow> lev a b \<le> n"
proof (induction rule: edits.induct)
  case (delete a b n x)
  then show ?case using lev_delete [of x a b] by simp
next
  case (insert a b n y)
  then show ?case using lev_insert [of a y b] by simp
qed auto

lemma edits_append: "edits a b n \<Longrightarrow> edits a' b' m \<Longrightarrow> edits (a @ a') (b @ b') (n + m)"
proof (induction rule: edits.induct)
  case (delete a b n x)
  then show ?case using edits.delete [of "a @ a'" "b @ b'" "n + m" x] by simp
next
  case (insert a b n y)
  then show ?case using edits.insert [of "a @ a'" "b @ b'" "n + m" y] by simp
next
  case (replace a b n x y)
  then show ?case using edits.replace [of "a @ a'" "b @ b'" "n + m" x y] by (cases "x = y") simp_all
qed simp

lemma edits_rev: "edits a b n \<Longrightarrow> edits (rev a) (rev b) n"
proof (induction rule: edits.induct)
  case (delete a b n x)
  then show ?case using edits_append [OF delete.IH edits.delete [OF edits.nothing, of x]] by simp
next
  case (insert a b n y)
  then show ?case using edits_append [OF insert.IH edits.insert [OF edits.nothing, of y]] by simp
next
  case (replace a b n x y)
  then show ?case using edits_append [OF replace.IH edits.replace [OF edits.nothing, of x y]] by simp
qed (simp add: edits.nothing)

lemma lev_rev: "lev (rev a) (rev b) = lev a b"
  by (metis edits_lev edits_rev lev_least le_antisym rev_rev_ident)

definition lev_row :: "string \<Rightarrow> string \<Rightarrow> nat list \<Rightarrow> nat list" where
  "lev_row a b js = map (\<lambda>j. lev (rev a) (rev (take j b))) js"

lemma edit_row_lev:
  "k \<le> length b \<Longrightarrow>
   edit_row c (drop k b) (lev (rev a) (rev (take k b))) (lev_row a b [Suc k..<Suc (length b)])
     (lev (rev (a @ [c])) (rev (take k b))) = lev_row (a @ [c]) b [Suc k..<Suc (length b)]"
proof (induction "length b - k" arbitrary: k)
  case 0
  then show ?case by (simp add: lev_row_def)
next
  case (Suc d)
  then have k: "k < length b" by simp
  have row: "[Suc k..<Suc (length b)] = Suc k # [Suc (Suc k)..<Suc (length b)]" using k by (simp add: upt_conv_Cons)
  have b: "drop k b = b ! k # drop (Suc k) b" using k by (simp add: Cons_nth_drop_Suc)
  have t: "rev (take (Suc k) b) = b ! k # rev (take k b)" using k by (simp add: take_Suc_conv_app_nth)
  have v: "min (min (lev (rev a) (rev (take (Suc k) b)) + 1) (lev (rev (a @ [c])) (rev (take k b)) + 1))
      (lev (rev a) (rev (take k b)) + (if c = b ! k then 0 else 1)) = lev (rev (a @ [c])) (rev (take (Suc k) b))"
    unfolding t by simp
  have IH: "edit_row c (drop (Suc k) b) (lev (rev a) (rev (take (Suc k) b)))
      (lev_row a b [Suc (Suc k)..<Suc (length b)]) (lev (rev (a @ [c])) (rev (take (Suc k) b))) =
      lev_row (a @ [c]) b [Suc (Suc k)..<Suc (length b)]"
    using Suc.hyps(1) [of "Suc k"] Suc.hyps(2) k by simp
  show ?case
    unfolding row lev_row_def list.map b
    using IH unfolding lev_row_def by (simp only: edit_row.simps Let_def v)
qed

lemma next_row_lev:
  "next_row b (lev_row a b [0..<Suc (length b)]) c = lev_row (a @ [c]) b [0..<Suc (length b)]"
proof -
  have row: "[0..<Suc (length b)] = 0 # [Suc 0..<Suc (length b)]" by (simp add: upt_conv_Cons del: upt_Suc)
  have 0: "Suc (lev (rev a) []) = lev (rev (a @ [c])) []" by (cases "rev a") simp_all
  show ?thesis
    using edit_row_lev [of 0 b c a] 0 unfolding row by (simp add: next_row_def lev_row_def Let_def)
qed

lemma editDistance_lev: "editDistance a b = lev a b"
proof -
  have "foldl (next_row b) [0..<Suc (length b)] a = lev_row a b [0..<Suc (length b)]"
  proof (induction a rule: rev_induct)
    case Nil
    show ?case by (auto simp: lev_row_def intro!: nth_equalityI)
  next
    case (snoc c a)
    then show ?case by (simp add: next_row_lev del: upt_Suc)
  qed
  then have "editDistance a b = lev (rev a) (rev b)"
    unfolding editDistance_def by (simp add: lev_row_def)
  then show ?thesis by (simp add: lev_rev)
qed

section \<open>Properties\<close>

text \<open>
  the linked block keeps the first of what it was given: the first objects, the last of them perhaps
  with its first lines only. It is within its budget or empty, and the number of trimmed lines it
  reports accounts for every line that is missing.
\<close>

lemma linked_block_fits:
  "case renderLinked estimate items budget of (text, kept, trimmed) \<Rightarrow>
     first_items kept items \<and> trimmed + int (linked_lines kept) = int (linked_lines items) \<and>
     (if kept = [] then text = '''' else text = writeLinked kept trimmed \<and> (budget \<le> 0 \<or> estimate text \<le> budget))"
proof (cases "items = []")
  case True
  then show ?thesis by (simp add: renderLinked_def first_items_def linked_lines_def)
next
  case False
  obtain out kept trimmed where run: "render_loop estimate budget items 0 = (out, kept, trimmed)"
    using prod_cases3 by blast
  have "last items = (last items)\<lparr>liLines := take (length (liLines (last items))) (liLines (last items))\<rparr>" by simp
  then have "first_items items items"
    unfolding first_items_def using append_butlast_last_id [OF False] by (metis le_refl)
  from render_loop_spec [OF run this False] show ?thesis
    using False run by (auto simp: renderLinked_def)
qed

text \<open>
  a name is looked for as a whole word: it is found exactly where it stands with no name character
  before it and none after it, a dot that ends a sentence apart.
\<close>

lemma contains_whole_words:
  "containsWord s w =
     (if w = '''' then False
      else (\<exists>j. j < length s \<and> has_prefix (drop j s) w \<and> whole_word s w j))"
  using word_from_iff [of w s 0] by (auto simp: containsWord_def)

text \<open>
  the distance by which a label is taken for a typing error of another is the least number of
  letters to insert, delete and replace.
\<close>

lemma edit_distance_least:
  "editDistance a b = (LEAST n. edits a b n)"
proof -
  have "edits a b (lev a b)" by (rule edits_lev)
  then show ?thesis
    unfolding editDistance_lev using lev_least [of a b] by (metis Least_equality)
qed

end
