(* ===== verification/Evidence.thy ===== *)
theory Evidence
  imports Describe Logs LinkedText
begin

text \<open>
  The evidence about one object (rca.go, describe.go): the description of the object as text, its
  events, the warnings of what it owns, and the first prompt, trimmed to fit the model's context.
\<close>

section \<open>Events of the object and of what it owns\<close>

definition rcaFormatDescribe :: "ObjectInfo \<Rightarrow> string" where
  "rcaFormatDescribe info =
     ''Describe '' @ oiNamespace info @ ''/'' @ oiKind info @ ''/'' @ oiName info @ '':'' @ nl @ describeBody info"

definition rcaMemberWarnings :: nat where "rcaMemberWarnings = 12"
definition promptShare :: int where "promptShare = 60"

definition promptBudget :: "int \<Rightarrow> int \<Rightarrow> int" where
  "promptBudget ctxLen overhead =
     (if ctxLen \<le> 0 then 0 else max (go_div (ctxLen * promptShare) 100 - overhead) 1)"

definition about_object :: "string \<Rightarrow> string \<Rightarrow> EventSummary \<Rightarrow> bool" where
  "about_object kind name ev \<longleftrightarrow> equal_fold (evKind ev) kind \<and> evObjectName ev = name"

definition objectEvents :: "eventCache \<Rightarrow> string \<Rightarrow> string \<Rightarrow> string \<Rightarrow> EventSummary list" where
  "objectEvents cache ns kind name = filter (about_object kind name) (scopeEvents cache ns)"

definition ownedBy :: "objRef list \<Rightarrow> string \<Rightarrow> string \<Rightarrow> bool" where
  "ownedBy chain kind name = list_ex (\<lambda>r. equal_fold (rKind r) kind \<and> rName r = name) (tl chain)"

definition event_suffix :: "EventSummary \<Rightarrow> string" where
  "event_suffix ev = ''  ('' @ times_sign @ itoa (evCount ev) @ '', '' @ evAge ev @ '' ago)''"

definition memberLine :: "EventSummary \<Rightarrow> string" where
  "memberLine ev = ''- '' @ evKind ev @ '' '' @ evObjectName ev @ '' '' @ evReason ev @ '': '' @ evMessage ev @
     event_suffix ev"

definition member_warning :: "time \<Rightarrow> clusterState \<Rightarrow> string \<Rightarrow> string \<Rightarrow> string \<Rightarrow> EventSummary \<Rightarrow> bool" where
  "member_warning now cl ns kind name ev \<longleftrightarrow>
     evType ev = ''Warning'' \<and> evObjectName ev \<noteq> '''' \<and> \<not> about_object kind name ev \<and>
     ownedBy (fst (ownerChain now (csOwners cl) ns (ObjRef (evKind ev) (evObjectName ev)))) kind name"

text \<open>The loop of \<open>memberWarnings\<close>: the keys seen, the warnings kept and when each Pod was last seen.\<close>

definition member_key :: "EventSummary \<Rightarrow> string" where
  "member_key ev = evKind ev @ ''/'' @ evObjectName ev @ ''/'' @ evReason ev"

type_synonym members = "string list \<times> EventSummary list \<times> (string, time) gomap"

definition member_step :: "members \<Rightarrow> EventSummary \<Rightarrow> members" where
  "member_step st ev =
     (case st of (keys, evs, podLast) \<Rightarrow>
        let podLast' = (if evKind ev = ''Pod'' \<and> evLastTime ev > al_get 0 podLast (evObjectName ev)
                        then al_set (evObjectName ev) (evLastTime ev) podLast else podLast)
        in if member_key ev \<notin> set keys \<and> length evs < rcaMemberWarnings
           then (member_key ev # keys, evs @ [ev], podLast') else (keys, evs, podLast'))"

definition pod_less :: "(string, time) gomap \<Rightarrow> string \<Rightarrow> string \<Rightarrow> bool" where
  "pod_less podLast p q =
     (if al_get 0 podLast p \<noteq> al_get 0 podLast q then al_get 0 podLast p > al_get 0 podLast q else p < q)"

definition memberWarnings :: "time \<Rightarrow> clusterState \<Rightarrow> string \<Rightarrow> string \<Rightarrow> string \<Rightarrow> EventSummary list \<times> string list" where
  "memberWarnings now cl ns kind name =
     (case foldl member_step ([], [], [])
             (filter (member_warning now cl ns kind name) (scopeEvents (csCache cl) ns)) of
        (_, evs, podLast) \<Rightarrow> (evs, go_sort (pod_less podLast) (map fst podLast)))"

definition memberEvidence :: "time \<Rightarrow> clusterState \<Rightarrow> string \<Rightarrow> string \<Rightarrow> string \<Rightarrow> string list \<times> string list" where
  "memberEvidence now cl ns kind name =
     (case memberWarnings now cl ns kind name of (evs, pods) \<Rightarrow> (map memberLine evs, pods))"

definition newest_first :: "EventSummary list \<Rightarrow> nat \<Rightarrow> nat \<Rightarrow> bool" where
  "newest_first evs i j \<longleftrightarrow> evLastTime (evs ! i) > evLastTime (evs ! j)"

definition newestEvents :: "EventSummary list \<Rightarrow> nat \<Rightarrow> EventSummary list" where
  "newestEvents evs n =
     (if n \<ge> length evs then evs
      else let keep = take n (go_sort (newest_first evs) [0..<length evs])
           in map ((!) evs) (filter (\<lambda>i. i \<in> set keep) [0..<length evs]))"

section \<open>The first prompt\<close>

record evidence =
  edHead :: string
  edEvents :: "EventSummary list"
  edDescribe :: string
  edKind :: string
  edMembers :: "string list"
  edLogsHead :: string
  edLogs :: string
  edNote :: string
  edTail :: string
  edMemberEvents :: "EventSummary list"
  edLinked :: string
  edLinkedItems :: "linkedItem list"
  edLinkedTrimmed :: int

text \<open>The loop of \<open>addWorkload\<close> over the newest failing Pods.\<close>

fun first_logs :: "(string \<Rightarrow> string + string) \<Rightarrow> string list \<Rightarrow> (string \<times> string) option" where
  "first_logs fetch [] = None"
| "first_logs fetch (p # ps) =
     (case fetch p of
        Inr logs \<Rightarrow> if trim_space logs \<noteq> '''' then Some (p, logs) else first_logs fetch ps
      | Inl _ \<Rightarrow> first_logs fetch ps)"

definition addWorkload :: "time \<Rightarrow> int \<Rightarrow> (string \<Rightarrow> string + string) \<Rightarrow> clusterState \<Rightarrow> string \<Rightarrow> string \<Rightarrow> string \<Rightarrow>
    evidence \<Rightarrow> evidence \<times> string" where
  "addWorkload now tail fetch cl ns kind name e =
     (let (evs, pods) = memberWarnings now cl ns kind name;
          e' = e\<lparr>edKind := kind, edMemberEvents := evs, edMembers := map memberLine evs\<rparr>
      in case first_logs fetch (take 3 pods) of
           None \<Rightarrow> (e', '''')
         | Some (p, logs) \<Rightarrow>
             (e'\<lparr>edLogsHead := nl @ ''Logs from pod '' @ p @ '', its newest failing Pod (last '' @ itoa tail @
                   '' lines):'' @ nl, edLogs := logs\<rparr>, p))"

definition trimmed_note :: "int \<Rightarrow> string \<Rightarrow> string" where
  "trimmed_note n what =
     (if n > 0 then ''('' @ itoa n @ '' older '' @ what @ '' trimmed to fit the model'' @ [CHR 0x27] @ ''s context)'' @ nl
      else '''')"

definition logLines :: "evidence \<Rightarrow> string \<times> string list" where
  "logLines e =
     (if has_prefix (edLogs e) containerStatePrefix
      then (fst (cut_line (edLogs e)), readableLogLines (snd (cut_line (edLogs e))))
      else ('''', readableLogLines (edLogs e)))"

definition event_line :: "EventSummary \<Rightarrow> string" where
  "event_line ev = ''- ['' @ evType ev @ ''] '' @ evReason ev @ '': '' @ evMessage ev @ event_suffix ev @ nl"

definition render_events :: "evidence \<Rightarrow> nat \<Rightarrow> string" where
  "render_events e nEvents =
     (if edEvents e = [] then ''No events recorded for this object.'' @ nl
      else let older = int (length (edEvents e)) - int nEvents
           in ''Events ('' @ itoa (int (length (edEvents e))) @ '' total):'' @ nl @
              concat (map event_line (newestEvents (edEvents e) nEvents)) @
              trimmed_note older (pluralWord ''event'' ''events'' older))"

definition render_members :: "evidence \<Rightarrow> nat \<Rightarrow> string" where
  "render_members e nMembers =
     (if edMembers e = [] then ''''
      else let older = int (length (edMembers e)) - int nMembers
           in nl @ ''Warnings on objects this '' @ edKind e @ '' owns:'' @ nl @
              concat (map (\<lambda>l. l @ nl) (take nMembers (edMembers e))) @
              trimmed_note older (pluralWord ''warning'' ''warnings'' older))"

definition render_logs :: "evidence \<Rightarrow> int \<Rightarrow> string" where
  "render_logs e nLogLines =
     (if edLogs e = '''' then ''''
      else edLogsHead e @
        (if nLogLines < 0 then edLogs e
         else let (state, lines) = logLines e
              in (if state \<noteq> '''' then state @ nl else '''') @
                 concat (map (\<lambda>l. l @ nl) (pickLogLines lines (nat nLogLines))) @
                 ''(log lines trimmed to fit the model'' @ [CHR 0x27] @ ''s context: '' @
                 itoa (min nLogLines (int (length lines))) @ '' of '' @ itoa (int (length lines)) @
                 '' kept, error lines first)'' @ nl))"

definition render :: "evidence \<Rightarrow> nat \<Rightarrow> nat \<Rightarrow> int \<Rightarrow> string" where
  "render e nEvents nMembers nLogLines =
     edHead e @ render_events e nEvents @ edDescribe e @ render_members e nMembers @ render_logs e nLogLines @
     edNote e @ edLinked e @ edTail e"

text \<open>\<open>sort.Search\<close>: the bisection of the standard library, between \<open>i\<close> and \<open>j\<close>.\<close>

function search_from :: "(nat \<Rightarrow> bool) \<Rightarrow> nat \<Rightarrow> nat \<Rightarrow> nat" where
  "search_from f i j =
     (if i < j
      then let h = (i + j) div 2 in if f h then search_from f i h else search_from f (Suc h) j
      else i)"
  by pat_completeness auto
termination
  by (relation "measure (\<lambda>(_, i, j). j - i)") auto

declare search_from.simps [simp del]

definition most :: "nat \<Rightarrow> (nat \<Rightarrow> bool) \<Rightarrow> nat" where
  "most n ok = search_from (\<lambda>k. \<not> ok k) 0 (n + 1) - 1"

definition fit :: "(string \<Rightarrow> int) \<Rightarrow> evidence \<Rightarrow> int \<Rightarrow> string" where
  "fit estimate e budget =
     (let nEv = length (edEvents e); nMem = length (edMembers e);
          full = render e nEv nMem (- 1);
          fits = (\<lambda>ev mem lg. estimate (render e ev mem lg) \<le> budget)
      in if budget \<le> 0 \<or> estimate full \<le> budget then full
         else let nLog = (if edLogs e = '''' then - 1
                          else int (most (length (snd (logLines e))) (\<lambda>n. fits nEv nMem (int n))))
              in if edLogs e \<noteq> '''' \<and> fits nEv nMem nLog then render e nEv nMem nLog
                 else let nMem' = most nMem (\<lambda>n. fits nEv n nLog)
                      in if fits nEv nMem' nLog then render e nEv nMem' nLog
                         else let nEv' = most nEv (\<lambda>n. fits n nMem' nLog)
                              in render e nEv' nMem' nLog)"

section \<open>Bisection and the trimmed prompt\<close>

lemma search_from_spec:
  assumes "i \<le> j"
  shows "i \<le> search_from f i j \<and> search_from f i j \<le> j \<and>
    (search_from f i j = i \<or> \<not> f (search_from f i j - 1)) \<and> (search_from f i j = j \<or> f (search_from f i j))"
  using assms
proof (induction f i j rule: search_from.induct)
  case (1 f i j)
  show ?case
  proof (cases "i < j")
    case True
    let ?h = "(i + j) div 2"
    have h: "i \<le> ?h" "?h < j" using True by linarith+
    show ?thesis
    proof (cases "f ?h")
      case True
      then have "search_from f i j = search_from f i ?h"
        using \<open>i < j\<close> by (simp add: search_from.simps [of f i j] Let_def)
      then show ?thesis using "1.IH"(1) [OF \<open>i < j\<close> refl True h(1)] h True by auto
    next
      case False
      then have "search_from f i j = search_from f (Suc ?h) j"
        using \<open>i < j\<close> by (simp add: search_from.simps [of f i j] Let_def)
      moreover have "Suc ?h \<le> j" using h(2) by simp
      ultimately show ?thesis
        using "1.IH"(2) [OF \<open>i < j\<close> refl False] h(1) False by (auto simp del: div_mult_self3 div_mult_self4)
    qed
  next
    case False
    then have "search_from f i j = i" by (subst search_from.simps) simp
    then show ?thesis using "1.prems" False by simp
  qed
qed

lemma most_le: "most n ok \<le> n"
  using search_from_spec [of 0 "n + 1" "\<lambda>k. \<not> ok k"] unfolding most_def by linarith

lemma most_ok: "most n ok = 0 \<or> ok (most n ok)"
  using search_from_spec [of 0 "n + 1" "\<lambda>k. \<not> ok k"] by (auto simp: most_def)

text \<open>When fewer fit wherever more do, it is the greatest number that fits.\<close>

lemma most_greatest:
  assumes "\<And>m k. m \<le> k \<Longrightarrow> ok k \<Longrightarrow> ok m" and "k \<le> n" and "ok k"
  shows "k \<le> most n ok"
proof (rule ccontr)
  let ?s = "search_from (\<lambda>k. \<not> ok k) 0 (n + 1)"
  assume "\<not> k \<le> most n ok"
  then have "?s \<le> k" by (simp add: most_def)
  moreover from this have "\<not> ok ?s"
    using search_from_spec [of 0 "n + 1" "\<lambda>k. \<not> ok k"] assms(2) by (auto simp: le_Suc_eq)
  ultimately show False using assms(1,3) by blast
qed

lemma fit_renders:
  "\<exists>ev mem lg. fit estimate e budget = render e ev mem lg \<and>
     ev \<le> length (edEvents e) \<and> mem \<le> length (edMembers e) \<and>
     (ev = length (edEvents e) \<or> mem = 0) \<and>
     (mem = length (edMembers e) \<or> lg = 0 \<or> edLogs e = '''') \<and>
     (budget \<le> 0 \<or> estimate (render e ev mem lg) \<le> budget \<or> ev = 0 \<and> mem = 0 \<and> (lg = 0 \<or> edLogs e = ''''))"
proof -
  let ?nEv = "length (edEvents e)" and ?nMem = "length (edMembers e)"
  let ?fits = "\<lambda>ev mem lg. estimate (render e ev mem lg) \<le> budget"
  define lg where "lg = (if edLogs e = '''' then - 1
    else int (most (length (snd (logLines e))) (\<lambda>n. ?fits ?nEv ?nMem (int n))))"
  define mem where "mem = most ?nMem (\<lambda>n. ?fits ?nEv n lg)"
  define ev where "ev = most ?nEv (\<lambda>n. ?fits n mem lg)"
  have lg: "edLogs e = '''' \<or> lg = 0 \<or> ?fits ?nEv ?nMem lg"
    using most_ok [of "length (snd (logLines e))" "\<lambda>n. ?fits ?nEv ?nMem (int n)"] by (auto simp: lg_def)
  have mem: "mem \<le> ?nMem" "mem = 0 \<or> ?fits ?nEv mem lg"
    using most_le most_ok [of ?nMem "\<lambda>n. ?fits ?nEv n lg"] by (auto simp: mem_def)
  have ev: "ev \<le> ?nEv" "ev = 0 \<or> ?fits ev mem lg"
    using most_le most_ok [of ?nEv "\<lambda>n. ?fits n mem lg"] by (auto simp: ev_def)
  let ?full = "render e ?nEv ?nMem (- 1)"
  have eq: "fit estimate e budget =
      (if budget \<le> 0 \<or> estimate ?full \<le> budget then ?full
       else if edLogs e \<noteq> '''' \<and> ?fits ?nEv ?nMem lg then render e ?nEv ?nMem lg
       else if ?fits ?nEv mem lg then render e ?nEv mem lg else render e ev mem lg)"
    by (simp only: fit_def Let_def lg_def mem_def ev_def)
  consider (full) "budget \<le> 0 \<or> estimate (render e ?nEv ?nMem (- 1)) \<le> budget"
    | (logs) "\<not> (budget \<le> 0 \<or> estimate (render e ?nEv ?nMem (- 1)) \<le> budget)"
        "edLogs e \<noteq> '''' \<and> ?fits ?nEv ?nMem lg"
    | (members) "\<not> (budget \<le> 0 \<or> estimate (render e ?nEv ?nMem (- 1)) \<le> budget)"
        "\<not> (edLogs e \<noteq> '''' \<and> ?fits ?nEv ?nMem lg)" "?fits ?nEv mem lg"
    | (events) "\<not> (budget \<le> 0 \<or> estimate (render e ?nEv ?nMem (- 1)) \<le> budget)"
        "\<not> (edLogs e \<noteq> '''' \<and> ?fits ?nEv ?nMem lg)" "\<not> ?fits ?nEv mem lg"
    by blast
  then show ?thesis
  proof cases
    case full
    have "fit estimate e budget = render e ?nEv ?nMem (- 1)"
      unfolding eq if_P [OF full] by (rule refl)
    then show ?thesis using full by blast
  next
    case logs
    have "fit estimate e budget = render e ?nEv ?nMem lg"
      unfolding eq if_not_P [OF logs(1)] if_P [OF logs(2)] by (rule refl)
    then show ?thesis using logs(2) by blast
  next
    case members
    have "fit estimate e budget = render e ?nEv mem lg"
      unfolding eq if_not_P [OF members(1)] if_not_P [OF members(2)] if_P [OF members(3)] by (rule refl)
    then show ?thesis using members lg mem by blast
  next
    case events
    have "fit estimate e budget = render e ev mem lg"
      unfolding eq if_not_P [OF events(1)] if_not_P [OF events(2)] if_not_P [OF events(3)] by (rule refl)
    moreover have "mem = 0" using events(3) mem(2) by blast
    ultimately show ?thesis using events lg ev by blast
  qed
qed

text \<open>A state line of several lines loses all but the first when the logs are cut.\<close>

lemma broken_state_line_cut:
  "fst (logLines e) = ''Container state: web now ImagePullBackOff: first''"
  if "edLogs e = ''Container state: web now ImagePullBackOff: first'' @ nl @ ''second.'' @ nl"
  unfolding logLines_def that by code_simp

section \<open>The warnings of the members\<close>

interpretation pod_order: keyed_order "pod_less podLast" "\<lambda>p. (- al_get 0 podLast p, p)" for podLast
  by unfold_locales (auto simp: pod_less_def less_prod_def)

interpretation newest_order: keyed_order "newest_first evs" "\<lambda>i. - evLastTime (evs ! i)" for evs
  by unfold_locales (simp add: newest_first_def)

text \<open>When a Pod's warnings were last seen; 0 without any.\<close>

definition last_seen :: "EventSummary list \<Rightarrow> string \<Rightarrow> time" where
  "last_seen ws p = fold max (map evLastTime (filter (\<lambda>w. evKind w = ''Pod'' \<and> evObjectName w = p) ws)) 0"

text \<open>What the loop holds after the warnings \<open>ws\<close>.\<close>

definition members_inv :: "EventSummary list \<Rightarrow> members \<Rightarrow> bool" where
  "members_inv ws st \<longleftrightarrow>
     (case st of (keys, evs, podLast) \<Rightarrow>
        keys = rev (map member_key evs) \<and> distinct (map member_key evs) \<and> length evs \<le> rcaMemberWarnings \<and>
        set evs \<subseteq> set ws \<and> (length evs = rcaMemberWarnings \<or> member_key ` set ws \<subseteq> set keys) \<and>
        distinct (map fst podLast) \<and> fst ` set podLast = {p. last_seen ws p > 0} \<and>
        (\<forall>p. al_get 0 podLast p = last_seen ws p))"

lemma last_seen_snoc:
  "last_seen (ws @ [w]) p =
     (if evKind w = ''Pod'' \<and> evObjectName w = p then max (evLastTime w) (last_seen ws p) else last_seen ws p)"
  by (simp add: last_seen_def)

lemma member_step_inv:
  assumes "members_inv ws st"
  shows "members_inv (ws @ [w]) (member_step st w)"
proof -
  obtain keys evs podLast where st: "st = (keys, evs, podLast)" by (cases st)
  define podLast' where "podLast' = (if evKind w = ''Pod'' \<and> evLastTime w > al_get 0 podLast (evObjectName w)
    then al_set (evObjectName w) (evLastTime w) podLast else podLast)"
  have old: "keys = rev (map member_key evs)" "distinct (map member_key evs)" "length evs \<le> rcaMemberWarnings"
      "set evs \<subseteq> set ws" "length evs = rcaMemberWarnings \<or> member_key ` set ws \<subseteq> set keys"
      "distinct (map fst podLast)" "fst ` set podLast = {p. last_seen ws p > 0}"
      "al_get 0 podLast p = last_seen ws p" for p
    using assms by (auto simp: members_inv_def st)
  have nonneg: "last_seen ws p \<ge> 0" for p
  proof -
    have "0 \<le> x \<Longrightarrow> 0 \<le> fold max ts x" for ts and x :: int by (induction ts arbitrary: x) auto
    then show ?thesis by (simp add: last_seen_def)
  qed
  have get: "al_get 0 podLast' p = last_seen (ws @ [w]) p" for p
    using old(8) by (auto simp: podLast'_def last_seen_snoc al_get_set max_def)
  have "distinct (map fst podLast')" using old(6) by (simp add: podLast'_def)
  moreover have "fst ` set podLast' = {p. last_seen (ws @ [w]) p > 0}"
    using old(7,8) nonneg [of "evObjectName w"]
    by (auto simp: podLast'_def last_seen_snoc max_def al_set_def)
  ultimately have pods: "distinct (map fst podLast')" "fst ` set podLast' = {p. last_seen (ws @ [w]) p > 0}" by auto
  show ?thesis
  proof (cases "member_key w \<notin> set keys \<and> length evs < rcaMemberWarnings")
    case True
    then have "member_step st w = (member_key w # keys, evs @ [w], podLast')"
      by (simp add: member_step_def st podLast'_def Let_def)
    then show ?thesis using True old(1-5) pods get by (auto simp: members_inv_def)
  next
    case False
    then have "member_step st w = (keys, evs, podLast')"
      by (auto simp: member_step_def st podLast'_def Let_def)
    then show ?thesis using False old(1-5) pods get by (auto simp: members_inv_def)
  qed
qed

lemma members_fold_inv: "members_inv ws (foldl member_step ([], [], []) ws)"
proof (induction ws rule: rev_induct)
  case Nil
  show ?case by (auto simp: members_inv_def last_seen_def al_get_def)
next
  case (snoc w ws)
  then show ?case using member_step_inv [OF snoc.IH] by simp
qed

section \<open>The newest events\<close>

lemma newestEvents_spec:
  assumes "n < length evs"
  obtains keep where "newestEvents evs n = map ((!) evs) (filter (\<lambda>i. i \<in> keep) [0..<length evs])"
    and "keep \<subseteq> {..<length evs}" and "card keep = n"
    and "\<And>i j. i \<in> keep \<Longrightarrow> j < length evs \<Longrightarrow> j \<notin> keep \<Longrightarrow> evLastTime (evs ! j) \<le> evLastTime (evs ! i)"
proof -
  let ?all = "go_sort (newest_first evs) [0..<length evs]"
  have order: "sorted_wrt (\<lambda>a b. \<not> newest_first evs b a) (take n ?all @ drop n ?all)"
    using newest_order.sorted_go_sort [of evs "[0..<length evs]"] by simp
  have mem: "set ?all = {..<length evs}" by auto
  have dist: "distinct ?all" by simp
  show ?thesis
  proof (rule that [of "set (take n ?all)"])
    show "newestEvents evs n = map ((!) evs) (filter (\<lambda>i. i \<in> set (take n ?all)) [0..<length evs])"
      using assms by (simp add: newestEvents_def Let_def)
    show "set (take n ?all) \<subseteq> {..<length evs}" using mem set_take_subset [of n ?all] by blast
    show "card (set (take n ?all)) = n" using dist assms by (simp add: distinct_card)
    fix i j assume i: "i \<in> set (take n ?all)" and j: "j < length evs" "j \<notin> set (take n ?all)"
    have "j \<in> set ?all" using j(1) mem by blast
    then have "j \<in> set (take n ?all) \<union> set (drop n ?all)" by (metis append_take_drop_id set_append)
    then have "j \<in> set (drop n ?all)" using j(2) by blast
    then have "\<not> newest_first evs j i" using order i unfolding sorted_wrt_append by blast
    then show "evLastTime (evs ! j) \<le> evLastTime (evs ! i)" by (simp add: newest_first_def)
  qed
qed

section \<open>Properties\<close>

text \<open>
  C26: the first prompt is within its budget, or everything that can be trimmed has been. It always keeps
  what to analyse, the description, the notes, the linked evidence and the instructions; events are
  dropped only when no member warning is left, and those only when no log line is.
\<close>

theorem first_prompt_fits:
  "\<exists>ev mem lg. fit estimate e budget =
       edHead e @ render_events e ev @ edDescribe e @ render_members e mem @ render_logs e lg @
       edNote e @ edLinked e @ edTail e \<and>
     (ev = length (edEvents e) \<or> mem = 0) \<and> (mem = length (edMembers e) \<or> lg = 0 \<or> edLogs e = '''') \<and>
     (budget \<le> 0 \<or> estimate (fit estimate e budget) \<le> budget \<or> ev = 0 \<and> mem = 0 \<and> (lg = 0 \<or> edLogs e = ''''))"
  using fit_renders [of estimate e budget] unfolding render_def [symmetric] by (elim exE conjE) metis

text \<open>
  of the warnings on what a workload owns the prompt lists at most twelve, one for each object and
  reason, and leaves one out only when it has twelve. The Pods whose logs are tried are those with a
  dated warning, the newest first and by name among equals, in whatever order the map holds them.
\<close>

lemma member_warnings_listed:
  "case memberWarnings now cl ns kind name of (evs, pods) \<Rightarrow>
     let ws = filter (member_warning now cl ns kind name) (scopeEvents (csCache cl) ns) in
     length evs \<le> 12 \<and> distinct (map member_key evs) \<and> set evs \<subseteq> set ws \<and>
     (length evs = 12 \<or> member_key ` set ws = member_key ` set evs) \<and>
     set pods = {p. last_seen ws p > 0} \<and> sorted_wrt (<) (map (\<lambda>p. (- last_seen ws p, p)) pods)"
proof -
  let ?ws = "filter (member_warning now cl ns kind name) (scopeEvents (csCache cl) ns)"
  obtain keys evs podLast where run: "foldl member_step ([], [], []) ?ws = (keys, evs, podLast)"
    using prod_cases3 by blast
  have inv: "members_inv ?ws (keys, evs, podLast)" using members_fold_inv [of ?ws] run by simp
  have get: "al_get 0 podLast = last_seen ?ws" using inv by (auto simp: members_inv_def)
  let ?pods = "go_sort (pod_less podLast) (map fst podLast)"
  let ?key = "\<lambda>p. (- last_seen ?ws p, p)"
  have "sorted (map ?key ?pods)" using pod_order.sorted_key_go_sort [of podLast "map fst podLast"] by (simp only: get)
  moreover have "distinct (map ?key ?pods)"
    using inv by (simp add: members_inv_def distinct_map inj_on_def)
  ultimately have "sorted_wrt (<) (map ?key ?pods)" by (simp only: strict_sorted_iff)
  moreover have "set ?pods = {p. last_seen ?ws p > 0}" using inv by (simp add: members_inv_def)
  moreover have "length evs \<le> 12" "distinct (map member_key evs)" "set evs \<subseteq> set ?ws"
    using inv by (simp_all add: members_inv_def rcaMemberWarnings_def)
  moreover have "length evs = 12 \<or> member_key ` set ?ws \<subseteq> member_key ` set evs"
    using inv by (auto simp: members_inv_def rcaMemberWarnings_def)
  moreover have "member_key ` set evs \<subseteq> member_key ` set ?ws" using \<open>set evs \<subseteq> set ?ws\<close> by (rule image_mono)
  moreover have "memberWarnings now cl ns kind name = (evs, ?pods)" by (simp only: memberWarnings_def run prod.case)
  ultimately show ?thesis by (simp only: prod.case Let_def) blast
qed

end
