(* ===== verification/Linked.thy ===== *)
theory Linked
  imports Evidence
begin

text \<open>
  Following links (linked.go): the objects the evidence about an object names, fetched before the model
  is asked. Each rule extends the state of the \<open>linker\<close>, the objects seen and the items so far; the
  evidence itself and the API's answers do not change meanwhile, so the \<open>pods\<close>, \<open>services\<close> and
  \<open>other\<close> caches of the code are reads of the API here.
\<close>

section \<open>The evidence a rule reads\<close>

record link_env =
  leKube :: kube
  leCluster :: clusterState
  leNow :: time
  leNS :: string
  leKind :: string
  leName :: string
  leWarnings :: "EventSummary list"
  leLogs :: string

record linker =
  lkSeen :: "string list"
  lkItems :: "linkedItem list"

definition object_path :: "string \<Rightarrow> string \<Rightarrow> string \<Rightarrow> string" where
  "object_path kind ns name = kind @ ''/'' @ ns @ ''/'' @ name"

definition add_item :: "linkedItem \<Rightarrow> linker \<Rightarrow> linker" where
  "add_item it l =
     (if linked_key it \<in> set (lkSeen l) then l
      else l\<lparr>lkSeen := linked_key it # lkSeen l, lkItems := lkItems l @ [it]\<rparr>)"

definition followed :: "linker \<Rightarrow> string \<Rightarrow> string \<Rightarrow> string \<Rightarrow> bool" where
  "followed l kind ns name \<longleftrightarrow> object_path kind ns name \<in> set (lkSeen l)"

definition isPodKind :: "string \<Rightarrow> bool" where "isPodKind kind \<longleftrightarrow> equal_fold kind ''Pod''"

fun pods_of :: "EventSummary list \<Rightarrow> string list \<Rightarrow> string list" where
  "pods_of [] out = out"
| "pods_of (ev # evs) out =
     pods_of evs (if isPodKind (evKind ev) \<and> evObjectName ev \<notin> set out \<and> length out < linkedMaxPods
                  then out @ [evObjectName ev] else out)"

definition evidencePods :: "link_env \<Rightarrow> string list" where
  "evidencePods env = pods_of (leWarnings env) (if isPodKind (leKind env) then [leName env] else [])"

definition podWarnings :: "link_env \<Rightarrow> string \<Rightarrow> EventSummary list" where
  "podWarnings env pod = filter (\<lambda>ev. isPodKind (evKind ev) \<and> evObjectName ev = pod) (leWarnings env)"

definition link_pod :: "link_env \<Rightarrow> string \<Rightarrow> k_pod option" where
  "link_pod env name = got (kbPod (leKube env) (leNS env) name)"

definition evidence_texts :: "link_env \<Rightarrow> string list" where
  "evidence_texts env = map evMessage (leWarnings env) @
     (if leLogs env \<noteq> '''' then split_byte (CHR 0x0A) (leLogs env) else [])"

definition objectWarnings :: "link_env \<Rightarrow> string \<Rightarrow> string \<Rightarrow> string \<Rightarrow> nat \<Rightarrow> string list" where
  "objectWarnings env ns kind name n =
     map linkedEventLine (newestEvents (filter (\<lambda>ev. evType ev = ''Warning'')
       (objectEvents (csCache (leCluster env)) ns kind name)) n)"

section \<open>ConfigMaps and Secrets an error names\<close>

text \<open>\<open>missingRefRe\<close>: the word and the name; \<open>rest\<close> is what the word's match leaves.\<close>

definition ref_words :: "string list" where
  "ref_words = [''configmaps'', ''configmap'', ''secrets'', ''secret'']"

text \<open>The length of what \<open>fold_prefix\<close> matches: a letter may be a longer rune.\<close>

fun fold_length :: "string \<Rightarrow> string \<Rightarrow> nat" where
  "fold_length [] s = 0"
| "fold_length (c # p) s =
     (case s of
        [] \<Rightarrow> 0
      | x # t \<Rightarrow>
          if to_lower_byte x = c then Suc (fold_length p t)
          else if c = CHR ''s'' \<and> has_prefix s [CHR 0xC5, CHR 0xBF] then 2 + fold_length p (drop 2 s)
          else 3 + fold_length p (drop 3 s))"

definition quoted_name :: "string \<Rightarrow> (string \<times> nat) option" where
  "quoted_name s =
     (if has_prefix s ('' '' @ [quote])
      then let t = drop 2 s;
               n = inner_run ''-.'' alnum_size t;
               tail = quote # '' not found''
           in if n > 0 \<and> fold_prefix tail (drop n t)
              then Some (take n t, 2 + n + fold_length tail (drop n t)) else None
      else None)"

definition missing_ref_here :: "(string \<times> string) matcher" where
  "missing_ref_here prev s =
     (if word_edge prev s
      then (case [(w, m) \<leftarrow> map (\<lambda>w. (w, quoted_name (drop (fold_length w s) s))) (filter (\<lambda>w. fold_prefix w s) ref_words).
                  m \<noteq> None] of
              (w, Some (name, n)) # _ \<Rightarrow> Some ((take (fold_length w s) s, name), fold_length w s + n)
            | _ \<Rightarrow> None)
      else None)"

text \<open>\<open>missingKeyRe\<close>: key, kind, namespace and name.\<close>

definition key_kind :: "string \<Rightarrow> (string \<times> string) option" where
  "key_kind s =
     (if has_prefix s ''Secret '' then Some (''Secret'', drop 7 s)
      else if has_prefix s ''ConfigMap '' then Some (''ConfigMap'', drop 10 s) else None)"

definition couldnt_find :: string where
  "couldnt_find = ''couldn'' @ [CHR 0x27] @ ''t find key ''"

definition missing_key_here :: "(string \<times> string \<times> string \<times> string) matcher" where
  "missing_key_here prev s =
     (if \<not> has_prefix s couldnt_find then None
      else let t = drop (length couldnt_find) s;
               key = takeWhile (\<lambda>c. \<not> re_space c) t;
               u = drop (length key) t
           in if key = '''' \<or> \<not> has_prefix u '' in '' then None
              else case key_kind (drop 4 u) of
                     None \<Rightarrow> None
                   | Some (kind, v) \<Rightarrow>
                       (let n = inner_run ''-'' lower_alnum v; w = drop n v in
                        if n = 0 \<or> \<not> has_prefix w [CHR 0x2F] then None
                        else let x = tl w; m = inner_run ''-.'' lower_alnum x in
                             if m = 0 then None
                             else Some ((key, kind, take n v, take m x), length s - length x + m)))"

record configRef =
  crKind :: string
  crNS :: string
  crName :: string
  crKeys :: "string list"

text \<open>\<open>ref(kind, ns, name)\<close>, and what is then done to it; the map keeps the order of \<open>refs\<close>.\<close>

definition with_ref :: "string \<Rightarrow> string \<Rightarrow> string \<Rightarrow> (string list \<Rightarrow> string list) \<Rightarrow>
    (string, configRef) gomap \<Rightarrow> (string, configRef) gomap" where
  "with_ref kind ns name f refs =
     al_alter (object_path kind ns name)
       (\<lambda>old. let r = (case old of Some r \<Rightarrow> r
                        | None \<Rightarrow> \<lparr>crKind = kind, crNS = ns, crName = name, crKeys = []\<rparr>)
              in r\<lparr>crKeys := f (crKeys r)\<rparr>) refs"

definition key_ref :: "(string, configRef) gomap \<Rightarrow> string \<times> string \<times> string \<times> string \<Rightarrow> (string, configRef) gomap" where
  "key_ref refs m =
     (case m of (key, kind, ns, name) \<Rightarrow>
        with_ref kind ns name (\<lambda>ks. if key \<in> set ks then ks else ks @ [key]) refs)"

definition name_ref :: "string \<Rightarrow> (string, configRef) gomap \<Rightarrow> string \<times> string \<Rightarrow> (string, configRef) gomap" where
  "name_ref ns refs m =
     (case m of (w, name) \<Rightarrow>
        with_ref (if has_prefix (to_lower w) ''secret'' then ''Secret'' else ''ConfigMap'') ns name (\<lambda>ks. ks) refs)"

definition text_refs :: "string \<Rightarrow> (string, configRef) gomap \<Rightarrow> string \<Rightarrow> (string, configRef) gomap" where
  "text_refs ns refs t =
     foldl (name_ref ns) (foldl key_ref refs (find_all missing_key_here None t)) (find_all missing_ref_here None t)"

definition configNames :: "kube \<Rightarrow> string \<Rightarrow> string \<Rightarrow> string list" where
  "configNames kb kind ns =
     go_sort string_less
       (if kind = ''Secret''
        then map secName (filter (\<lambda>s. secType s \<noteq> ''kubernetes.io/service-account-token'' \<and> secType s \<noteq> ''helm.sh/release.v1'')
               (case kbSecrets kb ns of Got ss \<Rightarrow> ss | _ \<Rightarrow> []))
        else map cmName (filter (\<lambda>c. cmName c \<noteq> ''kube-root-ca.crt'') (case kbConfigMaps kb ns of Got cs \<Rightarrow> cs | _ \<Rightarrow> [])))"

text \<open>The names of an existing object's keys; the values are not read.\<close>

definition secret_keys :: "k_secret \<Rightarrow> string list" where
  "secret_keys s = map fst (secData s) @ filter (\<lambda>k. k \<notin> fst ` set (secData s)) (map fst (secStringData s))"

definition config_keys :: "kube \<Rightarrow> configRef \<Rightarrow> string list api_answer" where
  "config_keys kb r =
     (if crKind r = ''Secret''
      then (case kbSecret kb (crNS r) (crName r) of
              Got s \<Rightarrow> Got (secret_keys s) | NotFound e \<Rightarrow> NotFound e | ApiErr e \<Rightarrow> ApiErr e)
      else (case kbConfigMap kb (crNS r) (crName r) of
              Got c \<Rightarrow> Got (map fst (cmData c) @ map fst (cmBinaryData c)) | NotFound e \<Rightarrow> NotFound e | ApiErr e \<Rightarrow> ApiErr e))"

definition configItem :: "kube \<Rightarrow> string \<Rightarrow> configRef \<Rightarrow> linkedItem option" where
  "configItem kb ns r =
     (let item = (\<lambda>facts ls. \<lparr>liRule = ''config'', liKind = crKind r, liNS = crNS r, liName = crName r,
                               liFacts = facts, liLines = ls\<rparr>)
      in case config_keys kb r of
           ApiErr _ \<Rightarrow> None
         | NotFound _ \<Rightarrow>
             (let others = configNames kb (crKind r) (crNS r); many = crKind r @ ''s'' in
              Some (item (''does not exist'' @ (if crNS r \<noteq> ns then '' in namespace '' @ crNS r else ''''))
                [if others = [] then ''no '' @ many @ '' in namespace '' @ crNS r
                 else many @ '' in namespace '' @ crNS r @ '': '' @ listNames others linkedMaxNames]))
         | Got keys \<Rightarrow>
             (let missing = map go_quote (filter (\<lambda>k. k \<notin> set keys) (crKeys r)) in
              Some (item ((if keys = [] then ''exists, no keys'' else ''exists, keys '' @ listNames (go_sort string_less keys) 12) @
                          (if missing = [] then '''' else '' (no key '' @ str_join '', '' missing @ '')'')) [])))"

definition config_step :: "link_env \<Rightarrow> linker \<Rightarrow> string \<times> configRef \<Rightarrow> linker" where
  "config_step env l kr =
     (let r = snd kr in
      if followed l (crKind r) (crNS r) (crName r) then l
      else case configItem (leKube env) (leNS env) r of Some it \<Rightarrow> add_item it l | None \<Rightarrow> l)"

definition configRefs :: "link_env \<Rightarrow> linker \<Rightarrow> linker" where
  "configRefs env l = foldl (config_step env) l (foldl (text_refs (leNS env)) [] (evidence_texts env))"

section \<open>Claims and StorageClasses\<close>

definition storageClassInfo :: "kube \<Rightarrow> string \<Rightarrow> string \<times> bool" where
  "storageClassInfo kb name =
     (case kbStorageClass kb name of
        NotFound _ \<Rightarrow> (''does not exist'', False)
      | ApiErr _ \<Rightarrow> (''could not be read'', True)
      | Got sc \<Rightarrow> (''provisioner '' @ scProvisioner sc @ '', '' @
          (case scBindingMode sc of Some m \<Rightarrow> m | None \<Rightarrow> ''Immediate''), True))"

definition default_class :: string where
  "default_class = ''storageclass.kubernetes.io/is-default-class''"

definition storageClassList :: "kube \<Rightarrow> string" where
  "storageClassList kb =
     (case kbStorageClasses kb of
        Got scs \<Rightarrow>
          (let names = map (\<lambda>sc. scName sc @
                 (if al_get '''' (scAnnotations sc) default_class = ''true'' then '' (default)'' else '''')) scs
           in if names = [] then ''no StorageClasses in the cluster''
              else ''StorageClasses in the cluster: '' @ listNames (go_sort string_less names) linkedMaxNames)
      | _ \<Rightarrow> ''StorageClasses in the cluster: could not be listed'')"

text \<open>The class of a claim in words, and whether it is missing.\<close>

definition claim_class :: "kube \<Rightarrow> k_claim \<Rightarrow> string \<times> bool" where
  "claim_class kb pvc =
     (case pvcClass pvc of
        None \<Rightarrow> (''no StorageClass'', False)
      | Some sc \<Rightarrow>
          if sc = '''' then (''StorageClass '' @ [quote, quote] @ '' (no dynamic provisioning)'', False)
          else (case storageClassInfo kb sc of
                  (info, ok) \<Rightarrow> (''StorageClass '' @ go_quote sc @ '' ('' @ info @ '')'', \<not> ok)))"

definition claimItem :: "link_env \<Rightarrow> string \<Rightarrow> k_claim option \<Rightarrow> linkedItem" where
  "claimItem env name claim =
     (let item = (\<lambda>facts ls. \<lparr>liRule = ''claim'', liKind = ''PersistentVolumeClaim'', liNS = leNS env,
                               liName = name, liFacts = facts, liLines = ls\<rparr>)
      in case claim of
           None \<Rightarrow> item ''does not exist'' []
         | Some pvc \<Rightarrow>
             (let (class, scMissing) = claim_class (leKube env) pvc;
                  size = trim_space ((case pvcRequest pvc of Some q \<Rightarrow> q | None \<Rightarrow> '''') @ '' '' @
                           str_join '','' (pvcModes pvc));
                  parts = [if pvcPhase pvc = '''' then ''Pending'' else pvcPhase pvc, class] @
                          (if size \<noteq> '''' then [size] else []) @
                          (if pvcVolume pvc \<noteq> '''' then [''volume '' @ pvcVolume pvc] else [])
              in item (str_join '', '' parts)
                   (objectWarnings env (leNS env) ''PersistentVolumeClaim'' name linkedMaxEvents @
                    (if scMissing then [storageClassList (leKube env)] else []))))"

definition volume_words :: "string list" where
  "volume_words = [''persistentvolumeclaim'', ''volume'']"

definition volume_claim :: "k_pod \<Rightarrow> k_volume \<Rightarrow> string option" where
  "volume_claim p v =
     (case kvClaim v of
        Some c \<Rightarrow> Some c
      | None \<Rightarrow> if kvEphemeral v then Some (kpName p @ ''-'' @ kvName v) else None)"

definition claim_step :: "link_env \<Rightarrow> string \<Rightarrow> k_pod \<Rightarrow> linker \<Rightarrow> k_volume \<Rightarrow> linker" where
  "claim_step env pn p l v =
     (let ws = podWarnings env pn;
          schedVolume = list_ex (\<lambda>w. evReason w = ''FailedScheduling'' \<and> fold_any volume_words (evMessage w)) ws;
          mounts = map evMessage (filter (\<lambda>w. evReason w = ''FailedMount'' \<or> evReason w = ''FailedAttachVolume'') ws)
      in case volume_claim p v of
           None \<Rightarrow> l
         | Some claim \<Rightarrow>
             if followed l ''PersistentVolumeClaim'' (leNS env) claim then l
             else let named = list_ex (\<lambda>m. containsWord m (kvName v) \<or> containsWord m claim) mounts;
                      wanted = (\<lambda>unbound. schedVolume \<or> named \<or> kpPhase p = ''Pending'' \<and> unbound)
                  in case kbClaim (leKube env) (leNS env) claim of
                       ApiErr _ \<Rightarrow> l
                     | NotFound _ \<Rightarrow> if wanted True then add_item (claimItem env claim None) l else l
                     | Got pvc \<Rightarrow> if wanted (pvcPhase pvc \<noteq> ''Bound'') then add_item (claimItem env claim (Some pvc)) l else l)"

definition anchorClaim :: "link_env \<Rightarrow> linker \<Rightarrow> linker" where
  "anchorClaim env l =
     (case kbClaim (leKube env) (leNS env) (leName env) of
        Got pvc \<Rightarrow>
          (case pvcClass pvc of
             Some sc \<Rightarrow>
               if pvcPhase pvc = ''Bound'' \<or> sc = '''' then l
               else (case storageClassInfo (leKube env) sc of
                       (info, ok) \<Rightarrow> add_item \<lparr>liRule = ''storageclass'', liKind = ''StorageClass'', liNS = '''',
                          liName = sc, liFacts = info,
                          liLines = (if ok then [] else [storageClassList (leKube env)])\<rparr> l)
           | None \<Rightarrow> l)
      | _ \<Rightarrow> l)"

definition pod_claims :: "link_env \<Rightarrow> linker \<Rightarrow> string \<Rightarrow> linker" where
  "pod_claims env l pn =
     (case link_pod env pn of None \<Rightarrow> l | Some p \<Rightarrow> foldl (claim_step env pn p) l (kpVolumes p))"

definition claims :: "link_env \<Rightarrow> linker \<Rightarrow> linker" where
  "claims env l =
     (if equal_fold (leKind env) ''PersistentVolumeClaim'' then anchorClaim env l
      else foldl (pod_claims env) l (evidencePods env))"

section \<open>Image pull secrets\<close>

definition pull_refused :: "EventSummary \<Rightarrow> bool" where
  "pull_refused w \<longleftrightarrow>
     evReason w = ''FailedToRetrieveImagePullSecret'' \<or>
     fold_any [''pull'', ''image''] (evReason w @ '' '' @ evMessage w) \<and>
     (fold_any [''pull access denied'', ''unauthorized'', ''authentication required''] (evMessage w) \<or>
      edged_word ''401'' None (evMessage w) \<or> edged_word ''403'' None (evMessage w))"

definition pullSecretItem :: "link_env \<Rightarrow> string \<Rightarrow> string \<Rightarrow> linkedItem" where
  "pullSecretItem env name of_what =
     \<lparr>liRule = ''pullsecret'', liKind = ''Secret'', liNS = leNS env, liName = name,
      liFacts = (case kbSecret (leKube env) (leNS env) name of
                   NotFound _ \<Rightarrow> ''does not exist''
                 | ApiErr _ \<Rightarrow> ''could not be read''
                 | Got s \<Rightarrow> ''exists, type '' @ secType s) @ '' (in imagePullSecrets of '' @ of_what @ '')'',
      liLines = []\<rparr>"

definition pod_pull_secrets :: "link_env \<Rightarrow> k_pod \<Rightarrow> linker \<Rightarrow> linker" where
  "pod_pull_secrets env p l =
     (let sa = (if kpServiceAccount p = '''' then ''default'' else kpServiceAccount p);
          of_pod = ''Pod '' @ kpName p;
          acct = kbServiceAccount (leKube env) (leNS env) sa;
          names = (case acct of Got ns \<Rightarrow> ns | _ \<Rightarrow> []);
          l1 = foldl (\<lambda>l r. add_item (pullSecretItem env r of_pod) l) l (kpPullSecrets p);
          l2 = foldl (\<lambda>l r. add_item (pullSecretItem env r (''ServiceAccount '' @ sa)) l) l1 names
      in if kpPullSecrets p \<noteq> [] \<or> names \<noteq> [] then l2
         else add_item \<lparr>liRule = ''pullsecret'', liKind = ''ServiceAccount'', liNS = leNS env, liName = sa,
                liFacts = (case acct of NotFound _ \<Rightarrow> ''does not exist; '' @ of_pod @ '' sets no imagePullSecrets''
                           | _ \<Rightarrow> ''no imagePullSecrets, and '' @ of_pod @ '' sets none''),
                liLines = []\<rparr> l2)"

text \<open>The Pods of one workload share their pull secrets: the first Pod refused and still there will do.\<close>

fun pull_loop :: "link_env \<Rightarrow> string list \<Rightarrow> linker \<Rightarrow> linker" where
  "pull_loop env [] l = l"
| "pull_loop env (pn # pods) l =
     (if \<not> list_ex pull_refused (podWarnings env pn) then pull_loop env pods l
      else case link_pod env pn of
             None \<Rightarrow> pull_loop env pods l
           | Some p \<Rightarrow> pod_pull_secrets env p l)"

definition pullSecrets :: "link_env \<Rightarrow> linker \<Rightarrow> linker" where
  "pullSecrets env l = pull_loop env (evidencePods env) l"

section \<open>Services a connection error names\<close>

definition conn_words :: "string list" where
  "conn_words = [''connection refused'', ''no such host'', ''i/o timeout'', ''dial tcp'', ''econnrefused'',
     ''timed out'', ''can'' @ [CHR 0x27] @ ''t connect'', ''could not connect'', ''cannot connect'',
     ''unreachable'', ''bad address'', ''could not resolve'', ''name or service not known'', ''connection reset'']"

text \<open>A failed log line, after the line before it.\<close>

fun failed_lines :: "string option \<Rightarrow> string list \<Rightarrow> string list" where
  "failed_lines prev [] = []"
| "failed_lines prev (ln # ls) =
     (if fold_any conn_words ln then (case prev of Some p \<Rightarrow> [p] | None \<Rightarrow> []) @ [ln] else []) @
     failed_lines (Some ln) ls"

definition errorLines :: "link_env \<Rightarrow> string list" where
  "errorLines env = filter (fold_any conn_words) (map evMessage (leWarnings env)) @
     failed_lines None (split_byte (CHR 0x0A) (leLogs env))"

lemma inner_run_pos: "inner_run extra at s > 0 \<Longrightarrow> s \<noteq> []"
  by (cases "s = []") (auto simp: inner_run_def Let_def split: if_splits)

text \<open>\<open>hostTokRe\<close>\<close>

function host_size :: "string \<Rightarrow> nat" where
  "host_size s =
     (let n = inner_run ''-'' lower_alnum s; t = drop n s in
      if n = 0 then 0
      else if has_prefix t ''.'' \<and> lower_alnum (drop 1 t) > 0 then n + 1 + host_size (drop (n + 1) s) else n)"
  by pat_completeness auto
termination
  by (relation "measure length") (use inner_run_pos in \<open>auto simp: neq_Nil_conv\<close>)

declare host_size.simps [simp del]

definition host_here :: "string matcher" where
  "host_here prev s = (let n = host_size s in if n = 0 then None else Some (take n s, n))"

definition ipv4 :: "string \<Rightarrow> bool" where
  "ipv4 tok \<longleftrightarrow>
     (let parts = split_byte (CHR ''.'') tok in
      length parts = 4 \<and> list_all (\<lambda>p. 1 \<le> length p \<and> length p \<le> 3 \<and> list_all is_digit p) parts)"

definition dnsTail :: "string list \<Rightarrow> bool" where
  "dnsTail rest \<longleftrightarrow> str_join ''.'' rest \<in> {'''', ''svc'', ''svc.cluster.local''}"

definition nsServices :: "link_env \<Rightarrow> k_service list" where
  "nsServices env = (case kbServices (leKube env) (leNS env) of Got ss \<Rightarrow> ss | _ \<Rightarrow> [])"

definition serviceFor :: "link_env \<Rightarrow> string \<Rightarrow> k_service option" where
  "serviceFor env tok =
     (if ipv4 tok then find (\<lambda>s. svClusterIP s = tok) (nsServices env)
      else case split_byte (CHR ''.'') tok of
             [] \<Rightarrow> None
           | svc # rest \<Rightarrow>
               if \<not> in_range 97 122 (hd svc) then None
               else case rest of
                      [] \<Rightarrow> find (\<lambda>s. svName s = svc) (nsServices env)
                    | ns # tail \<Rightarrow>
                        if \<not> dnsTail tail then None
                        else if ns = leNS env then find (\<lambda>s. svName s = svc) (nsServices env)
                        else got (kbService (leKube env) ns svc))"

definition selectsEvidence :: "link_env \<Rightarrow> k_service \<Rightarrow> bool" where
  "selectsEvidence env s \<longleftrightarrow>
     svSelector s \<noteq> [] \<and> svNamespace s = leNS env \<and>
     list_ex (\<lambda>pn. case link_pod env pn of Some p \<Rightarrow> kbMatches (leKube env) (svSelector s) (kpLabels p) | None \<Rightarrow> False)
       (evidencePods env)"

text \<open>\<open>strings.ReplaceAll(s, ", ", ",")\<close>\<close>

fun tight_commas :: "string \<Rightarrow> string" where
  "tight_commas (a # b # s) =
     (if a = CHR '','' \<and> b = CHR '' '' then a # tight_commas s else a # tight_commas (b # s))"
| "tight_commas s = s"

definition target_text :: "k_target \<Rightarrow> string" where
  "target_text t = (case t of TargetInt i \<Rightarrow> itoa i | TargetName n \<Rightarrow> n)"

definition proto_of :: "string \<Rightarrow> string" where
  "proto_of p = (if p = '''' then ''TCP'' else p)"

definition port_text :: "k_port \<Rightarrow> string" where
  "port_text p =
     (let tp = target_text (spTarget p); port = itoa (spPort p) in
      if tp = ''0'' \<or> tp = port then port @ ''/'' @ proto_of (spProtocol p)
      else port @ [CHR 0xE2, CHR 0x86, CHR 0x92] @ tp @ ''/'' @ proto_of (spProtocol p))"

text \<open>One endpoint of \<open>endpointCounts\<close>: the addresses seen, and the ready and not ready counted.\<close>

definition endpoint_step :: "string list \<times> int \<times> int \<Rightarrow> string list \<times> bool option \<Rightarrow> string list \<times> int \<times> int" where
  "endpoint_step st e =
     (case (st, e) of ((known, ready, notReady), (addrs, rdy)) \<Rightarrow>
        (case addrs of
           [] \<Rightarrow> st
         | a # _ \<Rightarrow>
             if a \<in> set known then st
             else if rdy = None \<or> rdy = Some True then (a # known, ready + 1, notReady)
             else (a # known, ready, notReady + 1)))"

definition endpointCounts :: "kube \<Rightarrow> string \<Rightarrow> string \<Rightarrow> (int \<times> int) option" where
  "endpointCounts kb ns name =
     (case kbEndpoints kb ns name of
        Got slices \<Rightarrow> Some (snd (foldl endpoint_step ([], 0, 0) (concat slices)))
      | _ \<Rightarrow> None)"

definition em_dash :: string where "em_dash = [CHR 0xE2, CHR 0x80, CHR 0x94]"

fun newest_warning :: "EventSummary list \<Rightarrow> EventSummary option \<Rightarrow> EventSummary option" where
  "newest_warning [] best = best"
| "newest_warning (ev # evs) best =
     newest_warning evs
       (if evType ev = ''Warning'' \<and> (case best of None \<Rightarrow> True | Some b \<Rightarrow> evLastTime ev > evLastTime b)
        then Some ev else best)"

definition podLine :: "link_env \<Rightarrow> k_pod \<Rightarrow> string" where
  "podLine env p =
     (let phase = (if kpDeleted p then ''Terminating'' else if kpPhase p = '''' then ''Pending'' else kpPhase p);
          st = containerStateLine p;
          body = (if has_prefix st containerStatePrefix then drop (length containerStatePrefix) st else st);
          state = (if has_suffix body ''.'' then butlast body else body);
          evs = objectEvents (csCache (leCluster env)) (kpNamespace p) ''Pod'' (kpName p)
      in ''Pod '' @ kpName p @ '': '' @ phase @ (if podReady p then '', ready'' else '', not ready'') @
         (if st \<noteq> '''' then ''; '' @ state else '''') @
         (case newest_warning evs None of
            None \<Rightarrow> ''''
          | Some ev \<Rightarrow> '' '' @ em_dash @ '' '' @ evReason ev @ '': '' @
              oneLine (truncate_runes (evMessage ev) linkedMsgLen) @ event_suffix ev))"

text \<open>The workloads whose Pods the selector would match, with what their members report.\<close>

definition workloads :: "kube \<Rightarrow> string \<Rightarrow> (string \<times> k_workload) list" where
  "workloads kb ns =
     (let listed = (\<lambda>kind answer. case answer of Got ws \<Rightarrow> map (\<lambda>w. (kind, w)) ws | _ \<Rightarrow> []) in
      listed ''Deployment'' (kbDeployments kb ns) @ listed ''StatefulSet'' (kbStatefulSets kb ns) @
      listed ''DaemonSet'' (kbDaemonSets kb ns))"

definition workload_hint :: "link_env \<Rightarrow> string \<Rightarrow> string \<times> k_workload \<Rightarrow> string" where
  "workload_hint env ns kw =
     (case kw of (kind, w) \<Rightarrow>
        let ls = fst (memberEvidence (leNow env) (leCluster env) ns kind (kwName w))
        in kind @ '' '' @ kwName w @ '' (its pod template matches): '' @ itoa (kwReady w) @ '' of '' @
           itoa (case kwReplicas w of Some n \<Rightarrow> n | None \<Rightarrow> 1) @ '' ready'' @
           (case ls of
              [] \<Rightarrow> ''''
            | m # _ \<Rightarrow> '' '' @ em_dash @ '' '' @
                truncate_runes (if has_prefix m ''- '' then drop 2 m else m) (linkedMsgLen + 80)))"

text \<open>How often each other value of a label occurs.\<close>

definition label_counts :: "string \<Rightarrow> string \<Rightarrow> k_pod list \<Rightarrow> (string, nat) gomap" where
  "label_counts k want pods =
     group_fold (\<lambda>v. v) (\<lambda>_ n. case n of None \<Rightarrow> 1 | Some m \<Rightarrow> Suc m)
       (concat (map (\<lambda>p. case map_of (kpLabels p) k of Some v \<Rightarrow> if v \<noteq> want then [v] else [] | None \<Rightarrow> []) pods))"

definition closer :: "string \<Rightarrow> string \<Rightarrow> string \<Rightarrow> bool" where
  "closer want v w \<longleftrightarrow> editDistance v want < editDistance w want"

definition label_hint :: "k_service \<Rightarrow> k_pod list \<Rightarrow> string \<Rightarrow> string list" where
  "label_hint s pods k =
     (let want = al_get '''' (svSelector s) k;
          count = label_counts k want pods;
          vals = go_sort (closer want) (sortedKeys count);
          part = (\<lambda>v. k @ ''='' @ v @ '' ('' @ itoa (int (al_get 0 count v)) @ '' '' @
                    pluralWord ''pod'' ''pods'' (int (al_get 0 count v)) @ '')'')
      in if count = [] then []
         else [''pods in namespace '' @ svNamespace s @ '' with label '' @ k @ '': '' @
               str_join '', '' (map part (take 3 vals) @ (if length vals > 3 then [ellipsis] else []))])"

definition selectorHints :: "link_env \<Rightarrow> k_service \<Rightarrow> string list" where
  "selectorHints env s =
     (let kb = leKube env; ns = svNamespace s;
          hits = take 2 (filter (\<lambda>(_, w). kbMatches kb (svSelector s) (kwLabels w)) (workloads kb ns))
      in if hits \<noteq> [] then map (workload_hint env ns) hits
         else case kbPods kb ns None of
                Got pods \<Rightarrow> concat (map (label_hint s pods) (sortedKeys (svSelector s)))
              | _ \<Rightarrow> [])"

text \<open>The ports Pods declare, each once: number, name, protocol.\<close>

definition declare_port :: "string list \<times> (int \<times> string \<times> string) list \<Rightarrow> int \<times> string \<times> string \<Rightarrow>
    string list \<times> (int \<times> string \<times> string) list" where
  "declare_port st cp =
     (case (st, cp) of ((known, ports), (num, name, proto)) \<Rightarrow>
        let key = itoa num @ ''/'' @ proto_of proto @ ''/'' @ name
        in if key \<in> set known then st else (key # known, ports @ [(num, name, proto_of proto)]))"

definition declared_ports :: "k_pod list \<Rightarrow> (int \<times> string \<times> string) list" where
  "declared_ports pods =
     snd (foldl declare_port ([], []) (concat (map (\<lambda>p. concat (map kcPorts (kpContainers p))) pods)))"

definition port_problem :: "(int \<times> string \<times> string) list \<Rightarrow> string \<Rightarrow> k_port \<Rightarrow> string list" where
  "port_problem declared they sp =
     (let number = (\<lambda>i. let tp = (if i = 0 then spPort sp else i) in
             if list_ex (\<lambda>(num, _, proto). num = tp \<and> proto = proto_of (spProtocol sp)) declared then []
             else [''targetPort '' @ itoa tp @ '' is not a port its pods declare ('' @ they @ '')''])
      in case spTarget sp of
           TargetInt i \<Rightarrow> number i
         | TargetName n \<Rightarrow>
             if n = '''' then number 0
             else if list_ex (\<lambda>(_, name, _). name = n) declared then []
             else [''targetPort '' @ go_quote n @ '' is not a port name its pods declare ('' @ they @ '')''])"

definition targetPortLines :: "k_service \<Rightarrow> k_pod list \<Rightarrow> string list" where
  "targetPortLines s pods =
     (let declared = declared_ports pods;
          they = ''they declare '' @ str_join '' '' (map (\<lambda>(num, _, proto). itoa num @ ''/'' @ proto) declared)
      in if declared = [] then [] else concat (map (port_problem declared they) (svPorts s)))"

definition backing_less :: "k_pod \<Rightarrow> k_pod \<Rightarrow> bool" where
  "backing_less p q = (if podReady p \<noteq> podReady q then \<not> podReady p else kpName p < kpName q)"

text \<open>What is behind a Service without a ready endpoint. The list is sorted in place.\<close>

definition backing_lines :: "link_env \<Rightarrow> k_service \<Rightarrow> k_pod list \<Rightarrow> string list" where
  "backing_lines env s pods =
     (if pods = [] then ''selector matches no pods'' # selectorHints env s
      else map (podLine env) (take linkedMaxBacking (go_sort backing_less pods)) @
           (if length pods > linkedMaxBacking
            then [''('' @ itoa (int (length pods - linkedMaxBacking)) @ '' more pods)''] else []))"

definition serviceItem :: "link_env \<Rightarrow> k_service \<Rightarrow> linkedItem" where
  "serviceItem env s =
     (let name = (if svNamespace s \<noteq> leNS env then svName s @ ''.'' @ svNamespace s else svName s);
          item = (\<lambda>facts ls. \<lparr>liRule = ''service'', liKind = ''Service'', liNS = svNamespace s, liName = name,
                               liFacts = facts, liLines = ls\<rparr>);
          counts = endpointCounts (leKube env) (svNamespace s) (svName s);
          parts = (if svClusterIP s = ''None'' then [''headless''] else []) @
                  [if svSelector s = [] then ''no selector'' else ''selector '' @ tight_commas (joinKV (svSelector s))] @
                  (if svPorts s = [] then [] else [''ports '' @ str_join '' '' (map port_text (svPorts s))]) @
                  (case counts of
                     None \<Rightarrow> []
                   | Some (ready, notReady) \<Rightarrow>
                       [''endpoints '' @ itoa ready @ '' ready'' @
                        (if notReady > 0 then '', '' @ itoa notReady @ '' not ready'' else '''')]);
          facts = str_join '', '' parts;
          idle = (case counts of Some (ready, _) \<Rightarrow> ready = 0 | None \<Rightarrow> False)
      in if svType s = ''ExternalName'' then item (''ExternalName '' @ svExternalName s) []
         else if svSelector s = [] then item facts []
         else case kbPods (leKube env) (svNamespace s) (Some (svSelector s)) of
                Got pods \<Rightarrow>
                  (let sorted_pods = (if idle then go_sort backing_less pods else pods) in
                   item facts ((if idle then backing_lines env s pods else []) @ targetPortLines s sorted_pods))
              | _ \<Rightarrow> item facts [])"

text \<open>The loop of \<open>serviceDeps\<close> over the tokens of the error lines, with \<open>n\<close> Services added.\<close>

fun deps_loop :: "link_env \<Rightarrow> nat \<Rightarrow> string list \<Rightarrow> linker \<Rightarrow> linker" where
  "deps_loop env n [] l = l"
| "deps_loop env n (tok # toks) l =
     (if n \<ge> linkedMaxServices then l
      else case serviceFor env tok of
             None \<Rightarrow> deps_loop env n toks l
           | Some s \<Rightarrow>
               if followed l ''Service'' (svNamespace s) (svName s) \<or> selectsEvidence env s
               then deps_loop env n toks l
               else let it = serviceItem env s
                    in if linked_key it \<in> set (lkSeen l) then deps_loop env n toks l
                       else deps_loop env (Suc n) toks (add_item it l))"

definition serviceDeps :: "link_env \<Rightarrow> linker \<Rightarrow> linker" where
  "serviceDeps env l =
     deps_loop env 0 (concat (map (\<lambda>line. find_all host_here None (to_lower line)) (errorLines env))) l"

section \<open>Nodes, when a Pod cannot be scheduled\<close>

definition sched_words :: "string list" where
  "sched_words = [''taint'', ''affinity'', ''selector'', ''insufficient'']"

fun unscheduled_pod :: "link_env \<Rightarrow> string list \<Rightarrow> k_pod option" where
  "unscheduled_pod env [] = None"
| "unscheduled_pod env (pn # pods) =
     (if list_ex (\<lambda>w. evReason w = ''FailedScheduling'' \<and> fold_any sched_words (evMessage w)) (podWarnings env pn)
      then (case link_pod env pn of Some p \<Rightarrow> Some p | None \<Rightarrow> unscheduled_pod env pods)
      else unscheduled_pod env pods)"

text \<open>\<open>%.1f\<close> of \<open>b / 2 ^ k\<close>, correctly rounded (ties to the even digit), without a final \<open>.0\<close>.\<close>

definition one_decimal :: "int \<Rightarrow> nat \<Rightarrow> string" where
  "one_decimal b k =
     (let d = 2 ^ k; q = (10 * \<bar>b\<bar>) div d; r = (10 * \<bar>b\<bar>) mod d;
          t = (if 2 * r > d \<or> 2 * r = d \<and> odd q then q + 1 else q)
      in (if b < 0 then ''-'' else '''') @ itoa (t div 10) @ (if t mod 10 = 0 then '''' else ''.'' @ itoa (t mod 10)))"

definition memoryQuantity :: "int \<Rightarrow> string" where
  "memoryQuantity v =
     (let b = f64_round v in
      if b \<ge> 2 ^ 30 then one_decimal b 30 @ ''Gi'' else one_decimal b 20 @ ''Mi'')"

definition taint_text :: "string \<times> string \<times> string \<Rightarrow> string" where
  "taint_text t = (case t of (key, val, effect) \<Rightarrow> key @ (if val \<noteq> '''' then ''='' @ val else '''') @ '':'' @ effect)"

definition nodeItem :: "k_node \<Rightarrow> string list \<Rightarrow> linkedItem" where
  "nodeItem n keys =
     (let quantity = (\<lambda>r. map_of (knAllocatable n) r);
          ready = (if (''Ready'', ''True'') \<in> set (knConditions n) then ''Ready'' else ''NotReady'');
          alloc = (case quantity ''cpu'' of Some (q, _) \<Rightarrow> [''cpu='' @ q] | None \<Rightarrow> []) @
                  (case quantity ''memory'' of Some (_, v) \<Rightarrow> [''memory='' @ memoryQuantity v] | None \<Rightarrow> []) @
                  map (\<lambda>r. r @ ''='' @ (case quantity r of Some (q, _) \<Rightarrow> q | None \<Rightarrow> ''''))
                    (filter (\<lambda>r. str_contains r ''/'') (sortedKeys (knAllocatable n)));
          parts = [ready] @ (if knUnschedulable n then [''cordoned''] else []) @
                  [if knTaints n = [] then ''no taints'' else ''taints '' @ str_join '' '' (map taint_text (knTaints n))] @
                  (if alloc = [] then [] else [''allocatable '' @ str_join '' '' alloc]) @
                  (if keys = [] then []
                   else [''labels '' @ str_join '' '' (map (\<lambda>k. k @ ''='' @ al_get ''<unset>'' (knLabels n) k) keys)])
      in \<lparr>liRule = ''nodes'', liKind = ''Node'', liNS = '''', liName = knName n,
          liFacts = str_join '', '' parts, liLines = []\<rparr>)"

fun add_keys :: "string list \<Rightarrow> string list \<Rightarrow> string list" where
  "add_keys keys [] = keys"
| "add_keys keys (k # ks) = add_keys (if k \<in> set keys then keys else keys @ [k]) ks"

definition node_less :: "kube \<Rightarrow> labels \<Rightarrow> k_node \<Rightarrow> k_node \<Rightarrow> bool" where
  "node_less kb sel m n =
     (let mi = kbMatches kb sel (knLabels m); mj = kbMatches kb sel (knLabels n)
      in if mi \<noteq> mj then mi else knName m < knName n)"

text \<open>
  The last item gets the line that counts the nodes left out: with no item at all the code would index
  before the list, a panic, here \<open>None\<close>.
\<close>

definition nodes :: "link_env \<Rightarrow> linker \<Rightarrow> linker option" where
  "nodes env l =
     (case unscheduled_pod env (evidencePods env) of
        None \<Rightarrow> Some l
      | Some p \<Rightarrow>
          (case kbNodes (leKube env) of
             Got ns \<Rightarrow>
               (let keys = add_keys (sortedKeys (kpNodeSelector p)) (concat (kpAffinity p));
                    ordered = go_sort (node_less (leKube env) (kpNodeSelector p)) ns;
                    l' = foldl (\<lambda>l n. add_item (nodeItem n keys) l) l (take linkedMaxNodes ordered);
                    more = int (length ordered) - int linkedMaxNodes
                in if more \<le> 0 then Some l'
                   else if lkItems l' = [] then None
                   else Some (l'\<lparr>lkItems := butlast (lkItems l') @
                          [(last (lkItems l'))\<lparr>liLines := liLines (last (lkItems l')) @
                             [''('' @ itoa more @ '' more nodes)'']\<rparr>]\<rparr>))
           | _ \<Rightarrow> Some l))"

section \<open>All the rules\<close>

definition followLinks :: "kube \<Rightarrow> clusterState \<Rightarrow> time \<Rightarrow> string \<Rightarrow> string \<Rightarrow> string \<Rightarrow> EventSummary list \<Rightarrow>
    EventSummary list \<Rightarrow> string \<Rightarrow> linkedItem list option" where
  "followLinks kb cl now ns kind name events member_events logs =
     (if ns = '''' \<or> ns = clusterScopeNS then Some []
      else let env = \<lparr>leKube = kb, leCluster = cl, leNow = now, leNS = ns, leKind = kind, leName = name,
                      leWarnings = filter (\<lambda>ev. evType ev = ''Warning'') events @ member_events, leLogs = logs\<rparr>;
               l = \<lparr>lkSeen = [object_path kind ns name], lkItems = []\<rparr>
           in map_option lkItems
                (nodes env (serviceDeps env (pullSecrets env (claims env (configRefs env l))))))"

text \<open>\<open>addLinked\<close>, with \<open>on\<close> the setting of \<open>AI_LINK_FOLLOW\<close>; \<open>None\<close> is the panic of \<open>nodes\<close>.\<close>

definition addLinked :: "(string \<Rightarrow> int) \<Rightarrow> bool \<Rightarrow> kube \<Rightarrow> clusterState \<Rightarrow> time \<Rightarrow> string \<Rightarrow> string \<Rightarrow> string \<Rightarrow> int \<Rightarrow>
    evidence \<Rightarrow> evidence option" where
  "addLinked estimate on kb cl now ns kind name ctxLen e =
     (if \<not> on then Some e
      else case followLinks kb cl now ns kind name (edEvents e) (edMemberEvents e) (edLogs e) of
             None \<Rightarrow> None
           | Some items \<Rightarrow>
               (case renderLinked estimate items (linkedBudget ctxLen) of
                  (text, kept, trimmed) \<Rightarrow>
                    Some (e\<lparr>edLinked := text, edLinkedItems := kept, edLinkedTrimmed := trimmed\<rparr>)))"

section \<open>What a rule adds\<close>

text \<open>
  \<open>extends tags l l'\<close>: new items of these rules have been added at the end, each for an object not
  seen before.
\<close>

definition extends :: "string set \<Rightarrow> linker \<Rightarrow> linker \<Rightarrow> bool" where
  "extends tags l l' \<longleftrightarrow>
     (\<exists>new. lkItems l' = lkItems l @ new \<and> lkSeen l' = rev (map linked_key new) @ lkSeen l \<and>
        distinct (map linked_key new) \<and> linked_key ` set new \<inter> set (lkSeen l) = {} \<and>
        liRule ` set new \<subseteq> tags)"

lemma extends_refl [intro, simp]: "extends tags l l"
  by (auto simp: extends_def)

lemma extends_trans:
  assumes "extends tags l m" and "extends tags' m n"
  shows "extends (tags \<union> tags') l n"
proof -
  obtain a where a: "lkItems m = lkItems l @ a" "lkSeen m = rev (map linked_key a) @ lkSeen l"
      "distinct (map linked_key a)" "linked_key ` set a \<inter> set (lkSeen l) = {}" "liRule ` set a \<subseteq> tags"
    using assms(1) by (auto simp: extends_def)
  obtain b where b: "lkItems n = lkItems m @ b" "lkSeen n = rev (map linked_key b) @ lkSeen m"
      "distinct (map linked_key b)" "linked_key ` set b \<inter> set (lkSeen m) = {}" "liRule ` set b \<subseteq> tags'"
    using assms(2) by (auto simp: extends_def)
  show ?thesis unfolding extends_def
    by (rule exI [of _ "a @ b"]) (use a b in auto)
qed

lemma extends_trans_same: "extends tags l m \<Longrightarrow> extends tags m n \<Longrightarrow> extends tags l n"
  using extends_trans [of tags l m tags n] by simp

lemma extends_add [intro]: "liRule it \<in> tags \<Longrightarrow> extends tags l (add_item it l)"
  by (auto simp: add_item_def extends_def intro!: exI [of _ "[it]"])

lemma extends_foldl:
  "(\<And>x l. x \<in> set xs \<Longrightarrow> extends tags l (f l x)) \<Longrightarrow> extends tags l (foldl f l xs)"
proof (induction xs arbitrary: l)
  case (Cons x xs)
  then show ?case by (auto intro: extends_trans_same)
qed simp

text \<open>The contract of a rule.\<close>

locale link_rule =
  fixes rule :: "linker \<Rightarrow> linker" and tags :: "string set"
  assumes adds: "extends tags l (rule l)"
begin

lemma keeps_order:
  "\<exists>new. lkItems (rule l) = lkItems l @ new \<and> liRule ` set new \<subseteq> tags"
  using adds [of l] by (auto simp: extends_def)

lemma other_rules: "tag \<notin> tags \<Longrightarrow> filter (\<lambda>it. liRule it = tag) (lkItems (rule l)) =
    filter (\<lambda>it. liRule it = tag) (lkItems l)"
  using keeps_order [of l] by (force simp: filter_empty_conv)

end

lemma configItem_rule: "configItem kb ns r = Some it \<Longrightarrow> liRule it = ''config'' \<and> liName it = crName r"
  by (auto simp: configItem_def Let_def split: api_answer.splits)

lemma claimItem_rule: "liRule (claimItem env name claim) = ''claim''"
  by (simp add: claimItem_def Let_def split: option.splits prod.splits)

lemma serviceItem_rule: "liRule (serviceItem env s) = ''service''"
  by (simp add: serviceItem_def Let_def split: api_answer.splits)

lemma nodeItem_rule: "liRule (nodeItem n keys) = ''nodes''"
  by (simp add: nodeItem_def Let_def)

interpretation config_rule: link_rule "configRefs env" "{''config''}" for env
proof
  fix l
  have "extends {''config''} l (config_step env l kr)" for l kr
    using configItem_rule by (auto simp: config_step_def Let_def split: option.splits)
  then show "extends {''config''} l (configRefs env l)" unfolding configRefs_def by (intro extends_foldl)
qed

lemma claim_step_extends: "extends {''claim'', ''storageclass''} l (claim_step env pn p l v)"
  by (auto simp: claim_step_def Let_def claimItem_rule split: option.splits api_answer.splits)

interpretation claim_rule: link_rule "claims env" "{''claim'', ''storageclass''}" for env
proof
  fix l
  have "extends {''claim'', ''storageclass''} l (pod_claims env l pn)" for l pn
    by (auto simp: pod_claims_def split: option.splits intro!: extends_foldl claim_step_extends)
  moreover have "extends {''claim'', ''storageclass''} l (anchorClaim env l)"
    by (auto simp: anchorClaim_def split: option.splits api_answer.splits prod.splits)
  ultimately show "extends {''claim'', ''storageclass''} l (claims env l)"
    unfolding claims_def by (auto intro!: extends_foldl)
qed

lemma pod_pull_secrets_extends: "extends {''pullsecret''} l (pod_pull_secrets env p l)"
proof -
  have item: "extends {''pullsecret''} l (add_item (pullSecretItem env r what) l)" for r what l
    by (rule extends_add) (simp add: pullSecretItem_def)
  have two: "extends {''pullsecret''} l (foldl (\<lambda>l r. add_item (pullSecretItem env r b) l)
      (foldl (\<lambda>l r. add_item (pullSecretItem env r a) l) l xs) ys)" for a b xs ys
    by (rule extends_trans_same; rule extends_foldl; rule item)
  show ?thesis
    unfolding pod_pull_secrets_def Let_def
    by (simp split: if_split) (intro conjI impI two extends_trans_same [OF two] extends_add; simp)
qed

interpretation pull_rule: link_rule "pullSecrets env" "{''pullsecret''}" for env
proof
  fix l
  have "extends {''pullsecret''} l (pull_loop env pods l)" for pods
    by (induction env pods l rule: pull_loop.induct) (auto simp: pod_pull_secrets_extends split: option.splits)
  then show "extends {''pullsecret''} l (pullSecrets env l)" by (simp add: pullSecrets_def)
qed

lemma deps_loop_extends:
  "extends {''service''} l (deps_loop env n toks l)"
proof (induction env n toks l rule: deps_loop.induct)
  case (2 env n tok toks l)
  show ?case
  proof (cases "serviceFor env tok")
    case (Some s)
    have "extends {''service''} l (add_item (serviceItem env s) l)" by (rule extends_add) (simp add: serviceItem_rule)
    then show ?thesis
      using 2 Some by (auto simp: Let_def intro: extends_trans_same)
  qed (use 2 in auto)
qed simp

interpretation service_rule: link_rule "serviceDeps env" "{''service''}" for env
  by unfold_locales (simp add: serviceDeps_def deps_loop_extends)

end
