(* ===== verification/LinkedSafe.thy ===== *)
theory LinkedSafe
  imports Linked
begin

text \<open>
  What following links guarantees: the order and number of the items, that ConfigMaps and Secrets are
  only followed when the evidence names them, and that no value stored in them is read.
\<close>

section \<open>The state after the rules\<close>

definition new_linker :: "string \<Rightarrow> linker" where
  "new_linker anchor = \<lparr>lkSeen = [anchor], lkItems = []\<rparr>"

definition count_rule :: "string \<Rightarrow> linkedItem list \<Rightarrow> nat" where
  "count_rule tag items = length (filter (\<lambda>it. liRule it = tag) items)"

text \<open>Items of the first rules come first, no object twice, the anchor never.\<close>

definition items_ok :: "string \<Rightarrow> linkedItem list \<Rightarrow> bool" where
  "items_ok anchor items \<longleftrightarrow> distinct (map linked_key items) \<and> anchor \<notin> linked_key ` set items"

lemma extends_items_ok:
  assumes "extends tags (new_linker anchor) l"
  shows "items_ok anchor (lkItems l) \<and> lkSeen l = rev (map linked_key (lkItems l)) @ [anchor]"
  using assms by (auto simp: extends_def new_linker_def items_ok_def)

lemma extends_append: "extends tags l l' \<Longrightarrow> \<exists>new. lkItems l' = lkItems l @ new \<and> liRule ` set new \<subseteq> tags"
  by (auto simp: extends_def)

lemma deps_loop_count:
  "n \<le> linkedMaxServices \<Longrightarrow>
   length (lkItems (deps_loop env n toks l)) \<le> length (lkItems l) + (linkedMaxServices - n)"
proof (induction env n toks l rule: deps_loop.induct)
  case (2 env n tok toks l)
  show ?case
  proof (cases "n \<ge> linkedMaxServices \<or> serviceFor env tok = None")
    case True
    then show ?thesis using 2 by (auto split: option.splits)
  next
    case False
    then obtain s where s: "serviceFor env tok = Some s" and n: "n < linkedMaxServices" by auto
    have one: "length (lkItems (add_item it l)) \<le> Suc (length (lkItems l))" for it by (simp add: add_item_def)
    consider "followed l ''Service'' (svNamespace s) (svName s) \<or> selectsEvidence env s \<or>
        linked_key (serviceItem env s) \<in> set (lkSeen l)"
      | "\<not> (followed l ''Service'' (svNamespace s) (svName s) \<or> selectsEvidence env s)"
        "linked_key (serviceItem env s) \<notin> set (lkSeen l)" by blast
    then show ?thesis
    proof cases
      case 1
      then have "deps_loop env n (tok # toks) l = deps_loop env n toks l"
        using s n by (auto simp: Let_def)
      then show ?thesis using 2 s n 1 by (auto simp: Let_def)
    next
      case c: 2
      then have eq: "deps_loop env n (tok # toks) l = deps_loop env (Suc n) toks (add_item (serviceItem env s) l)"
        using s n by (simp add: Let_def)
      have "length (lkItems (deps_loop env (Suc n) toks (add_item (serviceItem env s) l))) \<le>
          length (lkItems (add_item (serviceItem env s) l)) + (linkedMaxServices - Suc n)"
        using "2.IH"(4) [OF _ s c(1) refl c(2)] n by simp
      then show ?thesis unfolding eq using one [of "serviceItem env s"] n by linarith
    qed
  qed
qed simp

text \<open>What \<open>nodes\<close> adds: at most six items, whose keys do not depend on the line that counts the rest.\<close>

definition node_fold :: "string list \<Rightarrow> linker \<Rightarrow> k_node list \<Rightarrow> linker" where
  "node_fold keys l ns = foldl (\<lambda>l n. add_item (nodeItem n keys) l) l ns"

lemma node_fold_extends: "extends {''nodes''} l (node_fold keys l ns)"
  unfolding node_fold_def by (intro extends_foldl extends_add) (simp add: nodeItem_rule)

lemma node_fold_length: "length (lkItems (node_fold keys l ns)) \<le> length (lkItems l) + length ns"
proof (induction ns arbitrary: l)
  case (Cons n ns)
  have "length (lkItems (add_item (nodeItem n keys) l)) \<le> Suc (length (lkItems l))" by (simp add: add_item_def)
  then show ?case using Cons [of "add_item (nodeItem n keys) l"] by (simp add: node_fold_def)
qed (simp add: node_fold_def)

lemma node_key: "linked_key (nodeItem n keys) = ''Node//'' @ knName n"
  by (simp add: linked_key_def nodeItem_def Let_def)

lemma node_fold_adds:
  assumes "n \<in> set ns" and "''Node//'' @ knName n \<notin> set (lkSeen l)"
  shows "length (lkItems (node_fold keys l ns)) > length (lkItems l)"
  using assms
proof (induction ns arbitrary: l)
  case (Cons m ns)
  show ?case
  proof (cases "linked_key (nodeItem m keys) \<in> set (lkSeen l)")
    case True
    then have "add_item (nodeItem m keys) l = l" by (simp add: add_item_def)
    moreover have "m \<noteq> n" using True Cons.prems(2) by (auto simp: node_key)
    ultimately show ?thesis using Cons by (simp add: node_fold_def)
  next
    case False
    then have "length (lkItems (add_item (nodeItem m keys) l)) = Suc (length (lkItems l))"
      by (simp add: add_item_def)
    moreover obtain new where "lkItems (node_fold keys (add_item (nodeItem m keys) l) ns) =
        lkItems (add_item (nodeItem m keys) l) @ new"
      using extends_append [OF node_fold_extends] by blast
    ultimately show ?thesis by (simp add: node_fold_def)
  qed
qed simp

definition rule_rank :: "string \<Rightarrow> nat" where
  "rule_rank tag =
     (if tag = ''config'' then 0 else if tag = ''claim'' \<or> tag = ''storageclass'' then 1
      else if tag = ''pullsecret'' then 2 else if tag = ''service'' then 3 else 4)"

definition distinct_nodes :: "kube \<Rightarrow> bool" where
  "distinct_nodes kb \<longleftrightarrow> (case kbNodes kb of Got ns \<Rightarrow> distinct (map knName ns) | _ \<Rightarrow> True)"

text \<open>What an item is, but for its text.\<close>

definition item_label :: "linkedItem \<Rightarrow> string \<times> string \<times> string" where
  "item_label it = (linked_key it, liRule it, liName it)"

lemma same_labels:
  assumes "map item_label xs = map item_label ys"
  shows "map linked_key xs = map linked_key ys" "map liRule xs = map liRule ys" "map liName xs = map liName ys"
proof -
  have "linked_key = fst \<circ> item_label" "liRule = fst \<circ> snd \<circ> item_label" "liName = snd \<circ> snd \<circ> item_label"
    by (auto simp: item_label_def)
  then show "map linked_key xs = map linked_key ys" "map liRule xs = map liRule ys" "map liName xs = map liName ys"
    using assms by (metis map_map)+
qed

text \<open>Two nodes cannot both be the anchor: with six of them one item at least is added.\<close>

lemma node_fold_nonempty:
  assumes "lkSeen l = rev (map linked_key (lkItems l)) @ [anchor]"
    and "distinct (map knName ns)" and "length ns \<ge> 2"
  shows "lkItems (node_fold keys l ns) \<noteq> []"
proof (cases "lkItems l = []")
  case True
  obtain m n rest where ns: "ns = m # n # rest" using assms(3) by (cases ns rule: remdups_adj.cases) auto
  then have "\<exists>x\<in>set ns. ''Node//'' @ knName x \<noteq> anchor" using assms(2) by auto
  then obtain x where "x \<in> set ns" "''Node//'' @ knName x \<notin> set (lkSeen l)" using assms(1) True by auto
  then show ?thesis using node_fold_adds [of x ns l keys] by auto
next
  case False
  then show ?thesis using extends_append [OF node_fold_extends [of l keys ns]] by auto
qed

lemma nodes_spec:
  assumes "lkSeen l = rev (map linked_key (lkItems l)) @ [anchor]" and "distinct_nodes (leKube env)"
  obtains l' l'' where "nodes env l = Some l'" and "extends {''nodes''} l l''"
    and "map item_label (lkItems l') = map item_label (lkItems l'')"
    and "length (lkItems l'') \<le> length (lkItems l) + linkedMaxNodes"
proof (cases "unscheduled_pod env (evidencePods env)")
  case None
  then show ?thesis by (intro that [of l l]) (simp_all add: nodes_def)
next
  case (Some p)
  show ?thesis
  proof (cases "kbNodes (leKube env)")
    case (Got ns)
    let ?keys = "add_keys (sortedKeys (kpNodeSelector p)) (concat (kpAffinity p))"
    let ?ordered = "go_sort (node_less (leKube env) (kpNodeSelector p)) ns"
    let ?l = "node_fold ?keys l (take linkedMaxNodes ?ordered)"
    have len: "length (lkItems ?l) \<le> length (lkItems l) + linkedMaxNodes"
      using node_fold_length [of ?keys l "take linkedMaxNodes ?ordered"] by simp
    have eq: "nodes env l =
        (if int (length ?ordered) - int linkedMaxNodes \<le> 0 then Some ?l
         else if lkItems ?l = [] then None
         else Some (?l\<lparr>lkItems := butlast (lkItems ?l) @ [(last (lkItems ?l))\<lparr>liLines := liLines (last (lkItems ?l)) @
           [''('' @ itoa (int (length ?ordered) - int linkedMaxNodes) @ '' more nodes)'']\<rparr>]\<rparr>))"
      using Some Got by (simp add: nodes_def node_fold_def Let_def)
    show ?thesis
    proof (cases "int (length ?ordered) - int linkedMaxNodes \<le> 0")
      case True
      then show ?thesis using eq len node_fold_extends by (intro that [of ?l ?l]) auto
    next
      case False
      have "distinct (map knName ?ordered)" using assms(2) Got by (simp add: distinct_nodes_def)
      then have "distinct (map knName (take linkedMaxNodes ?ordered))" by (simp add: take_map [symmetric])
      moreover have "length (take linkedMaxNodes ?ordered) \<ge> 2" using False by (simp add: linkedMaxNodes_def)
      ultimately have ne: "lkItems ?l \<noteq> []" using node_fold_nonempty [OF assms(1)] by blast
      have upd: "map f (butlast xs @ [(last xs)\<lparr>liLines := ls\<rparr>]) = map f xs"
        if "xs \<noteq> []" "\<And>it ls. f (it\<lparr>liLines := ls\<rparr>) = f it" for f :: "linkedItem \<Rightarrow> string \<times> string \<times> string" and xs ls
        using that by (cases xs rule: rev_cases) auto
      show ?thesis
        using eq False ne len node_fold_extends upd [OF ne, of item_label]
        by (intro that [of "?l\<lparr>lkItems := butlast (lkItems ?l) @ [(last (lkItems ?l))\<lparr>liLines := liLines (last (lkItems ?l)) @
           [''('' @ itoa (int (length ?ordered) - int linkedMaxNodes) @ '' more nodes)'']\<rparr>]\<rparr>" ?l])
          (auto simp: item_label_def linked_key_def)
    qed
  next
    case NotFound
    then show ?thesis using Some by (intro that [of l l]) (simp_all add: nodes_def)
  next
    case ApiErr
    then show ?thesis using Some by (intro that [of l l]) (simp_all add: nodes_def)
  qed
qed

definition link_env_of :: "kube \<Rightarrow> clusterState \<Rightarrow> time \<Rightarrow> string \<Rightarrow> string \<Rightarrow> string \<Rightarrow> EventSummary list \<Rightarrow>
    EventSummary list \<Rightarrow> string \<Rightarrow> link_env" where
  "link_env_of kb cl now ns kind name events member_events logs =
     \<lparr>leKube = kb, leCluster = cl, leNow = now, leNS = ns, leKind = kind, leName = name,
      leWarnings = filter (\<lambda>ev. evType ev = ''Warning'') events @ member_events, leLogs = logs\<rparr>"

lemma followLinks_eq:
  assumes "ns \<noteq> ''''" and "ns \<noteq> clusterScopeNS"
    and "env = link_env_of kb cl now ns kind name events member_events logs"
  shows "followLinks kb cl now ns kind name events member_events logs =
    map_option lkItems (nodes env (serviceDeps env (pullSecrets env (claims env
      (configRefs env (new_linker (object_path kind ns name)))))))"
  using assms by (simp add: followLinks_def link_env_of_def new_linker_def Let_def)

lemma rules_in_order:
  assumes "extends {''config''} l0 l1" and "extends {''claim'', ''storageclass''} l1 l2"
    and "extends {''pullsecret''} l2 l3" and "extends {''service''} l3 l4" and "extends {''nodes''} l4 l5"
    and "lkItems l0 = []" and "length (lkItems l4) \<le> length (lkItems l3) + 3"
    and "length (lkItems l5) \<le> length (lkItems l4) + 6"
  shows "sorted (map rule_rank (map liRule (lkItems l5))) \<and>
    count_rule ''service'' (lkItems l5) \<le> 3 \<and> count_rule ''nodes'' (lkItems l5) \<le> 6"
proof -
  obtain a where a: "lkItems l1 = a" "liRule ` set a \<subseteq> {''config''}"
    using extends_append [OF assms(1)] assms(6) by auto
  obtain b where b: "lkItems l2 = a @ b" "liRule ` set b \<subseteq> {''claim'', ''storageclass''}"
    using extends_append [OF assms(2)] a by auto
  obtain c where c: "lkItems l3 = a @ b @ c" "liRule ` set c \<subseteq> {''pullsecret''}"
    using extends_append [OF assms(3)] b by auto
  obtain d where d: "lkItems l4 = a @ b @ c @ d" "liRule ` set d \<subseteq> {''service''}"
    using extends_append [OF assms(4)] c by auto
  obtain e where e: "lkItems l5 = a @ b @ c @ d @ e" "liRule ` set e \<subseteq> {''nodes''}"
    using extends_append [OF assms(5)] d by auto
  have const: "sorted (map rule_rank (map liRule xs))" if "\<And>it. it \<in> set xs \<Longrightarrow> rule_rank (liRule it) = k" for xs k
    using that by (induction xs) auto
  have rank: "it \<in> set a \<Longrightarrow> rule_rank (liRule it) = 0" "it \<in> set b \<Longrightarrow> rule_rank (liRule it) = 1"
      "it \<in> set c \<Longrightarrow> rule_rank (liRule it) = 2" "it \<in> set d \<Longrightarrow> rule_rank (liRule it) = 3"
      "it \<in> set e \<Longrightarrow> rule_rank (liRule it) = 4" for it
    using a b c d e by (fastforce simp: rule_rank_def)+
  have "sorted (map rule_rank (map liRule (lkItems l5)))"
    unfolding e(1) map_append sorted_append
    using const [of a 0] const [of b 1] const [of c 2] const [of d 3] const [of e 4] rank
    by (simp add: ball_Un)
  moreover have none: "filter (\<lambda>it. liRule it = tag) xs = []" if "tag \<notin> tags" "liRule ` set xs \<subseteq> tags" for tag tags xs
    using that by (force simp: filter_empty_conv)
  have "filter (\<lambda>it. liRule it = ''service'') (lkItems l5) = filter (\<lambda>it. liRule it = ''service'') d"
    unfolding e(1) using none [OF _ a(2)] none [OF _ b(2)] none [OF _ c(2)] none [OF _ e(2)] by simp
  then have "count_rule ''service'' (lkItems l5) \<le> length d" by (simp add: count_rule_def)
  moreover have "filter (\<lambda>it. liRule it = ''nodes'') (lkItems l5) = filter (\<lambda>it. liRule it = ''nodes'') e"
    unfolding e(1) using none [OF _ a(2)] none [OF _ b(2)] none [OF _ c(2)] none [OF _ d(2)] by simp
  then have "count_rule ''nodes'' (lkItems l5) \<le> length e" by (simp add: count_rule_def)
  moreover have "length d \<le> 3" "length e \<le> 6" using assms(7,8) c d e by simp_all
  ultimately show ?thesis by simp
qed

lemma follow_stages:
  assumes "distinct_nodes kb" and "env = link_env_of kb cl now ns kind name events member_events logs"
    and "l0 = new_linker anchor"
  obtains l' l5 :: linker and rest where "nodes env (serviceDeps env (pullSecrets env (claims env (configRefs env l0)))) = Some l'"
    and "map item_label (lkItems l') = map item_label (lkItems l5)" and "lkItems l5 = lkItems (configRefs env l0) @ rest"
    and "''config'' \<notin> liRule ` set rest" and "items_ok anchor (lkItems l5)" and "sorted (map rule_rank (map liRule (lkItems l5)))"
    and "count_rule ''service'' (lkItems l5) \<le> 3" and "count_rule ''nodes'' (lkItems l5) \<le> 6"
proof -
  let ?l1 = "configRefs env l0" let ?l2 = "claims env ?l1" let ?l3 = "pullSecrets env ?l2" let ?l4 = "serviceDeps env ?l3"
  have steps: "extends {''config''} l0 ?l1" "extends {''claim'', ''storageclass''} ?l1 ?l2"
      "extends {''pullsecret''} ?l2 ?l3" "extends {''service''} ?l3 ?l4"
    by (rule config_rule.adds claim_rule.adds pull_rule.adds service_rule.adds)+
  obtain tags where all: "extends tags l0 ?l4"
    using extends_trans [OF extends_trans [OF extends_trans [OF steps(1,2)] steps(3)] steps(4)] by blast
  have seen: "lkSeen ?l4 = rev (map linked_key (lkItems ?l4)) @ [anchor]"
    using extends_items_ok all assms(3) by blast
  have kb: "leKube env = kb" using assms(2) by (simp add: link_env_of_def)
  obtain l' l5 where l: "nodes env ?l4 = Some l'" "extends {''nodes''} ?l4 l5"
      "map item_label (lkItems l') = map item_label (lkItems l5)"
      "length (lkItems l5) \<le> length (lkItems ?l4) + linkedMaxNodes"
    using nodes_spec [OF seen] assms(1) kb by metis
  have ok: "items_ok anchor (lkItems l5) \<and> lkSeen l5 = rev (map linked_key (lkItems l5)) @ [anchor]"
    using extends_items_ok extends_trans [OF all l(2)] assms(3) by blast
  have services: "length (lkItems ?l4) \<le> length (lkItems ?l3) + 3"
    using deps_loop_count [of 0 env _ ?l3] by (simp add: serviceDeps_def linkedMaxServices_def)
  have nodes: "length (lkItems l5) \<le> length (lkItems ?l4) + 6" using l(4) by (simp add: linkedMaxNodes_def)
  have "lkItems l0 = []" using assms(3) by (simp add: new_linker_def)
  note order = rules_in_order [OF steps l(2) this services nodes]
  have "extends {''claim'', ''storageclass'', ''pullsecret'', ''service'', ''nodes''} ?l1 l5"
    using extends_trans [OF extends_trans [OF extends_trans [OF steps(2,3)] steps(4)] l(2)] by (simp add: insert_commute)
  then obtain rest where rest: "lkItems l5 = lkItems ?l1 @ rest"
      "liRule ` set rest \<subseteq> {''claim'', ''storageclass'', ''pullsecret'', ''service'', ''nodes''}"
    using extends_append by blast
  from rest(2) have "''config'' \<notin> liRule ` set rest" by auto
  from that [OF l(1,3) rest(1) this conjunct1 [OF ok]] order show ?thesis by blast
qed

section \<open>Only what the evidence names\<close>

lemma contains_take_tl_drop: "str_contains s (take m (tl (drop j s)))"
  using contains_take_drop [of s m "Suc j"] by (simp add: drop_Suc tl_drop)

lemma missing_ref_named:
  assumes "missing_ref_here prev s = Some ((w, name), n)"
  shows "str_contains s name"
proof -
  let ?xs = "[(w, m) \<leftarrow> map (\<lambda>w. (w, quoted_name (drop (fold_length w s) s))) (filter (\<lambda>w. fold_prefix w s) ref_words).
    m \<noteq> None]"
  obtain v k rest where "?xs = (v, Some (name, k)) # rest"
    using assms by (auto simp: missing_ref_here_def split: if_splits list.splits option.splits prod.splits)
  then have "(v, Some (name, k)) \<in> set ?xs" by (metis list.set_intros(1))
  then have "quoted_name (drop (fold_length v s) s) = Some (name, k)" by auto
  then have "\<exists>k. name = take k (drop 2 (drop (fold_length v s) s))"
    by (auto simp: quoted_name_def Let_def split: if_splits)
  then show ?thesis using contains_take_drop by (metis drop_drop)
qed

lemma missing_key_named:
  "missing_key_here prev s = Some ((key, kind, ns, name), n) \<Longrightarrow> str_contains s name"
  by (auto simp: missing_key_here_def key_kind_def Let_def contains_take_tl_drop split: if_splits option.splits)

text \<open>Every reference collected is named in one of the texts.\<close>

definition named_in :: "string list \<Rightarrow> string \<Rightarrow> bool" where
  "named_in texts name \<longleftrightarrow> list_ex (\<lambda>t. str_contains t name) texts"

definition refs_named :: "string list \<Rightarrow> (string, configRef) gomap \<Rightarrow> bool" where
  "refs_named texts refs \<longleftrightarrow> list_all (\<lambda>(_, r). named_in texts (crName r)) refs"

lemma alter_named:
  assumes "refs_named texts refs" and "named_in texts (crName (g None))" and "\<And>r. crName (g (Some r)) = crName r"
  shows "refs_named texts (al_alter k g refs)"
  using assms unfolding refs_named_def by (induction k g refs rule: al_alter.induct) auto

lemma with_ref_named:
  "refs_named texts refs \<Longrightarrow> named_in texts name \<Longrightarrow> refs_named texts (with_ref kind ns name f refs)"
  unfolding with_ref_def by (erule alter_named) (simp_all add: Let_def)

lemma text_refs_named:
  assumes "refs_named texts refs" and "t \<in> set texts"
  shows "refs_named texts (text_refs ns refs t)"
proof -
  have fold_named: "refs_named texts (foldl f refs ms)"
    if "refs_named texts refs" "\<And>m refs. m \<in> set ms \<Longrightarrow> refs_named texts refs \<Longrightarrow> refs_named texts (f refs m)"
    for f ms refs using that by (induction ms arbitrary: refs) auto
  have in_t: "named_in texts name" if "s = u @ v" "s = t" "str_contains v name" for name s u v
    using assms(2) contains_suffix [OF that(3), of u] that(1,2) unfolding named_in_def list_ex_iff by auto
  have "refs_named texts (foldl key_ref refs (find_all missing_key_here None t))"
  proof (rule fold_named [OF assms(1)])
    fix m refs assume m: "m \<in> set (find_all missing_key_here None t)" and refs: "refs_named texts refs"
    obtain key kind ns' name where mm: "m = (key, kind, ns', name)" by (cases m)
    obtain p u v n where "missing_key_here p v = Some (m, n)" "t = u @ v" using find_all_mem [OF m] by blast
    then show "refs_named texts (key_ref refs m)"
      using in_t missing_key_named refs unfolding mm key_ref_def by (auto intro!: with_ref_named)
  qed
  then show ?thesis unfolding text_refs_def
  proof (rule fold_named)
    fix m refs assume m: "m \<in> set (find_all missing_ref_here None t)" and refs: "refs_named texts refs"
    obtain w name where mm: "m = (w, name)" by (cases m)
    obtain p u v n where "missing_ref_here p v = Some (m, n)" "t = u @ v" using find_all_mem [OF m] by blast
    then show "refs_named texts (name_ref ns refs m)"
      using in_t missing_ref_named refs unfolding mm name_ref_def by (auto intro!: with_ref_named)
  qed
qed

lemma configRefs_named:
  assumes "lkItems l = []"
  shows "list_all (\<lambda>it. named_in (evidence_texts env) (liName it)) (lkItems (configRefs env l))"
proof -
  let ?texts = "evidence_texts env"
  have "refs_named ?texts (foldl (text_refs (leNS env)) refs ts)"
    if "refs_named ?texts refs" "set ts \<subseteq> set ?texts" for refs ts
    using that by (induction ts arbitrary: refs) (auto intro: text_refs_named)
  then have refs: "refs_named ?texts (foldl (text_refs (leNS env)) [] ?texts)" by (simp add: refs_named_def)
  have step: "list_all (\<lambda>it. named_in ?texts (liName it)) (lkItems (config_step env l (k, r)))"
    if "list_all (\<lambda>it. named_in ?texts (liName it)) (lkItems l)" "named_in ?texts (crName r)" for l k r
    using that configItem_rule by (auto simp: config_step_def add_item_def Let_def split: option.splits)
  have "list_all (\<lambda>it. named_in ?texts (liName it)) (lkItems (foldl (config_step env) l krs))"
    if "list_all (\<lambda>it. named_in ?texts (liName it)) (lkItems l)" "refs_named ?texts krs" for l krs
    using that by (induction krs arbitrary: l) (auto simp: refs_named_def intro!: step)
  then show ?thesis unfolding configRefs_def using assms refs by simp
qed

section \<open>Values are not read\<close>

text \<open>The same cluster with every value of its ConfigMaps and Secrets replaced.\<close>

definition mask_data :: "(string \<Rightarrow> string \<Rightarrow> string) \<Rightarrow> (string, string) gomap \<Rightarrow> (string, string) gomap" where
  "mask_data f m = map (\<lambda>(k, v). (k, f k v)) m"

definition mask_secret :: "(string \<Rightarrow> string \<Rightarrow> string) \<Rightarrow> k_secret \<Rightarrow> k_secret" where
  "mask_secret f s = s\<lparr>secData := mask_data f (secData s), secStringData := mask_data f (secStringData s)\<rparr>"

definition mask_config :: "(string \<Rightarrow> string \<Rightarrow> string) \<Rightarrow> k_config_map \<Rightarrow> k_config_map" where
  "mask_config f c = c\<lparr>cmData := mask_data f (cmData c), cmBinaryData := mask_data f (cmBinaryData c)\<rparr>"

definition mask_kube :: "(string \<Rightarrow> string \<Rightarrow> string) \<Rightarrow> kube \<Rightarrow> kube" where
  "mask_kube f kb = kb\<lparr>kbSecret := (\<lambda>ns n. map_api_answer (mask_secret f) (kbSecret kb ns n)),
     kbSecrets := (\<lambda>ns. map_api_answer (map (mask_secret f)) (kbSecrets kb ns)),
     kbConfigMap := (\<lambda>ns n. map_api_answer (mask_config f) (kbConfigMap kb ns n)),
     kbConfigMaps := (\<lambda>ns. map_api_answer (map (mask_config f)) (kbConfigMaps kb ns))\<rparr>"

definition mask_env :: "(string \<Rightarrow> string \<Rightarrow> string) \<Rightarrow> link_env \<Rightarrow> link_env" where
  "mask_env f env = env\<lparr>leKube := mask_kube f (leKube env)\<rparr>"

named_theorems masked

lemma mask_data_keys [masked]: "map fst (mask_data f m) = map fst m" "fst ` set (mask_data f m) = fst ` set m"
  by (induction m) (auto simp: mask_data_def)

lemma mask_secret_fields [masked]:
  "secName (mask_secret f s) = secName s" "secType (mask_secret f s) = secType s"
  "secret_keys (mask_secret f s) = secret_keys s"
  by (simp_all add: mask_secret_def secret_keys_def mask_data_keys)

lemma mask_config_fields [masked]:
  "cmName (mask_config f c) = cmName c" "map fst (cmData (mask_config f c)) = map fst (cmData c)"
  "map fst (cmBinaryData (mask_config f c)) = map fst (cmBinaryData c)"
  by (simp_all add: mask_config_def mask_data_keys)

lemma mask_kube_fields [masked]:
  "kbPod (mask_kube f kb) = kbPod kb" "kbClaim (mask_kube f kb) = kbClaim kb"
  "kbStorageClass (mask_kube f kb) = kbStorageClass kb" "kbStorageClasses (mask_kube f kb) = kbStorageClasses kb"
  "kbServiceAccount (mask_kube f kb) = kbServiceAccount kb" "kbService (mask_kube f kb) = kbService kb"
  "kbServices (mask_kube f kb) = kbServices kb" "kbEndpoints (mask_kube f kb) = kbEndpoints kb"
  "kbPods (mask_kube f kb) = kbPods kb" "kbDeployments (mask_kube f kb) = kbDeployments kb"
  "kbStatefulSets (mask_kube f kb) = kbStatefulSets kb" "kbDaemonSets (mask_kube f kb) = kbDaemonSets kb"
  "kbNodes (mask_kube f kb) = kbNodes kb" "kbMatches (mask_kube f kb) = kbMatches kb"
  by (simp_all add: mask_kube_def)

lemma mask_env_fields [masked]:
  "leCluster (mask_env f env) = leCluster env" "leNow (mask_env f env) = leNow env" "leNS (mask_env f env) = leNS env"
  "leKind (mask_env f env) = leKind env" "leName (mask_env f env) = leName env"
  "leWarnings (mask_env f env) = leWarnings env" "leLogs (mask_env f env) = leLogs env"
  "leKube (mask_env f env) = mask_kube f (leKube env)"
  by (simp_all add: mask_env_def)

lemma mask_reads [masked]:
  "evidencePods (mask_env f env) = evidencePods env" "podWarnings (mask_env f env) = podWarnings env"
  "link_pod (mask_env f env) = link_pod env" "evidence_texts (mask_env f env) = evidence_texts env"
  "objectWarnings (mask_env f env) = objectWarnings env" "nsServices (mask_env f env) = nsServices env"
  "errorLines (mask_env f env) = errorLines env"
  by (simp_all add: fun_eq_iff evidencePods_def podWarnings_def link_pod_def evidence_texts_def objectWarnings_def
      nsServices_def errorLines_def masked)

lemma mask_config_keys [masked]: "config_keys (mask_kube f kb) r = config_keys kb r"
proof -
  have "map fst (cmData (mask_config f c)) @ map fst (cmBinaryData (mask_config f c)) =
      map fst (cmData c) @ map fst (cmBinaryData c)" for c by (simp only: masked)
  then show ?thesis
    unfolding config_keys_def mask_kube_def
    by (cases "kbSecret kb (crNS r) (crName r)"; cases "kbConfigMap kb (crNS r) (crName r)") (simp_all add: masked)
qed

lemma mask_configNames [masked]: "configNames (mask_kube f kb) kind ns = configNames kb kind ns"
proof -
  have "map secName (filter (\<lambda>s. secType s \<noteq> a \<and> secType s \<noteq> b) (map (mask_secret f) ss)) =
      map secName (filter (\<lambda>s. secType s \<noteq> a \<and> secType s \<noteq> b) ss)" for ss a b
    by (induction ss) (simp_all add: masked)
  moreover have "map cmName (filter (\<lambda>c. cmName c \<noteq> a) (map (mask_config f) cs)) = map cmName (filter (\<lambda>c. cmName c \<noteq> a) cs)"
    for cs a by (induction cs) (simp_all add: masked)
  ultimately show ?thesis
    unfolding configNames_def mask_kube_def
    by (cases "kbSecrets kb ns"; cases "kbConfigMaps kb ns") simp_all
qed

lemma mask_configRefs [masked]: "configRefs (mask_env f env) l = configRefs env l"
proof -
  have "configItem (mask_kube f kb) ns r = configItem kb ns r" for kb ns r
    by (simp only: configItem_def masked)
  then have "config_step (mask_env f env) = config_step env" by (simp add: fun_eq_iff config_step_def masked Let_def)
  then show ?thesis by (simp add: configRefs_def masked)
qed

lemma mask_claims [masked]: "claims (mask_env f env) l = claims env l"
proof -
  have "storageClassInfo (mask_kube f kb) = storageClassInfo kb" "storageClassList (mask_kube f kb) = storageClassList kb" for kb
    by (simp_all add: fun_eq_iff storageClassInfo_def storageClassList_def masked)
  note classes = this
  have item: "claimItem (mask_env f env) = claimItem env"
    by (intro ext) (unfold claimItem_def claim_class_def masked classes, rule refl)
  have "pod_claims (mask_env f env) = pod_claims env"
    by (intro ext) (unfold pod_claims_def claim_step_def masked item, rule refl)
  moreover have "anchorClaim (mask_env f env) = anchorClaim env"
    by (intro ext) (unfold anchorClaim_def masked classes, rule refl)
  ultimately show ?thesis by (simp add: claims_def masked)
qed

lemma mask_pullSecrets [masked]: "pullSecrets (mask_env f env) l = pullSecrets env l"
proof -
  have item: "pullSecretItem (mask_env f env) = pullSecretItem env"
  proof (intro ext)
    fix name what
    show "pullSecretItem (mask_env f env) name what = pullSecretItem env name what"
      by (cases "kbSecret (leKube env) (leNS env) name")
        (simp_all add: pullSecretItem_def mask_env_fields mask_kube_def mask_secret_fields)
  qed
  have pod: "pod_pull_secrets (mask_env f env) = pod_pull_secrets env"
    by (intro ext) (unfold pod_pull_secrets_def masked item, rule refl)
  have "pull_loop (mask_env f env) pods l = pull_loop env pods l" for pods
    by (induction pods) (simp_all add: masked pod split: option.split)
  then show ?thesis by (simp add: pullSecrets_def masked)
qed

lemma mask_serviceItem: "serviceItem (mask_env f env) = serviceItem env"
proof -
  have kube: "endpointCounts (mask_kube f kb) = endpointCounts kb" "workloads (mask_kube f kb) = workloads kb" for kb
    by (intro ext, unfold endpointCounts_def workloads_def masked, rule refl) (rule refl)
  have env: "podLine (mask_env f env) = podLine env" "workload_hint (mask_env f env) = workload_hint env"
    by (intro ext, unfold podLine_def workload_hint_def masked, rule refl) (rule refl)
  have hints: "selectorHints (mask_env f env) = selectorHints env"
    by (intro ext) (unfold selectorHints_def Let_def masked kube env, rule refl)
  have backing: "backing_lines (mask_env f env) = backing_lines env"
    by (intro ext) (unfold backing_lines_def masked env hints, rule refl)
  show ?thesis by (intro ext) (unfold serviceItem_def masked kube backing, rule refl)
qed

lemma mask_serviceDeps [masked]: "serviceDeps (mask_env f env) l = serviceDeps env l"
proof -
  have reads: "serviceFor (mask_env f env) = serviceFor env" "selectsEvidence (mask_env f env) = selectsEvidence env"
    by (intro ext, unfold serviceFor_def selectsEvidence_def masked, rule refl) (rule refl)
  have "deps_loop (mask_env f env) n toks l = deps_loop env n toks l" for n toks
    by (induction toks arbitrary: n l) (simp_all add: reads mask_serviceItem Let_def split: option.split)
  then show ?thesis by (simp add: serviceDeps_def masked)
qed

lemma mask_nodes [masked]: "nodes (mask_env f env) l = nodes env l"
proof -
  have loop: "unscheduled_pod (mask_env f env) pods = unscheduled_pod env pods" for pods
    by (induction pods) (simp_all add: masked split: option.split)
  have less: "node_less (mask_kube f kb) = node_less kb" for kb
    by (intro ext) (unfold node_less_def masked, rule refl)
  show ?thesis by (unfold nodes_def masked loop less) (rule refl)
qed

lemma followLinks_some:
  assumes "distinct_nodes kb"
  obtains items where "followLinks kb cl now ns kind name events member_events logs = Some items"
proof (cases "ns = '''' \<or> ns = clusterScopeNS")
  case True
  then show ?thesis using that by (simp add: followLinks_def)
next
  case False
  with follow_stages [OF assms refl refl] followLinks_eq [OF _ _ refl] that show ?thesis by (metis option.simps(9))
qed

section \<open>Properties\<close>

text \<open>
  C27: following links never fails, and its items keep the order the block is trimmed by: what an error
  names first, then claims, pull secrets, Services and nodes. No object is listed twice and the object
  under analysis never, at most three Services and six nodes are, and a ConfigMap or Secret is only
  looked up for an error when one of the messages or log lines names it.
\<close>

theorem links_ordered_and_bounded:
  assumes "distinct_nodes kb" and "ns \<noteq> ''''" and "ns \<noteq> clusterScopeNS"
  shows "\<exists>items. followLinks kb cl now ns kind name events member_events logs = Some items \<and>
     items_ok (object_path kind ns name) items \<and> sorted (map rule_rank (map liRule items)) \<and>
     count_rule ''service'' items \<le> 3 \<and> count_rule ''nodes'' items \<le> 6 \<and>
     list_all (\<lambda>it. named_in (evidence_texts (link_env_of kb cl now ns kind name events member_events logs)) (liName it))
       (filter (\<lambda>it. liRule it = ''config'') items)"
proof -
  let ?env = "link_env_of kb cl now ns kind name events member_events logs"
  let ?l0 = "new_linker (object_path kind ns name)"
  obtain l' l5 :: linker and rest where st: "nodes ?env (serviceDeps ?env (pullSecrets ?env (claims ?env (configRefs ?env ?l0)))) = Some l'"
      and lab: "map item_label (lkItems l') = map item_label (lkItems l5)"
      and rest: "lkItems l5 = lkItems (configRefs ?env ?l0) @ rest" "''config'' \<notin> liRule ` set rest"
      and ok: "items_ok (object_path kind ns name) (lkItems l5)" "sorted (map rule_rank (map liRule (lkItems l5)))"
        "count_rule ''service'' (lkItems l5) \<le> 3" "count_rule ''nodes'' (lkItems l5) \<le> 6"
    using follow_stages [OF assms(1) refl refl] by blast
  have count: "count_rule tag items = length (filter (\<lambda>r. r = tag) (map liRule items))" for tag items
    by (induction items) (simp_all add: count_rule_def)
  have okd: "items_ok a items = (distinct (map linked_key items) \<and> a \<notin> set (map linked_key items))" for a items
    by (simp add: items_ok_def)
  let ?named = "named_in (evidence_texts ?env)"
  have "list_all (\<lambda>(_, rule, nm). rule = ''config'' \<longrightarrow> ?named nm) (map item_label (lkItems l5))"
    using configRefs_named [of ?l0 ?env] rest
    by (auto simp: list_all_iff item_label_def new_linker_def image_iff)
  then have "list_all (\<lambda>(_, rule, nm). rule = ''config'' \<longrightarrow> ?named nm) (map item_label (lkItems l'))"
    using lab by simp
  then have named: "list_all (\<lambda>it. ?named (liName it)) (filter (\<lambda>it. liRule it = ''config'') (lkItems l'))"
    by (auto simp: list_all_iff item_label_def)
  have "followLinks kb cl now ns kind name events member_events logs = Some (lkItems l')"
    using followLinks_eq [OF assms(2,3) refl] st by simp
  moreover have "items_ok (object_path kind ns name) (lkItems l')" 
    using ok(1) unfolding okd same_labels(1) [OF lab] .
  moreover have "sorted (map rule_rank (map liRule (lkItems l')))" using ok(2) by (simp only: same_labels [OF lab])
  moreover have "count_rule ''service'' (lkItems l') \<le> 3" "count_rule ''nodes'' (lkItems l') \<le> 6"
    using ok(3,4) by (simp_all only: count same_labels [OF lab])
  ultimately show ?thesis using named by blast
qed

definition node_named :: "string \<Rightarrow> k_node" where
  "node_named n = \<lparr>knName = n, knLabels = [], knUnschedulable = False, knTaints = [], knConditions = [], knAllocatable = []\<rparr>"

theorem links_ordered_and_bounded_witness:
  "\<exists>items. followLinks (sample_kube\<lparr>kbNodes := Got (map node_named [''a'', ''b'', ''c'', ''d'', ''e'', ''f'', ''g''])\<rparr>)
      (newClusterState ''c'' ''c'') 0 ''shop'' ''Pod'' ''web''
      [sample_summary ''pod.1'' 5 1] [] ''secret not found'' = Some items \<and> count_rule ''nodes'' items \<le> 6"
proof -
  have "distinct_nodes (sample_kube\<lparr>kbNodes := Got (map node_named [''a'', ''b'', ''c'', ''d'', ''e'', ''f'', ''g''])\<rparr>)"
    by (simp add: distinct_nodes_def node_named_def)
  from links_ordered_and_bounded [OF this, of "''shop''"] show ?thesis by (simp add: clusterScopeNS_def) blast
qed

text \<open>
  C28: no value of a ConfigMap or Secret is read: what is found is the same whatever the values are.
\<close>

theorem secret_values_unread:
  "followLinks (mask_kube f kb) cl now ns kind name events member_events logs =
   followLinks kb cl now ns kind name events member_events logs"
proof (cases "ns = '''' \<or> ns = clusterScopeNS")
  case True
  then show ?thesis by (simp add: followLinks_def)
next
  case False
  let ?env = "link_env_of kb cl now ns kind name events member_events logs"
  have "link_env_of (mask_kube f kb) cl now ns kind name events member_events logs = mask_env f ?env"
    by (simp add: link_env_of_def mask_env_def)
  then show ?thesis
    using followLinks_eq [of ns "mask_env f ?env" "mask_kube f kb"] followLinks_eq [of ns ?env kb] False
    by (simp add: masked)
qed

end
