(* ===== verification/Correlate.thy ===== *)
theory Correlate
  imports Clusters
begin

text \<open>
  Correlation by time (correlate.go): the events of every namespace that were last seen within five
  minutes of an object's own events, newest first.
\<close>

definition correlateBufferMin :: int where "correlateBufferMin = 5"

record CorrelatedEvent =
  coNamespace :: string
  coKind :: string
  coObjectName :: string
  coReason :: string
  coMessage :: string
  coType :: string
  coAge :: string
  coLastTime :: time
  coCount :: int

record CorrelateResponse =
  crNamespace :: string
  crKind :: string
  crName :: string
  crTimeFrom :: time
  crTimeTo :: time
  crWindowFrom :: time
  crWindowTo :: time
  crBufferMin :: int
  crCorrelated :: "CorrelatedEvent list"

definition correlated :: "string \<Rightarrow> EventSummary \<Rightarrow> CorrelatedEvent" where
  "correlated ns ev = \<lparr>coNamespace = ns, coKind = evKind ev, coObjectName = evObjectName ev,
     coReason = evReason ev, coMessage = evMessage ev, coType = evType ev, coAge = evAge ev,
     coLastTime = evLastTime ev, coCount = evCount ev\<rparr>"

definition is_anchor :: "string \<Rightarrow> string \<Rightarrow> EventSummary \<Rightarrow> bool" where
  "is_anchor kind name ev \<longleftrightarrow> equal_fold (evKind ev) kind \<and> evObjectName ev = name"

text \<open>\<open>earliest\<close> and \<open>latest\<close> of the anchor's events, from zero times.\<close>

definition span_step :: "time \<times> time \<Rightarrow> EventSummary \<Rightarrow> time \<times> time" where
  "span_step st ev =
     (case st of (earliest, latest) \<Rightarrow>
        (if evFirstTime ev \<noteq> 0 \<and> (earliest = 0 \<or> evFirstTime ev < earliest)
         then evFirstTime ev else earliest,
         if evLastTime ev > latest then evLastTime ev else latest))"

definition correlated_less :: "CorrelatedEvent \<Rightarrow> CorrelatedEvent \<Rightarrow> bool" where
  "correlated_less a b =
     (if coLastTime a \<noteq> coLastTime b then coLastTime a > coLastTime b
      else if coNamespace a \<noteq> coNamespace b then coNamespace a < coNamespace b
      else if coKind a \<noteq> coKind b then coKind a < coKind b
      else if coObjectName a \<noteq> coObjectName b then coObjectName a < coObjectName b
      else if coReason a \<noteq> coReason b then coReason a < coReason b
      else coMessage a < coMessage b)"

definition correlated_key :: "CorrelatedEvent \<Rightarrow> int \<times> string \<times> string \<times> string \<times> string \<times> string" where
  "correlated_key e =
     (- coLastTime e, coNamespace e, coKind e, coObjectName e, coReason e, coMessage e)"

interpretation correlated_order: keyed_order correlated_less correlated_key
  by unfold_locales (auto simp: correlated_less_def correlated_key_def)

definition in_window :: "time \<Rightarrow> time \<Rightarrow> EventSummary \<Rightarrow> bool" where
  "in_window from until ev \<longleftrightarrow> evLastTime ev > from \<and> evLastTime ev < until"

text \<open>The anchor's own events: those of its page, cluster-scoped ones under any namespace.\<close>

definition own_event :: "string \<Rightarrow> string \<Rightarrow> string \<Rightarrow> string \<Rightarrow> EventSummary \<Rightarrow> bool" where
  "own_event ns kind name otherNS ev \<longleftrightarrow>
     (otherNS = ns \<or> ns = clusterScopeNS \<and> evObjectNamespace ev = '''') \<and> is_anchor kind name ev"

definition buildCorrelateResponse :: "eventCache \<Rightarrow> string \<Rightarrow> string \<Rightarrow> string \<Rightarrow> CorrelateResponse" where
  "buildCorrelateResponse c ns kind name =
     (let resp = \<lparr>crNamespace = ns, crKind = kind, crName = name, crTimeFrom = 0, crTimeTo = 0,
            crWindowFrom = 0, crWindowTo = 0, crBufferMin = correlateBufferMin, crCorrelated = []\<rparr>;
          anchors = filter (is_anchor kind name) (scopeEvents c ns)
      in if anchors = [] then resp
         else
           let (earliest0, latest) = foldl span_step (0, 0) anchors;
               earliest = (if earliest0 = 0 then latest else earliest0);
               from = earliest - correlateBufferMin * minute;
               until = latest + correlateBufferMin * minute;
               found = concat (map (\<lambda>(otherNS, events).
                         map (correlated otherNS)
                           (filter (\<lambda>ev. \<not> own_event ns kind name otherNS ev \<and> in_window from until ev) events))
                         (allNamespaceEvents c))
           in resp\<lparr>crTimeFrom := earliest, crTimeTo := latest, crWindowFrom := from,
                   crWindowTo := until, crCorrelated := go_sort correlated_less found\<rparr>)"

text \<open>\<open>strings.SplitN(path, "/", 3)\<close>: at most two cuts.\<close>

definition split3 :: "string \<Rightarrow> string list" where
  "split3 path =
     (case split_byte (CHR ''/'') path of
        a # b # c # rest \<Rightarrow> [a, b, str_join [CHR 0x2F] (c # rest)]
      | parts \<Rightarrow> parts)"

datatype correlate_reply = CorrelateStatus nat | CorrelateFound CorrelateResponse

definition handleAPICorrelate :: "string \<Rightarrow> api_cluster \<Rightarrow> correlate_reply" where
  "handleAPICorrelate path0 target =
     (let path = (if has_prefix path0 ''/api/correlate/'' then drop 15 path0 else path0) in
      case split3 path of
        [ns, kind, name] \<Rightarrow>
          if ns = '''' \<or> kind = '''' \<or> name = '''' then CorrelateStatus 400
          else (case target of
                  ApiConflict _ \<Rightarrow> CorrelateStatus 409
                | ApiCluster None \<Rightarrow> CorrelateStatus 200
                | ApiCluster (Some c) \<Rightarrow> CorrelateFound (buildCorrelateResponse (csCache c) ns kind name))
      | _ \<Rightarrow> CorrelateStatus 400)"

section \<open>What is found\<close>

lemma buildCorrelateResponse_anchor:
  assumes "filter (is_anchor kind name) (scopeEvents c ns) \<noteq> []"
  shows "set (crCorrelated (buildCorrelateResponse c ns kind name)) =
    {correlated otherNS ev |otherNS events ev. (otherNS, events) \<in> set (allNamespaceEvents c) \<and>
       ev \<in> set events \<and> \<not> own_event ns kind name otherNS ev \<and>
       in_window (crWindowFrom (buildCorrelateResponse c ns kind name))
         (crWindowTo (buildCorrelateResponse c ns kind name)) ev}"
  using assms by (fastforce simp: buildCorrelateResponse_def Let_def split: prod.splits)

lemma buildCorrelateResponse_sorted:
  "sorted (map correlated_key (crCorrelated (buildCorrelateResponse c ns kind name)))"
  by (simp add: buildCorrelateResponse_def Let_def correlated_order.sorted_key_go_sort split: prod.splits)

lemma span_fold_latest:
  "evLastTime ev \<le> snd (foldl span_step (lo, hi) evs) \<and> hi \<le> snd (foldl span_step (lo, hi) evs)"
  if "ev \<in> set evs"
  using that
proof (induction evs arbitrary: lo hi)
  case (Cons e evs)
  obtain lo' hi' where s: "span_step (lo, hi) e = (lo', hi')" "hi \<le> hi'" "evLastTime e \<le> hi'"
    by (auto simp: span_step_def)
  have "hi' \<le> snd (foldl span_step (lo', hi') evs)" for lo'
  proof (induction evs arbitrary: lo' hi')
    case (Cons x evs)
    obtain lo2 hi2 where x: "span_step (lo', hi') x = (lo2, hi2)" "hi' \<le> hi2" by (auto simp: span_step_def)
    show ?case using Cons.IH [of hi2 lo2] x by simp
  qed simp
  then show ?case using Cons.IH [of lo' hi'] Cons.prems s by (metis foldl_Cons order_trans set_ConsD)
qed simp

text \<open>The window ends five minutes after the anchor's last event, and starts before it.\<close>

lemma correlate_window_latest:
  assumes "ev \<in> set (scopeEvents c ns)" and "is_anchor kind name ev"
  shows "evLastTime ev + correlateBufferMin * minute \<le> crWindowTo (buildCorrelateResponse c ns kind name)"
proof -
  let ?as = "filter (is_anchor kind name) (scopeEvents c ns)"
  have mem: "ev \<in> set ?as" using assms by simp
  then have ne: "?as \<noteq> []" by (metis empty_iff list.set(1))
  have "evLastTime ev \<le> snd (foldl span_step (0, 0) ?as)" using span_fold_latest [OF mem] by blast
  then show ?thesis using ne by (simp add: buildCorrelateResponse_def Let_def case_prod_beta)
qed

section \<open>Properties\<close>

text \<open>
  when the object has events, the answer is exactly the events of all namespaces, the object's
  own left out, that were last seen strictly inside the window, which reaches at least five minutes
  past each event of the object; the answer is ordered newest first.
\<close>

lemma correlation_window:
  assumes "ev \<in> set (scopeEvents c ns)" and "is_anchor kind name ev"
  shows "set (crCorrelated (buildCorrelateResponse c ns kind name)) =
      {correlated otherNS e |otherNS events e. (otherNS, events) \<in> set (allNamespaceEvents c) \<and>
         e \<in> set events \<and> \<not> own_event ns kind name otherNS e \<and>
         in_window (crWindowFrom (buildCorrelateResponse c ns kind name))
           (crWindowTo (buildCorrelateResponse c ns kind name)) e} \<and>
    evLastTime ev + correlateBufferMin * minute \<le> crWindowTo (buildCorrelateResponse c ns kind name) \<and>
    sorted (map correlated_key (crCorrelated (buildCorrelateResponse c ns kind name)))"
proof -
  have "ev \<in> set (filter (is_anchor kind name) (scopeEvents c ns))" using assms by simp
  then have "filter (is_anchor kind name) (scopeEvents c ns) \<noteq> []" by (metis empty_iff list.set(1))
  then show ?thesis
    using buildCorrelateResponse_anchor buildCorrelateResponse_sorted correlate_window_latest [OF assms]
    by blast
qed

text \<open>A pod's failure and a node's event two minutes later.\<close>

definition sample_node_cache :: eventCache where
  "sample_node_cache = empty_cache\<lparr>ecNsCache :=
     [(''shop'', \<lparr>neEvents = [(sample_summary ''a'' (1000 * second) 1)\<lparr>evKind := ''Pod'',
         evObjectName := ''web-1'', evObjectNamespace := ''shop''\<rparr>], neUpdatedAt = 5, neTruncated = False\<rparr>),
      (''default'', \<lparr>neEvents = [(sample_summary ''b'' (1120 * second) 1)\<lparr>evKind := ''Node'',
         evObjectName := ''n1'', evObjectNamespace := ''''\<rparr>], neUpdatedAt = 5, neTruncated = False\<rparr>)]\<rparr>"

lemma correlation_window_witness:
  "\<exists>ev \<in> set (scopeEvents sample_node_cache ''shop''). is_anchor ''pod'' ''web-1'' ev \<and>
     sorted (map correlated_key (crCorrelated (buildCorrelateResponse sample_node_cache ''shop'' ''pod'' ''web-1''))) \<and>
     map coObjectName (crCorrelated (buildCorrelateResponse sample_node_cache ''shop'' ''pod'' ''web-1'')) = [''n1'']"
proof -
  let ?e = "(sample_summary ''a'' (1000 * second) 1)\<lparr>evKind := ''Pod'', evObjectName := ''web-1'',
      evObjectNamespace := ''shop''\<rparr>"
  have ns: "namespaceEvents sample_node_cache ''shop'' = [?e]"
    by (simp add: namespaceEvents_def sample_node_cache_def empty_cache_def mergeEvents_def al_get_def)
  have e: "?e \<in> set (scopeEvents sample_node_cache ''shop'')"
    unfolding scopeEvents_def ns by (simp add: clusterScopeNS_def)
  have a: "is_anchor ''pod'' ''web-1'' ?e" by code_simp
  have "map coObjectName (crCorrelated (buildCorrelateResponse sample_node_cache ''shop'' ''pod'' ''web-1'')) = [''n1'']"
    by code_simp
  moreover note sorted = correlation_window [OF e a, THEN conjunct2, THEN conjunct2]
  ultimately show ?thesis using a e by (metis (lifting))
qed

end
