(* ===== verification/RCA.thy ===== *)
theory RCA
  imports LinkedSafe Correlate
begin

text \<open>
  The root cause analysis (rca.go): the first prompt, the tools, the loop in which the model asks for
  more evidence and answers, and the endpoints. The model server is an argument: \<open>ask\<close> gives its answer
  to the n-th request, from the conversation and whether tools are offered.
\<close>

section \<open>State\<close>

record RCAStep =
  rsIter :: int
  rsTool :: string
  rsLabel :: string
  rsStatus :: string
  rsInitial :: bool

text \<open>The time of the last update is left out.\<close>

record RCAState =
  rtStatus :: string
  rtIteration :: int
  rtMaxIter :: int
  rtSteps :: "RCAStep list"
  rtResult :: string
  rtError :: string
  rtErrorType :: string
  rtLinked :: "string list"
  rtLinkedTrimmed :: int

definition new_state :: "int \<Rightarrow> RCAState" where
  "new_state maxIter = \<lparr>rtStatus = ''running'', rtIteration = 0, rtMaxIter = maxIter, rtSteps = [], rtResult = '''',
     rtError = '''', rtErrorType = '''', rtLinked = [], rtLinkedTrimmed = 0\<rparr>"

definition rcaCacheKey :: "string \<Rightarrow> string \<Rightarrow> string \<Rightarrow> string \<Rightarrow> string" where
  "rcaCacheKey cl ns kind name = cl @ ''|'' @ ns @ ''/'' @ kind @ ''/'' @ name"

text \<open>
  What a run reads: \<open>rwInfo\<close> is \<open>fetchObjectInfo\<close>, \<open>rwParse\<close> decodes the arguments of a tool call, with
  the error if there is one, and \<open>rwEstimate\<close> counts tokens.
\<close>

record rca_world =
  rwEstimate :: "string \<Rightarrow> int"
  rwLinkFollow :: bool
  rwHook :: "(string \<Rightarrow> string \<Rightarrow> string \<Rightarrow> int \<Rightarrow> bool \<Rightarrow> string + string) option"
  rwKube :: kube
  rwCluster :: clusterState
  rwNow :: time
  rwTail :: int
  rwInfo :: "string \<Rightarrow> string \<Rightarrow> string \<Rightarrow> ObjectInfo"
  rwParse :: "string \<Rightarrow> (string, string) gomap \<times> string option"

definition rca_logs :: "rca_world \<Rightarrow> string \<Rightarrow> string \<Rightarrow> string + string" where
  "rca_logs w ns pod = fetchLogsForAI (rwHook w) (rwKube w) (rwTail w) (csCache (rwCluster w)) ns pod"

section \<open>The first prompt\<close>

record rcaInitCtx =
  ricText :: string
  ricLogsPod :: string
  ricPodLogs :: string
  ricPodLogErr :: "string option"
  ricLinked :: "linkedItem list"
  ricLinkedTrimmed :: int

definition empty_evidence :: "string \<Rightarrow> EventSummary list \<Rightarrow> string \<Rightarrow> evidence" where
  "empty_evidence head events tail = \<lparr>edHead = head, edEvents = events, edDescribe = '''', edKind = '''', edMembers = [],
     edLogsHead = '''', edLogs = '''', edNote = '''', edTail = tail, edMemberEvents = [], edLinked = '''',
     edLinkedItems = [], edLinkedTrimmed = 0\<rparr>"

definition about :: "string \<Rightarrow> string \<Rightarrow> string \<Rightarrow> string" where
  "about ns kind name = kind @ '' '' @ go_quote name @ '' in namespace '' @ go_quote ns @ ''.'' @ nl @ nl"

definition rca_tail :: string where
  "rca_tail = nl @ ''Use the available tools to gather additional evidence as needed, then provide the Root Cause Analysis.''"

definition logs_head :: "int \<Rightarrow> string" where
  "logs_head tail = nl @ ''Pod logs (last '' @ itoa tail @ '' lines):'' @ nl"

definition no_logs_note :: string where
  "no_logs_note = nl @ ''Pod logs: no output found '' @ em_dash @ '' the pod was likely never scheduled '' @
     ''or has not started a container (FailedScheduling / Pending). '' @
     ''Do NOT call get_pod_logs for this pod; there is nothing to retrieve.'' @ nl"

definition logs_error_note :: "string \<Rightarrow> string" where
  "logs_error_note err = nl @ ''Pod logs: could not be retrieved '' @ em_dash @ '' '' @ err @ nl @
     ''(If the pod has crash events, call get_pod_logs as a tool to retry.)'' @ nl"

text \<open>The Pod's own logs, or a note on why there are none.\<close>

definition pod_evidence :: "rca_world \<Rightarrow> string + string \<Rightarrow> evidence \<Rightarrow> evidence" where
  "pod_evidence w logs e =
     (case logs of
        Inl err \<Rightarrow> e\<lparr>edNote := logs_error_note err\<rparr>
      | Inr out \<Rightarrow> if trim_space out \<noteq> '''' then e\<lparr>edLogsHead := logs_head (rwTail w), edLogs := out\<rparr>
                   else e\<lparr>edNote := no_logs_note\<rparr>)"

definition link :: "rca_world \<Rightarrow> string \<Rightarrow> string \<Rightarrow> string \<Rightarrow> int \<Rightarrow> evidence \<Rightarrow> evidence option" where
  "link w ns kind name ctxLen e =
     addLinked (rwEstimate w) (rwLinkFollow w) (rwKube w) (rwCluster w) (rwNow w) ns kind name ctxLen e"

definition buildRCAInitialContext :: "rca_world \<Rightarrow> string \<Rightarrow> string \<Rightarrow> string \<Rightarrow> int \<Rightarrow> int \<Rightarrow> rcaInitCtx option" where
  "buildRCAInitialContext w ns kind name budget ctxLen =
     (let info = rwInfo w ns kind name;
          e0 = (empty_evidence (''Perform Root Cause Analysis for '' @ about ns kind name)
                  (objectEvents (csCache (rwCluster w)) ns kind name) rca_tail)
               \<lparr>edDescribe := (if \<not> oiNotFound info \<and> oiError info = '''' then nl @ rcaFormatDescribe info else '''')\<rparr>;
          isPod = equal_fold kind ''Pod'';
          logs = rca_logs w ns name;
          (e1, logsPod) = (if isPod then (pod_evidence w logs e0, name)
                           else addWorkload (rwNow w) (rwTail w) (rca_logs w ns) (rwCluster w) ns kind name e0);
          podLogs = (if isPod then (case logs of Inr out \<Rightarrow> out | Inl _ \<Rightarrow> '''') else edLogs e1);
          podLogErr = (if isPod then (case logs of Inl err \<Rightarrow> Some err | Inr _ \<Rightarrow> None) else None)
      in map_option (\<lambda>e. \<lparr>ricText = fit (rwEstimate w) e budget, ricLogsPod = logsPod, ricPodLogs = podLogs,
                           ricPodLogErr = podLogErr, ricLinked = edLinkedItems e, ricLinkedTrimmed = edLinkedTrimmed e\<rparr>)
           (link w ns kind name ctxLen e1))"

section \<open>The tools\<close>

record tool_call =
  tcId :: string
  tcName :: string
  tcArguments :: string

definition rcaStepLabel :: "string \<Rightarrow> (string, string) gomap \<Rightarrow> string" where
  "rcaStepLabel tool args =
     (let get = al_get '''' args;
          object = get ''namespace'' @ '' / '' @ get ''kind'' @ '' / '' @ get ''name''
      in if tool = ''get_pod_logs'' then get ''namespace'' @ '' / '' @ get ''pod_name''
         else if tool = ''get_object_describe'' \<or> tool = ''get_object_events'' then object
         else if tool = ''get_correlated_events'' then object @ '' (cross-ns)'' else tool)"

text \<open>The correlated events, under a heading per namespace; \<open>prev\<close> is the namespace of the one before.\<close>

fun correlated_lines :: "string \<Rightarrow> CorrelatedEvent list \<Rightarrow> string" where
  "correlated_lines prev [] = ''''"
| "correlated_lines prev (ev # evs) =
     (if coNamespace ev \<noteq> prev then nl @ ''['' @ coNamespace ev @ '']'' @ nl else '''') @
     ''- ['' @ coType ev @ ''] '' @ coKind ev @ ''/'' @ coObjectName ev @ ''  '' @ coReason ev @ '': '' @ coMessage ev @
     ''  ('' @ times_sign @ itoa (coCount ev) @ '', '' @ coAge ev @ '' ago)'' @ nl @
     correlated_lines (coNamespace ev) evs"

definition tool_pod_logs :: "rca_world \<Rightarrow> string \<Rightarrow> string \<Rightarrow> string" where
  "tool_pod_logs w ns pod =
     (case rca_logs w ns pod of
        Inl err \<Rightarrow> ''error fetching logs for '' @ ns @ ''/'' @ pod @ '': '' @ err
      | Inr logs \<Rightarrow>
          if trim_space logs = '''' then ''no logs available for pod '' @ ns @ ''/'' @ pod
          else ''Pod logs for '' @ ns @ ''/'' @ pod @ '' (last '' @ itoa (rwTail w) @ '' lines):'' @ nl @ logs)"

definition tool_describe :: "rca_world \<Rightarrow> string \<Rightarrow> string \<Rightarrow> string \<Rightarrow> string" where
  "tool_describe w ns kind name =
     (let info = rwInfo w ns kind name; path = ns @ ''/'' @ kind @ ''/'' @ name
      in if oiNotFound info then path @ '' no longer exists in the cluster''
         else if oiError info \<noteq> '''' then ''error describing '' @ path @ '': '' @ oiError info
         else rcaFormatDescribe info)"

definition tool_events :: "rca_world \<Rightarrow> string \<Rightarrow> string \<Rightarrow> string \<Rightarrow> string" where
  "tool_events w ns kind name =
     (let events = objectEvents (csCache (rwCluster w)) ns kind name; path = ns @ ''/'' @ kind @ ''/'' @ name
      in if events = [] then ''no cached events for '' @ path
         else ''Events for '' @ path @ '' ('' @ itoa (int (length events)) @ '' total):'' @ nl @ concat (map event_line events))"

definition tool_correlated :: "rca_world \<Rightarrow> string \<Rightarrow> string \<Rightarrow> string \<Rightarrow> string" where
  "tool_correlated w ns kind name =
     (let cr = buildCorrelateResponse (csCache (rwCluster w)) ns kind name
      in if crCorrelated cr = [] then ''no correlated events found in the time window''
         else ''Correlated events ('' @ [CHR 0xC2, CHR 0xB1] @ itoa (crBufferMin cr) @ '' min, '' @
              itoa (int (length (crCorrelated cr))) @ '' events across namespaces):'' @ nl @
              correlated_lines '''' (crCorrelated cr))"

definition executeRCATool :: "rca_world \<Rightarrow> string \<Rightarrow> tool_call \<Rightarrow> string" where
  "executeRCATool w anchorNS tc =
     (case rwParse w (tcArguments tc) of
        (_, Some err) \<Rightarrow> ''error parsing tool arguments: '' @ err
      | (args, None) \<Rightarrow>
          (let get = al_get '''' args; ns = get ''namespace''; kind = get ''kind''; name = get ''name''; tool = tcName tc
           in if tool = ''get_pod_logs'' then tool_pod_logs w (if ns = '''' then anchorNS else ns) (get ''pod_name'')
              else if tool = ''get_object_describe'' then tool_describe w ns kind name
              else if tool = ''get_object_events'' then tool_events w ns kind name
              else if tool = ''get_correlated_events'' then tool_correlated w ns kind name
              else ''unknown tool: '' @ tool))"

section \<open>The conversation\<close>

text \<open>A message of the model has its text, if any, and its tool calls; a tool message answers the call of its id.\<close>

datatype rca_msg =
    SystemMsg string
  | UserMsg string
  | ModelMsg "string option" "tool_call list"
  | ToolMsg string string

text \<open>
  The answer to a request: the context overflows, another error, or the first choice of the answer with
  its finish reason and the number of prompt tokens (0 when not said).
\<close>

datatype lm_answer =
    LmOverflow string
  | LmError string
  | LmAnswer "string option" "tool_call list" string int

text \<open>\<open>cleanLMResponse\<close> of ai.go\<close>

definition cleanLMResponse :: "string \<Rightarrow> string" where
  "cleanLMResponse s =
     (case str_index s think_close of Some i \<Rightarrow> trim_space (drop (i + 8) s) | None \<Rightarrow> s)"

definition answer_text :: "string option \<Rightarrow> string" where
  "answer_text content = (case content of Some s \<Rightarrow> cleanLMResponse s | None \<Rightarrow> '''')"

definition run_done :: "string \<Rightarrow> RCAState \<Rightarrow> RCAState" where
  "run_done result st = st\<lparr>rtStatus := ''done'', rtResult := result\<rparr>"

definition run_failed :: "string \<Rightarrow> RCAState \<Rightarrow> RCAState" where
  "run_failed err st = st\<lparr>rtStatus := ''error'', rtError := err\<rparr>"

definition overflow_help :: "int \<Rightarrow> string" where
  "overflow_help ctxLen = ''The initial context (events + describe + logs) plus tool definitions '' @
     ''exceed the model'' @ [CHR 0x27] @ ''s loaded context window'' @
     (if ctxLen > 0 then '' (model is loaded with only '' @ itoa ctxLen @ '' tokens)'' else '''') @ ''.'' @ nl @ nl @
     ''Fix in LM Studio: click the '' @ [CHR 0xE2, CHR 0x9A, CHR 0x99] @ '' gear icon next to your loaded model, '' @
     ''increase Context Length (try 8192 or 16384), then Reload. '' @
     ''With llama-server, restart it with a larger --ctx-size.''"

definition run_overflowed :: "int \<Rightarrow> RCAState \<Rightarrow> RCAState" where
  "run_overflowed ctxLen st =
     st\<lparr>rtStatus := ''error'', rtErrorType := ''context_overflow'', rtError := overflow_help ctxLen\<rparr>"

text \<open>One tool call: its step is running while the tool runs, its result goes into the conversation.\<close>

type_synonym run = "RCAState \<times> rca_msg list \<times> int"

definition open_step :: "int \<Rightarrow> string \<Rightarrow> string \<Rightarrow> RCAState \<Rightarrow> RCAState \<times> nat" where
  "open_step iter tool label st =
     (st\<lparr>rtSteps := rtSteps st @ [\<lparr>rsIter = iter, rsTool = tool, rsLabel = label, rsStatus = ''running'', rsInitial = False\<rparr>]\<rparr>,
      length (rtSteps st))"

definition close_step :: "nat \<Rightarrow> RCAState \<Rightarrow> RCAState" where
  "close_step i st =
     (if i < length (rtSteps st)
      then st\<lparr>rtSteps := (rtSteps st)[i := (rtSteps st ! i)\<lparr>rsStatus := ''done''\<rparr>]\<rparr> else st)"

definition tool_step :: "rca_world \<Rightarrow> string \<Rightarrow> int \<Rightarrow> run \<Rightarrow> tool_call \<Rightarrow> run" where
  "tool_step w ns iter r tc =
     (case r of (st, msgs, est) \<Rightarrow>
        let (st1, i) = open_step iter (tcName tc) (rcaStepLabel (tcName tc) (fst (rwParse w (tcArguments tc)))) st;
            result = executeRCATool w ns tc
        in (close_step i st1, msgs @ [ToolMsg (tcId tc) result], est + int (length result div 4)))"

text \<open>
  The loop of \<open>runRCAAgent\<close> with \<open>n\<close> rounds left, in round \<open>iter\<close>, and the requests it makes: each a
  conversation and whether tools are offered. \<open>ctxNow\<close> is the context length read again on an overflow.
\<close>

definition final_question :: string where
  "final_question = ''You have reached the maximum investigation steps. Produce the final Root Cause Analysis '' @
     ''now based on the evidence gathered so far.''"

definition conclude :: "(nat \<Rightarrow> rca_msg list \<Rightarrow> bool \<Rightarrow> lm_answer) \<Rightarrow> nat \<Rightarrow> rca_msg list \<Rightarrow> RCAState \<Rightarrow>
    RCAState \<times> (rca_msg list \<times> bool) list" where
  "conclude ask iter msgs0 st =
     (let msgs = msgs0 @ [UserMsg final_question] in
      (case ask iter msgs False of
         LmOverflow detail \<Rightarrow> run_failed (''final conclusion: context window exceeded: '' @ detail) st
       | LmError err \<Rightarrow> run_failed (''final conclusion: '' @ err) st
       | LmAnswer content _ _ _ \<Rightarrow> run_done (answer_text content) st, [(msgs, False)]))"

definition tools_fit :: "int \<Rightarrow> int \<Rightarrow> bool" where
  "tools_fit ctxLen est \<longleftrightarrow> \<not> (ctxLen > 0 \<and> est > go_div (ctxLen * 70) 100)"

fun agent_loop :: "rca_world \<Rightarrow> (nat \<Rightarrow> rca_msg list \<Rightarrow> bool \<Rightarrow> lm_answer) \<Rightarrow> string \<Rightarrow> int \<Rightarrow> int \<Rightarrow> nat \<Rightarrow> nat \<Rightarrow> run \<Rightarrow>
    RCAState \<times> (rca_msg list \<times> bool) list" where
  "agent_loop w ask ns ctxLen ctxNow 0 iter r = (case r of (st, msgs, est) \<Rightarrow> conclude ask iter msgs st)"
| "agent_loop w ask ns ctxLen ctxNow (Suc n) iter r =
     (case r of (st0, msgs, est) \<Rightarrow>
        let st = st0\<lparr>rtIteration := int iter + 1\<rparr>; offered = tools_fit ctxLen est
        in case ask iter msgs offered of
             LmOverflow _ \<Rightarrow> (run_overflowed ctxNow st, [(msgs, offered)])
           | LmError err \<Rightarrow> (run_failed (''iter '' @ itoa (int iter) @ '': '' @ err) st, [(msgs, offered)])
           | LmAnswer content calls finish tokens \<Rightarrow>
               if calls = [] \<or> finish = ''stop'' then (run_done (answer_text content) st, [(msgs, offered)])
               else case agent_loop w ask ns ctxLen ctxNow n (Suc iter)
                           (foldl (tool_step w ns (int iter + 1))
                              (st, msgs @ [ModelMsg content calls], if tokens > 0 then tokens else est) calls) of
                      (st', requests) \<Rightarrow> (st', (msgs, offered) # requests))"

text \<open>The steps the trail starts with: the logs in the first prompt and the linked objects.\<close>

definition initial_logs_step :: "string \<Rightarrow> rcaInitCtx \<Rightarrow> RCAStep list" where
  "initial_logs_step ns ctx =
     (if ricLogsPod ctx = '''' then []
      else let label = ns @ '' / '' @ ricLogsPod ctx;
               (status, more) =
                 (case ricPodLogErr ctx of
                    Some err \<Rightarrow> (''error'', '' (error: '' @ err @ '')'')
                  | None \<Rightarrow> if trim_space (ricPodLogs ctx) \<noteq> '''' then (''done'', '''')
                            else (''unavailable'', '' (not scheduled / no output)''))
           in [\<lparr>rsIter = 0, rsTool = ''get_pod_logs'', rsLabel = label @ more, rsStatus = status, rsInitial = True\<rparr>])"

definition linked_step :: "linkedItem \<Rightarrow> RCAStep" where
  "linked_step it = \<lparr>rsIter = 0, rsTool = ''linked_evidence'', rsLabel = liKind it @ '' '' @ liName it,
     rsStatus = ''done'', rsInitial = True\<rparr>"

definition start_trail :: "string \<Rightarrow> rcaInitCtx \<Rightarrow> RCAState \<Rightarrow> RCAState" where
  "start_trail ns ctx st =
     st\<lparr>rtSteps := rtSteps st @ initial_logs_step ns ctx @ map linked_step (ricLinked ctx),
        rtLinked := rtLinked st @ map linked_tag (ricLinked ctx), rtLinkedTrimmed := ricLinkedTrimmed ctx\<rparr>"

text \<open>
  \<open>runRCAAgent\<close> with a local model: \<open>base\<close> is the user's system prompt, \<open>suffix\<close> and \<open>toolsJSON\<close> the
  texts of the RCA's own instructions and tool definitions. \<open>None\<close> is a panic while following links.
\<close>

definition rca_system :: "string \<Rightarrow> string \<Rightarrow> string" where
  "rca_system base suffix = (if base = '''' then ''You are a Kubernetes SRE expert.'' else base) @ suffix"

definition runRCAAgent :: "rca_world \<Rightarrow> (nat \<Rightarrow> rca_msg list \<Rightarrow> bool \<Rightarrow> lm_answer) \<Rightarrow> string \<Rightarrow> string \<Rightarrow> string \<Rightarrow>
    int \<Rightarrow> int \<Rightarrow> string \<Rightarrow> string \<Rightarrow> string \<Rightarrow> RCAState \<Rightarrow> (RCAState \<times> (rca_msg list \<times> bool) list) option" where
  "runRCAAgent w ask base suffix toolsJSON ctxLen ctxNow ns kind name st =
     (let sp = rca_system base suffix;
          budget = promptBudget ctxLen (rwEstimate w sp + rwEstimate w toolsJSON)
      in map_option (\<lambda>ctx.
           agent_loop w ask ns ctxLen ctxNow (nat (rtMaxIter st)) 0
             (start_trail ns ctx st, [SystemMsg sp, UserMsg (ricText ctx)],
              int (length sp div 4) + int (length (ricText ctx) div 4)))
         (buildRCAInitialContext w ns kind name budget ctxLen))"

section \<open>The trail and the conversation\<close>

definition step_ended :: "RCAStep \<Rightarrow> bool" where
  "step_ended s \<longleftrightarrow> rsStatus s \<in> {''done'', ''error'', ''unavailable''}"

text \<open>The messages that answer the tool calls of one turn.\<close>

definition tool_answers :: "rca_world \<Rightarrow> string \<Rightarrow> tool_call list \<Rightarrow> rca_msg list" where
  "tool_answers w ns calls = map (\<lambda>tc. ToolMsg (tcId tc) (executeRCATool w ns tc)) calls"

text \<open>A conversation: the instructions and the evidence, then turns in which every call is answered.\<close>

inductive conversation :: "rca_world \<Rightarrow> string \<Rightarrow> string \<Rightarrow> string \<Rightarrow> rca_msg list \<Rightarrow> bool" for w ns sp prompt where
  begun: "conversation w ns sp prompt [SystemMsg sp, UserMsg prompt]"
| turn: "conversation w ns sp prompt msgs \<Longrightarrow> calls \<noteq> [] \<Longrightarrow>
    conversation w ns sp prompt (msgs @ [ModelMsg content calls] @ tool_answers w ns calls)"

definition request_ok :: "rca_world \<Rightarrow> string \<Rightarrow> string \<Rightarrow> string \<Rightarrow> rca_msg list \<times> bool \<Rightarrow> bool" where
  "request_ok w ns sp prompt rq \<longleftrightarrow>
     (case rq of (msgs, offered) \<Rightarrow>
        conversation w ns sp prompt msgs \<or>
        (\<exists>before. conversation w ns sp prompt before \<and> msgs = before @ [UserMsg final_question] \<and> \<not> offered))"

lemma close_open:
  "open_step iter tool label st = (st1, i) \<Longrightarrow>
   rtSteps (close_step i st1) = rtSteps st @ [\<lparr>rsIter = iter, rsTool = tool, rsLabel = label, rsStatus = ''done'', rsInitial = False\<rparr>] \<and>
   rtStatus (close_step i st1) = rtStatus st \<and> rtIteration (close_step i st1) = rtIteration st"
  by (auto simp: open_step_def close_step_def nth_append)

lemma tool_fold:
  "foldl (tool_step w ns iter) (st, msgs, est) calls = (st', msgs', est') \<Longrightarrow>
   \<exists>new. rtSteps st' = rtSteps st @ new \<and> list_all (\<lambda>s. step_ended s \<and> rsIter s = iter) new \<and>
     map rsTool new = map tcName calls \<and> rtIteration st' = rtIteration st \<and> msgs' = msgs @ tool_answers w ns calls"
proof (induction calls arbitrary: st msgs est)
  case Nil
  then show ?case by (auto simp: tool_answers_def)
next
  case (Cons tc calls)
  let ?label = "rcaStepLabel (tcName tc) (fst (rwParse w (tcArguments tc)))"
  obtain st1 i where op: "open_step iter (tcName tc) ?label st = (st1, i)" by (cases "open_step iter (tcName tc) ?label st")
  have "tool_step w ns iter (st, msgs, est) tc =
      (close_step i st1, msgs @ [ToolMsg (tcId tc) (executeRCATool w ns tc)],
       est + int (length (executeRCATool w ns tc) div 4))"
    using op by (simp add: tool_step_def Let_def)
  then have "foldl (tool_step w ns iter) (close_step i st1, msgs @ [ToolMsg (tcId tc) (executeRCATool w ns tc)],
       est + int (length (executeRCATool w ns tc) div 4)) calls = (st', msgs', est')"
    using Cons.prems by simp
  from Cons.IH [OF this] obtain new where new: "rtSteps st' = rtSteps (close_step i st1) @ new"
      "list_all (\<lambda>s. step_ended s \<and> rsIter s = iter) new" "map rsTool new = map tcName calls"
      "rtIteration st' = rtIteration (close_step i st1)"
      "msgs' = (msgs @ [ToolMsg (tcId tc) (executeRCATool w ns tc)]) @ tool_answers w ns calls" by blast
  let ?s = "\<lparr>rsIter = iter, rsTool = tcName tc, rsLabel = ?label, rsStatus = ''done'', rsInitial = False\<rparr>"
  have "rtSteps st' = rtSteps st @ (?s # new)" "rtIteration st' = rtIteration st"
    using new close_open [OF op] by simp_all
  moreover have "list_all (\<lambda>s. step_ended s \<and> rsIter s = iter) (?s # new)" using new(2) by (simp add: step_ended_def)
  moreover have "map rsTool (?s # new) = map tcName (tc # calls)" using new(3) by simp
  moreover have "msgs' = msgs @ tool_answers w ns (tc # calls)" using new(5) by (simp add: tool_answers_def)
  ultimately show ?case by blast
qed

lemma run_end_fields [simp]:
  "rtSteps (run_done r st) = rtSteps st" "rtSteps (run_failed err st) = rtSteps st" "rtSteps (run_overflowed c st) = rtSteps st"
  "rtIteration (run_done r st) = rtIteration st" "rtIteration (run_failed err st) = rtIteration st"
  "rtIteration (run_overflowed c st) = rtIteration st"
  "rtStatus (run_done r st) = ''done''" "rtStatus (run_failed err st) = ''error''" "rtStatus (run_overflowed c st) = ''error''"
  by (simp_all add: run_done_def run_failed_def run_overflowed_def)

lemma conclude_spec:
  assumes "conclude ask iter msgs st = (st', requests)"
  shows "rtStatus st' \<in> {''done'', ''error''} \<and> rtSteps st' = rtSteps st \<and> rtIteration st' = rtIteration st \<and>
    requests = [(msgs @ [UserMsg final_question], False)]"
  using assms by (auto simp: conclude_def Let_def split: lm_answer.splits)

lemma agent_loop_spec:
  assumes "agent_loop w ask ns ctxLen ctxNow n iter (st, msgs, est) = (st', requests)"
    and "conversation w ns sp prompt msgs" and "rtIteration st = int iter"
  shows "rtStatus st' \<in> {''done'', ''error''} \<and>
    (\<exists>new. rtSteps st' = rtSteps st @ new \<and>
       list_all (\<lambda>s. step_ended s \<and> int iter < rsIter s \<and> rsIter s \<le> int (iter + n)) new) \<and>
    rtIteration st' \<le> int (iter + n) \<and> length requests \<le> Suc n \<and> list_all (request_ok w ns sp prompt) requests"
  using assms
proof (induction n arbitrary: iter st msgs est st' requests)
  case 0
  then have "conclude ask iter msgs st = (st', requests)" by simp
  from conclude_spec [OF this] 0 show ?case by (auto simp: request_ok_def)
next
  case (Suc n)
  let ?st = "st\<lparr>rtIteration := int iter + 1\<rparr>" and ?off = "tools_fit ctxLen est"
  have ok: "request_ok w ns sp prompt (msgs, ?off)" using Suc.prems(2) by (simp add: request_ok_def)
  show ?case
  proof (cases "ask iter msgs ?off")
    case (LmAnswer content calls finish tokens)
    show ?thesis
    proof (cases "calls = [] \<or> finish = ''stop''")
      case True
      then have "st' = run_done (answer_text content) ?st" "requests = [(msgs, ?off)]"
        using Suc.prems(1) LmAnswer by (auto simp: Let_def)
      then show ?thesis using ok by simp
    next
      case False
      let ?est = "if tokens > 0 then tokens else est"
      obtain st1 msgs1 est1 where fold: "foldl (tool_step w ns (int iter + 1)) (?st, msgs @ [ModelMsg content calls], ?est) calls =
          (st1, msgs1, est1)" using prod_cases3 by blast
      obtain st2 reqs where rec: "agent_loop w ask ns ctxLen ctxNow n (Suc iter) (st1, msgs1, est1) = (st2, reqs)"
        by (cases "agent_loop w ask ns ctxLen ctxNow n (Suc iter) (st1, msgs1, est1)")
      have eq: "st' = st2" "requests = (msgs, ?off) # reqs"
        using Suc.prems(1) LmAnswer False fold rec by (simp_all add: Let_def)
      from tool_fold [OF fold] obtain new where new: "rtSteps st1 = rtSteps st @ new"
          "list_all (\<lambda>s. step_ended s \<and> rsIter s = int iter + 1) new" "rtIteration st1 = int (Suc iter)"
          "msgs1 = (msgs @ [ModelMsg content calls]) @ tool_answers w ns calls" by auto
      have "conversation w ns sp prompt msgs1"
        using conversation.turn [OF Suc.prems(2)] False new(4) by simp
      note IH = Suc.IH [OF rec this new(3)]
      then obtain more where more: "rtSteps st2 = rtSteps st1 @ more"
          "list_all (\<lambda>s. step_ended s \<and> int (Suc iter) < rsIter s \<and> rsIter s \<le> int (Suc iter + n)) more" by blast
      have "rtSteps st' = rtSteps st @ (new @ more)" using more(1) new(1) eq by simp
      moreover have "list_all (\<lambda>s. step_ended s \<and> int iter < rsIter s \<and> rsIter s \<le> int (iter + Suc n)) (new @ more)"
        using more(2) new(2) by (auto simp: list_all_iff)
      ultimately show ?thesis using IH eq ok by auto
    qed
  next
    case LmOverflow
    then have "st' = run_overflowed ctxNow ?st" "requests = [(msgs, ?off)]" using Suc.prems(1) by (simp_all add: Let_def)
    then show ?thesis using ok by simp
  next
    case (LmError err)
    then have "st' = run_failed (''iter '' @ itoa (int iter) @ '': '' @ err) ?st" "requests = [(msgs, ?off)]"
      using Suc.prems(1) by (simp_all add: Let_def)
    then show ?thesis using ok by simp
  qed
qed

lemma initial_steps_ended:
  "list_all (\<lambda>s. step_ended s \<and> rsIter s = 0 \<and> rsInitial s) (initial_logs_step ns ctx @ map linked_step (ricLinked ctx))"
  by (auto simp: initial_logs_step_def linked_step_def step_ended_def list_all_iff Let_def split: option.splits)

lemma link_some:
  assumes "distinct_nodes (rwKube w)"
  obtains e' where "link w ns kind name ctxLen e = Some e'"
proof -
  obtain items where "followLinks (rwKube w) (rwCluster w) (rwNow w) ns kind name (edEvents e) (edMemberEvents e) (edLogs e) = Some items"
    by (rule followLinks_some [OF assms])
  then have "link w ns kind name ctxLen e \<noteq> None" by (simp add: link_def addLinked_def split: prod.splits)
  then show ?thesis using that by blast
qed

lemma first_prompt_some:
  assumes "distinct_nodes (rwKube w)"
  obtains ctx where "buildRCAInitialContext w ns kind name budget ctxLen = Some ctx"
proof -
  have "buildRCAInitialContext w ns kind name budget ctxLen \<noteq> None"
    using link_some [OF assms] unfolding buildRCAInitialContext_def Let_def
    by (auto split: prod.splits) (metis option.distinct(1))+
  then show ?thesis using that by blast
qed

lemma run_spec:
  assumes "distinct_nodes (rwKube w)"
  obtains ctx st requests where "buildRCAInitialContext w ns kind name
        (promptBudget ctxLen (rwEstimate w (rca_system base suffix) + rwEstimate w toolsJSON)) ctxLen = Some ctx"
    and "runRCAAgent w ask base suffix toolsJSON ctxLen ctxNow ns kind name (new_state maxIter) = Some (st, requests)"
    and "rtStatus st \<in> {''done'', ''error''}"
    and "list_all (\<lambda>s. step_ended s \<and> 0 \<le> rsIter s \<and> rsIter s \<le> int (nat maxIter)) (rtSteps st)"
    and "rtIteration st \<le> int (nat maxIter)" and "length requests \<le> Suc (nat maxIter)"
    and "list_all (request_ok w ns (rca_system base suffix) (ricText ctx)) requests"
proof -
  let ?sp = "rca_system base suffix"
  let ?budget = "promptBudget ctxLen (rwEstimate w ?sp + rwEstimate w toolsJSON)"
  obtain ctx where ctx: "buildRCAInitialContext w ns kind name ?budget ctxLen = Some ctx"
    by (rule first_prompt_some [OF assms])
  let ?st0 = "start_trail ns ctx (new_state maxIter)" and ?msgs = "[SystemMsg ?sp, UserMsg (ricText ctx)]"
  let ?est = "int (length ?sp div 4) + int (length (ricText ctx) div 4)"
  obtain st requests where loop: "agent_loop w ask ns ctxLen ctxNow (nat maxIter) 0 (?st0, ?msgs, ?est) = (st, requests)"
    by (cases "agent_loop w ask ns ctxLen ctxNow (nat maxIter) 0 (?st0, ?msgs, ?est)")
  have run: "runRCAAgent w ask base suffix toolsJSON ctxLen ctxNow ns kind name (new_state maxIter) = Some (st, requests)"
    using ctx loop by (simp add: runRCAAgent_def Let_def new_state_def)
  have "rtIteration ?st0 = int 0" by (simp add: start_trail_def new_state_def)
  note spec = agent_loop_spec [OF loop conversation.begun this, unfolded add_0_left]
  then obtain new where steps: "rtSteps st = rtSteps ?st0 @ new"
      and new: "list_all (\<lambda>s. step_ended s \<and> 0 < rsIter s \<and> rsIter s \<le> int (nat maxIter)) new"
    by (elim conjE exE) simp
  let ?ok = "\<lambda>s. step_ended s \<and> 0 \<le> rsIter s \<and> rsIter s \<le> int (nat maxIter)"
  have "list_all ?ok (initial_logs_step ns ctx @ map linked_step (ricLinked ctx))"
    by (rule list.pred_mono_strong [OF initial_steps_ended]) simp
  moreover have "list_all ?ok new" by (rule list.pred_mono_strong [OF new]) simp
  moreover have "rtSteps ?st0 = initial_logs_step ns ctx @ map linked_step (ricLinked ctx)"
    by (simp add: start_trail_def new_state_def)
  ultimately have "list_all ?ok (rtSteps st)" unfolding steps by (simp only: list_all_append conj_assoc simp_thms)
  moreover from spec have "rtStatus st \<in> {''done'', ''error''}" by (elim conjE)
  moreover from spec have "rtIteration st \<le> int (nat maxIter)" by (elim conjE)
  moreover from spec have "length requests \<le> Suc (nat maxIter)" by (elim conjE)
  moreover from spec have "list_all (request_ok w ns ?sp (ricText ctx)) requests" by (elim conjE)
  ultimately show ?thesis by (intro that [OF ctx run])
qed

section \<open>Properties\<close>


text \<open>
  A run on a Pod that no longer exists: the model calls an unknown tool, then one with arguments that do
  not decode, then asks for logs, and goes on until the last round.
\<close>

definition sample_world :: rca_world where
  "sample_world = \<lparr>rwEstimate = (\<lambda>s. int (length s div 4)), rwLinkFollow = True, rwHook = Some (\<lambda>_ _ _ _ _. Inr ''''),
     rwKube = sample_kube, rwCluster = newClusterState ''c'' ''c'', rwNow = 0, rwTail = 10,
     rwInfo = (\<lambda>ns kind name. \<lparr>oiKind = kind, oiName = name, oiNamespace = ns, oiNotFound = True, oiError = '''', oiAge = '''',
       oiLabels = [], oiAnnotations = [], oiSections = [], oiConditions = []\<rparr>),
     rwParse = (\<lambda>s. if s = '''' then ([], Some ''unexpected end of JSON input'') else ([(''pod_name'', s)], None))\<rparr>"

definition stubborn :: "nat \<Rightarrow> rca_msg list \<Rightarrow> bool \<Rightarrow> lm_answer" where
  "stubborn n msgs offered =
     LmAnswer None [\<lparr>tcId = ''1'', tcName = ''rm'', tcArguments = ''x''\<rparr>, \<lparr>tcId = ''2'', tcName = ''get_pod_logs'', tcArguments = ''''\<rparr>,
       \<lparr>tcId = ''3'', tcName = ''get_pod_logs'', tcArguments = ''web''\<rparr>] ''tool_calls'' 0"


text \<open>
  C20: every request the root cause analysis makes is a well-formed conversation: it opens with the
  instructions and the evidence, each turn of the model is followed by the answer to every one of its
  tool calls, in their order and by id, and only the request for the conclusion adds a question, offering
  no tools. An unknown tool and arguments that do not decode are answered too.
\<close>

theorem conversation_well_formed:
  assumes "distinct_nodes (rwKube w)"
  shows "\<exists>ctx st requests. buildRCAInitialContext w ns kind name
        (promptBudget ctxLen (rwEstimate w (rca_system base suffix) + rwEstimate w toolsJSON)) ctxLen = Some ctx \<and>
      runRCAAgent w ask base suffix toolsJSON ctxLen ctxNow ns kind name (new_state maxIter) = Some (st, requests) \<and>
      list_all (request_ok w ns (rca_system base suffix) (ricText ctx)) requests"
  by (rule run_spec [OF assms, of ns kind name ctxLen base suffix toolsJSON ask ctxNow maxIter]) blast

theorem conversation_well_formed_witness:
  "\<exists>ctx st requests. buildRCAInitialContext sample_world ''shop'' ''Pod'' ''web''
        (promptBudget 0 (rwEstimate sample_world (rca_system '''' '''') + rwEstimate sample_world '''')) 0 = Some ctx \<and>
      runRCAAgent sample_world stubborn '''' '''' '''' 0 0 ''shop'' ''Pod'' ''web'' (new_state 2) = Some (st, requests) \<and>
      list_all (request_ok sample_world ''shop'' (rca_system '''' '''') (ricText ctx)) requests"
  by (rule conversation_well_formed) (simp add: sample_world_def distinct_nodes_def sample_kube_def empty_kube_def)

end
