(* ===== verification/RCARuns.thy ===== *)
theory RCARuns
  imports RCA
begin

text \<open>
  The runs of the root cause analysis and their endpoints (rca.go): at most one run at a time for an
  object, and the state of its last run.
\<close>

record rca_runs =
  rrCache :: "(string, RCAState) gomap"
  rrRunning :: "string list"

definition no_rca_runs :: rca_runs where "no_rca_runs = \<lparr>rrCache = [], rrRunning = []\<rparr>"

datatype rca_reply =
    RcaStatus nat
  | RcaStarted
  | RcaAlreadyRunning
  | RcaState RCAState
  | RcaNotFound

text \<open>
  \<open>handleAPIRCAStart\<close>, up to the run it starts: \<open>enabled\<close> says that AI is configured, \<open>target\<close> is the
  answer of \<open>apiCluster\<close>.
\<close>

definition handleAPIRCAStart :: "string \<Rightarrow> bool \<Rightarrow> int \<Rightarrow> string \<Rightarrow> api_cluster \<Rightarrow> rca_runs \<Rightarrow> rca_reply \<times> rca_runs" where
  "handleAPIRCAStart method enabled maxIter path0 target rr =
     (if method \<noteq> ''POST'' then (RcaStatus 405, rr)
      else if \<not> enabled then (RcaStatus 503, rr)
      else let path = (if has_prefix path0 ''/api/rca/'' then drop 9 path0 else path0) in
        case split3 path of
          [ns, kind, name] \<Rightarrow>
            if ns = '''' \<or> kind = '''' \<or> name = '''' then (RcaStatus 400, rr)
            else (case target of
                    ApiConflict _ \<Rightarrow> (RcaStatus 409, rr)
                  | ApiCluster None \<Rightarrow> (RcaStatus 200, rr)
                  | ApiCluster (Some c) \<Rightarrow>
                      let key = rcaCacheKey (csName c) ns kind name in
                      if key \<in> set (rrRunning rr) then (RcaAlreadyRunning, rr)
                      else (RcaStarted, \<lparr>rrCache = al_set key (new_state maxIter) (rrCache rr), rrRunning = key # rrRunning rr\<rparr>))
        | _ \<Rightarrow> (RcaStatus 400, rr))"

definition handleAPIRCAStatus :: "string \<Rightarrow> api_cluster \<Rightarrow> rca_runs \<Rightarrow> rca_reply" where
  "handleAPIRCAStatus path0 target rr =
     (let path = (if has_prefix path0 ''/api/rca/status/'' then drop 16 path0 else path0) in
        case split3 path of
          [ns, kind, name] \<Rightarrow>
            (case target of
               ApiConflict _ \<Rightarrow> RcaStatus 409
             | ApiCluster None \<Rightarrow> RcaStatus 200
             | ApiCluster (Some c) \<Rightarrow>
                 (case map_of (rrCache rr) (rcaCacheKey (csName c) ns kind name) of
                    Some st \<Rightarrow> RcaState st
                  | None \<Rightarrow> RcaNotFound))
        | _ \<Rightarrow> RcaStatus 400)"

section \<open>The paths and the keys\<close>

lemma cut_unique:
  assumes "a @ [c] @ s = b @ [c] @ t" and "c \<notin> set a" and "c \<notin> set b"
  shows "a = b \<and> s = t"
  using assms
proof (induction a arbitrary: b)
  case Nil
  then show ?case by (cases b) auto
next
  case (Cons x a)
  then show ?case by (cases b) auto
qed

lemma rcaCacheKey_inj:
  assumes "rcaCacheKey cl ns kind name = rcaCacheKey cl' ns' kind' name'"
    and "CHR ''|'' \<notin> set cl" "CHR ''|'' \<notin> set cl'"
    and "CHR ''/'' \<notin> set ns \<union> set kind" "CHR ''/'' \<notin> set ns' \<union> set kind'"
  shows "cl = cl' \<and> ns = ns' \<and> kind = kind' \<and> name = name'"
proof -
  have "cl @ [CHR ''|''] @ (ns @ ''/'' @ kind @ ''/'' @ name) = cl' @ [CHR ''|''] @ (ns' @ ''/'' @ kind' @ ''/'' @ name')"
    using assms(1) by (simp add: rcaCacheKey_def)
  from cut_unique [OF this assms(2,3)] have c: "cl = cl'"
      and r: "ns @ [CHR ''/''] @ (kind @ ''/'' @ name) = ns' @ [CHR ''/''] @ (kind' @ ''/'' @ name')" by simp_all
  from cut_unique [OF r] assms(4,5) have n: "ns = ns'" and k: "kind @ [CHR ''/''] @ name = kind' @ [CHR ''/''] @ name'" by simp_all
  from cut_unique [OF k] assms(4,5) c n show ?thesis by simp
qed

lemma split3_parts:
  assumes "split3 path = [ns, kind, name]"
  shows "CHR ''/'' \<notin> set ns \<union> set kind"
proof (cases "split_byte (CHR ''/'') path")
  case (Cons a ps)
  note a = Cons
  have "\<exists>b c rest. ps = b # c # rest \<and> ns = a \<and> kind = b"
    using assms a by (auto simp: split3_def split: list.splits)
  then have "ns \<in> set (split_byte (CHR ''/'') path)" "kind \<in> set (split_byte (CHR ''/'') path)" using a by auto
  then show ?thesis using split_byte_no_sep by fast
qed (use assms in \<open>simp add: split3_def\<close>)

section \<open>The life of the runs\<close>

text \<open>
  A start, an update of the state of a run (the state of a run is the last one of its object), and the
  end of a run, after \<open>runRCAAgent\<close> has returned.
\<close>

inductive rca_runs_step :: "rca_runs \<Rightarrow> rca_runs \<Rightarrow> bool" where
  begun: "handleAPIRCAStart method enabled maxIter path target rr = (RcaStarted, rr') \<Longrightarrow> rca_runs_step rr rr'"
| saved: "key \<in> set (rrRunning rr) \<Longrightarrow> rca_runs_step rr (rr\<lparr>rrCache := al_set key st (rrCache rr)\<rparr>)"
| ended: "key \<in> set (rrRunning rr) \<Longrightarrow> rca_runs_step rr (rr\<lparr>rrRunning := filter (\<lambda>k. k \<noteq> key) (rrRunning rr)\<rparr>)"

definition rca_runs_ok :: "rca_runs \<Rightarrow> bool" where
  "rca_runs_ok rr \<longleftrightarrow> distinct (rrRunning rr) \<and> set (rrRunning rr) \<subseteq> dom (map_of (rrCache rr))"

lemma start_cases:
  assumes "handleAPIRCAStart method enabled maxIter path0 target rr = (RcaStarted, rr')"
  obtains ns kind name c where "split3 (if has_prefix path0 ''/api/rca/'' then drop 9 path0 else path0) = [ns, kind, name]"
    and "target = ApiCluster (Some c)" and "rcaCacheKey (csName c) ns kind name \<notin> set (rrRunning rr)"
    and "rr' = \<lparr>rrCache = al_set (rcaCacheKey (csName c) ns kind name) (new_state maxIter) (rrCache rr),
           rrRunning = rcaCacheKey (csName c) ns kind name # rrRunning rr\<rparr>"
  using assms unfolding handleAPIRCAStart_def Let_def
  by (auto split: if_splits list.splits api_cluster.splits option.splits)

lemma rca_runs_step_ok:
  assumes "rca_runs_step rr rr'" and "rca_runs_ok rr"
  shows "rca_runs_ok rr'"
  using assms
proof cases
  case begun
  then show ?thesis using assms(2) by (elim start_cases) (auto simp: rca_runs_ok_def)
qed (use assms(2) in \<open>auto simp: rca_runs_ok_def\<close>)

lemma rca_runs_reachable_ok: "rca_runs_step\<^sup>*\<^sup>* no_rca_runs rr \<Longrightarrow> rca_runs_ok rr"
proof (induction rule: rtranclp_induct)
  case base
  then show ?case by (simp add: rca_runs_ok_def no_rca_runs_def)
qed (rule rca_runs_step_ok)

lemma split_byte_append: "c \<notin> set p \<Longrightarrow> split_byte c (p @ [c] @ s) = p # split_byte c s"
  by (induction p) auto

lemma split3_object_path:
  assumes "CHR ''/'' \<notin> set ns" and "CHR ''/'' \<notin> set kind"
  shows "split3 (ns @ ''/'' @ kind @ ''/'' @ name) = [ns, kind, name]"
proof -
  have "split_byte (CHR ''/'') (ns @ [CHR ''/''] @ kind @ [CHR ''/''] @ name) = ns # kind # split_byte (CHR ''/'') name"
    using split_byte_append [OF assms(1)] split_byte_append [OF assms(2)] by simp
  moreover obtain c rest where "split_byte (CHR ''/'') name = c # rest" by (cases "split_byte (CHR ''/'') name") auto
  moreover have "str_join [CHR ''/''] (split_byte (CHR ''/'') name) = name" by (rule str_join_split_byte)
  ultimately show ?thesis by (simp add: split3_def)
qed

definition rca_path :: "string \<Rightarrow> string \<Rightarrow> string \<Rightarrow> string \<Rightarrow> string" where
  "rca_path prefix ns kind name = prefix @ ns @ ''/'' @ kind @ ''/'' @ name"

lemma status_of_path:
  assumes "CHR ''/'' \<notin> set ns \<union> set kind"
  shows "handleAPIRCAStatus (rca_path ''/api/rca/status/'' ns kind name) (ApiCluster (Some c)) rr =
    (case map_of (rrCache rr) (rcaCacheKey (csName c) ns kind name) of Some st \<Rightarrow> RcaState st | None \<Rightarrow> RcaNotFound)"
  using split3_object_path [of ns kind name] assms by (simp add: handleAPIRCAStatus_def rca_path_def has_prefix_def)

lemma start_of_path:
  assumes "CHR ''/'' \<notin> set ns \<union> set kind" and "ns \<noteq> ''''" and "kind \<noteq> ''''" and "name \<noteq> ''''"
  shows "handleAPIRCAStart ''POST'' True maxIter (rca_path ''/api/rca/'' ns kind name) (ApiCluster (Some c)) rr =
    (let key = rcaCacheKey (csName c) ns kind name in
     if key \<in> set (rrRunning rr) then (RcaAlreadyRunning, rr)
     else (RcaStarted, \<lparr>rrCache = al_set key (new_state maxIter) (rrCache rr), rrRunning = key # rrRunning rr\<rparr>))"
  using split3_object_path [of ns kind name] assms by (simp add: handleAPIRCAStart_def rca_path_def has_prefix_def)

section \<open>Properties\<close>



end
