(* ===== verification/ModelCalls.thy ===== *)
theory ModelCalls
  imports RCA Settings "HOL-Library.Sublist"
begin

text \<open>
  The calls of a model server (ai.go): the messages of a request, the errors, the reading of a streamed
  answer and of one with tool calls; and which model's context length counts (ai_config.go). The HTTP
  client and the decoding of JSON are arguments. The branch of \<open>streamChatMsgs\<close> for Claude Code is in
  the theory \<open>ClaudeCode\<close>.
\<close>

section \<open>Errors\<close>

datatype chat_error = ContextOverflow string | ChatError string

fun chat_error_text :: "chat_error \<Rightarrow> string" where
  "chat_error_text (ContextOverflow detail) = ''context window exceeded: '' @ detail"
| "chat_error_text (ChatError err) = err"

definition isOverflowMessage :: "string \<Rightarrow> bool" where
  "isOverflowMessage body \<longleftrightarrow>
     str_contains body ''Trying to keep the first'' \<or> str_contains body ''exceed_context_size_error'' \<or>
     str_contains body ''exceeds the available context size''"

text \<open>What the server answers: nothing, a status other than 200 with the start of its body, or a body.\<close>

datatype 'a http_answer = HttpFailed string | HttpRefused int string | HttpOk 'a

definition refused :: "int \<Rightarrow> string \<Rightarrow> chat_error" where
  "refused status body0 =
     (let body = trim_space body0
      in if isOverflowMessage body then ContextOverflow body
         else ChatError (''LM Studio returned '' @ itoa status @ '': '' @ body))"

text \<open>The error when all slots are taken.\<close>

definition too_many :: "int \<Rightarrow> int \<Rightarrow> string" where
  "too_many active limit = ''too many concurrent AI requests ('' @ itoa active @ ''/'' @ itoa limit @ '' active) '' @
     em_dash @ '' try again shortly''"

section \<open>Messages\<close>

record lmMsg =
  lmRole :: string
  lmContent :: string

text \<open>\<open>system\<close> is \<open>opts.System\<close>, \<open>agent\<close> the AI Agent's system prompt.\<close>

definition chatMessages :: "string \<Rightarrow> string \<Rightarrow> string \<Rightarrow> lmMsg list" where
  "chatMessages agent system prompt =
     (let sp = (if system = '''' then agent else system);
          msgs = [\<lparr>lmRole = ''user'', lmContent = prompt\<rparr>]
      in if sp \<noteq> '''' then \<lparr>lmRole = ''system'', lmContent = sp\<rparr> # msgs else msgs)"

section \<open>A streamed answer\<close>

text \<open>
  The answer so far, when it was last written, and what was written. \<open>decode\<close> reads the JSON of a line:
  nothing when it is not JSON, else the first choice's content and reasoning, if there is a choice.
\<close>

record stream =
  stFull :: string
  stReasoning :: string
  stLast :: time
  stWrites :: "(string \<times> string) list"

definition empty_stream :: stream where
  "empty_stream = \<lparr>stFull = '''', stReasoning = '''', stLast = 0, stWrites = []\<rparr>"

definition write_gap :: duration where "write_gap = 300 * 1000000"

definition add_delta :: "bool \<Rightarrow> time \<Rightarrow> string \<times> string \<Rightarrow> stream \<Rightarrow> stream" where
  "add_delta noThink now d st =
     (case d of (content, reason) \<Rightarrow>
        let full = stFull st @ content;
            reasoning = (if noThink then stReasoning st else stReasoning st @ reason);
            st1 = st\<lparr>stFull := full, stReasoning := reasoning\<rparr>
        in if (content \<noteq> '''' \<or> reason \<noteq> '''') \<and> time_sub now (stLast st) \<ge> write_gap
           then st1\<lparr>stLast := now, stWrites := stWrites st @ [(full, reasoning)]\<rparr> else st1)"

text \<open>The lines with the times they are read at; the flag says that the stream was ended by \<open>[DONE]\<close>.\<close>

fun stream_lines :: "(string \<Rightarrow> (string \<times> string) option option) \<Rightarrow> bool \<Rightarrow> (time \<times> string) list \<Rightarrow> stream \<Rightarrow> stream \<times> bool" where
  "stream_lines decode noThink [] st = (st, False)"
| "stream_lines decode noThink ((now, line) # rest) st =
     (if \<not> has_prefix line ''data: '' then stream_lines decode noThink rest st
      else let data = drop 6 line in
        if data = ''[DONE]'' then (st, True)
        else case decode data of
               Some (Some d) \<Rightarrow> stream_lines decode noThink rest (add_delta noThink now d st)
             | _ \<Rightarrow> stream_lines decode noThink rest st)"

text \<open>
  \<open>streamChatMsgs\<close> with a local server: what it writes, the answer, the reasoning and the error. A body is
  its lines and, when reading them failed, why.
\<close>

definition streamChatMsgs :: "(string \<Rightarrow> (string \<times> string) option option) \<Rightarrow> bool \<Rightarrow>
    ((time \<times> string) list \<times> string option) http_answer \<Rightarrow>
    (string \<times> string) list \<times> string \<times> string \<times> chat_error option" where
  "streamChatMsgs decode noThink answer =
     (case answer of
        HttpFailed err \<Rightarrow> ([], '''', '''', Some (ChatError (''LM Studio: '' @ err)))
      | HttpRefused status body \<Rightarrow> ([], '''', '''', Some (refused status body))
      | HttpOk (lines, err) \<Rightarrow>
          (case stream_lines decode noThink lines empty_stream of
             (st, broke) \<Rightarrow>
               (stWrites st, stFull st, stReasoning st,
                if broke then None else map_option (\<lambda>e. ChatError (''stream read: '' @ e)) err)))"

text \<open>\<open>streamLMStudio\<close>: \<open>slot\<close> is the active calls and their limit when no slot was free.\<close>

definition streamLMStudio :: "(string \<Rightarrow> (string \<times> string) option option) \<Rightarrow> (int \<times> int) option \<Rightarrow>
    (lmMsg list \<Rightarrow> ((time \<times> string) list \<times> string option) http_answer) \<Rightarrow> string \<Rightarrow> string \<Rightarrow>
    (string \<times> string) list \<times> string \<times> string \<times> chat_error option" where
  "streamLMStudio decode slot send agent prompt =
     (case slot of
        Some (active, limit) \<Rightarrow> ([], '''', '''', Some (ChatError (too_many active limit)))
      | None \<Rightarrow> streamChatMsgs decode False (send (chatMessages agent '''' prompt)))"

section \<open>An answer with tool calls\<close>

text \<open>
  \<open>callLMStudioRCA\<close>: \<open>decode\<close> gives the error, or the choices (content, tool calls, finish reason) and the
  number of prompt tokens.
\<close>

definition rca_error :: "chat_error \<Rightarrow> lm_answer" where
  "rca_error err = (case err of ContextOverflow detail \<Rightarrow> LmOverflow detail | ChatError e \<Rightarrow> LmError e)"

definition callLMStudioRCA :: "(string \<Rightarrow> string + ((string option \<times> tool_call list \<times> string) list \<times> int)) \<Rightarrow>
    (int \<times> int) option \<Rightarrow> string http_answer \<Rightarrow> lm_answer" where
  "callLMStudioRCA decode slot answer =
     (case slot of
        Some (active, limit) \<Rightarrow> LmError (too_many active limit)
      | None \<Rightarrow>
          (case answer of
             HttpFailed err \<Rightarrow> LmError (''LM Studio RCA: '' @ err)
           | HttpRefused status body \<Rightarrow> rca_error (refused status body)
           | HttpOk body \<Rightarrow>
               (case decode body of
                  Inl err \<Rightarrow> LmError (''decode: '' @ err)
                | Inr ([], _) \<Rightarrow> LmError ''empty response from LM Studio''
                | Inr ((content, calls, finish) # _, tokens) \<Rightarrow> LmAnswer content calls finish tokens)))"

section \<open>The model in use\<close>

record LMModelInfo =
  miID :: string
  miState :: string
  miMaxContextLength :: int
  miLoadedContextLength :: int

definition ctxLen_of :: "LMModelInfo \<Rightarrow> int" where
  "ctxLen_of m = (if miLoadedContextLength m > 0 then miLoadedContextLength m else miMaxContextLength m)"

definition pickModel :: "string \<Rightarrow> LMModelInfo list \<Rightarrow> LMModelInfo option" where
  "pickModel configured models =
     (case filter (\<lambda>m. miID m = configured) models of
        m # _ \<Rightarrow> Some m
      | [] \<Rightarrow> (case models of [m] \<Rightarrow> Some m | _ \<Rightarrow> None))"

text \<open>The entries of llama-server's list: a name and the context of a slot.\<close>

definition fetchLlamaServerModelInfo :: "string \<Rightarrow> (string \<times> int) list option \<Rightarrow> LMModelInfo option" where
  "fetchLlamaServerModelInfo configured answer =
     (case answer of
        None \<Rightarrow> None
      | Some ds \<Rightarrow>
          (case pickModel configured
                  (map (\<lambda>(name, n). \<lparr>miID = name, miState = ''loaded'', miMaxContextLength = 0, miLoadedContextLength = n\<rparr>) ds) of
             Some m \<Rightarrow> if miLoadedContextLength m \<le> 0 then None else Some m
           | None \<Rightarrow> None))"

text \<open>\<open>lmStudioRoot\<close>\<close>

definition trim_suffix :: "string \<Rightarrow> string \<Rightarrow> string" where
  "trim_suffix s ending = (if has_suffix s ending then take (length s - length ending) s else s)"

definition lmStudioRoot :: "string \<Rightarrow> string" where
  "lmStudioRoot baseURL = trim_suffix (trim_suffix baseURL ''/v1'') ''/''"

text \<open>The backend of AI calls, with the context of the bundled model and whether it runs.\<close>

datatype ai_backend = ClaudeCodeBackend "string \<times> bool \<times> bool" | EmbeddedBackend int bool | LocalBackend

definition claudeCtxLen :: int where "claudeCtxLen = 200000"

text \<open>
  \<open>studio\<close> and \<open>llama\<close> are the lists of models that LM Studio and llama-server answer. With Claude Code: the
  model's name, whether the CLI is there and whether it is signed in.
\<close>

definition fetchLMModelInfo :: "bool \<Rightarrow> string \<Rightarrow> ai_backend \<Rightarrow> LMModelInfo list option \<Rightarrow> (string \<times> int) list option \<Rightarrow>
    LMModelInfo option" where
  "fetchLMModelInfo enabled configured backend studio llama =
     (if \<not> enabled then None
      else case backend of
             ClaudeCodeBackend (model, available, loggedIn) \<Rightarrow>
               Some \<lparr>miID = (if model = '''' then ''default'' else model),
                     miState = (if \<not> available then ''not found'' else if \<not> loggedIn then ''signed out'' else ''loaded''),
                     miMaxContextLength = claudeCtxLen, miLoadedContextLength = claudeCtxLen\<rparr>
           | EmbeddedBackend ctx running \<Rightarrow>
               Some \<lparr>miID = configured, miState = (if running then ''loaded'' else ''stopped''),
                     miMaxContextLength = ctx, miLoadedContextLength = ctx\<rparr>
           | LocalBackend \<Rightarrow>
               (case studio of
                  Some models \<Rightarrow> pickModel configured models
                | None \<Rightarrow> fetchLlamaServerModelInfo configured llama))"

definition modelCtxLen :: "bool \<Rightarrow> string \<Rightarrow> ai_backend \<Rightarrow> LMModelInfo list option \<Rightarrow> (string \<times> int) list option \<Rightarrow> int" where
  "modelCtxLen enabled configured backend studio llama =
     (case fetchLMModelInfo enabled configured backend studio llama of Some m \<Rightarrow> ctxLen_of m | None \<Rightarrow> 0)"

section \<open>What is read\<close>

text \<open>
  The deltas of a stream, written without its loop: the decoded lines before the end mark.
\<close>

definition stream_data :: "(time \<times> string) list \<Rightarrow> string list" where
  "stream_data lines = takeWhile (\<lambda>data. data \<noteq> ''[DONE]'')
     (map (drop 6) (filter (\<lambda>line. has_prefix line ''data: '') (map snd lines)))"

definition deltas :: "(string \<Rightarrow> (string \<times> string) option option) \<Rightarrow> (time \<times> string) list \<Rightarrow> (string \<times> string) list" where
  "deltas decode lines = List.map_filter (\<lambda>data. Option.bind (decode data) (\<lambda>d. d)) (stream_data lines)"

lemma deltas_cons:
  "deltas decode ((now, line) # rest) =
     (if \<not> has_prefix line ''data: '' then deltas decode rest
      else if drop 6 line = ''[DONE]'' then []
      else case decode (drop 6 line) of Some (Some d) \<Rightarrow> d # deltas decode rest | _ \<Rightarrow> deltas decode rest)"
  by (auto simp: deltas_def stream_data_def List.map_filter_simps split: option.splits)

text \<open>Answers that grow: each write extends the one before, and the whole answer extends them all.\<close>

definition grows :: "(string \<times> string) list \<Rightarrow> string \<times> string \<Rightarrow> bool" where
  "grows writes whole \<longleftrightarrow>
     sorted_wrt (\<lambda>p q. prefix (fst p) (fst q) \<and> prefix (snd p) (snd q)) (writes @ [whole])"

lemma grows_more:
  assumes "grows writes (a, b)"
  shows "grows writes (a @ c, b @ d)" and "grows (writes @ [(a, b)]) (a, b)"
  using assms by (auto simp: grows_def sorted_wrt_append intro: prefix_order.trans)

lemma add_delta_spec:
  "stFull (add_delta noThink now (c, r) st) = stFull st @ c"
  "stReasoning (add_delta noThink now (c, r) st) = stReasoning st @ (if noThink then '''' else r)"
  by (simp_all add: add_delta_def Let_def)

lemma add_delta_grows:
  assumes "grows (stWrites st) (stFull st, stReasoning st)"
  shows "grows (stWrites (add_delta noThink now (c, r) st))
    (stFull (add_delta noThink now (c, r) st), stReasoning (add_delta noThink now (c, r) st))"
proof -
  let ?new = "(stFull st @ c, stReasoning st @ (if noThink then '''' else r))"
  have "grows (stWrites st) ?new" "grows (stWrites st @ [?new]) ?new"
    using grows_more(1) [OF assms, of c "if noThink then '''' else r"] grows_more(2) by blast+
  moreover have "stWrites (add_delta noThink now (c, r) st) \<in> {stWrites st, stWrites st @ [?new]}"
    by (simp add: add_delta_def Let_def)
  ultimately show ?thesis by (auto simp only: add_delta_spec insert_iff empty_iff)
qed

lemma stream_lines_spec:
  assumes "stream_lines decode noThink lines st = (st', broke)" and "grows (stWrites st) (stFull st, stReasoning st)"
  shows "stFull st' = stFull st @ concat (map fst (deltas decode lines)) \<and>
    stReasoning st' = stReasoning st @ (if noThink then '''' else concat (map snd (deltas decode lines))) \<and>
    grows (stWrites st') (stFull st', stReasoning st')"
  using assms
proof (induction lines arbitrary: st)
  case Nil
  then show ?case by (simp add: deltas_def stream_data_def List.map_filter_simps)
next
  case (Cons l rest)
  obtain now line where l: "l = (now, line)" by (cases l)
  show ?case
  proof (cases "has_prefix line ''data: '' \<and> drop 6 line \<noteq> ''[DONE]'' \<and> (\<exists>d. decode (drop 6 line) = Some (Some d))")
    case True
    then obtain c r where d: "has_prefix line ''data: ''" "drop 6 line \<noteq> ''[DONE]''" "decode (drop 6 line) = Some (Some (c, r))"
      by auto
    let ?st = "add_delta noThink now (c, r) st"
    have "stream_lines decode noThink rest ?st = (st', broke)" using Cons.prems(1) d l by simp
    from Cons.IH [OF this add_delta_grows [OF Cons.prems(2)]]
    show ?thesis using d by (cases noThink) (auto simp: l deltas_cons add_delta_spec)
  next
    case False
    then show ?thesis using Cons.IH [OF _ Cons.prems(2)] Cons.prems
      by (auto simp: l deltas_cons Let_def split: if_splits option.splits)
  qed
qed

section \<open>Properties\<close>

text \<open>
  a streamed answer is read whole and in order: the answer is the concatenation of the contents of the
  server's decoded lines before its end mark, the reasoning that of their reasonings (nothing when asked
  without thinking) and never part of the answer; every text written on the way extends the one before
  and is a prefix of the result.
\<close>

lemma streamed_answer_complete:
  "case streamChatMsgs decode noThink (HttpOk (lines, err)) of
     (writes, answer, reasoning, _) \<Rightarrow>
       answer = concat (map fst (deltas decode lines)) \<and>
       reasoning = (if noThink then '''' else concat (map snd (deltas decode lines))) \<and>
       grows writes (answer, reasoning)"
proof -
  obtain st broke where st: "stream_lines decode noThink lines empty_stream = (st, broke)"
    by (cases "stream_lines decode noThink lines empty_stream")
  have "grows (stWrites empty_stream) (stFull empty_stream, stReasoning empty_stream)"
    by (simp add: empty_stream_def grows_def)
  from stream_lines_spec [OF st this]
  have "stFull st = concat (map fst (deltas decode lines)) \<and>
      stReasoning st = (if noThink then '''' else concat (map snd (deltas decode lines))) \<and>
      grows (stWrites st) (stFull st, stReasoning st)"
    unfolding empty_stream_def stream.simps append_Nil .
  then show ?thesis unfolding streamChatMsgs_def http_answer.case prod.case st .
qed

end
