(* ===== verification/Analysis.thy ===== *)
theory Analysis
  imports ModelCalls
begin

text \<open>
  The AI analysis of a namespace or an object (ai.go): the keys, the prompts, what is shown while the
  answer streams and after it, and the endpoints.
\<close>

section \<open>Keys\<close>

definition slash :: char where "slash = CHR 0x2F"

text \<open>\<open>strings.Trim(s, "/")\<close>\<close>

definition trim_slashes :: "string \<Rightarrow> string" where
  "trim_slashes s = rev (dropWhile (\<lambda>c. c = slash) (rev (dropWhile (\<lambda>c. c = slash) s)))"

definition parseCacheKey :: "string \<Rightarrow> string option" where
  "parseCacheKey suffix0 =
     (let s = trim_slashes suffix0 in
      if has_prefix s ''ns/'' \<and> drop 3 s \<noteq> '''' then Some (''ns:'' @ drop 3 s)
      else if has_prefix s ''object/'' then
        (case split3 (drop 7 s) of
           [a, b, c] \<Rightarrow> if a \<noteq> '''' \<and> b \<noteq> '''' \<and> c \<noteq> '''' then Some (''obj:'' @ drop 7 s) else None
         | _ \<Rightarrow> None)
      else None)"

definition aiStoreKey :: "string \<Rightarrow> string \<Rightarrow> string" where
  "aiStoreKey cl key = cl @ ''|'' @ key"

section \<open>The prompts\<close>

definition analysisFormat :: "string \<Rightarrow> string" where
  "analysisFormat subject = ''In a few short lines: is anything wrong with '' @ subject @
     ''? If so, say what, why, and what to do. If nothing is wrong, say so.''"

definition analysisInstructions :: "string \<Rightarrow> string" where
  "analysisInstructions format = nl @ format"

definition ns_event_line :: "EventSummary \<Rightarrow> string" where
  "ns_event_line ev = ''- ['' @ evType ev @ ''] '' @ evKind ev @ ''/'' @ evObjectName ev @ ''  '' @ evReason ev @ '': '' @
     evMessage ev @ ''  ('' @ times_sign @ itoa (evCount ev) @ '', '' @ evAge ev @ '' ago)'' @ nl"

text \<open>The prompt of \<open>analyzeNSKey\<close>, with the first 60 events of the namespace.\<close>

definition ns_prompt :: "eventCache \<Rightarrow> string \<Rightarrow> string" where
  "ns_prompt cache ns =
     (let events = scopeEvents cache ns;
          n = length events;
          head = (if ns = clusterScopeNS
                  then ''Analyze all Kubernetes events about cluster-scoped objects (nodes, persistent volumes and similar).'' @ nl @ nl
                  else ''Analyze all Kubernetes events in namespace '' @ go_quote ns @ ''.'' @ nl @ nl);
          body = (if events = [] then ''No events recorded in this namespace.'' @ nl
                  else ''Events ('' @ itoa (int n) @ '' total, '' @
                       itoa (int (length (filter (\<lambda>ev. evType ev = ''Warning'') events))) @ '' warnings):'' @ nl @
                       concat (map ns_event_line (take 60 events)) @
                       (if n > 60 then ''... and '' @ itoa (int n - 60) @ '' more'' @ nl else ''''))
      in head @ body @ analysisInstructions (analysisFormat ''this namespace''))"

text \<open>\<open>analysisEvidence\<close>; \<open>None\<close> is a panic while following links, as in \<open>buildRCAInitialContext\<close>.\<close>

definition analysisEvidence :: "rca_world \<Rightarrow> string \<Rightarrow> string \<Rightarrow> string \<Rightarrow> int \<Rightarrow> evidence option" where
  "analysisEvidence w ns kind name ctxLen =
     (let info = rwInfo w ns kind name;
          e0 = (empty_evidence (''Analyze events for '' @ about ns kind name)
                  (objectEvents (csCache (rwCluster w)) ns kind name) (analysisInstructions (analysisFormat ''this resource'')))
               \<lparr>edDescribe := (if oiNotFound info then nl @ ''Note: object no longer exists in the cluster.'' @ nl
                               else if oiError info = '''' then nl @ ''Object describe:'' @ nl @ describeBody info else '''')\<rparr>;
          e1 = (if equal_fold kind ''Pod''
                then (case rca_logs w ns name of
                        Inl err \<Rightarrow> e0\<lparr>edNote := nl @ ''Note: could not fetch pod logs: '' @ err @ nl\<rparr>
                      | Inr logs \<Rightarrow>
                          if trim_space logs \<noteq> '''' then e0\<lparr>edLogsHead := logs_head (rwTail w), edLogs := logs\<rparr> else e0)
                else fst (addWorkload (rwNow w) (rwTail w) (rca_logs w ns) (rwCluster w) ns kind name e0))
      in link w ns kind name ctxLen e1)"

text \<open>The prompt of \<open>analyzeObjKey\<close>, with \<open>agent\<close> the AI Agent's system prompt.\<close>

definition obj_prompt :: "rca_world \<Rightarrow> string \<Rightarrow> string \<Rightarrow> string \<Rightarrow> string \<Rightarrow> int \<Rightarrow> string option" where
  "obj_prompt w agent ns kind name ctxLen =
     map_option (\<lambda>e. fit (rwEstimate w) e (promptBudget ctxLen (rwEstimate w agent))) (analysisEvidence w ns kind name ctxLen)"

section \<open>What is shown\<close>

text \<open>The insight shown for a key; the time of its last update is left out.\<close>

record AIInsight =
  aiContent :: string
  aiModel :: string
  aiEnabled :: bool
  aiPartial :: bool
  aiError :: string
  aiThinking :: bool
  aiReasoning :: string

definition insight :: "string \<Rightarrow> AIInsight" where
  "insight model = \<lparr>aiContent = '''', aiModel = model, aiEnabled = True, aiPartial = False, aiError = '''',
     aiThinking = False, aiReasoning = ''''\<rparr>"

definition thinkText :: "string \<Rightarrow> string" where
  "thinkText s =
     (case (str_index s think_open, str_index s think_close) of
        (Some i, Some j) \<Rightarrow> if j < i then '''' else trim_space (take (j - (i + length think_open)) (drop (i + length think_open) s))
      | _ \<Rightarrow> '''')"

definition partial_insight :: "string \<Rightarrow> string \<times> string \<Rightarrow> AIInsight" where
  "partial_insight model d =
     (case d of (part, reasoning) \<Rightarrow>
        let answer = trim_space (stripThink part)
        in (insight model)\<lparr>aiContent := answer, aiPartial := True,
             aiThinking := answer = '''' \<and> (reasoning \<noteq> '''' \<or> str_contains part think_open)\<rparr>)"

text \<open>
  The insights \<open>storeAnalysis\<close> stores, in order, and its error, from what \<open>streamLMStudio\<close> writes and
  returns.
\<close>

definition no_answer :: string where "no_answer = ''the model returned no answer, only its reasoning''"

definition storeAnalysis :: "string \<Rightarrow> (string \<times> string) list \<times> string \<times> string \<times> chat_error option \<Rightarrow>
    AIInsight list \<times> string option" where
  "storeAnalysis model streamed =
     (case streamed of (writes, content, reasoning, err0) \<Rightarrow>
        let shown = (insight model)\<lparr>aiPartial := True\<rparr> # map (partial_insight model) writes;
            err = (case err0 of Some e \<Rightarrow> Some (chat_error_text e)
                   | None \<Rightarrow> if cleanLMResponse content = '''' then Some no_answer else None)
        in case err of
             Some e \<Rightarrow> (shown @ [(insight model)\<lparr>aiError := e\<rparr>], Some e)
           | None \<Rightarrow>
               (shown @ [(insight model)\<lparr>aiContent := cleanLMResponse content,
                  aiReasoning := trim_space (reasoning @ thinkText content)\<rparr>], None))"

section \<open>Runs and endpoints\<close>

text \<open>
  The work of \<open>triggerScopedAnalysis\<close> for a key: \<open>stream\<close> is \<open>streamLMStudio\<close> on a prompt. A key that is
  neither a namespace's nor an object's stores nothing.
\<close>

definition analyze :: "rca_world \<Rightarrow> string \<Rightarrow> string \<Rightarrow> int \<Rightarrow>
    (string \<Rightarrow> (string \<times> string) list \<times> string \<times> string \<times> chat_error option) \<Rightarrow> string \<Rightarrow>
    (AIInsight list \<times> string option) option" where
  "analyze w model agent ctxLen stream key =
     (if has_prefix key ''ns:'' then Some (storeAnalysis model (stream (ns_prompt (csCache (rwCluster w)) (drop 3 key))))
      else if has_prefix key ''obj:'' then
        (case split3 (drop 4 key) of
           [ns, kind, name] \<Rightarrow>
             map_option (\<lambda>prompt. storeAnalysis model (stream prompt)) (obj_prompt w agent ns kind name ctxLen)
         | _ \<Rightarrow> Some ([], None))
      else Some ([], None))"

record ai_runs =
  arCache :: "(string, AIInsight) gomap"
  arRunning :: "string list"

text \<open>\<open>triggerScopedAnalysis\<close>, up to the goroutine it starts: whether it starts one.\<close>

definition triggerScopedAnalysis :: "string \<Rightarrow> string \<Rightarrow> ai_runs \<Rightarrow> bool \<times> ai_runs" where
  "triggerScopedAnalysis cl key ar =
     (let storeKey = aiStoreKey cl key in
      if storeKey \<in> set (arRunning ar) then (False, ar) else (True, ar\<lparr>arRunning := storeKey # arRunning ar\<rparr>))"

datatype ai_reply = AiStatus nat | AiTriggered | AiInsight AIInsight

definition handleAPIAIInsights :: "bool \<Rightarrow> string \<Rightarrow> string \<Rightarrow> api_cluster \<Rightarrow> ai_runs \<Rightarrow> ai_reply" where
  "handleAPIAIInsights enabled model path target ar =
     (let suffix = (if has_prefix path ''/api/ai/insights/'' then drop 17 path else path);
          empty = (insight model)\<lparr>aiEnabled := enabled\<rparr>
      in case target of
           ApiConflict _ \<Rightarrow> AiStatus 409
         | ApiCluster None \<Rightarrow> AiStatus 200
         | ApiCluster (Some c) \<Rightarrow>
             (case parseCacheKey suffix of
                None \<Rightarrow> AiInsight empty
              | Some key \<Rightarrow>
                  (case map_of (arCache ar) (aiStoreKey (csName c) key) of
                     Some shown \<Rightarrow> AiInsight shown
                   | None \<Rightarrow> AiInsight empty)))"

definition handleAPIAIAnalyze :: "string \<Rightarrow> bool \<Rightarrow> string \<Rightarrow> api_cluster \<Rightarrow> ai_runs \<Rightarrow> ai_reply \<times> ai_runs" where
  "handleAPIAIAnalyze method enabled path target ar =
     (if method \<noteq> ''POST'' then (AiStatus 405, ar)
      else if \<not> enabled then (AiStatus 503, ar)
      else let suffix = (if has_prefix path ''/api/ai/analyze/'' then drop 16 path else path) in
        case parseCacheKey suffix of
          None \<Rightarrow> (AiStatus 400, ar)
        | Some key \<Rightarrow>
            (case target of
               ApiConflict _ \<Rightarrow> (AiStatus 409, ar)
             | ApiCluster None \<Rightarrow> (AiStatus 200, ar)
             | ApiCluster (Some c) \<Rightarrow> (AiTriggered, snd (triggerScopedAnalysis (csName c) key ar))))"

section \<open>What is never shown\<close>

lemma contains_trans: "str_contains s t \<Longrightarrow> str_contains t u \<Longrightarrow> str_contains s u"
  unfolding str_contains_iff by (metis append.assoc)

lemma contains_trim_left: "str_contains s (trim_left s)"
proof (induction s rule: trim_left.induct)
  case (1 s)
  then show ?case
    using contains_take_drop [of s "length s" "space_at s"] contains_take_drop [of s "length s" 0]
    by (subst trim_left.simps) (auto intro: contains_trans)
qed

lemma contains_trim_right: "str_contains s (trim_right s)"
proof (induction s rule: trim_right.induct)
  case (1 s)
  then show ?case
    using contains_take_drop [of s "length s - space_end s" 0] contains_take_drop [of s "length s" 0]
    by (subst trim_right.simps) (auto intro: contains_trans)
qed

lemma contains_trim_space: "str_contains s (trim_space s)"
  unfolding trim_space_def by (rule contains_trans [OF contains_trim_left contains_trim_right])

lemma partial_insight_spec:
  "aiPartial (partial_insight model d) \<and> \<not> str_contains (aiContent (partial_insight model d)) think_open \<and>
   \<not> (aiThinking (partial_insight model d) \<and> aiContent (partial_insight model d) \<noteq> '''')"
  using contains_trans [OF contains_trim_space, of _ think_open] stripThink_no_open
  by (auto simp: partial_insight_def Let_def insight_def split: prod.splits)

lemma stream_error_text:
  "streamLMStudio decode slot send agent prompt = (writes, content, reasoning, Some e) \<Longrightarrow> chat_error_text e \<noteq> ''''"
  by (auto simp: streamLMStudio_def streamChatMsgs_def refused_def too_many_def Let_def
      split: option.splits http_answer.splits prod.splits if_splits)

section \<open>Properties\<close>


text \<open>
  An answer that ends inside its reasoning (cut off by the token limit) is shown as the answer, with the
  reasoning, although the comment on \<open>AIInsight\<close> says that reasoning is never part of the content.
\<close>

lemma unfinished_reasoning_shown:
  "storeAnalysis ''m'' ([], ''<think>The pod'', '''', None) =
   ([(insight ''m'')\<lparr>aiPartial := True\<rparr>, (insight ''m'')\<lparr>aiContent := ''<think>The pod''\<rparr>], None)"
  by code_simp

end
