(* ===== verification/ClaudeCode.thy ===== *)
theory ClaudeCode
  imports ModelCalls
begin

text \<open>
  Claude Code as the model (claudecode.go): the choice of the backend, the command line of a call, the
  reading of its output, and one call. The command line tool, its processes and the saved preferences
  are arguments. The run of a root cause analysis is in the theory \<open>MCP\<close>.
\<close>

section \<open>The settings\<close>

record aiBackend =
  abName :: string
  abModel :: string
  abThinking :: string

definition backendLocal :: string where "backendLocal = ''local''"
definition backendClaude :: string where "backendClaude = ''claude-code''"

definition claudeModels :: "string list" where "claudeModels = ['''', ''haiku'', ''sonnet'', ''opus'']"

definition claudeThinking :: "string list" where
  "claudeThinking = ['''', ''off'', ''low'', ''medium'', ''high'', ''xhigh'', ''max'']"

definition default_backend :: aiBackend where
  "default_backend = \<lparr>abName = backendLocal, abModel = ''sonnet'', abThinking = ''''\<rparr>"

definition normalizeBackend :: "string \<Rightarrow> string + string" where
  "normalizeBackend name =
     (let n = ascii_lower (trim_space name) in
      if n \<in> {'''', ''local'', ''lmstudio'', ''lm-studio'', ''embedded''} then Inr backendLocal
      else if n \<in> {''claude-code'', ''claude'', ''claudecode''} then Inr backendClaude
      else Inl (''unknown AI backend '' @ go_quote name @ '' (want local or claude-code)''))"

text \<open>The saved choices: backend, model (absent when never chosen) and thinking.\<close>

record ai_prefs =
  apBackend :: string
  apModel :: "string option"
  apThinking :: string

text \<open>\<open>initAIBackend\<close>, with the environment's \<open>AI_BACKEND\<close>.\<close>

definition initAIBackend :: "ai_prefs \<Rightarrow> string \<Rightarrow> aiBackend \<Rightarrow> aiBackend" where
  "initAIBackend p env b =
     (let name = (if env \<noteq> '''' then env else apBackend p);
          b1 = (case normalizeBackend name of Inr n \<Rightarrow> b\<lparr>abName := n\<rparr> | Inl _ \<Rightarrow> b);
          b2 = (case apModel p of Some m \<Rightarrow> if m \<in> set claudeModels then b1\<lparr>abModel := m\<rparr> else b1 | None \<Rightarrow> b1)
      in if apThinking p \<in> set claudeThinking then b2\<lparr>abThinking := apThinking p\<rparr> else b2)"

definition orDefault :: "string \<Rightarrow> string" where
  "orDefault model = (if model = '''' then ''default'' else model)"

text \<open>
  The setters: the backend with the preferences, and the error; \<open>absent\<close> is the error of the status of
  the command line tool when it is not there, \<open>saved\<close> the error of writing the preferences.
\<close>

type_synonym backend_state = "aiBackend \<times> ai_prefs"

definition setAIBackend :: "string option \<Rightarrow> string option \<Rightarrow> string \<Rightarrow> backend_state \<Rightarrow> backend_state \<times> string option" where
  "setAIBackend absent saved name s =
     (case normalizeBackend name of
        Inl err \<Rightarrow> (s, Some err)
      | Inr n \<Rightarrow>
          (case (if n = backendClaude then absent else None) of
             Some err \<Rightarrow> (s, Some err)
           | None \<Rightarrow> (case s of (b, p) \<Rightarrow> ((b\<lparr>abName := n\<rparr>, p\<lparr>apBackend := n\<rparr>), saved))))"

definition setClaudeModel :: "string option \<Rightarrow> string \<Rightarrow> backend_state \<Rightarrow> backend_state \<times> string option" where
  "setClaudeModel saved model s =
     (if model \<notin> set claudeModels
      then (s, Some (''unknown Claude model '' @ go_quote model @ '' (want haiku, sonnet, opus or empty for the default)''))
      else case s of (b, p) \<Rightarrow> ((b\<lparr>abModel := model\<rparr>, p\<lparr>apModel := Some model\<rparr>), saved))"

definition setClaudeThinking :: "string option \<Rightarrow> string \<Rightarrow> backend_state \<Rightarrow> backend_state \<times> string option" where
  "setClaudeThinking saved level s =
     (if level \<notin> set claudeThinking
      then (s, Some (''unknown thinking setting '' @ go_quote level @
             '' (want off, low, medium, high, xhigh, max or empty for the default)''))
      else case s of (b, p) \<Rightarrow> ((b\<lparr>abThinking := level\<rparr>, p\<lparr>apThinking := level\<rparr>), saved))"

definition mid_dot :: string where "mid_dot = [CHR 0xC2, CHR 0xB7]"

definition aiModelName :: "string \<Rightarrow> aiBackend \<Rightarrow> string" where
  "aiModelName configured b =
     (if abName b \<noteq> backendClaude then configured
      else ''Claude Code'' @
        (if abModel b \<noteq> '''' then '' '' @ mid_dot @ '' '' @ abModel b else '''') @
        (if abThinking b = '''' then ''''
         else if abThinking b = ''off'' then '' '' @ mid_dot @ '' no thinking''
         else '' '' @ mid_dot @ '' thinking '' @ abThinking b))"

section \<open>The tool and its sign-in\<close>

record ClaudeStatus =
  ctAvailable :: bool
  ctPath :: string
  ctVersion :: string
  ctLoggedIn :: bool
  ctAuthMethod :: string
  ctEmail :: string
  ctError :: string

definition no_status :: ClaudeStatus where
  "no_status = \<lparr>ctAvailable = False, ctPath = '''', ctVersion = '''', ctLoggedIn = False, ctAuthMethod = '''',
     ctEmail = '''', ctError = ''''\<rparr>"

text \<open>
  \<open>probeClaude\<close>: where the tool is, the output of \<open>--version\<close> when it succeeds, and of \<open>auth status\<close>:
  the decoded answer, if it could be decoded, and the command's error. \<open>None\<close> is a panic: a version of
  blanks only has no first field.
\<close>

definition version_field :: "string option \<Rightarrow> string option" where
  "version_field version =
     (case version of
        None \<Rightarrow> Some ''''
      | Some out \<Rightarrow> (case str_fields (out @ '' '') of v # _ \<Rightarrow> Some v | [] \<Rightarrow> None))"

definition probeClaude :: "string + string \<Rightarrow> string option \<Rightarrow> (bool \<times> string \<times> string) option \<Rightarrow> string option \<Rightarrow>
    ClaudeStatus option" where
  "probeClaude path version auth failed =
     (case path of
        Inl err \<Rightarrow> Some (no_status\<lparr>ctError := err\<rparr>)
      | Inr p \<Rightarrow>
          map_option (\<lambda>v.
            let st = no_status\<lparr>ctAvailable := True, ctPath := p, ctVersion := v\<rparr>
            in case auth of
                 None \<Rightarrow> st\<lparr>ctError := ''could not read `claude auth status`'' @
                           (case failed of Some err \<Rightarrow> '': '' @ err | None \<Rightarrow> '''')\<rparr>
               | Some (loggedIn, meth, email) \<Rightarrow>
                   st\<lparr>ctLoggedIn := loggedIn, ctAuthMethod := meth, ctEmail := email,
                     ctError := (if loggedIn then '''' else ''Claude Code is not signed in: run `claude auth login` in a terminal.'')\<rparr>)
            (version_field version))"

definition claudeStatusTTL :: duration where "claudeStatusTTL = minute"

text \<open>\<open>claudeStatus\<close>: the cached status and when it was read; \<open>probe\<close> is what \<open>probeClaude\<close> would say.\<close>

definition claudeStatus :: "ClaudeStatus \<Rightarrow> time \<Rightarrow> bool \<Rightarrow> time \<times> ClaudeStatus \<Rightarrow> ClaudeStatus \<times> (time \<times> ClaudeStatus)" where
  "claudeStatus probe now fresh cache =
     (case cache of (at, st) \<Rightarrow>
        if \<not> fresh \<and> at \<noteq> 0 \<and> time_sub now at < claudeStatusTTL then (st, cache) else (probe, (now, probe)))"

section \<open>The command line\<close>

record ccRequest =
  cqSystem :: string
  cqPrompt :: string
  cqThinking :: string
  cqMCPURL :: string
  cqTools :: "string list"

text \<open>\<open>ccArgs\<close>; \<open>json\<close> writes a string as JSON.\<close>

definition mcp_config :: "(string \<Rightarrow> string) \<Rightarrow> string \<Rightarrow> string" where
  "mcp_config json url = ''{\"mcpServers\":{\"kubehealth\":{\"type\":\"http\",\"url\":'' @ json url @ ''}}}''"

definition ccArgs :: "(string \<Rightarrow> string) \<Rightarrow> ccRequest \<Rightarrow> string \<Rightarrow> string list" where
  "ccArgs json req model =
     (let sys = (if trim_space (cqSystem req) = '''' then ''You are a Kubernetes SRE expert.'' else cqSystem req)
      in [''-p'', ''--output-format'', ''stream-json'', ''--verbose'', ''--include-partial-messages'',
          ''--system-prompt'', sys, ''--tools'', '''', ''--setting-sources'', '''', ''--strict-mcp-config'',
          ''--disable-slash-commands'', ''--no-session-persistence''] @
         (if model \<noteq> '''' then [''--model'', model] else []) @
         (if cqThinking req = '''' then []
          else if cqThinking req = ''off'' then [''--settings'', ''{\"alwaysThinkingEnabled\":false}'']
          else [''--effort'', cqThinking req]) @
         (if cqMCPURL req \<noteq> ''''
          then [''--mcp-config'', mcp_config json (cqMCPURL req), ''--allowedTools'', str_join '','' (cqTools req)]
          else []))"

section \<open>The output\<close>

text \<open>\<open>capped\<close>: what is kept of the bytes written to it.\<close>

definition capped_write :: "nat \<Rightarrow> string \<Rightarrow> string \<Rightarrow> string" where
  "capped_write limit buf p =
     (if length buf < limit then buf @ take (min (limit - length buf) (length p)) p else buf)"

record ccDelta =
  cdType :: string
  cdText :: string
  cdThinking :: string

record ccEvent =
  cvType :: string
  cvDelta :: "ccDelta option"

text \<open>A line of the output; the MCP servers it names are only logged, its cost is left out.\<close>

record ccLine =
  clType :: string
  clSubtype :: string
  clEvent :: "ccEvent option"
  clIsError :: bool
  clResult :: string
  clErrors :: "string list"
  clTurns :: int

record ccResult =
  crText :: string
  crReasoning :: string
  crTurns :: int

definition no_result :: ccResult where "no_result = \<lparr>crText = '''', crReasoning = '''', crTurns = 0\<rparr>"

record ccStream =
  cxText :: string
  cxReasoning :: string
  cxLast :: time
  cxWrites :: "(string \<times> string) list"
  cxResult :: ccResult
  cxGot :: bool
  cxErr :: "string option"

definition cc_empty :: ccStream where
  "cc_empty = \<lparr>cxText = '''', cxReasoning = '''', cxLast = 0, cxWrites = [], cxResult = no_result, cxGot = False, cxErr = None\<rparr>"

definition ccThinking :: string where "ccThinking = ellipsis"

definition cc_delta :: "time \<Rightarrow> ccDelta \<Rightarrow> ccStream \<Rightarrow> ccStream" where
  "cc_delta now d x =
     (let x1 = x\<lparr>cxText := cxText x @ cdText d, cxReasoning := cxReasoning x @ cdThinking d\<rparr>;
          thinking = (cdType d = ''thinking_delta'')
      in if (cdText d \<noteq> '''' \<or> thinking) \<and> time_sub now (cxLast x) \<ge> write_gap
         then x1\<lparr>cxLast := now,
                cxWrites := cxWrites x @ [(cxText x1, if cxReasoning x1 = '''' \<and> thinking then ccThinking else cxReasoning x1)]\<rparr>
         else x1)"

definition cc_event :: "time \<Rightarrow> ccEvent \<Rightarrow> ccStream \<Rightarrow> ccStream" where
  "cc_event now ev x0 =
     (let x = (if cvType ev = ''message_start'' then x0\<lparr>cxText := ''''\<rparr> else x0) in
      case cvDelta ev of
        Some d \<Rightarrow> if cvType ev = ''content_block_delta'' then cc_delta now d x else x
      | None \<Rightarrow> x)"

definition cc_error_text :: "ccLine \<Rightarrow> string" where
  "cc_error_text l =
     (let msg = trim_space (clResult l); joined = str_join ''; '' (clErrors l)
      in ''Claude Code: '' @ (if msg \<noteq> '''' then msg else if joined \<noteq> '''' then joined else clSubtype l))"

definition cc_result :: "ccLine \<Rightarrow> ccStream \<Rightarrow> ccStream" where
  "cc_result l x =
     (let text = (if trim_space (clResult l) = '''' then trim_space (cxText x) else trim_space (clResult l))
      in x\<lparr>cxGot := True,
           cxResult := \<lparr>crText = text, crReasoning = trim_space (cxReasoning x), crTurns = clTurns l\<rparr>,
           cxErr := (if clIsError l \<or> has_prefix (clSubtype l) ''error'' then Some (cc_error_text l) else cxErr x)\<rparr>)"

definition cc_line :: "(string \<Rightarrow> ccLine option) \<Rightarrow> ccStream \<Rightarrow> time \<times> string \<Rightarrow> ccStream" where
  "cc_line decode x entry =
     (case entry of (now, line) \<Rightarrow>
        if trim_space line = '''' then x
        else case decode line of
               None \<Rightarrow> x
             | Some l \<Rightarrow>
                 if clType l = ''stream_event'' then (case clEvent l of Some ev \<Rightarrow> cc_event now ev x | None \<Rightarrow> x)
                 else if clType l = ''result'' then cc_result l x else x)"

text \<open>
  \<open>ccReadStream\<close>: the lines with the times they are read at, and the error that ended the reading, if it
  was not the end of the output. It gives what was written, the result, whether one arrived, the error.
\<close>

definition ccReadStream :: "(string \<Rightarrow> ccLine option) \<Rightarrow> (time \<times> string) list \<Rightarrow> string option \<Rightarrow>
    (string \<times> string) list \<times> ccResult \<times> bool \<times> string option" where
  "ccReadStream decode lines rerr =
     (let x = foldl (cc_line decode) cc_empty lines;
          err = (case rerr of
                   Some e \<Rightarrow> if cxErr x = None \<and> \<not> cxGot x then Some (''read claude output: '' @ e) else cxErr x
                 | None \<Rightarrow> cxErr x)
      in (cxWrites x, cxResult x, cxGot x, err))"

section \<open>One call\<close>

definition notSignedIn :: "string \<Rightarrow> bool" where
  "notSignedIn msg \<longleftrightarrow>
     (let m = ascii_lower msg in
      str_contains m ''/login'' \<or> str_contains m ''not logged in'' \<or> str_contains m ''invalid api key'' \<or>
      str_contains m ''not signed in'')"

text \<open>How the context of a call ended, if it did, with the text of its error.\<close>

datatype call_end = CallRunning | CallDeadline | CallCancelled string

text \<open>
  What the operating system answers: the tool's path, the errors of the pipe and of the start, the output,
  the parts written to stderr and the error of \<open>Wait\<close>.
\<close>

record cc_world =
  cwPath :: "string + string"
  cwPipe :: "string option"
  cwStart :: "string option"
  cwLines :: "(time \<times> string) list"
  cwReadErr :: "string option"
  cwStderr :: "string list"
  cwWait :: "string option"
  cwEnd :: call_end

definition cc_failure :: "string list \<Rightarrow> string option \<Rightarrow> string" where
  "cc_failure stderr wait =
     (let out = trim_space (foldl (capped_write 8192) '''' stderr);
          msg = (if out = '''' then (case wait of Some e \<Rightarrow> e | None \<Rightarrow> '''') else out)
      in ''claude: '' @ (if msg = '''' then ''no answer'' else msg))"

definition ccRun :: "(string \<Rightarrow> ccLine option) \<Rightarrow> int \<Rightarrow> cc_world \<Rightarrow> (string \<times> string) list \<times> ccResult \<times> string option" where
  "ccRun decode timeout w =
     (case cwPath w of
        Inl err \<Rightarrow> ([], no_result, Some err)
      | Inr _ \<Rightarrow>
          (case cwPipe w of
             Some err \<Rightarrow> ([], no_result, Some err)
           | None \<Rightarrow>
             (case cwStart w of
                Some err \<Rightarrow> ([], no_result, Some (''start claude: '' @ err))
              | None \<Rightarrow>
                (case ccReadStream decode (cwLines w) (cwReadErr w) of
                   (writes, res, arrived, perr) \<Rightarrow>
                     (writes, res,
                      case cwEnd w of
                        CallDeadline \<Rightarrow> Some (''Claude Code did not answer within '' @ itoa timeout @
                          '' min (Settings '' @ [CHR 0xE2, CHR 0x86, CHR 0x92] @ '' AI Request Timeout)'')
                      | CallCancelled err \<Rightarrow> Some err
                      | CallRunning \<Rightarrow>
                          (case perr of
                             Some err \<Rightarrow>
                               Some (if notSignedIn err
                                     then ''Claude Code is not signed in: run `claude auth login` in a terminal, then try again''
                                     else err)
                           | None \<Rightarrow> if arrived then None else Some (cc_failure (cwStderr w) (cwWait w))))))))"

text \<open>\<open>ccChat\<close>: the request it makes, and what it writes and returns of the call's outcome.\<close>

definition chat_request :: "lmMsg list \<Rightarrow> bool \<Rightarrow> string \<Rightarrow> ccRequest" where
  "chat_request msgs noThink thinking =
     \<lparr>cqSystem = (case rev (filter (\<lambda>m. lmRole m = ''system'') msgs) of m # _ \<Rightarrow> lmContent m | [] \<Rightarrow> ''''),
      cqPrompt = str_join (nl @ nl) (map lmContent (filter (\<lambda>m. lmRole m \<noteq> ''system'') msgs)),
      cqThinking = (if noThink then ''off'' else thinking), cqMCPURL = '''', cqTools = []\<rparr>"

definition ccChat :: "lmMsg list \<Rightarrow> bool \<Rightarrow> string \<Rightarrow>
    (ccRequest \<Rightarrow> (string \<times> string) list \<times> ccResult \<times> string option) \<Rightarrow>
    (string \<times> string) list \<times> string \<times> string \<times> chat_error option" where
  "ccChat msgs noThink thinking call =
     (case call (chat_request msgs noThink thinking) of
        (writes, res, err) \<Rightarrow>
          (if noThink then map (\<lambda>(text, _). (text, '''')) writes else writes,
           crText res, if noThink then '''' else crReasoning res, map_option ChatError err))"

section \<open>The settings stay among the choices\<close>

definition backend_ok :: "aiBackend \<Rightarrow> bool" where
  "backend_ok b \<longleftrightarrow> abName b \<in> {backendLocal, backendClaude} \<and> abModel b \<in> set claudeModels \<and> abThinking b \<in> set claudeThinking"

inductive backend_step :: "backend_state \<Rightarrow> backend_state \<Rightarrow> bool" where
  set_backend: "setAIBackend absent saved name s = (s', err) \<Longrightarrow> backend_step s s'"
| set_model: "setClaudeModel saved model s = (s', err) \<Longrightarrow> backend_step s s'"
| set_thinking: "setClaudeThinking saved level s = (s', err) \<Longrightarrow> backend_step s s'"

lemma normalizeBackend_name: "normalizeBackend name = Inr n \<Longrightarrow> n \<in> {backendLocal, backendClaude}"
  by (auto simp: normalizeBackend_def Let_def split: if_splits)

lemma initAIBackend_ok: "backend_ok b \<Longrightarrow> backend_ok (initAIBackend p env b)"
  using normalizeBackend_name by (auto simp: initAIBackend_def backend_ok_def Let_def split: sum.splits option.splits)

lemma default_backend_ok: "backend_ok default_backend"
  by (simp add: backend_ok_def default_backend_def claudeModels_def claudeThinking_def)

lemma backend_step_ok: "backend_step s s' \<Longrightarrow> backend_ok (fst s) \<Longrightarrow> backend_ok (fst s')"
  by (induction rule: backend_step.induct)
    (auto simp: setAIBackend_def setClaudeModel_def setClaudeThinking_def backend_ok_def
      dest: normalizeBackend_name split: sum.splits option.splits if_splits prod.splits)

lemma backend_reachable_ok:
  "backend_step\<^sup>*\<^sup>* (initAIBackend p env default_backend, p) s \<Longrightarrow> backend_ok (fst s)"
proof (induction rule: rtranclp_induct)
  case base
  then show ?case using initAIBackend_ok [OF default_backend_ok] by simp
qed (rule backend_step_ok)

text \<open>
  A command line read option by option: each of these takes the argument after it. A reading fails on
  anything else.
\<close>

definition value_options :: "string list" where
  "value_options = [''--output-format'', ''--system-prompt'', ''--tools'', ''--setting-sources'', ''--model'', ''--settings'',
     ''--effort'', ''--mcp-config'', ''--allowedTools'']"

definition plain_options :: "string list" where
  "plain_options = [''-p'', ''--verbose'', ''--include-partial-messages'', ''--strict-mcp-config'',
     ''--disable-slash-commands'', ''--no-session-persistence'']"

fun claude_options :: "string list \<Rightarrow> (string \<times> string option) list option" where
  "claude_options [] = Some []"
| "claude_options (a # rest) =
     (if a \<in> set plain_options then map_option ((#) (a, None)) (claude_options rest)
      else if a \<in> set value_options then
        (case rest of v # rest' \<Rightarrow> map_option ((#) (a, Some v)) (claude_options rest') | [] \<Rightarrow> None)
      else None)"

text \<open>What a locked-down command line has: the one system prompt, and no tools but the allowed ones.\<close>

definition locked_down :: "string \<Rightarrow> (string \<times> string option) list \<Rightarrow> bool" where
  "locked_down allowed opts \<longleftrightarrow>
     distinct (map fst opts) \<and>
     map_of opts ''--tools'' = Some (Some '''') \<and> map_of opts ''--setting-sources'' = Some (Some '''') \<and>
     map_of opts ''--strict-mcp-config'' = Some None \<and> map_of opts ''--disable-slash-commands'' = Some None \<and>
     map_of opts ''--no-session-persistence'' = Some None \<and>
     (case map_of opts ''--model'' of Some v \<Rightarrow> v \<in> Some ` set claudeModels | None \<Rightarrow> True) \<and>
     (case map_of opts ''--effort'' of Some v \<Rightarrow> v \<in> Some ` set claudeThinking | None \<Rightarrow> True) \<and>
     (case map_of opts ''--allowedTools'' of Some v \<Rightarrow> v = Some allowed | None \<Rightarrow> allowed = '''')"

definition effective_system :: "ccRequest \<Rightarrow> string" where
  "effective_system req = (if trim_space (cqSystem req) = '''' then ''You are a Kubernetes SRE expert.'' else cqSystem req)"

lemma option_reads:
  "claude_options (''-p'' # rest) = map_option ((#) (''-p'', None)) (claude_options rest)"
  "claude_options (''--verbose'' # rest) = map_option ((#) (''--verbose'', None)) (claude_options rest)"
  "claude_options (''--include-partial-messages'' # rest) = map_option ((#) (''--include-partial-messages'', None)) (claude_options rest)"
  "claude_options (''--strict-mcp-config'' # rest) = map_option ((#) (''--strict-mcp-config'', None)) (claude_options rest)"
  "claude_options (''--disable-slash-commands'' # rest) = map_option ((#) (''--disable-slash-commands'', None)) (claude_options rest)"
  "claude_options (''--no-session-persistence'' # rest) = map_option ((#) (''--no-session-persistence'', None)) (claude_options rest)"
  "claude_options (''--output-format'' # v # rest) = map_option ((#) (''--output-format'', Some v)) (claude_options rest)"
  "claude_options (''--system-prompt'' # v # rest) = map_option ((#) (''--system-prompt'', Some v)) (claude_options rest)"
  "claude_options (''--tools'' # v # rest) = map_option ((#) (''--tools'', Some v)) (claude_options rest)"
  "claude_options (''--setting-sources'' # v # rest) = map_option ((#) (''--setting-sources'', Some v)) (claude_options rest)"
  "claude_options (''--model'' # v # rest) = map_option ((#) (''--model'', Some v)) (claude_options rest)"
  "claude_options (''--settings'' # v # rest) = map_option ((#) (''--settings'', Some v)) (claude_options rest)"
  "claude_options (''--effort'' # v # rest) = map_option ((#) (''--effort'', Some v)) (claude_options rest)"
  "claude_options (''--mcp-config'' # v # rest) = map_option ((#) (''--mcp-config'', Some v)) (claude_options rest)"
  "claude_options (''--allowedTools'' # v # rest) = map_option ((#) (''--allowedTools'', Some v)) (claude_options rest)"
  by (simp_all add: plain_options_def value_options_def)

definition fixed_options :: "string \<Rightarrow> (string \<times> string option) list" where
  "fixed_options sys = [(''-p'', None), (''--output-format'', Some ''stream-json''), (''--verbose'', None),
     (''--include-partial-messages'', None), (''--system-prompt'', Some sys), (''--tools'', Some ''''),
     (''--setting-sources'', Some ''''), (''--strict-mcp-config'', None), (''--disable-slash-commands'', None),
     (''--no-session-persistence'', None)]"

definition model_options :: "string \<Rightarrow> (string \<times> string option) list" where
  "model_options model = (if model \<noteq> '''' then [(''--model'', Some model)] else [])"

definition thinking_options :: "string \<Rightarrow> (string \<times> string option) list" where
  "thinking_options t = (if t = '''' then [] else if t = ''off'' then [(''--settings'', Some ''{\"alwaysThinkingEnabled\":false}'')]
     else [(''--effort'', Some t)])"

definition mcp_options :: "(string \<Rightarrow> string) \<Rightarrow> ccRequest \<Rightarrow> (string \<times> string option) list" where
  "mcp_options json req = (if cqMCPURL req \<noteq> ''''
     then [(''--mcp-config'', Some (mcp_config json (cqMCPURL req))), (''--allowedTools'', Some (str_join '','' (cqTools req)))] else [])"

lemma claude_options_args:
  "claude_options (ccArgs json req model) =
     Some (fixed_options (effective_system req) @ model_options model @ thinking_options (cqThinking req) @ mcp_options json req)"
proof -
  have tail: "claude_options (
         (if model \<noteq> '''' then [''--model'', model] else []) @
         (if t = '''' then []
          else if t = ''off'' then [''--settings'', ''{\"alwaysThinkingEnabled\":false}''] else [''--effort'', t]) @
         (if u \<noteq> '''' then [''--mcp-config'', mcp_config json u, ''--allowedTools'', v] else [])) =
     Some (model_options model @ thinking_options t @
       (if u \<noteq> '''' then [(''--mcp-config'', Some (mcp_config json u)), (''--allowedTools'', Some v)] else []))" for t u v
    unfolding model_options_def thinking_options_def
    by (cases "model = ''''"; cases "t = ''''"; cases "t = ''off''"; cases "u = ''''")
      (simp_all only: option_reads claude_options.simps(1) append.simps option.map simp_thms if_True if_False)
  show ?thesis
    unfolding ccArgs_def Let_def fixed_options_def effective_system_def mcp_options_def append.simps option_reads tail option.map
    by (rule refl)
qed

lemma locked_down_args:
  assumes "model \<in> set claudeModels" and "cqThinking req \<in> set claudeThinking"
  shows "locked_down (if cqMCPURL req = '''' then '''' else str_join '','' (cqTools req))
    (fixed_options (effective_system req) @ model_options model @ thinking_options (cqThinking req) @ mcp_options json req)"
proof -
  have "locked_down (if u = '''' then '''' else tools)
      (fixed_options sys @ model_options model @ thinking_options t @
        (if u \<noteq> '''' then [(''--mcp-config'', Some c), (''--allowedTools'', Some tools)] else []))"
    if "t \<in> set claudeThinking" for sys t u c tools
    using that assms(1)
    by (cases "model = ''''"; cases "t = ''''"; cases "t = ''off''"; cases "u = ''''")
      (simp_all add: locked_down_def fixed_options_def model_options_def thinking_options_def)
  from this [OF assms(2)] show ?thesis unfolding mcp_options_def .
qed

section \<open>The answer of the last turn\<close>

text \<open>The text and the reasoning of the decoded lines, written without the reader's state.\<close>

definition turn_text :: "ccEvent list \<Rightarrow> string" where
  "turn_text evs = concat (map (\<lambda>ev. case cvDelta ev of Some d \<Rightarrow> if cvType ev = ''content_block_delta'' then cdText d else '''' | None \<Rightarrow> '''')
     (rev (takeWhile (\<lambda>ev. cvType ev \<noteq> ''message_start'') (rev evs))))"

definition all_thinking :: "ccEvent list \<Rightarrow> string" where
  "all_thinking evs = concat (map (\<lambda>ev. case cvDelta ev of Some d \<Rightarrow> if cvType ev = ''content_block_delta'' then cdThinking d else '''' | None \<Rightarrow> '''') evs)"

definition cc_decode :: "(string \<Rightarrow> ccLine option) \<Rightarrow> (time \<times> string) list \<Rightarrow> ccLine list" where
  "cc_decode decode lines = List.map_filter decode (filter (\<lambda>line. trim_space line \<noteq> '''') (map snd lines))"

definition cc_events :: "ccLine list \<Rightarrow> ccEvent list" where
  "cc_events ls = List.map_filter clEvent (filter (\<lambda>l. clType l = ''stream_event'') ls)"

lemma turn_text_snoc:
  "turn_text (evs @ [ev]) = (if cvType ev = ''message_start'' then '''' else turn_text evs @
     (case cvDelta ev of Some d \<Rightarrow> if cvType ev = ''content_block_delta'' then cdText d else '''' | None \<Rightarrow> ''''))"
  by (simp add: turn_text_def split: option.splits)

lemma cc_event_text:
  "cxText (cc_event now ev x) = (if cvType ev = ''message_start'' then '''' else cxText x @
     (case cvDelta ev of Some d \<Rightarrow> if cvType ev = ''content_block_delta'' then cdText d else '''' | None \<Rightarrow> ''''))"
  "cxReasoning (cc_event now ev x) = cxReasoning x @
     (case cvDelta ev of Some d \<Rightarrow> if cvType ev = ''content_block_delta'' then cdThinking d else '''' | None \<Rightarrow> '''')"
  by (auto simp: cc_event_def cc_delta_def Let_def split: option.splits)

lemma cc_line_text:
  assumes "cxText x = turn_text (cc_events ls)" and "cxReasoning x = all_thinking (cc_events ls)"
  shows "cxText (cc_line decode x l) = turn_text (cc_events (ls @ cc_decode decode [l]))"
    and "cxReasoning (cc_line decode x l) = all_thinking (cc_events (ls @ cc_decode decode [l]))"
proof -
  obtain now line where l: "l = (now, line)" by (cases l)
  have one: "cc_decode decode [(now, line)] = (if trim_space line = '''' then [] else case decode line of Some d \<Rightarrow> [d] | None \<Rightarrow> [])"
    by (simp add: cc_decode_def List.map_filter_simps split: option.splits)
  have ev: "cc_events (ls @ [d]) = cc_events ls @ (if clType d = ''stream_event'' then (case clEvent d of Some ev \<Rightarrow> [ev] | None \<Rightarrow> []) else [])" for d
    by (auto simp: cc_events_def List.map_filter_def split: option.splits)
  have snoc: "all_thinking (evs @ [e]) = all_thinking evs @
      (case cvDelta e of Some d \<Rightarrow> if cvType e = ''content_block_delta'' then cdThinking d else '''' | None \<Rightarrow> '''')" for evs e
    by (simp add: all_thinking_def)
  show "cxText (cc_line decode x l) = turn_text (cc_events (ls @ cc_decode decode [l]))"
    using assms by (auto simp: cc_line_def l one ev turn_text_snoc cc_event_text cc_result_def split: option.splits)
  show "cxReasoning (cc_line decode x l) = all_thinking (cc_events (ls @ cc_decode decode [l]))"
    using assms by (auto simp: cc_line_def l one ev snoc cc_event_text cc_result_def split: option.splits)
qed

lemma cc_decode_append: "cc_decode decode (xs @ ys) = cc_decode decode xs @ cc_decode decode ys"
  by (simp add: cc_decode_def List.map_filter_def)

lemma cc_fold_text:
  "cxText (foldl (cc_line decode) cc_empty lines) = turn_text (cc_events (cc_decode decode lines)) \<and>
   cxReasoning (foldl (cc_line decode) cc_empty lines) = all_thinking (cc_events (cc_decode decode lines))"
proof (induction lines rule: rev_induct)
  case Nil
  then show ?case
    by (simp add: cc_empty_def cc_decode_def cc_events_def turn_text_def all_thinking_def List.map_filter_simps)
next
  case (snoc l lines)
  then show ?case using cc_line_text [of _ "cc_decode decode lines" decode l] by (simp add: cc_decode_append)
qed

lemma cc_fold_no_result:
  assumes "list_all (\<lambda>l. clType l \<noteq> ''result'') (cc_decode decode lines)"
  shows "cxErr (foldl (cc_line decode) cc_empty lines) = None"
  using assms
proof (induction lines rule: rev_induct)
  case (snoc l lines)
  obtain now line where l: "l = (now, line)" by (cases l)
  have "cc_decode decode [l] = (if trim_space line = '''' then [] else case decode line of Some d \<Rightarrow> [d] | None \<Rightarrow> [])"
    by (simp add: cc_decode_def l List.map_filter_simps split: option.splits)
  then have "cxErr (cc_line decode x l) = cxErr x" for x
    using snoc.prems by (auto simp: cc_decode_append cc_line_def l cc_event_def cc_delta_def Let_def split: option.splits if_splits)
  then show ?case using snoc by (simp add: cc_decode_append)
qed (simp add: cc_empty_def)

section \<open>Properties\<close>



text \<open>
  the answer of Claude Code is the one of its last turn: when the result line comes without a text,
  the answer is what was streamed since the last message began, so that nothing of the earlier turns
  (\<open>I'll read the logs\<close>) is left in it; the reasoning is that of all turns; and an error is reported
  exactly when the result line is marked as one.
\<close>

lemma claude_answer_is_last_turn:
  assumes "cc_decode decode [l] = [r]" and "clType r = ''result''"
    and "list_all (\<lambda>l. clType l \<noteq> ''result'') (cc_decode decode pre)"
  shows "\<exists>writes. ccReadStream decode (pre @ [l]) rerr = (writes,
      \<lparr>crText = (if trim_space (clResult r) = '''' then trim_space (turn_text (cc_events (cc_decode decode pre)))
                else trim_space (clResult r)),
       crReasoning = trim_space (all_thinking (cc_events (cc_decode decode pre))), crTurns = clTurns r\<rparr>, True,
      if clIsError r \<or> has_prefix (clSubtype r) ''error'' then Some (cc_error_text r) else None)"
proof -
  obtain now line where l: "l = (now, line)" by (cases l)
  have "cc_decode decode [l] = (if trim_space line = '''' then [] else case decode line of Some d \<Rightarrow> [d] | None \<Rightarrow> [])"
    by (simp add: cc_decode_def l List.map_filter_simps split: option.splits)
  then have "cc_line decode x l = cc_result r x" for x
    using assms(1,2) by (auto simp: cc_line_def l split: if_splits option.splits)
  then have "foldl (cc_line decode) cc_empty (pre @ [l]) = cc_result r (foldl (cc_line decode) cc_empty pre)" by simp
  then show ?thesis
    using cc_fold_text [of decode pre] cc_fold_no_result [OF assms(3)]
    by (auto simp: ccReadStream_def Let_def cc_result_def split: option.splits)
qed

definition sample_line :: "string \<Rightarrow> string \<Rightarrow> ccLine" where
  "sample_line kind text = \<lparr>clType = kind, clSubtype = '''', clEvent = Some \<lparr>cvType = ''content_block_delta'',
     cvDelta = Some \<lparr>cdType = ''text_delta'', cdText = text, cdThinking = ''''\<rparr>\<rparr>,
     clIsError = False, clResult = '''', clErrors = [], clTurns = 1\<rparr>"

lemma claude_answer_is_last_turn_witness:
  "\<exists>writes. ccReadStream (\<lambda>s. Some (sample_line (if s = ''end'' then ''result'' else ''stream_event'') s)) ([(1, ''oom'')] @ [(2, ''end'')]) None =
     (writes, \<lparr>crText = ''oom'', crReasoning = '''', crTurns = 1\<rparr>, True, None)"
proof -
  let ?decode = "\<lambda>s. Some (sample_line (if s = ''end'' then ''result'' else ''stream_event'') s)"
  have end_line: "cc_decode ?decode [(2, ''end'')] = [sample_line ''result'' ''end'']" by code_simp
  have pre: "cc_decode ?decode [(1, ''oom'')] = [sample_line ''stream_event'' ''oom'']" by code_simp
  have vals: "trim_space (turn_text (cc_events [sample_line ''stream_event'' ''oom''])) = ''oom''"
    "trim_space (all_thinking (cc_events [sample_line ''stream_event'' ''oom''])) = ''''"
    "trim_space '''' = ''''" "has_prefix '''' ''error'' = False"
    by code_simp+
  from claude_answer_is_last_turn [OF end_line, of "[(1, ''oom'')]" None] pre show ?thesis
    by (simp add: vals sample_line_def [of "''result''"]) (simp add: sample_line_def)
qed

end
