(* ===== verification/MCP.thy ===== *)
theory MCP
  imports ClaudeCode
begin

text \<open>
  The tools of a root cause analysis for Claude Code (mcp.go): the run that counts the calls and the
  endpoint that serves it; and the run itself (\<open>runRCAClaude\<close> of claudecode.go). Calls may overlap: the
  count, the opening of the step and its closing are separate steps of a relation.
\<close>

section \<open>The tools offered\<close>

record rcaTool =
  toName :: string
  toDescription :: string
  toProperties :: "(string, string) gomap"
  toRequired :: "string list"

definition object_tool :: "string \<Rightarrow> string \<Rightarrow> string \<Rightarrow> string \<Rightarrow> string \<Rightarrow> rcaTool" where
  "object_tool tool desc ns kind name =
     \<lparr>toName = tool, toDescription = desc, toProperties = [(''namespace'', ns), (''kind'', kind), (''name'', name)],
      toRequired = [''namespace'', ''kind'', ''name'']\<rparr>"

definition rcaToolDefs :: "rcaTool list" where
  "rcaToolDefs =
     [\<lparr>toName = ''get_pod_logs'',
       toDescription = ''Fetch the last N lines of logs from a pod'' @ [CHR 0x27] @ ''s containers. '' @
         ''Use when a pod is crashing, restarting, or shows OOMKilled.'',
       toProperties = [(''namespace'', ''Kubernetes namespace''), (''pod_name'', ''Pod name'')],
       toRequired = [''namespace'', ''pod_name'']\<rparr>,
      object_tool ''get_object_describe''
        (''Get spec, status, and conditions of any Kubernetes object. '' @
         ''Use to check resource limits, image, node, replicas, and current conditions.'')
        ''Namespace (empty for cluster-scoped resources)'' ''Resource kind, e.g. Pod, Deployment, Node, Service'' ''Resource name'',
      object_tool ''get_object_events''
        (''Get cached Kubernetes events for a specific object. '' @
         ''Use to inspect a correlated object'' @ [CHR 0x27] @ ''s event history.'')
        ''Kubernetes namespace'' ''Resource kind'' ''Resource name'',
      object_tool ''get_correlated_events''
        (''Find events across ALL namespaces in the same time window as the anchor object. '' @
         ''Use when suspecting cluster-level issues.'')
        ''Namespace of the anchor object'' ''Kind of the anchor object'' ''Name of the anchor object'']"

definition mcpToolPrefix :: string where "mcpToolPrefix = ''mcp__kubehealth__''"

section \<open>A run and its calls\<close>

definition mcpRunawayCalls :: int where "mcpRunawayCalls = 3"

text \<open>
  A run: the calls so far, the budget, the state shown and whether \<open>cancel\<close> has been called; \<open>trWaiting\<close>
  are the numbers of calls that have been counted and have no step yet, \<open>trActive\<close> the numbers and steps of
  the tools that are running (these two are the goroutines of the requests).
\<close>

record rcaToolRun =
  trCalls :: int
  trMaxCalls :: int
  trShown :: RCAState
  trCancelled :: bool
  trWaiting :: "int list"
  trActive :: "(int \<times> nat) list"

definition new_tool_run :: "RCAState \<Rightarrow> rcaToolRun" where
  "new_tool_run st = \<lparr>trCalls = 0, trMaxCalls = rtMaxIter st, trShown = st, trCancelled = False, trWaiting = [], trActive = []\<rparr>"

definition runaway :: "rcaToolRun \<Rightarrow> bool" where
  "runaway r \<longleftrightarrow> trCalls r > trMaxCalls r + mcpRunawayCalls"

definition budget_used :: "int \<Rightarrow> string" where
  "budget_used limit = ''You have used all '' @ itoa limit @ '' investigation steps. Do not call more tools: give the final '' @
     ''Root Cause Analysis now, from the evidence you have.''"

text \<open>The start of \<open>call\<close>: the call is counted, and refused when it is past the budget.\<close>

definition count_call :: "rcaToolRun \<Rightarrow> int \<times> string option \<times> rcaToolRun" where
  "count_call r =
     (let n = trCalls r + 1; r1 = r\<lparr>trCalls := n\<rparr>
      in if n > trMaxCalls r
         then (n, Some (budget_used (trMaxCalls r)),
               if n > trMaxCalls r + mcpRunawayCalls then r1\<lparr>trCancelled := True\<rparr> else r1)
         else (n, None, r1\<lparr>trWaiting := trWaiting r @ [n]\<rparr>))"

text \<open>The arguments as text: a JSON string as it is, anything else as \<open>fmt.Sprint\<close> writes it.\<close>

datatype json_arg = JsonString string | JsonOther string

fun arg_text :: "json_arg \<Rightarrow> string" where
  "arg_text (JsonString s) = s"
| "arg_text (JsonOther shown) = shown"

definition args_of :: "(string, json_arg) gomap \<Rightarrow> (string, string) gomap" where
  "args_of raw = map (\<lambda>(k, v). (k, arg_text v)) raw"

text \<open>The step is opened, and closed when the tool has answered.\<close>

definition open_call :: "int \<Rightarrow> string \<Rightarrow> (string, json_arg) gomap \<Rightarrow> rcaToolRun \<Rightarrow> rcaToolRun" where
  "open_call n tool raw r =
     (case open_step n tool (rcaStepLabel tool (args_of raw)) ((trShown r)\<lparr>rtIteration := n\<rparr>) of
        (st, i) \<Rightarrow> r\<lparr>trShown := st, trWaiting := filter (\<lambda>m. m \<noteq> n) (trWaiting r), trActive := trActive r @ [(n, i)]\<rparr>)"

definition close_call :: "int \<Rightarrow> nat \<Rightarrow> rcaToolRun \<Rightarrow> rcaToolRun" where
  "close_call n i r =
     r\<lparr>trShown := (trShown r)\<lparr>rtSteps := (rtSteps (trShown r))[i := (rtSteps (trShown r) ! i)\<lparr>rsStatus := ''done''\<rparr>]\<rparr>,
       trActive := filter (\<lambda>a. a \<noteq> (n, i)) (trActive r)\<rparr>"

definition tool_answer :: "rca_world \<Rightarrow> ((string, string) gomap \<Rightarrow> string) \<Rightarrow> string \<Rightarrow> string \<Rightarrow> (string, json_arg) gomap \<Rightarrow> string" where
  "tool_answer w marshal ns tool raw =
     executeRCATool w ns \<lparr>tcId = '''', tcName = tool, tcArguments = marshal (args_of raw)\<rparr>"

text \<open>\<open>call\<close> on its own, with no other call under way.\<close>

definition call :: "rca_world \<Rightarrow> ((string, string) gomap \<Rightarrow> string) \<Rightarrow> string \<Rightarrow> string \<Rightarrow> (string, json_arg) gomap \<Rightarrow>
    rcaToolRun \<Rightarrow> string \<times> rcaToolRun" where
  "call w marshal ns tool raw r =
     (case count_call r of
        (_, Some refusal, r1) \<Rightarrow> (refusal, r1)
      | (n, None, r1) \<Rightarrow>
          (tool_answer w marshal ns tool raw,
           close_call n (length (rtSteps (trShown r1))) (open_call n tool raw r1)))"

section \<open>The endpoint\<close>

record mcpRequest =
  mqHasID :: bool
  mqMethod :: string
  mqParams :: string

datatype mcp_result =
    McpInitialized string
  | McpPong
  | McpTools "rcaTool list"
  | McpText string
  | McpError int string

text \<open>
  \<open>handle\<close>: \<open>version_of\<close> and \<open>params_of\<close> decode the parameters of the two methods that have some: the
  protocol version or nothing, and the tool's name and arguments.
\<close>

definition handle :: "(string \<Rightarrow> string) \<Rightarrow> (string \<Rightarrow> (string \<times> (string, json_arg) gomap) option) \<Rightarrow>
    (string \<Rightarrow> (string, json_arg) gomap \<Rightarrow> rcaToolRun \<Rightarrow> string \<times> rcaToolRun) \<Rightarrow> mcpRequest \<Rightarrow> rcaToolRun \<Rightarrow>
    mcp_result \<times> rcaToolRun" where
  "handle version_of params_of run_tool req r =
     (let m = mqMethod req in
      if m = ''initialize'' then
        (McpInitialized (if version_of (mqParams req) = '''' then ''2025-06-18'' else version_of (mqParams req)), r)
      else if m = ''ping'' then (McpPong, r)
      else if m = ''tools/list'' then (McpTools rcaToolDefs, r)
      else if m = ''tools/call'' then
        (case params_of (mqParams req) of
           None \<Rightarrow> (McpError (- 32602) ''expected a tool name and arguments'', r)
         | Some (name, raw) \<Rightarrow>
             if name = '''' then (McpError (- 32602) ''expected a tool name and arguments'', r)
             else (case run_tool name raw r of (answer, r') \<Rightarrow> (McpText answer, r')))
      else (McpError (- 32601) (''method not found: '' @ m), r))"

datatype mcp_reply = McpStatus nat | McpReply mcp_result

text \<open>
  \<open>handleMCPRCA\<close>: \<open>remote\<close> says whether the request's address parses and is this machine's, \<open>req\<close> is the
  decoded message, if it is one; \<open>run_tool\<close> is \<open>call\<close> for the run's cluster and namespace.
\<close>

definition handleMCPRCA :: "bool \<Rightarrow> string \<Rightarrow> string \<Rightarrow> mcpRequest option \<Rightarrow>
    (mcpRequest \<Rightarrow> rcaToolRun \<Rightarrow> mcp_result \<times> rcaToolRun) \<Rightarrow> (string, rcaToolRun) gomap \<Rightarrow>
    mcp_reply \<times> (string, rcaToolRun) gomap" where
  "handleMCPRCA remote path0 meth req serve runs =
     (let token = (if has_prefix path0 ''/mcp/rca/'' then drop 9 path0 else path0) in
      if \<not> remote then (McpStatus 403, runs)
      else case map_of runs token of
             None \<Rightarrow> (McpStatus 404, runs)
           | Some r \<Rightarrow>
               if meth = ''DELETE'' then (McpStatus 200, runs)
               else if meth \<noteq> ''POST'' then (McpStatus 405, runs)
               else case req of
                      None \<Rightarrow> (McpStatus 400, runs)
                    | Some q \<Rightarrow>
                        if \<not> mqHasID q then (McpStatus 202, runs)
                        else (case serve q r of (res, r') \<Rightarrow> (McpReply res, al_set token r' runs)))"

section \<open>A run with Claude Code\<close>

definition rca_request :: "aiBackend \<Rightarrow> string \<Rightarrow> string \<Rightarrow> string \<Rightarrow> string \<Rightarrow> ccRequest" where
  "rca_request b port token system prompt =
     \<lparr>cqSystem = system, cqPrompt = prompt, cqThinking = abThinking b,
      cqMCPURL = ''http://127.0.0.1:'' @ port @ ''/mcp/rca/'' @ token,
      cqTools = map (\<lambda>t. mcpToolPrefix @ toName t) rcaToolDefs\<rparr>"

text \<open>
  How \<open>runRCAClaude\<close> ends, from the run as the calls have left it and the outcome of \<open>ccRun\<close>; \<open>slot\<close>: as in
  \<open>streamLMStudio\<close>.
\<close>

definition runRCAClaude :: "(int \<times> int) option \<Rightarrow> rcaToolRun \<Rightarrow> ccResult \<times> string option \<Rightarrow> RCAState" where
  "runRCAClaude slot r outcome =
     (case slot of
        Some (active, limit) \<Rightarrow> run_failed (too_many active limit) (trShown r)
      | None \<Rightarrow>
          (case outcome of
             (_, Some err) \<Rightarrow>
               run_failed (if runaway r
                           then ''stopped: the model kept calling tools after its '' @ itoa (trMaxCalls r) @ '' steps were used up''
                           else err) (trShown r)
           | (res, None) \<Rightarrow> run_done (cleanLMResponse (crText res)) (trShown r)))"

section \<open>Overlapping calls\<close>

text \<open>
  The steps of the requests and of the run itself, whose end only changes what is shown as its result.
  A request that has found its run may still be counted after the run has ended.
\<close>

inductive mcp_step :: "rcaToolRun \<Rightarrow> rcaToolRun \<Rightarrow> bool" where
  counted: "count_call r = (n, refusal, r') \<Longrightarrow> mcp_step r r'"
| opened: "n \<in> set (trWaiting r) \<Longrightarrow> mcp_step r (open_call n tool raw r)"
| closed: "(n, i) \<in> set (trActive r) \<Longrightarrow> mcp_step r (close_call n i r)"
| finished: "mcp_step r (r\<lparr>trShown := run_done result (trShown r)\<rparr>)"
| failed: "mcp_step r (r\<lparr>trShown := run_failed err (trShown r)\<rparr>)"

text \<open>
  The invariant, over the steps \<open>new\<close> that the calls have added: each number up to the budget that has been
  counted is waiting or has one step, the running steps are those of the active calls, and the run is
  cancelled exactly when it is a runaway.
\<close>

definition running_calls :: "nat \<Rightarrow> RCAStep list \<Rightarrow> (int \<times> nat) set" where
  "running_calls k new = (\<lambda>i. (rsIter (new ! i), k + i)) ` {i. i < length new \<and> rsStatus (new ! i) = ''running''}"

definition calls_ok :: "nat \<Rightarrow> RCAStep list \<Rightarrow> rcaToolRun \<Rightarrow> bool" where
  "calls_ok k new r \<longleftrightarrow>
     distinct (trWaiting r @ map rsIter new) \<and>
     set (trWaiting r @ map rsIter new) = {1..min (trCalls r) (trMaxCalls r)} \<and>
     set (trActive r) = running_calls k new \<and>
     list_all (\<lambda>s. rsStatus s \<in> {''running'', ''done''}) new"

definition mcp_ok :: "RCAStep list \<Rightarrow> rcaToolRun \<Rightarrow> bool" where
  "mcp_ok start r \<longleftrightarrow>
     0 \<le> trCalls r \<and> 0 \<le> trMaxCalls r \<and> trCancelled r = runaway r \<and>
     (\<exists>new. rtSteps (trShown r) = start @ new \<and> calls_ok (length start) new r)"

lemma running_snoc:
  assumes "rsStatus s = ''running''"
  shows "running_calls k (new @ [s]) = insert (rsIter s, k + length new) (running_calls k new)"
proof -
  let ?old = "{i. i < length new \<and> rsStatus (new ! i) = ''running''}"
  have "{i. i < length (new @ [s]) \<and> rsStatus ((new @ [s]) ! i) = ''running''} = insert (length new) ?old"
    using assms by (auto simp: nth_append less_Suc_eq)
  moreover have "(\<lambda>i. (rsIter ((new @ [s]) ! i), k + i)) ` ?old = running_calls k new"
    unfolding running_calls_def by (rule image_cong) (auto simp: nth_append)
  ultimately show ?thesis unfolding running_calls_def by simp
qed

lemma running_done:
  assumes "j < length new"
  shows "running_calls k (new[j := (new ! j)\<lparr>rsStatus := ''done''\<rparr>]) = running_calls k new - {(rsIter (new ! j), k + j)}"
  using assms unfolding running_calls_def by (auto simp: nth_list_update split: if_splits)

lemma count_call_ok:
  assumes "count_call r = (n, refusal, r')" and "mcp_ok start r"
  shows "mcp_ok start r'"
proof -
  obtain new where new: "rtSteps (trShown r) = start @ new" "calls_ok (length start) new r"
    using assms(2) by (auto simp: mcp_ok_def)
  have pos: "0 \<le> trCalls r" "0 \<le> trMaxCalls r" "trCancelled r = runaway r" using assms(2) by (simp_all add: mcp_ok_def)
  show ?thesis
  proof (cases "trCalls r + 1 > trMaxCalls r")
    case True
    then have r': "r' = r\<lparr>trCalls := trCalls r + 1, trCancelled := trCalls r + 1 > trMaxCalls r + mcpRunawayCalls \<or> trCancelled r\<rparr>"
      using assms(1) by (auto simp: count_call_def Let_def)
    have "min (trCalls r + 1) (trMaxCalls r) = min (trCalls r) (trMaxCalls r)" using True by linarith
    then have "calls_ok (length start) new r'" using new(2) by (simp add: calls_ok_def r')
    then show ?thesis using new(1) pos by (auto simp: mcp_ok_def r' runaway_def)
  next
    case False
    then have r': "r' = r\<lparr>trCalls := trCalls r + 1, trWaiting := trWaiting r @ [trCalls r + 1]\<rparr>"
      using assms(1) by (auto simp: count_call_def Let_def)
    have m: "min (trCalls r) (trMaxCalls r) = trCalls r" "min (trCalls r + 1) (trMaxCalls r) = trCalls r + 1" using False by linarith+
    note ok = new(2) [unfolded calls_ok_def m(1)]
    then have "trCalls r + 1 \<notin> set (trWaiting r @ map rsIter new)" by simp
    then have "distinct (trWaiting r' @ map rsIter new)" using ok by (simp add: r')
    moreover have "set (trWaiting r' @ map rsIter new) = insert (trCalls r + 1) (set (trWaiting r @ map rsIter new))"
      by (simp add: r')
    moreover have "\<dots> = {1..trCalls r + 1}" using ok pos(1) by auto
    ultimately have "calls_ok (length start) new r'" using ok m(2) by (simp add: calls_ok_def r')
    then show ?thesis using new(1) pos False by (auto simp: mcp_ok_def r' runaway_def mcpRunawayCalls_def)
  qed
qed

lemma open_call_ok:
  assumes "n \<in> set (trWaiting r)" and "mcp_ok start r"
  shows "mcp_ok start (open_call n tool raw r)"
proof -
  obtain new where new: "rtSteps (trShown r) = start @ new" "calls_ok (length start) new r"
    using assms(2) by (auto simp: mcp_ok_def)
  let ?s = "\<lparr>rsIter = n, rsTool = tool, rsLabel = rcaStepLabel tool (args_of raw), rsStatus = ''running'', rsInitial = False\<rparr>"
  let ?r = "open_call n tool raw r"
  have fields: "rtSteps (trShown ?r) = start @ new @ [?s]" "trCalls ?r = trCalls r" "trMaxCalls ?r = trMaxCalls r"
      "trCancelled ?r = trCancelled r" "trWaiting ?r = filter (\<lambda>m. m \<noteq> n) (trWaiting r)"
      "trActive ?r = trActive r @ [(n, length start + length new)]"
    using new(1) by (simp_all add: open_call_def open_step_def)
  have sets: "set (trWaiting ?r @ map rsIter (new @ [?s])) = set (trWaiting r @ map rsIter new)"
    using assms(1) by (auto simp: fields)
  note ok = new(2) [unfolded calls_ok_def]
  have "distinct (trWaiting r @ map rsIter new)" using ok by (elim conjE)
  then have "distinct (trWaiting ?r @ map rsIter (new @ [?s]))" using assms(1) unfolding fields by auto
  moreover have "set (trActive ?r) = running_calls (length start) (new @ [?s])"
    using ok running_snoc [of ?s "length start" new] by (simp add: fields)
  moreover have "list_all (\<lambda>s. rsStatus s \<in> {''running'', ''done''}) (new @ [?s])" using ok by simp
  ultimately have "calls_ok (length start) (new @ [?s]) ?r"
    using ok sets unfolding calls_ok_def fields by simp
  then show ?thesis using assms(2) fields unfolding mcp_ok_def runaway_def by auto
qed

lemma close_call_ok:
  assumes "(n, i) \<in> set (trActive r)" and "mcp_ok start r"
  shows "mcp_ok start (close_call n i r)"
proof -
  obtain new where new: "rtSteps (trShown r) = start @ new" "calls_ok (length start) new r"
    using assms(2) by (auto simp: mcp_ok_def)
  obtain j where j: "i = length start + j" "j < length new" "n = rsIter (new ! j)" "rsStatus (new ! j) = ''running''"
    using new(2) assms(1) by (auto simp: calls_ok_def running_calls_def)
  let ?new = "new[j := (new ! j)\<lparr>rsStatus := ''done''\<rparr>]" and ?r = "close_call n i r"
  have fields: "rtSteps (trShown ?r) = start @ ?new" "trCalls ?r = trCalls r" "trMaxCalls ?r = trMaxCalls r"
      "trCancelled ?r = trCancelled r" "trWaiting ?r = trWaiting r" "trActive ?r = filter (\<lambda>a. a \<noteq> (n, i)) (trActive r)"
    using new(1) j by (simp_all add: close_call_def list_update_append)
  have iters: "map rsIter ?new = map rsIter new" using j by (simp add: map_update list_update_same_conv)
  have "running_calls (length start) ?new = running_calls (length start) new - {(n, i)}" using running_done [OF j(2)] j by simp
  moreover have "list_all (\<lambda>s. rsStatus s \<in> {''running'', ''done''}) ?new"
    using new(2) j by (auto simp: calls_ok_def list_all_iff dest!: set_update_subset_insert [THEN subsetD])
  ultimately have "calls_ok (length start) ?new ?r"
    using new(2) unfolding calls_ok_def iters fields by auto
  then show ?thesis using assms(2) fields unfolding mcp_ok_def runaway_def by auto
qed

lemma mcp_step_ok: "mcp_step r r' \<Longrightarrow> mcp_ok start r \<Longrightarrow> mcp_ok start r'"
proof (induction rule: mcp_step.induct)
  case (finished r result)
  then show ?case by (auto simp: mcp_ok_def calls_ok_def runaway_def)
next
  case (failed r err)
  then show ?case by (auto simp: mcp_ok_def calls_ok_def runaway_def)
qed (fact count_call_ok open_call_ok close_call_ok)+

lemma count_path:
  assumes "mcp_step\<^sup>*\<^sup>* a r"
  shows "mcp_step\<^sup>*\<^sup>* a (snd (snd (count_call r)))"
proof -
  obtain n refusal r' where c: "count_call r = (n, refusal, r')" by (cases "count_call r")
  have "mcp_step\<^sup>*\<^sup>* a r'" by (rule rtranclp.rtrancl_into_rtrancl [OF assms mcp_step.counted [OF c]])
  then show ?thesis by (simp add: c)
qed

lemma new_tool_run_ok: "0 \<le> rtMaxIter st \<Longrightarrow> mcp_ok (rtSteps st) (new_tool_run st)"
  by (simp add: mcp_ok_def new_tool_run_def runaway_def mcpRunawayCalls_def calls_ok_def running_calls_def)

lemma mcp_reachable_ok:
  assumes "mcp_step\<^sup>*\<^sup>* (new_tool_run st) r" and "0 \<le> rtMaxIter st"
  shows "mcp_ok (rtSteps st) r"
  using assms(1) by (induction rule: rtranclp_induct) (auto intro: mcp_step_ok new_tool_run_ok [OF assms(2)])

section \<open>The budget of a run\<close>

text \<open>
  What a run promises, apart from its trail: a number of calls it grants, then refusals, and after three
  of them it is stopped.
\<close>

record budget =
  bgLeft :: int
  bgRefused :: int
  bgStopped :: bool

inductive budget_step :: "budget \<Rightarrow> budget \<Rightarrow> bool" where
  grant: "bgLeft b > 0 \<Longrightarrow> budget_step b (b\<lparr>bgLeft := bgLeft b - 1\<rparr>)"
| refuse: "bgLeft b = 0 \<Longrightarrow>
    budget_step b (b\<lparr>bgRefused := bgRefused b + 1, bgStopped := bgRefused b + 1 > mcpRunawayCalls\<rparr>)"

definition budget_of :: "rcaToolRun \<Rightarrow> budget" where
  "budget_of r = \<lparr>bgLeft = trMaxCalls r - min (trCalls r) (trMaxCalls r),
     bgRefused = trCalls r - min (trCalls r) (trMaxCalls r), bgStopped = trCancelled r\<rparr>"

text \<open>Each step of a run is a step of its budget or none: counting a call, and only that, uses it.\<close>

lemma count_call_budget:
  assumes "count_call r = (n, refusal, r')" and "mcp_ok start r"
  shows "budget_step (budget_of r) (budget_of r')" and "refusal = None \<longleftrightarrow> bgLeft (budget_of r) > 0"
proof -
  have pos: "0 \<le> trCalls r" "0 \<le> trMaxCalls r" "trCancelled r = (trCalls r > trMaxCalls r + mcpRunawayCalls)"
    using assms(2) by (simp_all add: mcp_ok_def runaway_def)
  show "refusal = None \<longleftrightarrow> bgLeft (budget_of r) > 0"
    using assms(1) by (auto simp: count_call_def budget_of_def Let_def split: if_splits)
  show "budget_step (budget_of r) (budget_of r')"
  proof (cases "trCalls r + 1 > trMaxCalls r")
    case True
    then have "budget_of r' = (budget_of r)\<lparr>bgRefused := bgRefused (budget_of r) + 1,
        bgStopped := bgRefused (budget_of r) + 1 > mcpRunawayCalls\<rparr>"
      using assms(1) pos by (auto simp: count_call_def budget_of_def Let_def mcpRunawayCalls_def split: if_splits)
    moreover have "bgLeft (budget_of r) = 0" using True by (simp add: budget_of_def)
    ultimately show ?thesis using budget_step.refuse by metis
  next
    case False
    then have "budget_of r' = (budget_of r)\<lparr>bgLeft := bgLeft (budget_of r) - 1\<rparr>"
      using assms(1) by (auto simp: count_call_def budget_of_def Let_def split: if_splits)
    moreover have "bgLeft (budget_of r) > 0" using False by (simp add: budget_of_def)
    ultimately show ?thesis using budget_step.grant by metis
  qed
qed

lemma other_steps_budget [simp]:
  "budget_of (open_call m tool raw r) = budget_of r" "budget_of (close_call m i r) = budget_of r"
  "budget_of (r\<lparr>trShown := st\<rparr>) = budget_of r"
  by (simp_all add: budget_of_def open_call_def close_call_def split: prod.splits)

lemma mcp_step_budget:
  assumes "mcp_step r r'" and "mcp_ok start r"
  shows "budget_step\<^sup>=\<^sup>= (budget_of r) (budget_of r')"
  using assms by cases (auto dest: count_call_budget(1))

lemma waiting_and_steps:
  assumes "mcp_ok start r"
  shows "int (length (rtSteps (trShown r))) + int (length (trWaiting r)) =
    int (length start) + (trMaxCalls r - bgLeft (budget_of r))"
proof -
  obtain new where new: "rtSteps (trShown r) = start @ new" "calls_ok (length start) new r"
    using assms by (auto simp: mcp_ok_def)
  note ok = new(2) [unfolded calls_ok_def]
  have "length (trWaiting r @ map rsIter new) = card {1..min (trCalls r) (trMaxCalls r)}"
    using ok distinct_card by metis
  also have "\<dots> = nat (min (trCalls r) (trMaxCalls r))" by simp
  finally have "int (length (trWaiting r)) + int (length new) = min (trCalls r) (trMaxCalls r)"
    using assms by (simp add: mcp_ok_def min_def split: if_splits)
  then show ?thesis using new(1) by (simp add: budget_of_def)
qed

section \<open>Properties\<close>

text \<open>
  C22: a run of Claude Code refines its budget: however its calls overlap, each counted call takes one from
  the budget or, when it is used up, is refused, and the run is stopped at the fourth refusal; the steps
  of the trail and the calls waiting for one are exactly the calls granted.
\<close>

theorem mcp_run_refines_budget:
  assumes "mcp_step\<^sup>*\<^sup>* (new_tool_run st) r" and "0 \<le> rtMaxIter st"
  shows "budget_step\<^sup>*\<^sup>* \<lparr>bgLeft = rtMaxIter st, bgRefused = 0, bgStopped = False\<rparr> (budget_of r) \<and>
    0 \<le> bgLeft (budget_of r) \<and>
    int (length (rtSteps (trShown r))) + int (length (trWaiting r)) =
      int (length (rtSteps st)) + (rtMaxIter st - bgLeft (budget_of r))"
proof -
  have "budget_of (new_tool_run st) = \<lparr>bgLeft = rtMaxIter st, bgRefused = 0, bgStopped = False\<rparr>"
    using assms(2) by (simp add: budget_of_def new_tool_run_def)
  moreover have "budget_step\<^sup>*\<^sup>* (budget_of (new_tool_run st)) (budget_of r) \<and> trMaxCalls r = rtMaxIter st"
    using assms(1)
  proof (induction rule: rtranclp_induct)
    case base
    then show ?case by (simp add: new_tool_run_def)
  next
    case (step r r')
    have "budget_step\<^sup>=\<^sup>= (budget_of r) (budget_of r')"
      by (rule mcp_step_budget [OF step(2) mcp_reachable_ok [OF step(1) assms(2)]])
    moreover have "trMaxCalls r' = trMaxCalls r"
      using step(2) by cases (auto simp: count_call_def open_call_def close_call_def Let_def split: if_splits prod.splits)
    ultimately show ?case using step.IH by auto
  qed
  moreover have "0 \<le> bgLeft (budget_of r)" by (simp add: budget_of_def)
  ultimately show ?thesis using waiting_and_steps [OF mcp_reachable_ok [OF assms]] by simp
qed

text \<open>
  One run with a budget of one: its call is granted, the next four are refused, and the fifth stops it.
\<close>

definition spent_run :: rcaToolRun where
  "spent_run = (let again = (\<lambda>r. snd (snd (count_call r))) in again (again (again (again (again (new_tool_run (new_state 1)))))))"

lemma spent_run_path: "mcp_step\<^sup>*\<^sup>* (new_tool_run (new_state 1)) spent_run"
  unfolding spent_run_def Let_def by (intro count_path rtranclp.rtrancl_refl)

theorem mcp_run_refines_budget_witness:
  "budget_step\<^sup>*\<^sup>* \<lparr>bgLeft = 1, bgRefused = 0, bgStopped = False\<rparr> (budget_of spent_run) \<and> bgStopped (budget_of spent_run)"
proof -
  note path = spent_run_path
  from mcp_run_refines_budget [OF path] have "budget_step\<^sup>*\<^sup>* \<lparr>bgLeft = 1, bgRefused = 0, bgStopped = False\<rparr> (budget_of spent_run)"
    by (simp add: new_state_def)
  moreover have "bgStopped (budget_of spent_run)"
    by (simp add: spent_run_def count_call_def new_tool_run_def new_state_def budget_of_def mcpRunawayCalls_def)
  ultimately show ?thesis by blast
qed

text \<open>
  C23: the trail of a run of Claude Code is sound however its calls overlap: the calls add at most as many
  steps as the budget allows, each with a number of its own within it; a step is running exactly while its
  tool is, so that none is left running when no call is under way; and the run has been cancelled exactly
  when it is a runaway.
\<close>

theorem mcp_trail_sound:
  assumes "mcp_step\<^sup>*\<^sup>* (new_tool_run st) r" and "0 \<le> rtMaxIter st"
  shows "\<exists>new. rtSteps (trShown r) = rtSteps st @ new \<and> int (length new) \<le> rtMaxIter st \<and>
      distinct (map rsIter new) \<and> list_all (\<lambda>s. 1 \<le> rsIter s \<and> rsIter s \<le> rtMaxIter st) new \<and>
      set (trActive r) = running_calls (length (rtSteps st)) new \<and>
      (trActive r = [] \<longrightarrow> list_all (\<lambda>s. rsStatus s = ''done'') new) \<and>
      trCancelled r = runaway r"
proof -
  have ok: "mcp_ok (rtSteps st) r" by (rule mcp_reachable_ok [OF assms])
  have limit: "trMaxCalls r = rtMaxIter st"
    using assms(1)
  proof (induction rule: rtranclp_induct)
    case (step r r')
    from step(2,3) show ?case
      by cases (auto simp: count_call_def open_call_def close_call_def Let_def split: if_splits prod.splits)
  qed (simp add: new_tool_run_def)
  obtain new where new: "rtSteps (trShown r) = rtSteps st @ new" "calls_ok (length (rtSteps st)) new r"
    using ok by (auto simp: mcp_ok_def)
  note calls = new(2) [unfolded calls_ok_def]
  have "int (length new) \<le> rtMaxIter st"
    using waiting_and_steps [OF ok] new(1) limit by (simp add: budget_of_def)
  moreover have "list_all (\<lambda>s. 1 \<le> rsIter s \<and> rsIter s \<le> rtMaxIter st) new"
    using calls limit by (auto simp: list_all_iff)
  moreover have "list_all (\<lambda>s. rsStatus s = ''done'') new" if "trActive r = []"
  proof -
    have "rsStatus (new ! i) \<noteq> ''running''" if "i < length new" for i
      using calls \<open>trActive r = []\<close> that by (auto simp: running_calls_def)
    then show ?thesis using calls by (auto simp: list_all_length)
  qed
  ultimately show ?thesis using new(1) calls ok by (auto simp: mcp_ok_def)
qed

theorem mcp_trail_sound_witness:
  "\<exists>new. rtSteps (trShown spent_run) = new \<and> int (length new) \<le> 1 \<and> trCancelled spent_run = runaway spent_run"
proof -
  note path = spent_run_path
  from mcp_trail_sound [OF path] show ?thesis by (auto simp: new_state_def)
qed

text \<open>
  a call through the endpoint does what a call of the local model does: when the tool's arguments
  survive being written and read as JSON, one call within the budget gives the same answer and adds the
  same step to the trail as \<open>runRCAAgent\<close> would.
\<close>

lemma mcp_call_like_local:
  assumes "rwParse w (marshal (args_of raw)) = (args_of raw, None)" and "trCalls r < trMaxCalls r"
  shows "\<exists>r'. call w marshal ns tool raw r = (tool_answer w marshal ns tool raw, r') \<and>
    (\<exists>est. (trShown r', [ToolMsg '''' (tool_answer w marshal ns tool raw)], est) =
      tool_step w ns (trCalls r + 1) ((trShown r)\<lparr>rtIteration := trCalls r + 1\<rparr>, [], 0)
        \<lparr>tcId = '''', tcName = tool, tcArguments = marshal (args_of raw)\<rparr>)"
proof -
  let ?n = "trCalls r + 1"
  let ?r1 = "r\<lparr>trCalls := ?n, trWaiting := trWaiting r @ [?n]\<rparr>"
  have "count_call r = (?n, None, ?r1)" using assms(2) by (simp add: count_call_def Let_def)
  then have "call w marshal ns tool raw r =
      (tool_answer w marshal ns tool raw, close_call ?n (length (rtSteps (trShown r))) (open_call ?n tool raw ?r1))"
    by (simp add: call_def)
  moreover have "\<exists>est. (trShown (close_call ?n (length (rtSteps (trShown r))) (open_call ?n tool raw ?r1)),
        [ToolMsg '''' (tool_answer w marshal ns tool raw)], est) =
      tool_step w ns ?n ((trShown r)\<lparr>rtIteration := ?n\<rparr>, [], 0)
        \<lparr>tcId = '''', tcName = tool, tcArguments = marshal (args_of raw)\<rparr>"
    unfolding tool_step_def close_call_def open_call_def open_step_def close_step_def tool_answer_def Let_def prod.case
    by (simp add: assms(1) nth_append)
  ultimately show ?thesis by blast
qed

lemma mcp_call_like_local_witness:
  "\<exists>r'. call sample_world (\<lambda>args. al_get '''' args ''pod_name'') ''shop'' ''get_pod_logs'' [(''pod_name'', JsonString ''web'')] (new_tool_run (new_state 2)) =
    (tool_answer sample_world (\<lambda>args. al_get '''' args ''pod_name'') ''shop'' ''get_pod_logs'' [(''pod_name'', JsonString ''web'')], r') \<and>
    map rsStatus (rtSteps (trShown r')) = [''done'']"
proof -
  let ?marshal = "\<lambda>args. al_get '''' args ''pod_name''" and ?raw = "[(''pod_name'', JsonString ''web'')]"
  have parse: "rwParse sample_world (?marshal (args_of ?raw)) = (args_of ?raw, None)"
    by (simp add: sample_world_def args_of_def al_get_def)
  have "trCalls (new_tool_run (new_state 2)) < trMaxCalls (new_tool_run (new_state 2))" by (simp add: new_tool_run_def new_state_def)
  from mcp_call_like_local [where w = sample_world and marshal = ?marshal and raw = ?raw, OF parse this, of "''shop''" "''get_pod_logs''"] show ?thesis
    by (auto simp: tool_step_def open_step_def close_step_def new_tool_run_def new_state_def Let_def)
qed

end
