(* ===== verification/AIConfig.thy ===== *)
theory AIConfig
  imports ClaudeCode
begin

text \<open>
  The dialog of the AI agent (ai_config.go): the system prompt and the endpoint that changes it with the
  backend's settings. What it shows on GET is \<open>fetchLMModelInfo\<close> and the settings; encoding is left out.
\<close>

definition defaultSystemPrompt :: string where
  "defaultSystemPrompt = ''You are a Kubernetes SRE expert. Analyze the provided Kubernetes events and logs. '' @
     ''Identify issues, explain root causes, and provide specific actionable recommendations. Be concise and technical.''"

definition initSystemPrompt :: "string \<Rightarrow> string" where
  "initSystemPrompt env = (if env = '''' then defaultSystemPrompt else env)"

record ai_settings =
  asPrompt :: string
  asBackend :: backend_state

text \<open>The fields of a request; an absent one changes nothing.\<close>

record ai_change =
  acSystemPrompt :: "string option"
  acEmbeddedCtxSize :: "int option"
  acBackend :: "string option"
  acClaudeModel :: "string option"
  acClaudeThinking :: "string option"

datatype config_reply = ConfigOk | ConfigError nat string

text \<open>
  What the request meets: whether the tool is missing, whether the preferences can be saved, and in the
  embedded build the restart of the bundled server with a new context size.
\<close>

record config_world =
  cfAbsent :: "string option"
  cfSaved :: "string option"
  cfRestart :: "(int \<Rightarrow> string option) option"

text \<open>A field that is present is set; an error ends the request there.\<close>

definition set_field :: "string option \<Rightarrow> (string \<Rightarrow> backend_state \<Rightarrow> backend_state \<times> string option) \<Rightarrow>
    ai_settings \<times> config_reply option \<Rightarrow> ai_settings \<times> config_reply option" where
  "set_field field setter r =
     (case (r, field) of
        ((s, None), Some v) \<Rightarrow>
          (case setter v (asBackend s) of
             (b, err) \<Rightarrow> (s\<lparr>asBackend := b\<rparr>, map_option (ConfigError 400) err))
      | _ \<Rightarrow> r)"

definition set_ctx :: "config_world \<Rightarrow> int option \<Rightarrow> ai_settings \<times> config_reply option \<Rightarrow> ai_settings \<times> config_reply option" where
  "set_ctx w field r =
     (case (r, field) of
        ((s, None), Some n) \<Rightarrow>
          (case cfRestart w of
             None \<Rightarrow> (s, Some (ConfigError 400 ''context size is only configurable in the embedded build''))
           | Some restart \<Rightarrow> (s, map_option (\<lambda>err. ConfigError 500 (''restart failed: '' @ err)) (restart n)))
      | _ \<Rightarrow> r)"

text \<open>The POST branch of \<open>handleAPIAIConfig\<close>; \<open>None\<close> is a body that is not JSON.\<close>

definition handleAPIAIConfig :: "config_world \<Rightarrow> ai_change option \<Rightarrow> ai_settings \<Rightarrow> ai_settings \<times> config_reply" where
  "handleAPIAIConfig w body s =
     (case body of
        None \<Rightarrow> (s, ConfigError 400 ''invalid json'')
      | Some c \<Rightarrow>
          (let s1 = (case acSystemPrompt c of Some p \<Rightarrow> s\<lparr>asPrompt := p\<rparr> | None \<Rightarrow> s);
               r2 = set_field (acClaudeModel c) (setClaudeModel (cfSaved w)) (s1, None);
               r3 = set_field (acClaudeThinking c) (setClaudeThinking (cfSaved w)) r2;
               r4 = set_field (acBackend c) (setAIBackend (cfAbsent w) (cfSaved w)) r3
           in case set_ctx w (acEmbeddedCtxSize c) r4 of
                (s', Some reply) \<Rightarrow> (s', reply)
              | (s', None) \<Rightarrow> (s', ConfigOk)))"

section \<open>What a request can do\<close>

lemma set_field_ok:
  assumes "\<And>v b b' err. setter v b = (b', err) \<Longrightarrow> backend_ok (fst b) \<Longrightarrow> backend_ok (fst b')"
    and "backend_ok (fst (asBackend (fst r)))"
  shows "backend_ok (fst (asBackend (fst (set_field field setter r))))"
  using assms by (cases r; cases "snd r"; cases field) (auto simp: set_field_def split: prod.splits)

text \<open>No request makes the backend's settings leave the choices.\<close>

lemma handleAPIAIConfig_ok:
  assumes "backend_ok (fst (asBackend s))"
  shows "backend_ok (fst (asBackend (fst (handleAPIAIConfig w body s))))"
proof -
  note setters = backend_step_ok [OF set_backend] backend_step_ok [OF set_model] backend_step_ok [OF set_thinking]
  have ctx: "fst (set_ctx w field r) = fst r" for field r
    by (cases r; cases "snd r"; cases field) (auto simp: set_ctx_def split: option.splits)
  have chain: "backend_ok (fst (asBackend (fst (set_field (acBackend c) (setAIBackend (cfAbsent w) (cfSaved w))
      (set_field (acClaudeThinking c) (setClaudeThinking (cfSaved w))
        (set_field (acClaudeModel c) (setClaudeModel (cfSaved w)) (s1, None)))))))"
    if "backend_ok (fst (asBackend s1))" for c s1
    by (intro set_field_ok) (use that setters in \<open>auto\<close>)
  have prompt: "backend_ok (fst (asBackend (case acSystemPrompt c of Some p \<Rightarrow> s\<lparr>asPrompt := p\<rparr> | None \<Rightarrow> s)))" for c
    using assms by (simp split: option.split)
  have reply: "fst (case set_ctx w field r of (s', Some reply) \<Rightarrow> (s', reply) | (s', None) \<Rightarrow> (s', ConfigOk)) = fst r" for field r
    using ctx [of field r] by (cases "set_ctx w field r") (auto split: option.splits)
  show ?thesis
  proof (cases body)
    case (Some c)
    show ?thesis unfolding handleAPIAIConfig_def Some option.case Let_def reply by (rule chain [OF prompt])
  qed (simp add: handleAPIAIConfig_def assms)
qed

text \<open>A request that is refused has been applied in part: the fields before the refused one stay.\<close>

lemma refused_request_applies_in_part:
  "handleAPIAIConfig \<lparr>cfAbsent = None, cfSaved = None, cfRestart = None\<rparr>
     (Some \<lparr>acSystemPrompt = Some ''x'', acEmbeddedCtxSize = None, acBackend = Some ''gpt'', acClaudeModel = Some ''opus'',
        acClaudeThinking = None\<rparr>)
     \<lparr>asPrompt = ''y'', asBackend = (default_backend, \<lparr>apBackend = '''', apModel = None, apThinking = ''''\<rparr>)\<rparr> =
   (\<lparr>asPrompt = ''x'', asBackend = (default_backend\<lparr>abModel := ''opus''\<rparr>, \<lparr>apBackend = '''', apModel = Some ''opus'', apThinking = ''''\<rparr>)\<rparr>,
    ConfigError 400 (''unknown AI backend '' @ go_quote ''gpt'' @ '' (want local or claude-code)''))"
  by code_simp

end
