(* ===== verification/Snapshot.thy ===== *)
theory Snapshot
  imports Analysis "HOL-Library.Word"
begin

text \<open>
  The snapshot of a namespace (snapshot.go): what is running now, counted, and the things that need a
  look, at most fifteen of them with the critical ones first. The lists of the API server are arguments.
\<close>

section \<open>The data\<close>

definition snapshotTTL :: duration where "snapshotTTL = 30 * second"
definition snapshotPendingOK :: duration where "snapshotPendingOK = 5 * minute"
definition snapshotMaxItems :: nat where "snapshotMaxItems = 15"

record readyCount =
  rcReady :: int
  rcTotal :: int

record AttentionItem =
  aiKind :: string
  aiName :: string
  aiText :: string
  aiSeverity :: string

record cronJobCounts =
  ccTotal :: int
  ccSuspended :: int
  ccFailing :: int

record jobCounts =
  jcActive :: int
  jcFailed :: int

record podCounts =
  pcTotal :: int
  pcRunning :: int
  pcPending :: int
  pcFailed :: int
  pcSucceeded :: int
  pcNotReady :: int
  pcRestarts :: "32 word"

record pvcCounts =
  vcTotal :: int
  vcBound :: int
  vcPending :: int

record pvCounts =
  vpTotal :: int
  vpBound :: int
  vpFailed :: int

record NSSnapshot =
  nsNamespace :: string
  nsAgeSec :: int
  nsDeployments :: readyCount
  nsStatefulSets :: readyCount
  nsDaemonSets :: readyCount
  nsCronJobs :: cronJobCounts
  nsJobs :: jobCounts
  nsPods :: podCounts
  nsPVCs :: pvcCounts
  nsNodes :: "readyCount option"
  nsPVs :: "pvCounts option"
  nsAttention :: "AttentionItem list"
  nsMore :: nat
  nsErrors :: "string list"
  nsFetchedAt :: time

definition new_snapshot :: "string \<Rightarrow> time \<Rightarrow> NSSnapshot" where
  "new_snapshot ns now =
     (let none = \<lparr>rcReady = 0, rcTotal = 0\<rparr> in
      \<lparr>nsNamespace = ns, nsAgeSec = 0, nsDeployments = none, nsStatefulSets = none, nsDaemonSets = none,
       nsCronJobs = \<lparr>ccTotal = 0, ccSuspended = 0, ccFailing = 0\<rparr>, nsJobs = \<lparr>jcActive = 0, jcFailed = 0\<rparr>,
       nsPods = \<lparr>pcTotal = 0, pcRunning = 0, pcPending = 0, pcFailed = 0, pcSucceeded = 0, pcNotReady = 0, pcRestarts = 0\<rparr>,
       nsPVCs = \<lparr>vcTotal = 0, vcBound = 0, vcPending = 0\<rparr>, nsNodes = None, nsPVs = None,
       nsAttention = [], nsMore = 0, nsErrors = [], nsFetchedAt = now\<rparr>)"

text \<open>What is read of the lists: more of a Pod, a CronJob, a Job, and names with phases.\<close>

record snap_pod = k_pod +
  spReason :: string
  spCreated :: time

record k_cronjob =
  kjName :: string
  kjSuspend :: "bool option"
  kjLast :: "time option"
  kjSuccess :: "time option"

record k_job =
  jbActive :: int
  jbConditions :: "(string \<times> string) list"

type_synonym 'a api_list = "string + 'a list"

record snapshot_api =
  saDeployments :: "k_workload api_list"
  saStatefulSets :: "k_workload api_list"
  saDaemonSets :: "k_workload api_list"
  saCronJobs :: "k_cronjob api_list"
  saJobs :: "k_job api_list"
  saPods :: "snap_pod api_list"
  saClaims :: "(string \<times> string) api_list"
  saNodes :: "k_node api_list"
  saVolumes :: "(string \<times> string) api_list"

section \<open>Workloads\<close>

definition attend :: "string \<Rightarrow> string \<Rightarrow> string \<Rightarrow> string \<Rightarrow> NSSnapshot \<Rightarrow> NSSnapshot" where
  "attend kind name sev txt s =
     s\<lparr>nsAttention := nsAttention s @ [\<lparr>aiKind = kind, aiName = name, aiText = txt, aiSeverity = sev\<rparr>]\<rparr>"

definition failed :: "string \<Rightarrow> string \<Rightarrow> NSSnapshot \<Rightarrow> NSSnapshot" where
  "failed what err s = s\<lparr>nsErrors := nsErrors s @ [what @ '': '' @ err]\<rparr>"

text \<open>A list that could not be read is an error; the items of one that could are gone through in order.\<close>

definition each_item :: "string \<Rightarrow> (NSSnapshot \<Rightarrow> 'a \<Rightarrow> NSSnapshot) \<Rightarrow> 'a api_list \<Rightarrow> NSSnapshot \<Rightarrow> NSSnapshot" where
  "each_item what step answer s = (case answer of Inl err \<Rightarrow> failed what err s | Inr items \<Rightarrow> foldl step s items)"

definition count_ready :: "bool \<Rightarrow> readyCount \<Rightarrow> readyCount" where
  "count_ready ok c = \<lparr>rcReady = rcReady c + (if ok then 1 else 0), rcTotal = rcTotal c + 1\<rparr>"

definition wanted :: "k_workload \<Rightarrow> int" where
  "wanted w = (case kwReplicas w of Some n \<Rightarrow> n | None \<Rightarrow> 1)"

definition attend_replicas :: "string \<Rightarrow> k_workload \<Rightarrow> NSSnapshot \<Rightarrow> NSSnapshot" where
  "attend_replicas kind w s =
     (if kwReady w \<ge> wanted w then s
      else attend kind (kwName w) (if kwReady w = 0 then ''crit'' else ''warn'')
             (itoa (kwReady w) @ '' of '' @ itoa (wanted w) @ '' replicas ready'') s)"

definition deployment_step :: "NSSnapshot \<Rightarrow> k_workload \<Rightarrow> NSSnapshot" where
  "deployment_step s w =
     attend_replicas ''Deployment'' w (s\<lparr>nsDeployments := count_ready (kwReady w \<ge> wanted w) (nsDeployments s)\<rparr>)"

definition stateful_step :: "NSSnapshot \<Rightarrow> k_workload \<Rightarrow> NSSnapshot" where
  "stateful_step s w =
     attend_replicas ''StatefulSet'' w (s\<lparr>nsStatefulSets := count_ready (kwReady w \<ge> wanted w) (nsStatefulSets s)\<rparr>)"

text \<open>Of a DaemonSet \<open>kwReplicas\<close> is the number of nodes it should run on.\<close>

definition daemon_step :: "NSSnapshot \<Rightarrow> k_workload \<Rightarrow> NSSnapshot" where
  "daemon_step s w =
     (let want = (case kwReplicas w of Some n \<Rightarrow> n | None \<Rightarrow> 0); ok = kwReady w \<ge> want;
          s' = s\<lparr>nsDaemonSets := count_ready ok (nsDaemonSets s)\<rparr>
      in if ok then s'
         else attend ''DaemonSet'' (kwName w) ''warn'' (itoa (kwReady w) @ '' of '' @ itoa want @ '' pods ready'') s')"

text \<open>\<open>ok.Before(last)\<close> of two times that are set.\<close>

definition cronjob_step :: "time \<Rightarrow> NSSnapshot \<Rightarrow> k_cronjob \<Rightarrow> NSSnapshot" where
  "cronjob_step now s cj =
     (let c = nsCronJobs s; c1 = c\<lparr>ccTotal := ccTotal c + 1\<rparr>;
          failing = s\<lparr>nsCronJobs := c1\<lparr>ccFailing := ccFailing c1 + 1\<rparr>\<rparr>;
          fine = s\<lparr>nsCronJobs := c1\<rparr>
      in if kjSuspend cj = Some True then s\<lparr>nsCronJobs := c1\<lparr>ccSuspended := ccSuspended c1 + 1\<rparr>\<rparr>
         else (case (kjLast cj, kjSuccess cj) of
                 (None, _) \<Rightarrow> fine
               | (Some _, None) \<Rightarrow> attend ''CronJob'' (kjName cj) ''crit'' ''has never succeeded'' failing
               | (Some l, Some ok) \<Rightarrow>
                   if ok < l
                   then attend ''CronJob'' (kjName cj) ''crit''
                          (''last run failed; last success '' @ formatAge (time_sub now ok) @ '' ago'') failing
                   else fine))"

definition job_step :: "NSSnapshot \<Rightarrow> k_job \<Rightarrow> NSSnapshot" where
  "job_step s j =
     (let c = nsJobs s in
      s\<lparr>nsJobs := \<lparr>jcActive = jcActive c + jbActive j,
         jcFailed = jcFailed c + int (length (filter (\<lambda>(t, st). t = ''Failed'' \<and> st = ''True'') (jbConditions j)))\<rparr>\<rparr>)"

section \<open>Pods\<close>

definition waiting_reason :: "snap_pod \<Rightarrow> string" where
  "waiting_reason p =
     foldl (\<lambda>w st. case ksWaiting st of
                     Some (reason, _) \<Rightarrow> if reason \<noteq> '''' \<and> reason \<noteq> ''ContainerCreating'' then reason else w
                   | None \<Rightarrow> w) '''' (kpStatuses p)"

definition pod_ready :: "snap_pod \<Rightarrow> bool" where
  "pod_ready p = podReady (k_pod.truncate p)"

text \<open>The reason and severity a Pod is added under, if it is.\<close>

definition pod_reason :: "time \<Rightarrow> snap_pod \<Rightarrow> (string \<times> string) option" where
  "pod_reason now p =
     (if kpPhase p = ''Succeeded'' then None
      else if kpPhase p = ''Failed'' then Some (if spReason p = '''' then ''Failed'' else spReason p, ''warn'')
      else if waiting_reason p \<noteq> '''' then Some (waiting_reason p, ''crit'')
      else if kpPhase p = ''Pending'' \<and> time_sub now (spCreated p) > snapshotPendingOK
      then Some (''Pending for over 5 min'', ''warn'')
      else if kpPhase p = ''Running'' \<and> \<not> pod_ready p then Some (''Running but not ready'', ''warn'')
      else None)"

definition count_pod :: "podCounts \<Rightarrow> snap_pod \<Rightarrow> podCounts" where
  "count_pod c p =
     (let one = (\<lambda>b. if b then 1 else 0 :: int); phase = kpPhase p in
      \<lparr>pcTotal = pcTotal c + 1, pcRunning = pcRunning c + one (phase = ''Running''),
       pcPending = pcPending c + one (phase = ''Pending''), pcFailed = pcFailed c + one (phase = ''Failed''),
       pcSucceeded = pcSucceeded c + one (phase = ''Succeeded''),
       pcNotReady = pcNotReady c + one (phase = ''Running'' \<and> \<not> pod_ready p),
       pcRestarts = foldl (\<lambda>r st. r + word_of_int (ksRestarts st)) (pcRestarts c) (kpStatuses p)\<rparr>)"

text \<open>The groups by reason, in the order of their first Pods; a group has the severity of its first.\<close>

definition group_pod :: "string \<times> string \<times> string \<Rightarrow> (string \<times> string list) option \<Rightarrow> string \<times> string list" where
  "group_pod e g =
     (case e of (reason, sev, name) \<Rightarrow>
        case g of None \<Rightarrow> (sev, [name]) | Some (s, names) \<Rightarrow> (s, names @ [name]))"

definition pod_entries :: "time \<Rightarrow> snap_pod list \<Rightarrow> (string \<times> string \<times> string) list" where
  "pod_entries now pods =
     concat (map (\<lambda>p. case pod_reason now p of Some (reason, sev) \<Rightarrow> [(reason, sev, kpName p)] | None \<Rightarrow> []) pods)"

definition pod_groups :: "time \<Rightarrow> snap_pod list \<Rightarrow> (string, string \<times> string list) gomap" where
  "pod_groups now pods = group_fold fst group_pod (pod_entries now pods)"

definition pod_item :: "string \<times> string \<times> string list \<Rightarrow> AttentionItem" where
  "pod_item g =
     (case g of (reason, sev, names) \<Rightarrow>
        if length names > 1
        then \<lparr>aiKind = ''Pod'', aiName = itoa (int (length names)) @ '' pods'',
               aiText = reason @ '': '' @ str_join '', '' (take 3 names) @
                 (if length names > 3 then '' and '' @ itoa (int (length names - 3)) @ '' more'' else ''''),
               aiSeverity = sev\<rparr>
        else \<lparr>aiKind = ''Pod'', aiName = hd names, aiText = reason, aiSeverity = sev\<rparr>)"

definition snapshotPods :: "time \<Rightarrow> snap_pod list \<Rightarrow> NSSnapshot \<Rightarrow> NSSnapshot" where
  "snapshotPods now pods s =
     s\<lparr>nsPods := foldl count_pod (nsPods s) pods,
       nsAttention := nsAttention s @ map pod_item (pod_groups now pods)\<rparr>"

section \<open>Volumes and nodes\<close>

definition claim_count :: "NSSnapshot \<Rightarrow> string \<times> string \<Rightarrow> NSSnapshot" where
  "claim_count s p =
     (let c = nsPVCs s; c1 = c\<lparr>vcTotal := vcTotal c + 1\<rparr>; name = fst p; phase = snd p in
      if phase = ''Bound'' then s\<lparr>nsPVCs := c1\<lparr>vcBound := vcBound c1 + 1\<rparr>\<rparr>
      else if phase = ''Pending''
      then attend ''PersistentVolumeClaim'' name ''warn'' ''pending, not bound to a volume''
             (s\<lparr>nsPVCs := c1\<lparr>vcPending := vcPending c1 + 1\<rparr>\<rparr>)
      else attend ''PersistentVolumeClaim'' name ''crit'' (to_lower phase) (s\<lparr>nsPVCs := c1\<rparr>))"

definition snapshotNamespace :: "time \<Rightarrow> snapshot_api \<Rightarrow> NSSnapshot \<Rightarrow> NSSnapshot" where
  "snapshotNamespace now api s0 =
     (let s1 = each_item ''deployments'' deployment_step (saDeployments api) s0;
          s2 = each_item ''statefulsets'' stateful_step (saStatefulSets api) s1;
          s3 = each_item ''daemonsets'' daemon_step (saDaemonSets api) s2;
          s4 = each_item ''cronjobs'' (cronjob_step now) (saCronJobs api) s3;
          s5 = each_item ''jobs'' job_step (saJobs api) s4;
          s6 = (case saPods api of Inl err \<Rightarrow> failed ''pods'' err s5 | Inr pods \<Rightarrow> snapshotPods now pods s5)
      in each_item ''persistentvolumeclaims'' claim_count (saClaims api) s6)"

text \<open>The last Ready condition counts; every pressure that is true is named.\<close>

definition node_ready :: "k_node \<Rightarrow> bool" where
  "node_ready n = foldl (\<lambda>r (t, st). if t = ''Ready'' then st = ''True'' else r) False (knConditions n)"

definition node_pressure :: "k_node \<Rightarrow> string list" where
  "node_pressure n = map fst (filter (\<lambda>(t, st). t \<noteq> ''Ready'' \<and> st = ''True'' \<and> has_suffix t ''Pressure'') (knConditions n))"

definition node_step :: "NSSnapshot \<Rightarrow> k_node \<Rightarrow> NSSnapshot" where
  "node_step s n =
     (let ready = node_ready n; pressure = node_pressure n;
          s1 = s\<lparr>nsNodes := map_option (count_ready ready) (nsNodes s)\<rparr>;
          s2 = (if ready then s1 else attend ''Node'' (knName n) ''crit'' ''not ready'' s1);
          s3 = (if pressure \<noteq> [] then attend ''Node'' (knName n) ''warn'' (str_join '', '' pressure) s2 else s2)
      in if knUnschedulable n then attend ''Node'' (knName n) ''warn'' ''cordoned'' s3 else s3)"

definition volume_step :: "NSSnapshot \<Rightarrow> string \<times> string \<Rightarrow> NSSnapshot" where
  "volume_step s v =
     (let name = fst v; phase = snd v;
          s1 = s\<lparr>nsPVs := map_option (\<lambda>c. \<lparr>vpTotal = vpTotal c + 1, vpBound = vpBound c + (if phase = ''Bound'' then 1 else 0),
                   vpFailed = vpFailed c + (if phase = ''Failed'' then 1 else 0)\<rparr>) (nsPVs s)\<rparr>
      in if phase = ''Failed'' then attend ''PersistentVolume'' name ''crit'' ''failed'' s1 else s1)"

definition snapshotCluster :: "snapshot_api \<Rightarrow> NSSnapshot \<Rightarrow> NSSnapshot" where
  "snapshotCluster api s0 =
     (let s1 = (case saNodes api of
                  Inl err \<Rightarrow> failed ''nodes'' err s0
                | Inr ns \<Rightarrow> foldl node_step (s0\<lparr>nsNodes := Some \<lparr>rcReady = 0, rcTotal = 0\<rparr>\<rparr>) ns)
      in case saVolumes api of
           Inl err \<Rightarrow> failed ''persistentvolumes'' err s1
         | Inr vs \<Rightarrow> foldl volume_step (s1\<lparr>nsPVs := Some \<lparr>vpTotal = 0, vpBound = 0, vpFailed = 0\<rparr>\<rparr>) vs)"

section \<open>The snapshot and its cache\<close>

definition severity_less :: "AttentionItem \<Rightarrow> AttentionItem \<Rightarrow> bool" where
  "severity_less a b \<longleftrightarrow> aiSeverity a = ''crit'' \<and> aiSeverity b \<noteq> ''crit''"

definition gathered :: "time \<Rightarrow> snapshot_api \<Rightarrow> string \<Rightarrow> NSSnapshot" where
  "gathered now api ns =
     (if ns = clusterScopeNS then snapshotCluster api (new_snapshot ns now)
      else snapshotNamespace now api (new_snapshot ns now))"

definition trimmed :: "NSSnapshot \<Rightarrow> NSSnapshot" where
  "trimmed s =
     (let items = go_sort severity_less (nsAttention s) in
      if length items > snapshotMaxItems
      then s\<lparr>nsMore := length items - snapshotMaxItems, nsAttention := take snapshotMaxItems items\<rparr>
      else s\<lparr>nsAttention := items\<rparr>)"

definition snapshot :: "time \<Rightarrow> snapshot_api \<Rightarrow> string \<Rightarrow> bool \<Rightarrow> (string, NSSnapshot) gomap \<Rightarrow> NSSnapshot \<times> (string, NSSnapshot) gomap" where
  "snapshot now api ns refresh cache =
     (case map_of cache ns of
        Some s \<Rightarrow>
          if \<not> refresh \<and> time_sub now (nsFetchedAt s) < snapshotTTL
          then (s\<lparr>nsAgeSec := secs (time_sub now (nsFetchedAt s))\<rparr>, cache)
          else (let s' = trimmed (gathered now api ns) in (s', al_set ns s' cache))
      | None \<Rightarrow> (let s' = trimmed (gathered now api ns) in (s', al_set ns s' cache)))"

datatype snapshot_reply = SnapshotStatus nat | SnapshotReply NSSnapshot

definition handleAPISnapshot :: "(clusterState \<Rightarrow> string \<Rightarrow> bool \<Rightarrow> NSSnapshot) \<Rightarrow> string \<Rightarrow> string \<Rightarrow> api_cluster \<Rightarrow> snapshot_reply" where
  "handleAPISnapshot take_one path0 refresh target =
     (let ns = trim_slashes (if has_prefix path0 ''/api/snapshot/'' then drop 14 path0 else path0) in
      if ns = '''' then SnapshotStatus 400
      else (case target of
              ApiConflict _ \<Rightarrow> SnapshotStatus 409
            | ApiCluster None \<Rightarrow> SnapshotStatus 200
            | ApiCluster (Some c) \<Rightarrow> SnapshotReply (take_one c ns (refresh = ''1''))))"

section \<open>Critical things first, and nothing lost\<close>

interpretation severity: keyed_order severity_less "\<lambda>i. aiSeverity i \<noteq> ''crit''"
  by unfold_locales (auto simp: severity_less_def)

lemma insert_between:
  assumes "\<forall>a \<in> set as. aiSeverity a = ''crit''" "\<forall>b \<in> set bs. aiSeverity b \<noteq> ''crit''"
  shows "sort_insert severity_less i (as @ bs) =
    (if aiSeverity i = ''crit'' then i # as @ bs else as @ i # bs)"
proof (cases "as = []")
  case True
  then show ?thesis using assms by (cases bs) (auto simp: severity_less_def)
next
  case False
  show ?thesis
  proof (cases "aiSeverity i = ''crit''")
    case True
    then show ?thesis using False by (cases as) (simp_all add: severity_less_def)
  next
    case False
    have "sort_insert severity_less i bs = i # bs"
      using assms(2) by (cases bs) (simp_all add: severity_less_def)
    moreover have "sort_insert severity_less i (as @ bs) = as @ sort_insert severity_less i bs"
      using assms(1) False by (induction as) (simp_all add: severity_less_def)
    ultimately show ?thesis using False by simp
  qed
qed

lemma critical_first:
  "go_sort severity_less is = filter (\<lambda>i. aiSeverity i = ''crit'') is @ filter (\<lambda>i. aiSeverity i \<noteq> ''crit'') is"
  by (induction "is") (simp_all add: insert_between)

lemma fold_keeps_more: "(\<And>s x. nsMore (step s x) = nsMore s) \<Longrightarrow> nsMore (foldl step s xs) = nsMore s"
  by (induction xs arbitrary: s) simp_all

lemma steps_keep_more:
  "nsMore (attend kind name sev txt s) = nsMore s" "nsMore (failed what err s) = nsMore s"
  "nsMore (deployment_step s w) = nsMore s" "nsMore (stateful_step s w) = nsMore s" "nsMore (daemon_step s w) = nsMore s"
  "nsMore (cronjob_step now s cj) = nsMore s" "nsMore (job_step s j) = nsMore s" "nsMore (snapshotPods now pods s) = nsMore s"
  "nsMore (claim_count s p) = nsMore s" "nsMore (node_step s n) = nsMore s" "nsMore (volume_step s v) = nsMore s"
  by (simp_all add: attend_def failed_def deployment_step_def stateful_step_def attend_replicas_def daemon_step_def
      cronjob_step_def job_step_def snapshotPods_def claim_count_def node_step_def volume_step_def Let_def
      split: option.split)

lemma each_item_more: "(\<And>s x. nsMore (step s x) = nsMore s) \<Longrightarrow> nsMore (each_item what step answer s) = nsMore s"
  by (simp add: each_item_def steps_keep_more fold_keeps_more split: sum.split)

lemma gathered_more: "nsMore (gathered now api ns) = 0"
proof -
  have "nsMore (snapshotNamespace now api s) = nsMore s" for s
    by (simp add: snapshotNamespace_def Let_def each_item_more steps_keep_more split: sum.split)
  moreover have "nsMore (snapshotCluster api s) = nsMore s" for s
    by (simp add: snapshotCluster_def Let_def fold_keeps_more steps_keep_more split: sum.split)
  ultimately show ?thesis by (simp add: gathered_def new_snapshot_def Let_def)
qed

text \<open>C33: A snapshot that is taken shows, of all that needs a look, the critical things first and then the rest, both in
  the order they were found, the first fifteen of them, and says how many it leaves out: a critical thing
  is never left out while one that is not is shown.\<close>

theorem snapshot_shows_critical:
  "nsAttention (fst (snapshot now api ns True cache)) =
     take 15 (filter (\<lambda>i. aiSeverity i = ''crit'') (nsAttention (gathered now api ns)) @
              filter (\<lambda>i. aiSeverity i \<noteq> ''crit'') (nsAttention (gathered now api ns))) \<and>
   length (nsAttention (fst (snapshot now api ns True cache))) + nsMore (fst (snapshot now api ns True cache)) =
     length (nsAttention (gathered now api ns))"
proof -
  have fresh: "fst (snapshot now api ns True cache) = trimmed (gathered now api ns)"
    by (simp add: snapshot_def Let_def split: option.split)
  have "length (filter (\<lambda>i. aiSeverity i = ''crit'') is) + length (filter (\<lambda>i. aiSeverity i \<noteq> ''crit'') is) = length is" for "is"
    by (rule sum_length_filter_compl)
  then show ?thesis
    unfolding fresh trimmed_def critical_first [symmetric] snapshotMaxItems_def
    by (simp add: Let_def gathered_more)
qed

section \<open>Pods\<close>

lemma pod_entries_names:
  "map (\<lambda>e. snd (snd e)) (pod_entries now pods) = map kpName (filter (\<lambda>p. pod_reason now p \<noteq> None) pods)"
  by (induction pods) (auto simp: pod_entries_def split: option.splits)

lemma pod_counts:
  assumes "pcRunning c + pcPending c + pcFailed c + pcSucceeded c \<le> pcTotal c" "pcNotReady c \<le> pcRunning c"
  shows "pcRunning (foldl count_pod c pods) + pcPending (foldl count_pod c pods) + pcFailed (foldl count_pod c pods) +
           pcSucceeded (foldl count_pod c pods) \<le> pcTotal (foldl count_pod c pods) \<and>
         pcNotReady (foldl count_pod c pods) \<le> pcRunning (foldl count_pod c pods) \<and>
         pcTotal (foldl count_pod c pods) = pcTotal c + int (length pods)"
  using assms
proof (induction pods arbitrary: c)
  case (Cons p pods)
  have "pcTotal (count_pod c p) = pcTotal c + 1" by (simp add: count_pod_def Let_def)
  moreover have "pcRunning (count_pod c p) + pcPending (count_pod c p) + pcFailed (count_pod c p) + pcSucceeded (count_pod c p)
      \<le> pcTotal (count_pod c p)" "pcNotReady (count_pod c p) \<le> pcRunning (count_pod c p)"
    using Cons.prems by (auto simp: count_pod_def Let_def)
  ultimately show ?case using Cons.IH [of "count_pod c p"] by simp
qed simp

text \<open>The Pods of a snapshot: each is counted once, in at most one phase, and those not ready are among
  the running ones. Every Pod with something to say is in exactly one group, the groups have different
  reasons, and each group is one item.\<close>

lemma snapshot_pods_accounted:
  "(let s = snapshotPods now pods (new_snapshot ns now); c = nsPods s in
      pcTotal c = int (length pods) \<and> pcRunning c + pcPending c + pcFailed c + pcSucceeded c \<le> pcTotal c \<and>
      pcNotReady c \<le> pcRunning c \<and> length (nsAttention s) = length (pod_groups now pods)) \<and>
   distinct (map fst (pod_groups now pods)) \<and>
   mset (concat (map (\<lambda>g. snd (snd g)) (pod_groups now pods))) =
     mset (map kpName (filter (\<lambda>p. pod_reason now p \<noteq> None) pods))"
proof -
  have "mset (concat (map (\<lambda>g. snd (snd g)) (pod_groups now pods))) =
      mset (concat (map (\<lambda>e. [snd (snd e)]) (pod_entries now pods)))"
    unfolding pod_groups_def by (rule group_fold_collect) (auto simp: group_pod_def split: prod.splits)
  also have "concat (map (\<lambda>e. [snd (snd e)]) (pod_entries now pods)) =
      map kpName (filter (\<lambda>p. pod_reason now p \<noteq> None) pods)"
    by (simp add: concat_map_singleton pod_entries_names)
  finally have groups: "mset (concat (map (\<lambda>g. snd (snd g)) (pod_groups now pods))) =
      mset (map kpName (filter (\<lambda>p. pod_reason now p \<noteq> None) pods))" .
  have "nsPods (snapshotPods now pods (new_snapshot ns now)) = foldl count_pod (nsPods (new_snapshot ns now)) pods"
    by (simp add: snapshotPods_def)
  moreover have "nsAttention (snapshotPods now pods (new_snapshot ns now)) = map pod_item (pod_groups now pods)"
    by (simp add: snapshotPods_def new_snapshot_def Let_def)
  ultimately show ?thesis
    using pod_counts [of "nsPods (new_snapshot ns now)" pods] groups
    by (simp add: Let_def pod_groups_def) (simp add: new_snapshot_def Let_def)
qed

text \<open>A CronJob whose newest run has not ended yet is shown as if it had failed.\<close>

lemma running_cronjob_shown_failed:
  "map aiText (nsAttention (cronjob_step (100 * second) (new_snapshot ''shop'' 0)
      \<lparr>kjName = ''backup'', kjSuspend = None, kjLast = Some (99 * second), kjSuccess = Some (10 * second)\<rparr>)) =
   [''last run failed; last success '' @ formatAge (90 * second) @ '' ago'']"
  by (simp add: cronjob_step_def attend_def new_snapshot_def Let_def second_def time_sub_def min_duration_def max_duration_def)

end
