(* ===== verification/BenchScore.thy ===== *)
theory BenchScore
  imports RCARuns
begin

text \<open>
  The cases of the benchmark (bench.go) and the scoring of results (bench_score.go): keyword groups over
  whole answers, the checks of a case, and their sums. Decoding a file of a case or of results is an
  argument. The means over seeds and the percentages, floating-point numbers, are not modelled.
\<close>

section \<open>Cases\<close>

record benchAnchor =
  baNS :: string
  baKind :: string
  baName :: string

record benchCase =
  bcID :: string
  bcSnapshot :: string
  bcAnchor :: benchAnchor
  bcHealthy :: bool
  bcTruth :: string
  bcCause :: "string list list"
  bcDeep :: "string list list"
  bcFix :: "string list list"
  bcNeedsTool :: bool
  bcNoteTarget :: bool

definition anchor_text :: "benchAnchor \<Rightarrow> string" where
  "anchor_text a = baNS a @ [CHR 0x2F] @ baKind a @ [CHR 0x2F] @ baName a"

text \<open>The checks of one file; \<open>want\<close> is its name without \<open>.yaml\<close>, \<open>targets\<close> the note targets so far.\<close>

definition check_case :: "string \<Rightarrow> string \<Rightarrow> (string, string) gomap \<Rightarrow> benchCase \<Rightarrow> string option" where
  "check_case f want targets c =
     (let a = bcAnchor c in
      if bcID c \<noteq> want then Some (f @ '': id '' @ go_quote (bcID c) @ '' does not match the file name'')
      else if bcSnapshot c = '''' \<or> baNS a = '''' \<or> baKind a = '''' \<or> baName a = ''''
      then Some (f @ '': snapshot and anchor {ns, kind, name} are required'')
      else if \<not> bcHealthy c \<and> bcCause c = [] then Some (f @ '': a fault case needs cause groups'')
      else if bcNeedsTool c \<and> (bcHealthy c \<or> bcDeep c = [])
      then Some (f @ '': needs_tool is for fault cases, with deep groups for what the other object shows'')
      else if bcNoteTarget c \<and> al_get '''' targets (bcSnapshot c) \<noteq> ''''
      then Some (f @ '': snapshot '' @ bcSnapshot c @ '' already has a note target ('' @ al_get '''' targets (bcSnapshot c) @ '')'')
      else None)"

text \<open>\<open>loadCases\<close>: \<open>files\<close> are the names, without \<open>.yaml\<close>, with what reading and decoding gives, in order.\<close>

fun load_files :: "string list \<Rightarrow> (string \<times> (string + benchCase)) list \<Rightarrow> (string, string) gomap \<Rightarrow> benchCase list \<Rightarrow> string + benchCase list" where
  "load_files keep [] targets out = Inr out"
| "load_files keep ((f, answer) # rest) targets out =
     (case answer of
        Inl err \<Rightarrow> Inl err
      | Inr c \<Rightarrow>
          (case check_case f f targets c of
             Some err \<Rightarrow> Inl err
           | None \<Rightarrow>
               load_files keep rest (if bcNoteTarget c then al_set (bcSnapshot c) (bcID c) targets else targets)
                 (if keep \<noteq> [] \<and> bcID c \<notin> set keep then out else out @ [c])))"

definition loadCases :: "string \<Rightarrow> string list \<Rightarrow> (string \<times> (string + benchCase)) list \<Rightarrow> string + benchCase list" where
  "loadCases dir only files =
     (case load_files only files [] [] of
        Inl err \<Rightarrow> Inl err
      | Inr [] \<Rightarrow> Inl (''no cases in '' @ dir)
      | Inr (c # cs) \<Rightarrow> Inr (c # cs))"

section \<open>Reading an answer\<close>

text \<open>\<open>groupsOK\<close>: \<open>None\<close> when there is nothing to check.\<close>

definition groupsOK :: "string \<Rightarrow> string list list \<Rightarrow> bool option" where
  "groupsOK answer groups =
     (if groups = [] then None
      else Some (list_all (list_ex (\<lambda>k. str_contains (ascii_lower answer) (ascii_lower k))) groups))"

text \<open>A search that sees the byte before each place.\<close>

fun edged_search :: "(char option \<Rightarrow> string \<Rightarrow> bool) \<Rightarrow> char option \<Rightarrow> string \<Rightarrow> bool" where
  "edged_search here prev [] = here prev []"
| "edged_search here prev (c # s) = (here prev (c # s) \<or> edged_search here (Some c) s)"

definition thinky_words :: "string list" where
  "thinky_words = [''okay'', ''ok,'', ''lets'', ''let'' @ [CHR 0x27] @ ''s'', ''let me'', ''the user'', ''hmm'', ''alright'', ''so,'', ''first,'']"

definition benchThinky :: "string \<Rightarrow> bool" where
  "benchThinky s = list_ex (\<lambda>w. fold_prefix w (skip_space s)) thinky_words"

definition none_phrases :: "string list" where
  "none_phrases = [''no issues'', ''no problems'', ''no errors'', ''no faults'', ''nothing wrong'', ''nothing is wrong'',
     ''nothing broken'', ''nothing is broken'', ''healthy'', ''working as expected'', ''working normally'', ''working correctly'',
     ''nothing to fix'', ''no action'']"

definition none_here :: "char option \<Rightarrow> string \<Rightarrow> bool" where
  "none_here prev s \<longleftrightarrow>
     (word_edge prev s \<and> fold_prefix ''none'' s \<and>
        word_edge (Some (CHR ''e'')) (drop (length ''none'') s)) \<or> list_ex (\<lambda>w. fold_prefix w s) none_phrases"

definition benchNoneRe :: "string \<Rightarrow> bool" where
  "benchNoneRe s = edged_search none_here None s"

definition fix_words :: "string list" where
  "fix_words = [''create'', ''set'', ''change'', ''update'', ''add'', ''remove'', ''delete'', ''increase'', ''raise'', ''lower'', ''reduce'',
     ''rollback'', ''roll back'', ''rollout undo'', ''undo'', ''restart'', ''patch'', ''apply'', ''kubectl'', ''edit'', ''rename'', ''correct'',
     ''replace'', ''grant'', ''bind'', ''rotate'', ''renew'', ''refresh'', ''fix'', ''point'', ''use'']"

definition benchFixRe :: "string \<Rightarrow> bool" where
  "benchFixRe s = edged_search (\<lambda>prev t. word_edge prev t \<and> list_ex (\<lambda>w. fold_prefix w t) fix_words) None s"

section \<open>Results\<close>

record benchNoteResult =
  bnText :: string
  bnRef :: string

record benchCaseResult =
  brCase :: benchCase
  brContent :: string
  brStatus :: string
  brResult :: string
  brSteps :: "RCAStep list"

record benchRun =
  buSeed :: int
  buNotes :: "(string, benchNoteResult) gomap"
  buCases :: "benchCaseResult list"

record benchResults =
  btModel :: string
  btLinkFollow :: "bool option"
  btRun :: benchRun
  btRuns :: "benchRun list"

definition runs :: "benchResults \<Rightarrow> benchRun list" where
  "runs r = (if btRuns r \<noteq> [] then btRuns r else [btRun r])"

text \<open>Whether a row of the overview is about the anchor.\<close>

definition noteAbout :: "benchAnchor \<Rightarrow> string \<Rightarrow> bool" where
  "noteAbout a ref =
     (if baNS a = clusterScopeNS then has_prefix ref (''cluster:'' @ baKind a @ [CHR 0x2F])
      else ref = ''ns:'' @ baNS a @ [CHR 0x2F] @ baName a)"

section \<open>Scores\<close>

text \<open>The checks with their labels, and whether they are averages.\<close>

definition benchChecks :: "(string \<times> string \<times> bool) list" where
  "benchChecks =
     [(''rca_cause'', ''RCA: right root cause'', False),
      (''rca_deep'', ''RCA: finds the cause in another object'', False),
      (''rca_detail'', ''RCA: names the decisive detail'', False),
      (''rca_fix'', ''RCA: right fix'', False),
      (''rca_done'', ''RCA: finished'', False),
      (''rca_tool'', ''RCA: called a tool when the cause was elsewhere'', False),
      (''rca_calls'', ''RCA: tool calls per case (avg)'', True),
      (''an_cause'', ''Analysis: right issue'', False),
      (''an_fix'', ''Analysis: right action'', False),
      (''healthy_ok'', ''Healthy: no invented fault'', False),
      (''note_cause'', ''Note: names the right first check'', False),
      (''note_clean'', ''Note: an answer, not thinking'', False)]"

record benchRunScore =
  bsSeed :: int
  bsPass :: "(string, int) gomap"
  bsTotal :: "(string, int) gomap"
  bsCases :: "(string, (string, bool) gomap) gomap"

definition bump :: "string \<Rightarrow> int \<Rightarrow> (string, int) gomap \<Rightarrow> (string, int) gomap" where
  "bump key n m = al_set key (al_get 0 m key + n) m"

definition add_score :: "string \<Rightarrow> string \<Rightarrow> bool \<Rightarrow> benchRunScore \<Rightarrow> benchRunScore" where
  "add_score caseID check pass s =
     s\<lparr>bsTotal := bump check 1 (bsTotal s),
       bsPass := (if pass then bump check 1 (bsPass s) else bsPass s),
       bsCases := (if caseID = '''' then bsCases s
                   else al_set caseID (al_set check pass (al_get [] (bsCases s) caseID)) (bsCases s))\<rparr>"

definition count_score :: "string \<Rightarrow> int \<Rightarrow> benchRunScore \<Rightarrow> benchRunScore" where
  "count_score check n s = s\<lparr>bsTotal := bump check 1 (bsTotal s), bsPass := bump check n (bsPass s)\<rparr>"

definition toolCalls :: "RCAStep list \<Rightarrow> nat" where
  "toolCalls steps = length (filter (\<lambda>st. \<not> rsInitial st) steps)"

definition group_score :: "string \<Rightarrow> string \<Rightarrow> string \<Rightarrow> string list list \<Rightarrow> benchRunScore \<Rightarrow> benchRunScore" where
  "group_score caseID check answer groups s =
     (case groupsOK answer groups of Some pass \<Rightarrow> add_score caseID check pass s | None \<Rightarrow> s)"

definition fix_score :: "benchCase \<Rightarrow> string \<Rightarrow> string \<Rightarrow> benchRunScore \<Rightarrow> benchRunScore" where
  "fix_score c check answer s =
     (case groupsOK answer (bcFix c) of Some pass \<Rightarrow> add_score (bcID c) check (pass \<and> benchFixRe answer) s | None \<Rightarrow> s)"

text \<open>The checks of one case, in the order the code makes them.\<close>

definition score_case :: "benchRunScore \<Rightarrow> benchCaseResult \<Rightarrow> benchRunScore" where
  "score_case s0 cr =
     (let c = brCase cr; an = brContent cr; rca = brResult cr in
      if bcHealthy c then add_score (bcID c) ''healthy_ok'' (an \<noteq> '''' \<and> benchNoneRe an) s0
      else
        let s1 = group_score (bcID c) ''an_cause'' an (bcCause c) s0;
            s2 = fix_score c ''an_fix'' an s1;
            s3 = add_score (bcID c) ''rca_done'' (brStatus cr = ''done'' \<and> trim_space rca \<noteq> '''') s2;
            s4 = group_score (bcID c) ''rca_cause'' rca (bcCause c) s3;
            s5 = group_score (bcID c) (if bcNeedsTool c then ''rca_deep'' else ''rca_detail'') rca (bcDeep c) s4;
            s6 = fix_score c ''rca_fix'' rca s5;
            calls = toolCalls (brSteps cr);
            s7 = (if bcNeedsTool c then add_score (bcID c) ''rca_tool'' (calls > 0) s6 else s6)
        in count_score ''rca_calls'' (int calls) s7)"

text \<open>A note is scored against the first case of its snapshot that it is about, if that is a fault.\<close>

definition score_note :: "benchCaseResult list \<Rightarrow> (string, benchNoteResult) gomap \<Rightarrow> benchRunScore \<Rightarrow> string \<Rightarrow> benchRunScore" where
  "score_note cases notes s name =
     (let n = al_get \<lparr>bnText = '''', bnRef = ''''\<rparr> notes name;
          s1 = add_score '''' ''note_clean'' (bnText n \<noteq> '''' \<and> \<not> benchThinky (bnText n)) s
      in case filter (\<lambda>cr. bcSnapshot (brCase cr) = name \<and> noteAbout (bcAnchor (brCase cr)) (bnRef n)) cases of
           [] \<Rightarrow> s1
         | cr # _ \<Rightarrow>
             if bcHealthy (brCase cr) then s1
             else add_score (bcID (brCase cr)) ''note_cause'' (groupsOK (bnText n) (bcCause (brCase cr)) = Some True) s1)"

definition scoreRun :: "benchRun \<Rightarrow> benchRunScore" where
  "scoreRun r =
     foldl (score_note (buCases r) (buNotes r))
       (foldl score_case \<lparr>bsSeed = buSeed r, bsPass = [], bsTotal = [], bsCases = []\<rparr> (buCases r))
       (sortedKeys (buNotes r))"

record benchScore =
  beModel :: string
  beFaults :: nat
  beHealth :: nat
  beRuns :: "benchRunScore list"

definition scoreResults :: "benchResults \<Rightarrow> benchScore" where
  "scoreResults r =
     (let first = hd (runs r); healthy = length (filter (\<lambda>cr. bcHealthy (brCase cr)) (buCases first)) in
      \<lparr>beModel = btModel r @ (case btLinkFollow r of None \<Rightarrow> '''' | Some b \<Rightarrow> if b then '' (links on)'' else '' (links off)''),
       beFaults = length (buCases first) - healthy, beHealth = healthy, beRuns = map scoreRun (runs r)\<rparr>)"

text \<open>\<open>rescoreWith\<close>: the cases of a run get their current definitions, unless one asks something else now.\<close>

fun rescore_cases :: "(string, benchCase) gomap \<Rightarrow> benchCaseResult list \<Rightarrow> string + benchCaseResult list" where
  "rescore_cases current [] = Inr []"
| "rescore_cases current (cr # rest) =
     (case map_of current (bcID (brCase cr)) of
        None \<Rightarrow> (case rescore_cases current rest of Inl err \<Rightarrow> Inl err | Inr crs \<Rightarrow> Inr (cr # crs))
      | Some c \<Rightarrow>
          if bcSnapshot c \<noteq> bcSnapshot (brCase cr) \<or> bcAnchor c \<noteq> bcAnchor (brCase cr)
          then Inl (''case '' @ bcID c @ '': snapshot or anchor changed since the run'')
          else (case rescore_cases current rest of Inl err \<Rightarrow> Inl err | Inr crs \<Rightarrow> Inr (cr\<lparr>brCase := c\<rparr> # crs)))"

section \<open>What the scores say\<close>

lemma bump_get: "al_get 0 (bump key n m) k = al_get 0 m k + (if k = key then n else 0)"
  by (simp add: bump_def al_get_def)

lemma add_score_sel:
  "al_get 0 (bsTotal (add_score i check pass s)) k = al_get 0 (bsTotal s) k + (if k = check then 1 else 0)"
  "al_get 0 (bsPass (add_score i check pass s)) k = al_get 0 (bsPass s) k + (if pass \<and> k = check then 1 else 0)"
  by (simp_all add: add_score_def bump_get)

lemma count_score_sel:
  "al_get 0 (bsTotal (count_score check n s)) k = al_get 0 (bsTotal s) k + (if k = check then 1 else 0)"
  "al_get 0 (bsPass (count_score check n s)) k = al_get 0 (bsPass s) k + (if k = check then n else 0)"
  by (simp_all add: count_score_def bump_get)

definition share_ok :: "string \<Rightarrow> benchRunScore \<Rightarrow> bool" where
  "share_ok k s \<longleftrightarrow> 0 \<le> al_get 0 (bsPass s) k \<and> al_get 0 (bsPass s) k \<le> al_get 0 (bsTotal s) k"

lemma share_add: "share_ok k s \<Longrightarrow> share_ok k (add_score i check pass s)"
  by (auto simp: share_ok_def add_score_sel)

lemma share_group: "share_ok k s \<Longrightarrow> share_ok k (group_score i check answer groups s)"
  by (simp add: group_score_def share_add split: option.split)

lemma share_fix: "share_ok k s \<Longrightarrow> share_ok k (fix_score c check answer s)"
  by (simp add: fix_score_def share_add split: option.split)

lemma share_count: "share_ok k s \<Longrightarrow> k \<noteq> check \<Longrightarrow> share_ok k (count_score check n s)"
  by (simp add: share_ok_def count_score_sel)

lemma share_case: "share_ok k s \<Longrightarrow> k \<noteq> ''rca_calls'' \<Longrightarrow> share_ok k (score_case s cr)"
  by (simp add: score_case_def Let_def share_add share_group share_fix share_count)

lemma share_note: "share_ok k s \<Longrightarrow> share_ok k (score_note cases notes s name)"
  by (simp add: score_note_def Let_def share_add split: list.split)

text \<open>The checks that every case of its kind has.\<close>

lemma group_total: "check \<noteq> k \<Longrightarrow> al_get 0 (bsTotal (group_score i check answer groups s)) k = al_get 0 (bsTotal s) k"
  by (simp add: group_score_def add_score_sel split: option.split)

lemma fix_total: "check \<noteq> k \<Longrightarrow> al_get 0 (bsTotal (fix_score c check answer s)) k = al_get 0 (bsTotal s) k"
  by (simp add: fix_score_def add_score_sel split: option.split)

lemma case_total:
  "al_get 0 (bsTotal (score_case s cr)) ''healthy_ok'' = al_get 0 (bsTotal s) ''healthy_ok'' + (if bcHealthy (brCase cr) then 1 else 0)"
  "al_get 0 (bsTotal (score_case s cr)) ''rca_done'' = al_get 0 (bsTotal s) ''rca_done'' + (if bcHealthy (brCase cr) then 0 else 1)"
  by (simp_all add: score_case_def Let_def add_score_sel count_score_sel group_total fix_total)

lemma note_total:
  "k \<noteq> ''note_clean'' \<Longrightarrow> k \<noteq> ''note_cause'' \<Longrightarrow> al_get 0 (bsTotal (score_note cases notes s name)) k = al_get 0 (bsTotal s) k"
  by (simp add: score_note_def Let_def add_score_sel split: list.split)

lemma cases_total:
  "al_get 0 (bsTotal (foldl score_case s crs)) ''healthy_ok'' =
     al_get 0 (bsTotal s) ''healthy_ok'' + int (length (filter (\<lambda>cr. bcHealthy (brCase cr)) crs))"
  "al_get 0 (bsTotal (foldl score_case s crs)) ''rca_done'' =
     al_get 0 (bsTotal s) ''rca_done'' + int (length (filter (\<lambda>cr. \<not> bcHealthy (brCase cr)) crs))"
  by (induction crs arbitrary: s) (simp_all add: case_total)

lemma notes_total:
  "k \<noteq> ''note_clean'' \<Longrightarrow> k \<noteq> ''note_cause'' \<Longrightarrow>
   al_get 0 (bsTotal (foldl (score_note cases notes) s names)) k = al_get 0 (bsTotal s) k"
  by (induction names arbitrary: s) (simp_all add: note_total)

text \<open>The scores of a run: of every check that is a share, no more items pass than were scored, so a
  percentage is never above 100; every healthy case is scored once for not inventing a fault and every
  other case once for finishing, whatever the model answered.\<close>

lemma run_scores_add_up:
  "list_all (\<lambda>(check, label, avg). avg \<or> share_ok check (scoreRun r)) benchChecks \<and>
   al_get 0 (bsTotal (scoreRun r)) ''healthy_ok'' = int (length (filter (\<lambda>cr. bcHealthy (brCase cr)) (buCases r))) \<and>
   al_get 0 (bsTotal (scoreRun r)) ''rca_done'' = int (length (filter (\<lambda>cr. \<not> bcHealthy (brCase cr)) (buCases r)))"
proof -
  let ?s0 = "\<lparr>bsSeed = buSeed r, bsPass = [], bsTotal = [], bsCases = []\<rparr> :: benchRunScore"
  have "share_ok check (scoreRun r)" if "check \<noteq> ''rca_calls''" for check
  proof -
    have "share_ok check ?s0" by (simp add: share_ok_def al_get_def)
    then have "share_ok check (foldl score_case ?s0 (buCases r))"
      by (rule foldl_invariant) (simp add: share_case that)
    then show ?thesis unfolding scoreRun_def by (rule foldl_invariant) (rule share_note)
  qed
  then have "list_all (\<lambda>(check, label, avg). avg \<or> share_ok check (scoreRun r)) benchChecks"
    by (simp add: benchChecks_def)
  then show ?thesis
    by (simp add: scoreRun_def notes_total cases_total) (simp add: al_get_def)
qed

end
