(* ===== verification/Unstructured.thy ===== *)
theory Unstructured
  imports Describe "HOL-Library.Word"
begin

text \<open>
  API objects as decoded JSON (\<open>map[string]interface{}\<close>) and the functions that read their fields (\<open>nmStr\<close>
  and the like in main.go, the small ones of describe.go). A nil map is \<open>None\<close>.
\<close>

section \<open>Values\<close>

text \<open>
  A number that is not an integer has the text \<open>%v\<close> prints and the value of its conversion to \<open>int64\<close>.
\<close>

datatype json =
    JNull
  | JBool bool
  | JInt int
  | JFloat string int
  | JString string
  | JList "json list"
  | JMap "(string \<times> json) list"

type_synonym jmap = "(string \<times> json) list option"

text \<open>\<open>fmt.Sprintf("%v", v)\<close>: the entries of a map are in key order.\<close>

fun show_json :: "json \<Rightarrow> string" where
  "show_json JNull = ''<nil>''"
| "show_json (JBool b) = (if b then ''true'' else ''false'')"
| "show_json (JInt n) = itoa n"
| "show_json (JFloat shown n) = shown"
| "show_json (JString s) = s"
| "show_json (JList vs) = ''['' @ str_join '' '' (map show_json vs) @ '']''"
| "show_json (JMap m) = ''map['' @ str_join '' ''
     (map (\<lambda>e. fst e @ '':'' @ snd e) (go_sort (\<lambda>a b. string_less (fst a) (fst b)) (map (\<lambda>(k, v). (k, show_json v)) m))) @ '']''"

section \<open>Fields\<close>

text \<open>\<open>m[key]\<close>: a missing field and one that is null are both nil.\<close>

definition field :: "jmap \<Rightarrow> string \<Rightarrow> json" where
  "field m key = (case m of None \<Rightarrow> JNull | Some es \<Rightarrow> al_get JNull es key)"

definition as_map :: "json \<Rightarrow> jmap" where
  "as_map v = (case v of JMap m \<Rightarrow> Some m | _ \<Rightarrow> None)"

definition as_string :: "json \<Rightarrow> string" where
  "as_string v = (case v of JString s \<Rightarrow> s | _ \<Rightarrow> '''')"

definition nmStr :: "jmap \<Rightarrow> string \<Rightarrow> string" where
  "nmStr m key = (if field m key = JNull then '''' else show_json (field m key))"

definition nmMap :: "jmap \<Rightarrow> string \<Rightarrow> jmap" where
  "nmMap m key = as_map (field m key)"

definition nmSlice :: "jmap \<Rightarrow> string \<Rightarrow> json list" where
  "nmSlice m key = (case field m key of JList vs \<Rightarrow> vs | _ \<Rightarrow> [])"

definition nmInt :: "jmap \<Rightarrow> string \<Rightarrow> int" where
  "nmInt m key = (case field m key of JFloat _ n \<Rightarrow> n | JInt n \<Rightarrow> n | _ \<Rightarrow> 0)"

definition nmBool :: "jmap \<Rightarrow> string \<Rightarrow> bool" where
  "nmBool m key = (case field m key of JBool b \<Rightarrow> b | _ \<Rightarrow> False)"

definition nmIntOr :: "jmap \<Rightarrow> string \<Rightarrow> int \<Rightarrow> int" where
  "nmIntOr m key dflt = (if field m key = JNull then dflt else nmInt m key)"

definition nmStrings :: "jmap \<Rightarrow> string \<Rightarrow> string list" where
  "nmStrings m key = map show_json (nmSlice m key)"

text \<open>A nil map of strings and an empty one are used alike, so both are the empty list.\<close>

definition toStrMap :: "json \<Rightarrow> labels" where
  "toStrMap v = (case v of JMap m \<Rightarrow> map (\<lambda>(k, x). (k, show_json x)) m | _ \<Rightarrow> [])"

definition countStr :: "jmap \<Rightarrow> string \<Rightarrow> string" where
  "countStr m key = itoa (nmInt m key)"

text \<open>The maps of a list, as \<open>raw.(map[string]interface{})\<close> finds them; \<open>real_maps\<close> skips the rest.\<close>

definition maps_of :: "jmap \<Rightarrow> string \<Rightarrow> jmap list" where
  "maps_of m key = map as_map (nmSlice m key)"

definition real_maps :: "jmap \<Rightarrow> string \<Rightarrow> jmap list" where
  "real_maps m key = filter (\<lambda>x. x \<noteq> None) (maps_of m key)"

section \<open>Rows\<close>

definition rowIf :: "string \<Rightarrow> string \<Rightarrow> InfoRow list" where
  "rowIf key v = (if v = '''' \<or> v = ''<nil>'' then [] else [\<lparr>irKey = key, irValue = v\<rparr>])"

definition info_section :: "string \<Rightarrow> InfoRow list \<Rightarrow> InfoSection list" where
  "info_section title rows = (if rows = [] then [] else [\<lparr>isTitle = title, isRows = rows\<rparr>])"

definition extractConditions :: "jmap \<Rightarrow> InfoCondition list" where
  "extractConditions status =
     map (\<lambda>c. \<lparr>icType = nmStr c ''type'', icStatus = nmStr c ''status'', icReason = nmStr c ''reason'', icMessage = nmStr c ''message''\<rparr>)
       (real_maps status ''conditions'')"

section \<open>Durations\<close>

text \<open>\<open>Duration.String\<close>: \<open>frac v prec\<close> are the digits after the point, without trailing zeros.\<close>

definition pad_left :: "nat \<Rightarrow> string \<Rightarrow> string" where
  "pad_left n s = replicate (n - length s) (CHR ''0'') @ s"

definition frac :: "nat \<Rightarrow> nat \<Rightarrow> string" where
  "frac v prec =
     (let digits = rev (dropWhile (\<lambda>c. c = CHR ''0'') (rev (pad_left prec (nat_str (v mod 10 ^ prec)))))
      in if digits = [] then '''' else ''.'' @ digits)"

definition duration_abs :: "nat \<Rightarrow> string" where
  "duration_abs u =
     (if u = 0 then ''0s''
      else if u < 1000 then nat_str u @ ''ns''
      else if u < 1000000 then nat_str (u div 1000) @ frac u 3 @ [CHR 0xC2, CHR 0xB5] @ ''s''
      else if u < 1000000000 then nat_str (u div 1000000) @ frac u 6 @ ''ms''
      else let s = u div 1000000000; m = s div 60; h = m div 60; f = frac u 9 in
        (if h > 0 then nat_str h @ ''h'' else '''') @ (if m > 0 then nat_str (m mod 60) @ ''m'' else '''') @
        nat_str (s mod 60) @ f @ ''s'')"

definition duration_string :: "duration \<Rightarrow> string" where
  "duration_string d = (if d < 0 then ''-'' else '''') @ duration_abs (nat \<bar>d\<bar>)"

text \<open>\<open>seconds\<close>: the product of two 64-bit integers, which may wrap around.\<close>

definition go_seconds :: "int \<Rightarrow> string" where
  "go_seconds n = duration_string (sint (word_of_int (n * second) :: 64 word))"

lemma seconds_in_range:
  assumes "\<bar>n\<bar> \<le> 9223372036"
  shows "go_seconds n = duration_string (n * second)"
proof -
  have "n * second < 2 ^ 63" "- (2 ^ 63) \<le> n * second" using assms by (simp_all add: second_def)
  then have "sint (word_of_int (n * second) :: 64 word) = n * second"
    unfolding sint_sbintrunc' by (simp add: signed_take_bit_int_eq_self)
  then show ?thesis by (simp add: go_seconds_def)
qed

lemma go_seconds_examples:
  "go_seconds 0 = ''0s''" "go_seconds 90 = ''1m30s''" "go_seconds 3661 = ''1h1m1s''"
  by (simp_all add: seconds_in_range duration_string_def duration_abs_def frac_def pad_left_def second_def) code_simp+

end
