(* ===== verification/DescribePod.thy ===== *)
theory DescribePod
  imports Unstructured
begin

text \<open>
  What is shown of a pod spec (describe.go): selectors, tolerations, probes, environment, mounts,
  security, volumes, and the sections of a Pod's containers and of a workload's pod template. Where the
  code appends to a list of rows, the model concatenates the lists.
\<close>

section \<open>Selectors\<close>

definition formatRequirement :: "jmap \<Rightarrow> string" where
  "formatRequirement e =
     (let key = nmStr e ''key''; vals = str_join '', '' (nmStrings e ''values''); op = nmStr e ''operator''
      in if op = ''In'' then key @ '' in ('' @ vals @ '')''
         else if op = ''NotIn'' then key @ '' notin ('' @ vals @ '')''
         else if op = ''Exists'' then key
         else if op = ''DoesNotExist'' then ''!'' @ key
         else if op = ''Gt'' then key @ ''>'' @ vals
         else if op = ''Lt'' then key @ ''<'' @ vals
         else key @ '' '' @ op @ '' ('' @ vals @ '')'')"

definition formatLabelSelector :: "jmap \<Rightarrow> string" where
  "formatLabelSelector sel =
     (let ml = joinKV (toStrMap (field sel ''matchLabels'')) in
      str_join '', '' ((if ml \<noteq> '''' then [ml] else []) @ map formatRequirement (real_maps sel ''matchExpressions'')))"

definition formatNodeSelectorTerms :: "json list \<Rightarrow> string" where
  "formatNodeSelectorTerms terms =
     str_join '' or '' (map (str_join '', '') (filter (\<lambda>exprs. exprs \<noteq> [])
           (map (\<lambda>t. map formatRequirement (real_maps (as_map t) ''matchExpressions'' @ real_maps (as_map t) ''matchFields'')) terms)))"

section \<open>Scheduling\<close>

definition isDefaultToleration :: "jmap \<Rightarrow> bool" where
  "isDefaultToleration t \<longleftrightarrow>
     nmStr t ''key'' \<in> {''node.kubernetes.io/not-ready'', ''node.kubernetes.io/unreachable''} \<and>
     nmStr t ''operator'' = ''Exists'' \<and> nmStr t ''effect'' = ''NoExecute'' \<and> nmIntOr t ''tolerationSeconds'' (- 1) = 300"

definition formatToleration :: "jmap \<Rightarrow> string" where
  "formatToleration t =
     (let effect = nmStr t ''effect'';
          s1 = nmStr t ''key'' @
            (if nmStr t ''operator'' \<noteq> ''Exists'' \<and> nmStr t ''value'' \<noteq> '''' then ''='' @ nmStr t ''value'' else '''') @
            (if effect \<noteq> '''' then '':'' @ effect else '''');
          s2 = (if s1 = '''' then ''op=Exists'' else s1)
      in s2 @ (if field t ''tolerationSeconds'' \<noteq> JNull then '' for '' @ itoa (nmInt t ''tolerationSeconds'') @ ''s'' else ''''))"

definition formatTolerations :: "jmap \<Rightarrow> string" where
  "formatTolerations spec =
     str_join '', '' (map formatToleration (filter (\<lambda>t. \<not> isDefaultToleration t) (real_maps spec ''tolerations'')))"

text \<open>\<open>len(nmMap(a, t)) > 0\<close>\<close>

definition affinityTypes :: "jmap \<Rightarrow> string" where
  "affinityTypes a =
     str_join '', '' (filter (\<lambda>t. case nmMap a t of Some (_ # _) \<Rightarrow> True | _ \<Rightarrow> False)
       [''nodeAffinity'', ''podAffinity'', ''podAntiAffinity''])"

definition schedulingRows :: "jmap \<Rightarrow> InfoRow list" where
  "schedulingRows spec =
     rowIf ''Service Account'' (nmStr spec ''serviceAccountName'') @
     (if nmStr spec ''restartPolicy'' \<noteq> ''Always'' then rowIf ''Restart Policy'' (nmStr spec ''restartPolicy'') else []) @
     rowIf ''Node Selector'' (joinKV (toStrMap (field spec ''nodeSelector''))) @
     rowIf ''Tolerations'' (formatTolerations spec) @
     rowIf ''Affinity'' (affinityTypes (nmMap spec ''affinity'')) @
     rowIf ''Priority Class'' (nmStr spec ''priorityClassName'')"

section \<open>Containers\<close>

definition joinWords :: "string list \<Rightarrow> string" where
  "joinWords ws = str_join '' '' (str_fields (str_join '' '' ws))"

definition formatProbe :: "jmap \<Rightarrow> string" where
  "formatProbe p =
     (let times = '' delay='' @ go_seconds (nmIntOr p ''initialDelaySeconds'' 0) @
                  '' timeout='' @ go_seconds (nmIntOr p ''timeoutSeconds'' 1) @
                  '' period='' @ go_seconds (nmIntOr p ''periodSeconds'' 10) @
                  '' #success='' @ itoa (nmIntOr p ''successThreshold'' 1) @
                  '' #failure='' @ itoa (nmIntOr p ''failureThreshold'' 3);
          h = nmMap p ''httpGet''; t = nmMap p ''tcpSocket''; e = nmMap p ''exec''; g = nmMap p ''grpc'';
          scheme = (if to_lower (nmStr h ''scheme'') = '''' then ''http'' else to_lower (nmStr h ''scheme''))
      in if h \<noteq> None then ''http-get '' @ scheme @ ''://'' @ nmStr h ''host'' @ '':'' @ nmStr h ''port'' @ nmStr h ''path'' @ times
         else if t \<noteq> None then ''tcp-socket '' @ nmStr t ''host'' @ '':'' @ nmStr t ''port'' @ times
         else if e \<noteq> None then ''exec ['' @ str_join '' '' (nmStrings e ''command'') @ '']'' @ times
         else if g \<noteq> None then ''grpc :'' @ nmStr g ''port'' @ times
         else '''')"

definition optional_mark :: "jmap \<Rightarrow> string" where
  "optional_mark m = (if nmBool m ''optional'' then '' (optional)'' else '''')"

definition formatEnvFrom :: "jmap \<Rightarrow> string" where
  "formatEnvFrom c =
     str_join '', '' (concat (map (\<lambda>ef.
       (case nmMap ef ''configMapRef'' of None \<Rightarrow> [] | r \<Rightarrow> [''configmap/'' @ nmStr r ''name'' @ optional_mark r]) @
       (case nmMap ef ''secretRef'' of None \<Rightarrow> [] | r \<Rightarrow> [''secret/'' @ nmStr r ''name'' @ optional_mark r]))
       (maps_of c ''envFrom'')))"

text \<open>The references of one variable; \<open>vf\<close> is its \<open>valueFrom\<close>.\<close>

definition env_ref :: "jmap \<Rightarrow> string list" where
  "env_ref e =
     (let vf = nmMap e ''valueFrom''; name = nmStr e ''name'';
          s = nmMap vf ''secretKeyRef''; c = nmMap vf ''configMapKeyRef'';
          f = nmMap vf ''fieldRef''; r = nmMap vf ''resourceFieldRef''
      in if vf = None then []
         else if s \<noteq> None then [name @ ''=secret/'' @ nmStr s ''name'' @ '':'' @ nmStr s ''key'' @ optional_mark s]
         else if c \<noteq> None then [name @ ''=configmap/'' @ nmStr c ''name'' @ '':'' @ nmStr c ''key'' @ optional_mark c]
         else if f \<noteq> None then [name @ ''=field:'' @ nmStr f ''fieldPath'']
         else if r \<noteq> None then [name @ ''=resource:'' @ nmStr r ''resource'']
         else [])"

definition formatEnvRefs :: "jmap \<Rightarrow> string" where
  "formatEnvRefs c = str_join '', '' (concat (map env_ref (maps_of c ''env'')))"

definition isAPIAccessVolume :: "string \<Rightarrow> bool" where
  "isAPIAccessVolume name \<longleftrightarrow> has_prefix name ''kube-api-access-''"

definition formatMounts :: "jmap \<Rightarrow> string" where
  "formatMounts c =
     str_join '', '' (map (\<lambda>m. nmStr m ''mountPath'' @ ''='' @ nmStr m ''name'' @ (if nmBool m ''readOnly'' then '' (ro)'' else ''''))
       (filter (\<lambda>m. \<not> isAPIAccessVolume (nmStr m ''name'')) (real_maps c ''volumeMounts'')))"

definition formatSecurity :: "jmap \<Rightarrow> jmap \<Rightarrow> string" where
  "formatSecurity c podSpec =
     (let sc = nmMap c ''securityContext''; psc = nmMap podSpec ''securityContext''; caps = nmMap sc ''capabilities'';
          either = (\<lambda>key. if nmStr sc key \<noteq> '''' then nmStr sc key else nmStr psc key);
          add = (\<lambda>name v. if v \<noteq> '''' then [name @ ''='' @ v] else [])
      in str_join '' ''
           (add ''runAsNonRoot'' (either ''runAsNonRoot'') @ add ''runAsUser'' (either ''runAsUser'') @
            add ''fsGroup'' (nmStr psc ''fsGroup'') @
            add ''readOnlyRootFilesystem'' (nmStr sc ''readOnlyRootFilesystem'') @
            add ''allowPrivilegeEscalation'' (nmStr sc ''allowPrivilegeEscalation'') @
            add ''privileged'' (nmStr sc ''privileged'') @
            add ''capabilities.drop'' (str_join '','' (nmStrings caps ''drop'')) @
            add ''capabilities.add'' (str_join '','' (nmStrings caps ''add''))))"

definition port_line :: "jmap \<Rightarrow> string" where
  "port_line p =
     nmStr p ''containerPort'' @ ''/'' @ (if nmStr p ''protocol'' = '''' then ''TCP'' else nmStr p ''protocol'')"

definition containerRows :: "jmap \<Rightarrow> jmap \<Rightarrow> InfoRow list" where
  "containerRows c podSpec =
     (let res = nmMap c ''resources''; req = nmMap res ''requests''; lim = nmMap res ''limits'' in
      rowIf ''Image'' (nmStr c ''image'') @
      rowIf ''CPU Request'' (nmStr req ''cpu'') @ rowIf ''Memory Request'' (nmStr req ''memory'') @
      rowIf ''CPU Limit'' (nmStr lim ''cpu'') @ rowIf ''Memory Limit'' (nmStr lim ''memory'') @
      rowIf ''Command'' (truncate_runes (joinWords (nmStrings c ''command'')) 200) @
      rowIf ''Args'' (truncate_runes (joinWords (nmStrings c ''args'')) 200) @
      rowIf ''Ports'' (str_join '', '' (map port_line (maps_of c ''ports''))) @
      rowIf ''Liveness'' (formatProbe (nmMap c ''livenessProbe'')) @
      rowIf ''Readiness'' (formatProbe (nmMap c ''readinessProbe'')) @
      rowIf ''Startup'' (formatProbe (nmMap c ''startupProbe'')) @
      rowIf ''Env From'' (formatEnvFrom c) @ rowIf ''Env Refs'' (formatEnvRefs c) @
      rowIf ''Mounts'' (formatMounts c) @ rowIf ''Security'' (formatSecurity c podSpec))"

definition containerSections :: "jmap \<Rightarrow> string \<Rightarrow> InfoSection list" where
  "containerSections spec pre =
     concat (map (\<lambda>(group, title).
       map (\<lambda>c. \<lparr>isTitle = pre @ title @ nmStr c ''name'', isRows = containerRows c spec\<rparr>) (real_maps spec group))
       [(''initContainers'', ''Init Container: ''), (''containers'', ''Container: '')])"

section \<open>Volumes\<close>

text \<open>The source of a volume is the first of these, else the first key but the name.\<close>

definition volumeSource :: "jmap \<Rightarrow> string" where
  "volumeSource v =
     (let pvc = nmMap v ''persistentVolumeClaim''; cm = nmMap v ''configMap''; s = nmMap v ''secret'';
          ed = nmMap v ''emptyDir''; hp = nmMap v ''hostPath''; csi = nmMap v ''csi''; nfs = nmMap v ''nfs''
      in if pvc \<noteq> None then ''pvc/'' @ nmStr pvc ''claimName''
         else if cm \<noteq> None then ''configmap/'' @ nmStr cm ''name'' @ optional_mark cm
         else if s \<noteq> None then ''secret/'' @ nmStr s ''secretName'' @ optional_mark s
         else if field v ''emptyDir'' \<noteq> JNull then
           ''emptyDir'' @ (if nmStr ed ''medium'' \<noteq> '''' then '' medium='' @ nmStr ed ''medium'' else '''') @
           (if nmStr ed ''sizeLimit'' \<noteq> '''' then '' sizeLimit='' @ nmStr ed ''sizeLimit'' else '''')
         else if hp \<noteq> None then ''hostPath '' @ nmStr hp ''path''
         else if csi \<noteq> None then ''csi '' @ nmStr csi ''driver''
         else if nfs \<noteq> None then ''nfs '' @ nmStr nfs ''server'' @ '':'' @ nmStr nfs ''path''
         else (case filter (\<lambda>k. k \<noteq> ''name'') (sortedKeys (case v of Some es \<Rightarrow> es | None \<Rightarrow> [])) of
                 k # _ \<Rightarrow> k | [] \<Rightarrow> ''''))"

definition volumeRows :: "jmap \<Rightarrow> InfoRow list" where
  "volumeRows spec =
     concat (map (\<lambda>v. rowIf (nmStr v ''name'') (volumeSource v))
       (filter (\<lambda>v. \<not> isAPIAccessVolume (nmStr v ''name'')) (real_maps spec ''volumes'')))"

definition podTemplateSections :: "jmap \<Rightarrow> InfoSection list" where
  "podTemplateSections tmpl =
     (let tspec = nmMap tmpl ''spec'' in
      info_section ''Pod Template''
        (rowIf ''Labels'' (joinKV (toStrMap (field (nmMap tmpl ''metadata'') ''labels''))) @ schedulingRows tspec) @
      containerSections tspec ''Template '' @
      info_section ''Template Volumes'' (volumeRows tspec))"

end
