(* ===== verification/DescribeKinds.thy ===== *)
theory DescribeKinds
  imports DescribePod
begin

text \<open>
  The description of an object by its kind (describe.go), and how an object is fetched for it:
  the resource of a kind and \<open>fetchObjectInfo\<close> (main.go).
\<close>

section \<open>Workloads\<close>

definition container_status_rows :: "jmap \<Rightarrow> InfoRow list" where
  "container_status_rows status =
     concat (map (\<lambda>(group, ending).
       map (\<lambda>cs. \<lparr>irKey = nmStr cs ''name'' @ ending,
                  irValue = ''ready='' @ (if nmBool cs ''ready'' then ''true'' else ''false'') @ ''  restarts='' @
                    itoa (nmInt cs ''restartCount'')\<rparr>) (real_maps status group))
       [(''initContainerStatuses'', '' (init)''), (''containerStatuses'', '''')])"

definition infoForPod :: "jmap \<Rightarrow> jmap \<Rightarrow> InfoSection list" where
  "infoForPod spec status =
     info_section ''Runtime''
       (rowIf ''Phase'' (nmStr status ''phase'') @ rowIf ''Reason'' (nmStr status ''reason'') @
        rowIf ''Message'' (nmStr status ''message'') @ rowIf ''Pod IP'' (nmStr status ''podIP'') @
        rowIf ''Node'' (nmStr spec ''nodeName'') @ rowIf ''Host IP'' (nmStr status ''hostIP'') @
        rowIf ''QoS Class'' (nmStr status ''qosClass'') @ schedulingRows spec) @
     containerSections spec '''' @ info_section ''Volumes'' (volumeRows spec) @
     info_section ''Container Status'' (container_status_rows status)"

definition infoForDeployment :: "jmap \<Rightarrow> jmap \<Rightarrow> InfoSection list" where
  "infoForDeployment spec status =
     \<lparr>isTitle = ''Replicas'', isRows =
        rowIf ''Replicas (desired)'' (countStr spec ''replicas'') @ rowIf ''Ready'' (countStr status ''readyReplicas'') @
        rowIf ''Available'' (countStr status ''availableReplicas'') @
        rowIf ''Unavailable'' (countStr status ''unavailableReplicas'') @
        rowIf ''Updated'' (countStr status ''updatedReplicas'') @
        rowIf ''Strategy'' (nmStr (nmMap spec ''strategy'') ''type'') @
        rowIf ''Selector'' (formatLabelSelector (nmMap spec ''selector''))\<rparr> #
     podTemplateSections (nmMap spec ''template'')"

definition infoForReplicaSet :: "jmap \<Rightarrow> jmap \<Rightarrow> InfoSection list" where
  "infoForReplicaSet spec status =
     \<lparr>isTitle = ''Replicas'', isRows =
        rowIf ''Replicas (desired)'' (countStr spec ''replicas'') @ rowIf ''Ready'' (countStr status ''readyReplicas'') @
        rowIf ''Available'' (countStr status ''availableReplicas'') @
        rowIf ''Selector'' (formatLabelSelector (nmMap spec ''selector''))\<rparr> #
     podTemplateSections (nmMap spec ''template'')"

definition formatClaimTemplate :: "jmap \<Rightarrow> string" where
  "formatClaimTemplate t =
     (let ts = nmMap t ''spec''; sc = nmStr ts ''storageClassName'';
          size = nmStr (nmMap (nmMap ts ''resources'') ''requests'') ''storage'';
          modes = nmStrings ts ''accessModes'';
          parts = (if sc \<noteq> '''' then [sc] else []) @ (if size \<noteq> '''' then [size] else []) @
                  (if modes \<noteq> [] then [str_join ''/'' modes] else [])
      in nmStr (nmMap t ''metadata'') ''name'' @
         (if parts \<noteq> [] then '' ('' @ str_join '', '' parts @ '')'' else ''''))"

definition infoForStatefulSet :: "jmap \<Rightarrow> jmap \<Rightarrow> InfoSection list" where
  "infoForStatefulSet spec status =
     \<lparr>isTitle = ''Replicas'', isRows =
        rowIf ''Replicas (desired)'' (countStr spec ''replicas'') @ rowIf ''Ready'' (countStr status ''readyReplicas'') @
        rowIf ''Current'' (countStr status ''currentReplicas'') @ rowIf ''Updated'' (countStr status ''updatedReplicas'') @
        rowIf ''Service Name'' (nmStr spec ''serviceName'') @
        rowIf ''Selector'' (formatLabelSelector (nmMap spec ''selector'')) @
        rowIf ''Volume Claim Templates''
          (str_join '', '' (map formatClaimTemplate (real_maps spec ''volumeClaimTemplates'')))\<rparr> #
     podTemplateSections (nmMap spec ''template'')"

definition infoForDaemonSet :: "jmap \<Rightarrow> jmap \<Rightarrow> InfoSection list" where
  "infoForDaemonSet spec status =
     \<lparr>isTitle = ''Node Schedule'', isRows =
        rowIf ''Desired'' (countStr status ''desiredNumberScheduled'') @
        rowIf ''Current'' (countStr status ''currentNumberScheduled'') @
        rowIf ''Ready'' (countStr status ''numberReady'') @ rowIf ''Available'' (countStr status ''numberAvailable'') @
        rowIf ''Unavailable'' (countStr status ''numberUnavailable'') @
        rowIf ''Selector'' (formatLabelSelector (nmMap spec ''selector''))\<rparr> #
     podTemplateSections (nmMap spec ''template'')"

definition infoForJob :: "jmap \<Rightarrow> jmap \<Rightarrow> InfoSection list" where
  "infoForJob spec status =
     \<lparr>isTitle = ''Status'', isRows =
        (if field spec ''completions'' \<noteq> JNull then rowIf ''Completions'' (countStr spec ''completions'') else []) @
        rowIf ''Active'' (countStr status ''active'') @ rowIf ''Succeeded'' (countStr status ''succeeded'') @
        rowIf ''Failed'' (countStr status ''failed'') @ rowIf ''Start Time'' (nmStr status ''startTime'') @
        rowIf ''Completion Time'' (nmStr status ''completionTime'') @
        (if field spec ''backoffLimit'' \<noteq> JNull then rowIf ''Backoff Limit'' (countStr spec ''backoffLimit'') else []) @
        (if field spec ''activeDeadlineSeconds'' \<noteq> JNull
         then rowIf ''Active Deadline'' (itoa (nmInt spec ''activeDeadlineSeconds'') @ ''s'') else [])\<rparr> #
     podTemplateSections (nmMap spec ''template'')"

definition infoForCronJob :: "jmap \<Rightarrow> jmap \<Rightarrow> InfoSection list" where
  "infoForCronJob spec status =
     \<lparr>isTitle = ''CronJob'', isRows =
        rowIf ''Schedule'' (nmStr spec ''schedule'') @ rowIf ''Suspend'' (nmStr spec ''suspend'') @
        rowIf ''Last Schedule'' (nmStr status ''lastScheduleTime'') @
        rowIf ''Last Successful'' (nmStr status ''lastSuccessfulTime'') @
        rowIf ''Active Jobs'' (itoa (int (length (nmSlice status ''active'')))) @
        rowIf ''Concurrency Policy'' (nmStr spec ''concurrencyPolicy'')\<rparr> #
     podTemplateSections (nmMap (nmMap (nmMap spec ''jobTemplate'') ''spec'') ''template'')"

section \<open>Services and Ingresses\<close>

definition loadBalancerIngress :: "jmap \<Rightarrow> string" where
  "loadBalancerIngress status =
     str_join '', '' (concat (map (\<lambda>lb.
       if nmStr lb ''ip'' \<noteq> '''' then [nmStr lb ''ip'']
       else if nmStr lb ''hostname'' \<noteq> '''' then [nmStr lb ''hostname''] else [])
       (maps_of (nmMap status ''loadBalancer'') ''ingress'')))"

definition arrow :: string where "arrow = [CHR 0xE2, CHR 0x86, CHR 0x92]"

definition service_port :: "jmap \<Rightarrow> string" where
  "service_port p =
     (if nmStr p ''name'' \<noteq> '''' then nmStr p ''name'' @ '':'' else '''') @
     nmStr p ''port'' @ arrow @ nmStr p ''targetPort'' @ ''/'' @ nmStr p ''protocol''"

definition infoForService :: "jmap \<Rightarrow> jmap \<Rightarrow> string \<Rightarrow> InfoSection list" where
  "infoForService spec status endpoints =
     (let sel = joinKV (toStrMap (field spec ''selector'')) in
      [\<lparr>isTitle = ''Service'', isRows =
         rowIf ''Type'' (nmStr spec ''type'') @ rowIf ''Cluster IP'' (nmStr spec ''clusterIP'') @
         rowIf ''External IPs'' (str_join '', '' (nmStrings spec ''externalIPs'')) @
         rowIf ''Load Balancer'' (loadBalancerIngress status) @
         rowIf ''Ports'' (str_join '', '' (map service_port (real_maps spec ''ports''))) @
         rowIf ''Session Affinity'' (nmStr spec ''sessionAffinity'') @
         rowIf ''Selector'' (if sel = '''' then ''none'' else sel) @ rowIf ''Endpoints'' endpoints\<rparr>])"

text \<open>
  \<open>formatEndpoints\<close>: a slice is the number of its first port, if there is one that is set, and its
  endpoints with their addresses and ready condition.
\<close>

type_synonym endpoint_slice = "int option \<times> (string list \<times> bool option) list"

definition maxEndpointAddrs :: nat where "maxEndpointAddrs = 5"

definition slice_addrs :: "endpoint_slice \<Rightarrow> (string \<times> bool) list" where
  "slice_addrs s =
     (case s of (port, es) \<Rightarrow>
        concat (map (\<lambda>(addrs, ready).
          case addrs of [] \<Rightarrow> []
          | a # _ \<Rightarrow> [(a @ (case port of Some n \<Rightarrow> '':'' @ itoa n | None \<Rightarrow> ''''), ready \<noteq> Some False)]) es))"

text \<open>The first endpoint of each address.\<close>

definition add_endpoint :: "(string \<times> bool) list \<Rightarrow> string \<times> bool \<Rightarrow> (string \<times> bool) list" where
  "add_endpoint eps e = (if fst e \<in> fst ` set eps then eps else eps @ [e])"

definition endpoint_less :: "string \<times> bool \<Rightarrow> string \<times> bool \<Rightarrow> bool" where
  "endpoint_less a b = (if snd a \<noteq> snd b then snd a else fst a < fst b)"

definition formatEndpoints :: "endpoint_slice list \<Rightarrow> string" where
  "formatEndpoints slices =
     (let eps = foldl add_endpoint [] (concat (map slice_addrs slices)) in
      if eps = [] then ''none''
      else let sorted = go_sort endpoint_less eps;
               ready = length (filter snd sorted);
               rest = length sorted - ready
           in itoa (int ready) @ '' ready'' @ (if rest > 0 then '', '' @ itoa (int rest) @ '' not ready'' else '''') @ '': '' @
              str_join '', '' (map fst (take maxEndpointAddrs sorted)))"

definition ingressBackend :: "jmap \<Rightarrow> string" where
  "ingressBackend b =
     (let svc = nmMap b ''service''; r = nmMap b ''resource''; port = nmMap svc ''port'';
          p = (if nmStr port ''number'' = '''' then nmStr port ''name'' else nmStr port ''number'')
      in if svc = None then (if r \<noteq> None then nmStr r ''kind'' @ ''/'' @ nmStr r ''name'' else '''')
         else if p = '''' then nmStr svc ''name'' else nmStr svc ''name'' @ '':'' @ p)"

definition ingress_rules :: "jmap \<Rightarrow> string list" where
  "ingress_rules r =
     map (\<lambda>p. nmStr r ''host'' @ nmStr p ''path'' @ '' '' @ arrow @ '' '' @ ingressBackend (nmMap p ''backend''))
       (maps_of (nmMap r ''http'') ''paths'')"

definition ingress_tls :: "jmap \<Rightarrow> string list" where
  "ingress_tls t =
     (let hosts = nmStrings t ''hosts'';
          s = (if hosts \<noteq> [] then trim_space (nmStr t ''secretName'' @ '' ('' @ str_join '', '' hosts @ '')'')
               else nmStr t ''secretName'')
      in if s \<noteq> '''' then [s] else [])"

definition infoForIngress :: "jmap \<Rightarrow> jmap \<Rightarrow> InfoSection list" where
  "infoForIngress spec status =
     info_section ''Ingress''
       (rowIf ''Class'' (nmStr spec ''ingressClassName'') @
        rowIf ''Rules'' (str_join '', '' (concat (map ingress_rules (maps_of spec ''rules'')))) @
        rowIf ''Default Backend'' (ingressBackend (nmMap spec ''defaultBackend'')) @
        rowIf ''TLS'' (str_join '', '' (concat (map ingress_tls (maps_of spec ''tls'')))) @
        rowIf ''Load Balancer'' (loadBalancerIngress status))"

section \<open>Storage\<close>

definition infoForPVC :: "jmap \<Rightarrow> jmap \<Rightarrow> InfoSection list" where
  "infoForPVC spec status =
     info_section ''Claim''
       (rowIf ''Status'' (nmStr status ''phase'') @ rowIf ''Volume'' (nmStr spec ''volumeName'') @
        rowIf ''Storage Class'' (nmStr spec ''storageClassName'') @
        rowIf ''Access Modes'' (str_join '', '' (nmStrings spec ''accessModes'')) @
        rowIf ''Requested'' (nmStr (nmMap (nmMap spec ''resources'') ''requests'') ''storage'') @
        rowIf ''Capacity'' (nmStr (nmMap status ''capacity'') ''storage'') @
        rowIf ''Volume Mode'' (nmStr spec ''volumeMode''))"

definition not_source :: "string list" where
  "not_source = [''accessModes'', ''capacity'', ''claimRef'', ''mountOptions'', ''nodeAffinity'',
     ''persistentVolumeReclaimPolicy'', ''storageClassName'', ''volumeMode'', ''volumeAttributesClassName'']"

definition pvSource :: "jmap \<Rightarrow> string" where
  "pvSource spec =
     (let nfs = nmMap spec ''nfs''; csi = nmMap spec ''csi''; hp = nmMap spec ''hostPath''; loc = nmMap spec ''local''
      in if nfs \<noteq> None then ''nfs '' @ nmStr nfs ''server'' @ '':'' @ nmStr nfs ''path''
         else if csi \<noteq> None then trim_space (''csi '' @ nmStr csi ''driver'' @ '' '' @ nmStr csi ''volumeHandle'')
         else if hp \<noteq> None then ''hostPath '' @ nmStr hp ''path''
         else if loc \<noteq> None then ''local '' @ nmStr loc ''path''
         else (case filter (\<lambda>k. k \<notin> set not_source) (sortedKeys (case spec of Some es \<Rightarrow> es | None \<Rightarrow> [])) of
                 k # _ \<Rightarrow> k | [] \<Rightarrow> ''''))"

definition infoForPV :: "jmap \<Rightarrow> jmap \<Rightarrow> InfoSection list" where
  "infoForPV spec status =
     (let cr = nmMap spec ''claimRef'' in
      info_section ''Volume''
       (rowIf ''Status'' (nmStr status ''phase'') @
        (if cr \<noteq> None \<and> nmStr cr ''name'' \<noteq> '''' then rowIf ''Claim'' (nmStr cr ''namespace'' @ ''/'' @ nmStr cr ''name'') else []) @
        rowIf ''Reclaim Policy'' (nmStr spec ''persistentVolumeReclaimPolicy'') @
        rowIf ''Storage Class'' (nmStr spec ''storageClassName'') @
        rowIf ''Access Modes'' (str_join '', '' (nmStrings spec ''accessModes'')) @
        rowIf ''Capacity'' (nmStr (nmMap spec ''capacity'') ''storage'') @
        rowIf ''Source'' (pvSource spec) @
        rowIf ''Node Affinity''
          (formatNodeSelectorTerms (nmSlice (nmMap (nmMap spec ''nodeAffinity'') ''required'') ''nodeSelectorTerms'')) @
        rowIf ''Message'' (nmStr status ''message'')))"

section \<open>Nodes and autoscalers\<close>

definition taint_line :: "jmap \<Rightarrow> string" where
  "taint_line t = nmStr t ''key'' @ (if nmStr t ''value'' \<noteq> '''' then ''='' @ nmStr t ''value'' else '''') @ '':'' @ nmStr t ''effect''"

definition allocatable_parts :: "labels \<Rightarrow> string list" where
  "allocatable_parts alloc =
     concat (map (\<lambda>k. case map_of alloc k of Some v \<Rightarrow> [k @ ''='' @ v] | None \<Rightarrow> []) [''cpu'', ''memory'', ''pods'']) @
     map (\<lambda>k. k @ ''='' @ al_get '''' alloc k) (filter (\<lambda>k. str_contains k ''/'') (sortedKeys alloc))"

definition infoForNode :: "jmap \<Rightarrow> jmap \<Rightarrow> InfoSection list" where
  "infoForNode spec status =
     info_section ''Node''
       ((if nmBool spec ''unschedulable'' then rowIf ''Unschedulable'' ''true'' else []) @
        rowIf ''Taints'' (str_join '', '' (map taint_line (real_maps spec ''taints''))) @
        rowIf ''Kubelet Version'' (nmStr (nmMap status ''nodeInfo'') ''kubeletVersion'') @
        rowIf ''Allocatable'' (str_join '', '' (allocatable_parts (toStrMap (field status ''allocatable'')))))"

definition hpaMetric :: "jmap \<Rightarrow> string \<times> jmap" where
  "hpaMetric m =
     (let t = nmStr m ''type'';
          named = (\<lambda>src. (nmStr src ''name'', src));
          metric = (\<lambda>src. (nmStr (nmMap src ''metric'') ''name'', src))
      in if t = ''Resource'' then named (nmMap m ''resource'')
         else if t = ''ContainerResource'' then named (nmMap m ''containerResource'')
         else if t = ''Pods'' then metric (nmMap m ''pods'')
         else if t = ''Object'' then metric (nmMap m ''object'')
         else if t = ''External'' then metric (nmMap m ''external'')
         else metric None)"

definition hpaValue :: "jmap \<Rightarrow> string" where
  "hpaValue v =
     (if field v ''averageUtilization'' \<noteq> JNull then itoa (nmInt v ''averageUtilization'') @ ''%''
      else if nmStr v ''averageValue'' \<noteq> '''' then nmStr v ''averageValue''
      else nmStr v ''value'')"

definition current_metric :: "(string, string) gomap \<Rightarrow> jmap \<Rightarrow> (string, string) gomap" where
  "current_metric cur m =
     (case hpaMetric m of (name, src) \<Rightarrow>
        if name \<noteq> '''' then al_set (nmStr m ''type'' @ ''/'' @ name) (hpaValue (nmMap src ''current'')) cur else cur)"

definition metric_line :: "(string, string) gomap \<Rightarrow> jmap \<Rightarrow> string list" where
  "metric_line current m =
     (case hpaMetric m of (name, src) \<Rightarrow>
        if name = '''' then []
        else let cur = al_get '''' current (nmStr m ''type'' @ ''/'' @ name) in
          [name @ '': '' @ (if cur = '''' then ''<unknown>'' else cur) @ ''/'' @ hpaValue (nmMap src ''target'')])"

definition infoForHPA :: "jmap \<Rightarrow> jmap \<Rightarrow> InfoSection list" where
  "infoForHPA spec status =
     (let r = nmMap spec ''scaleTargetRef'';
          current = foldl current_metric [] (maps_of status ''currentMetrics'')
      in info_section ''Autoscaler''
       ((if r \<noteq> None then rowIf ''Target'' (nmStr r ''kind'' @ ''/'' @ nmStr r ''name'') else []) @
        (if field spec ''minReplicas'' \<noteq> JNull then rowIf ''Min Replicas'' (countStr spec ''minReplicas'') else []) @
        (if field spec ''maxReplicas'' \<noteq> JNull then rowIf ''Max Replicas'' (countStr spec ''maxReplicas'') else []) @
        rowIf ''Current Replicas'' (countStr status ''currentReplicas'') @
        rowIf ''Desired Replicas'' (countStr status ''desiredReplicas'') @
        rowIf ''Metrics'' (str_join '', '' (concat (map (metric_line current) (maps_of spec ''metrics''))))))"

section \<open>ConfigMaps and Secrets\<close>

definition entries :: "jmap \<Rightarrow> (string \<times> json) list" where
  "entries m = (case m of Some es \<Rightarrow> es | None \<Rightarrow> [])"

definition dataKeys :: "jmap \<Rightarrow> string" where
  "dataKeys raw =
     str_join '', '' (go_sort string_less (sortedKeys (entries (nmMap raw ''data'')) @ sortedKeys (entries (nmMap raw ''binaryData''))))"

definition infoForConfigMap :: "jmap \<Rightarrow> InfoSection list" where
  "infoForConfigMap raw = info_section ''Data'' (rowIf ''Keys'' (dataKeys raw))"

definition infoForSecret :: "jmap \<Rightarrow> InfoSection list" where
  "infoForSecret raw = info_section ''Data'' (rowIf ''Type'' (nmStr raw ''type'') @ rowIf ''Keys'' (dataKeys raw))"

section \<open>An object\<close>

definition describeSections :: "string \<Rightarrow> jmap \<Rightarrow> string \<Rightarrow> InfoSection list \<times> InfoCondition list" where
  "describeSections kind raw endpoints =
     (let spec = nmMap raw ''spec''; status = nmMap raw ''status''; k = ascii_lower kind; cs = extractConditions status
      in if k = ''pod'' then (infoForPod spec status, cs)
         else if k = ''deployment'' then (infoForDeployment spec status, cs)
         else if k = ''replicaset'' then (infoForReplicaSet spec status, cs)
         else if k = ''statefulset'' then (infoForStatefulSet spec status, cs)
         else if k = ''daemonset'' then (infoForDaemonSet spec status, cs)
         else if k = ''job'' then (infoForJob spec status, cs)
         else if k = ''cronjob'' then (infoForCronJob spec status, [])
         else if k = ''service'' then (infoForService spec status endpoints, [])
         else if k = ''persistentvolumeclaim'' then (infoForPVC spec status, cs)
         else if k = ''persistentvolume'' then (infoForPV spec status, [])
         else if k = ''node'' then (infoForNode spec status, cs)
         else if k = ''horizontalpodautoscaler'' then (infoForHPA spec status, cs)
         else if k = ''ingress'' then (infoForIngress spec status, [])
         else if k = ''configmap'' then (infoForConfigMap raw, [])
         else if k = ''secret'' then (infoForSecret raw, [])
         else ([], cs))"

text \<open>\<open>describeObject\<close>; \<open>parse_time\<close> is \<open>time.Parse\<close> with RFC3339.\<close>

definition shown_annotation :: "string \<times> string \<Rightarrow> bool" where
  "shown_annotation a \<longleftrightarrow> \<not> (str_contains (fst a) ''last-applied-configuration'' \<or> length (runes (snd a)) > 200)"

definition describeObject :: "(string \<Rightarrow> time option) \<Rightarrow> ObjectInfo \<Rightarrow> jmap \<Rightarrow> string \<Rightarrow> time \<Rightarrow> ObjectInfo" where
  "describeObject parse_time info raw endpoints now =
     (let meta = nmMap raw ''metadata'';
          shown = filter shown_annotation (toStrMap (field meta ''annotations''));
          ct = nmStr meta ''creationTimestamp''
      in case describeSections (oiKind info) raw endpoints of
           (sections, conditions) \<Rightarrow>
             info\<lparr>oiLabels := toStrMap (field meta ''labels''),
               oiAge := (if ct \<noteq> '''' then (case parse_time ct of Some t \<Rightarrow> formatDuration (time_sub now t) | None \<Rightarrow> oiAge info)
                         else oiAge info),
               oiAnnotations := (if shown \<noteq> [] then shown else oiAnnotations info),
               oiSections := sections, oiConditions := conditions\<rparr>)"

end
