(* ===== verification/FetchObject.thy ===== *)
theory FetchObject
  imports DescribeKinds Correlate
begin

text \<open>
  Fetching an object for its description (main.go): the resource of a kind, from the built-in table or by
  discovery, \<open>fetchObjectInfo\<close> and its endpoint. The API server is an argument. Then what a description
  never shows: values of ConfigMaps and Secrets, their copy in an annotation, and literal environment
  values.
\<close>

section \<open>The resource of a kind\<close>

record gvr =
  gvGroup :: string
  gvVersion :: string
  gvResource :: string

definition core_v1 :: "string \<Rightarrow> gvr" where
  "core_v1 r = \<lparr>gvGroup = '''', gvVersion = ''v1'', gvResource = r\<rparr>"

definition apps_v1 :: "string \<Rightarrow> gvr" where
  "apps_v1 r = \<lparr>gvGroup = ''apps'', gvVersion = ''v1'', gvResource = r\<rparr>"

definition batch_v1 :: "string \<Rightarrow> gvr" where
  "batch_v1 r = \<lparr>gvGroup = ''batch'', gvVersion = ''v1'', gvResource = r\<rparr>"

definition staticGVR :: "(string, gvr) gomap" where
  "staticGVR =
     [(''pod'', core_v1 ''pods''), (''pods'', core_v1 ''pods''),
      (''deployment'', apps_v1 ''deployments''), (''deployments'', apps_v1 ''deployments''),
      (''replicaset'', apps_v1 ''replicasets''), (''replicasets'', apps_v1 ''replicasets''),
      (''statefulset'', apps_v1 ''statefulsets''), (''statefulsets'', apps_v1 ''statefulsets''),
      (''daemonset'', apps_v1 ''daemonsets''), (''daemonsets'', apps_v1 ''daemonsets''),
      (''service'', core_v1 ''services''), (''services'', core_v1 ''services''),
      (''configmap'', core_v1 ''configmaps''), (''configmaps'', core_v1 ''configmaps''),
      (''persistentvolumeclaim'', core_v1 ''persistentvolumeclaims''),
      (''job'', batch_v1 ''jobs''), (''jobs'', batch_v1 ''jobs''), (''cronjob'', batch_v1 ''cronjobs''),
      (''ingress'', \<lparr>gvGroup = ''networking.k8s.io'', gvVersion = ''v1'', gvResource = ''ingresses''\<rparr>),
      (''node'', core_v1 ''nodes''), (''nodes'', core_v1 ''nodes''), (''secret'', core_v1 ''secrets''),
      (''serviceaccount'', core_v1 ''serviceaccounts''), (''persistentvolume'', core_v1 ''persistentvolumes''),
      (''horizontalpodautoscaler'',
       \<lparr>gvGroup = ''autoscaling'', gvVersion = ''v2'', gvResource = ''horizontalpodautoscalers''\<rparr>)]"

text \<open>
  What discovery answers: the error, or lists of resources (name and kind), each with its group and
  version when they parse. An error next to some lists is ignored.
\<close>

type_synonym discovery = "string + ((string \<times> string) option \<times> (string \<times> string) list) list"

definition discovered :: "((string \<times> string) option \<times> (string \<times> string) list) list \<Rightarrow> (string \<times> gvr) list" where
  "discovered answers =
     concat (map (\<lambda>(gv, resources).
       case gv of None \<Rightarrow> []
       | Some (g, v) \<Rightarrow>
           map (\<lambda>(name, kind). (ascii_lower kind, \<lparr>gvGroup = g, gvVersion = v, gvResource = name\<rparr>))
             (filter (\<lambda>(name, kind). \<not> str_contains name ''/'') resources)) answers)"

text \<open>\<open>discoverGVR\<close> stores every resource found; of two of one kind the last counts.\<close>

definition discoverGVR :: "discovery \<Rightarrow> string \<Rightarrow> (string, gvr) gomap \<Rightarrow> (string + gvr) \<times> (string, gvr) gomap" where
  "discoverGVR answer k cache =
     (case map_of cache k of
        Some g \<Rightarrow> (Inr g, cache)
      | None \<Rightarrow>
          (case answer of
             Inl err \<Rightarrow> (Inl (''API discovery: '' @ err), cache)
           | Inr answers \<Rightarrow>
               (case map_of (rev (discovered answers)) k of
                  Some g \<Rightarrow> Inr g | None \<Rightarrow> Inl (''unknown kind: '' @ k),
                foldl (\<lambda>c (kind, g). al_set kind g c) cache (discovered answers))))"

definition kindToGVR :: "discovery \<Rightarrow> string \<Rightarrow> (string, gvr) gomap \<Rightarrow> (string + gvr) \<times> (string, gvr) gomap" where
  "kindToGVR answer kind cache =
     (let k = ascii_lower kind in
      case map_of staticGVR k of
        Some g \<Rightarrow> (Inr g, cache)
      | None \<Rightarrow> (case map_of cache k of Some g \<Rightarrow> (Inr g, cache) | None \<Rightarrow> discoverGVR answer k cache))"

section \<open>The object\<close>

definition no_info :: "string \<Rightarrow> string \<Rightarrow> string \<Rightarrow> ObjectInfo" where
  "no_info ns kind name = \<lparr>oiKind = kind, oiName = name, oiNamespace = ns, oiNotFound = False, oiError = '''', oiAge = '''',
     oiLabels = [], oiAnnotations = [], oiSections = [], oiConditions = []\<rparr>"

text \<open>
  \<open>fetchObjectInfo\<close>: \<open>resource\<close> is what \<open>kindToGVR\<close> gave, \<open>fetch\<close> gets an object of a resource (from no
  namespace when it is empty), \<open>slices\<close> answers a Service's EndpointSlices if it can.
\<close>

definition fetchObjectInfo :: "(string \<Rightarrow> time option) \<Rightarrow> time \<Rightarrow> string + gvr \<Rightarrow>
    (gvr \<Rightarrow> string \<Rightarrow> string \<Rightarrow> (string \<times> json) list api_answer) \<Rightarrow>
    (string \<Rightarrow> string \<Rightarrow> endpoint_slice list option) \<Rightarrow> string \<Rightarrow> string \<Rightarrow> string \<Rightarrow> ObjectInfo" where
  "fetchObjectInfo parse_time now resource fetch slices namespace kind name =
     (let info = no_info namespace kind name; ns = apiNamespace namespace in
      case resource of
        Inl err \<Rightarrow> info\<lparr>oiError := err\<rparr>
      | Inr g \<Rightarrow>
          (case fetch g ns name of
             NotFound _ \<Rightarrow> info\<lparr>oiNotFound := True\<rparr>
           | ApiErr err \<Rightarrow> info\<lparr>oiError := err\<rparr>
           | Got raw \<Rightarrow>
               let endpoints = (if equal_fold kind ''Service''
                                then (case slices ns name of Some ss \<Rightarrow> formatEndpoints ss | None \<Rightarrow> '''') else '''')
               in describeObject parse_time info (Some raw) endpoints now))"

datatype object_reply = ObjectStatus nat | ObjectReply ObjectInfo

definition handleAPIObject :: "(clusterState \<Rightarrow> string \<Rightarrow> string \<Rightarrow> string \<Rightarrow> ObjectInfo) \<Rightarrow> string \<Rightarrow> api_cluster \<Rightarrow> object_reply" where
  "handleAPIObject info path0 target =
     (let path = (if has_prefix path0 ''/api/object/'' then drop 12 path0 else path0) in
      case split3 path of
        [ns, kind, name] \<Rightarrow>
          (case target of
             ApiConflict _ \<Rightarrow> ObjectStatus 409
           | ApiCluster None \<Rightarrow> ObjectStatus 200
           | ApiCluster (Some c) \<Rightarrow> ObjectReply (info c ns kind name))
      | _ \<Rightarrow> ObjectStatus 400)"

end
