(* ===== verification/DescribeSafe.thy ===== *)
theory DescribeSafe
  imports FetchObject
begin

text \<open>
  What a description never shows (describe.go): the values of a ConfigMap or Secret, their copy in the
  annotation of the last applied configuration, and the literal values of environment variables. Each is
  stated as: changing those values does not change the description.
\<close>

section \<open>Changing parts of an object\<close>

definition altered :: "string \<Rightarrow> (json \<Rightarrow> json) \<Rightarrow> jmap \<Rightarrow> jmap" where
  "altered key f m = map_option (map (\<lambda>(k, v). if k = key then (k, f v) else (k, v))) m"

definition inside :: "(jmap \<Rightarrow> jmap) \<Rightarrow> json \<Rightarrow> json" where
  "inside g v = (case v of JMap es \<Rightarrow> (case g (Some es) of Some es' \<Rightarrow> JMap es' | None \<Rightarrow> v) | _ \<Rightarrow> v)"

definition each :: "(json \<Rightarrow> json) \<Rightarrow> json \<Rightarrow> json" where
  "each g v = (case v of JList vs \<Rightarrow> JList (map g vs) | _ \<Rightarrow> v)"

definition all_values :: "(json \<Rightarrow> json) \<Rightarrow> jmap \<Rightarrow> jmap" where
  "all_values h m = map_option (map (\<lambda>(k, v). (k, h v))) m"

lemma map_of_altered:
  "map_of (map (\<lambda>(k, v). if k = key then (k, f v) else (k, v)) es) k =
   (if k = key then map_option f (map_of es k) else map_of es k)"
  by (induction es) (auto simp: split_beta)

lemma field_altered: "f JNull = JNull \<Longrightarrow> field (altered key f m) key = f (field m key)"
  by (simp add: field_def altered_def map_of_altered al_get_def split: option.split)

lemma field_unaltered: "k \<noteq> key \<Longrightarrow> field (altered key f m) k = field m k"
  by (simp add: field_def altered_def map_of_altered al_get_def split: option.split)

lemma as_map_inside: "(\<And>es. g (Some es) \<noteq> None) \<Longrightarrow> g None = None \<Longrightarrow> as_map (inside g v) = g (as_map v)"
  by (cases v) (auto simp: inside_def as_map_def split: option.splits)

lemma inside_null [simp]: "inside g JNull = JNull" by (simp add: inside_def)
lemma each_null [simp]: "each g JNull = JNull" by (simp add: each_def)

lemma altered_kept [simp]: "altered k f (Some es) \<noteq> None" "altered k f None = None"
  "(altered k f m = None) = (m = None)"
  by (simp_all add: altered_def)

lemma unaltered [simp]:
  assumes "k \<noteq> key"
  shows "nmStr (altered key f m) k = nmStr m k" "nmMap (altered key f m) k = nmMap m k"
    "nmSlice (altered key f m) k = nmSlice m k" "nmInt (altered key f m) k = nmInt m k"
    "nmIntOr (altered key f m) k d = nmIntOr m k d"
    "nmBool (altered key f m) k = nmBool m k" "nmStrings (altered key f m) k = nmStrings m k"
    "maps_of (altered key f m) k = maps_of m k" "real_maps (altered key f m) k = real_maps m k"
    "countStr (altered key f m) k = countStr m k" "field (altered key f m) k = field m k"
  using assms by (simp_all add: nmStr_def nmMap_def nmSlice_def nmInt_def nmIntOr_def nmBool_def nmStrings_def
      maps_of_def real_maps_def countStr_def field_unaltered)

lemma nmMap_altered:
  "(\<And>es. g (Some es) \<noteq> None) \<Longrightarrow> g None = None \<Longrightarrow> nmMap (altered key (inside g) m) key = g (nmMap m key)"
  by (simp add: nmMap_def field_altered as_map_inside)

lemma maps_altered:
  "(\<And>es. g (Some es) \<noteq> None) \<Longrightarrow> g None = None \<Longrightarrow> maps_of (altered key (each (inside g)) m) key = map g (maps_of m key)"
  by (simp add: maps_of_def nmSlice_def field_altered each_def as_map_inside split: json.split)

lemma real_maps_altered:
  assumes "\<And>es. g (Some es) \<noteq> None" "g None = None"
  shows "real_maps (altered key (each (inside g)) m) key = map g (real_maps m key)"
proof -
  have "(g x \<noteq> None) = (x \<noteq> None)" for x using assms by (cases x) simp_all
  then have "(\<lambda>x. x \<noteq> None) \<circ> g = (\<lambda>x. x \<noteq> None)" by (simp add: fun_eq_iff)
  moreover have "maps_of (altered key (each (inside g)) m) key = map g (maps_of m key)"
    by (rule maps_altered) (rule assms)+
  ultimately show ?thesis by (simp only: real_maps_def filter_map)
qed

section \<open>Literal environment values\<close>

text \<open>Every \<open>env[].value\<close> of a pod spec's containers and init containers.\<close>

definition with_env :: "(json \<Rightarrow> json) \<Rightarrow> jmap \<Rightarrow> jmap" where
  "with_env h c = altered ''env'' (each (inside (altered ''value'' h))) c"

definition pod_env :: "(json \<Rightarrow> json) \<Rightarrow> jmap \<Rightarrow> jmap" where
  "pod_env h spec =
     altered ''containers'' (each (inside (with_env h))) (altered ''initContainers'' (each (inside (with_env h))) spec)"

definition template_env :: "(json \<Rightarrow> json) \<Rightarrow> jmap \<Rightarrow> jmap" where
  "template_env h tmpl = altered ''spec'' (inside (pod_env h)) tmpl"

definition spec_env :: "(json \<Rightarrow> json) \<Rightarrow> jmap \<Rightarrow> jmap" where
  "spec_env h spec =
     pod_env h (altered ''template'' (inside (template_env h))
       (altered ''jobTemplate'' (inside (altered ''spec'' (inside (altered ''template'' (inside (template_env h)))))) spec))"

definition object_env :: "(json \<Rightarrow> json) \<Rightarrow> jmap \<Rightarrow> jmap" where
  "object_env h raw = altered ''spec'' (inside (spec_env h)) raw"

lemma env_kept [simp]: "with_env h (Some es) \<noteq> None" "with_env h None = None" "pod_env h (Some es) \<noteq> None"
  "pod_env h None = None" "template_env h (Some es) \<noteq> None" "template_env h None = None"
  "spec_env h (Some es) \<noteq> None" "spec_env h None = None" "(with_env h m = None) = (m = None)"
  by (simp_all add: with_env_def pod_env_def template_env_def spec_env_def)

lemma env_ref_value: "env_ref (altered ''value'' h e) = env_ref e"
  by (simp add: env_ref_def)

lemma env_refs_hidden: "formatEnvRefs (with_env h c) = formatEnvRefs c"
  by (simp add: formatEnvRefs_def with_env_def maps_altered o_def env_ref_value)

lemma container_rows_hidden: "containerRows (with_env h c) (pod_env h spec) = containerRows c spec"
proof -
  have "formatEnvFrom (with_env h c) = formatEnvFrom c" "formatMounts (with_env h c) = formatMounts c"
    "formatSecurity (with_env h c) (pod_env h spec) = formatSecurity c spec"
    by (simp_all add: formatEnvFrom_def formatMounts_def formatSecurity_def with_env_def pod_env_def Let_def)
  then show ?thesis
    by (simp add: containerRows_def env_refs_hidden) (simp add: with_env_def)
qed

lemma containers_hidden:
  "key \<in> {''containers'', ''initContainers''} \<Longrightarrow> real_maps (pod_env h spec) key = map (with_env h) (real_maps spec key)"
  by (auto simp: pod_env_def real_maps_altered)

lemma container_sections_hidden: "containerSections (pod_env h spec) pre = containerSections spec pre"
proof -
  have "nmStr (with_env h c) ''name'' = nmStr c ''name''" for c by (simp add: with_env_def)
  then show ?thesis by (simp add: containerSections_def containers_hidden container_rows_hidden o_def)
qed

text \<open>A pod spec with other values in its environment reads the same under every other key.\<close>

lemma pod_env_reads:
  assumes "k \<notin> {''containers'', ''initContainers''}"
  shows "nmStr (pod_env h spec) k = nmStr spec k" "nmMap (pod_env h spec) k = nmMap spec k"
    "real_maps (pod_env h spec) k = real_maps spec k" "field (pod_env h spec) k = field spec k"
    "nmSlice (pod_env h spec) k = nmSlice spec k" "nmInt (pod_env h spec) k = nmInt spec k"
    "nmStrings (pod_env h spec) k = nmStrings spec k" "maps_of (pod_env h spec) k = maps_of spec k"
    "countStr (pod_env h spec) k = countStr spec k" "nmBool (pod_env h spec) k = nmBool spec k"
  using assms by (simp_all add: pod_env_def)

lemma pod_spec_hidden:
  "schedulingRows (pod_env h spec) = schedulingRows spec" "volumeRows (pod_env h spec) = volumeRows spec"
  by (simp_all add: schedulingRows_def formatTolerations_def volumeRows_def pod_env_reads)

lemma template_hidden: "podTemplateSections (template_env h tmpl) = podTemplateSections tmpl"
proof -
  have "nmMap (template_env h tmpl) ''spec'' = pod_env h (nmMap tmpl ''spec'')"
    by (simp add: template_env_def nmMap_altered)
  moreover have "nmMap (template_env h tmpl) ''metadata'' = nmMap tmpl ''metadata''"
    by (simp add: template_env_def)
  ultimately show ?thesis
    by (simp add: podTemplateSections_def pod_spec_hidden container_sections_hidden Let_def)
qed

text \<open>A workload's or a Pod's spec, and every kind's sections of it.\<close>

lemma spec_env_reads:
  assumes "k \<notin> {''containers'', ''initContainers'', ''template'', ''jobTemplate''}"
  shows "nmStr (spec_env h spec) k = nmStr spec k" "nmMap (spec_env h spec) k = nmMap spec k"
    "real_maps (spec_env h spec) k = real_maps spec k" "field (spec_env h spec) k = field spec k"
    "nmStrings (spec_env h spec) k = nmStrings spec k" "maps_of (spec_env h spec) k = maps_of spec k"
    "countStr (spec_env h spec) k = countStr spec k" "nmBool (spec_env h spec) k = nmBool spec k"
    "nmInt (spec_env h spec) k = nmInt spec k"
  using assms by (simp_all add: spec_env_def pod_env_reads)

lemma spec_env_parts:
  "nmMap (spec_env h spec) ''template'' = template_env h (nmMap spec ''template'')"
  "nmMap (nmMap (nmMap (spec_env h spec) ''jobTemplate'') ''spec'') ''template'' =
   template_env h (nmMap (nmMap (nmMap spec ''jobTemplate'') ''spec'') ''template'')"
  by (simp_all add: spec_env_def pod_env_reads nmMap_altered)

lemma pod_sections_hidden: "infoForPod (spec_env h spec) status = infoForPod spec status"
proof -
  define spec' where "spec' = altered ''template'' (inside (template_env h))
       (altered ''jobTemplate'' (inside (altered ''spec'' (inside (altered ''template'' (inside (template_env h)))))) spec)"
  have eq: "spec_env h spec = pod_env h spec'" by (simp add: spec_env_def spec'_def)
  have same: "schedulingRows spec' = schedulingRows spec" "volumeRows spec' = volumeRows spec"
    "nmStr spec' ''nodeName'' = nmStr spec ''nodeName''"
    by (simp_all add: spec'_def schedulingRows_def formatTolerations_def volumeRows_def)
  have "containerRows c spec' = containerRows c spec" for c
    by (simp add: spec'_def containerRows_def formatSecurity_def Let_def)
  then have "containerSections spec' '''' = containerSections spec ''''"
    by (simp add: containerSections_def) (simp add: spec'_def)
  then show ?thesis
    by (simp add: eq infoForPod_def pod_spec_hidden container_sections_hidden same pod_env_reads)
qed

lemma keys_altered [simp]: "sortedKeys (entries (altered key f m)) = sortedKeys (entries m)"
proof (cases m)
  case (Some es)
  have "map fst (map (\<lambda>(k, v). if k = key then (k, f v) else (k, v)) es) = map fst es" by (induction es) auto
  then show ?thesis using Some by (simp add: altered_def entries_def sortedKeys_def del: map_map)
qed (simp add: altered_def)

lemma entries_keys: "(case m of Some es \<Rightarrow> es | None \<Rightarrow> []) = entries m"
  by (cases m) (simp_all add: entries_def)

lemma spec_env_keys [simp]: "sortedKeys (entries (spec_env h spec)) = sortedKeys (entries spec)"
  by (simp add: spec_env_def pod_env_def)

lemma workload_sections_hidden:
  "infoForDeployment (spec_env h spec) status = infoForDeployment spec status"
  "infoForReplicaSet (spec_env h spec) status = infoForReplicaSet spec status"
  "infoForStatefulSet (spec_env h spec) status = infoForStatefulSet spec status"
  "infoForDaemonSet (spec_env h spec) status = infoForDaemonSet spec status"
  "infoForJob (spec_env h spec) status = infoForJob spec status"
  "infoForCronJob (spec_env h spec) status = infoForCronJob spec status"
  by (simp_all add: infoForDeployment_def infoForReplicaSet_def infoForStatefulSet_def infoForDaemonSet_def
      infoForJob_def infoForCronJob_def spec_env_reads spec_env_parts template_hidden)

lemma other_sections_hidden:
  "infoForService (spec_env h spec) status eps = infoForService spec status eps"
  "infoForIngress (spec_env h spec) status = infoForIngress spec status"
  "infoForPVC (spec_env h spec) status = infoForPVC spec status"
  "infoForPV (spec_env h spec) status = infoForPV spec status"
  "infoForNode (spec_env h spec) status = infoForNode spec status"
  "infoForHPA (spec_env h spec) status = infoForHPA spec status"
  by (simp_all add: infoForService_def infoForIngress_def infoForPVC_def infoForPV_def infoForNode_def infoForHPA_def
      pvSource_def entries_keys spec_env_reads Let_def)

text \<open>C30: For every kind of object, the sections and conditions of its description do not depend on the literal
  values of environment variables: replacing each \<open>env[].value\<close> of the containers and init containers of
  its pod spec, its pod template or its job template by any other value gives the same description.\<close>

theorem env_values_hidden: "describeSections kind (object_env h raw) endpoints = describeSections kind raw endpoints"
proof -
  have spec: "nmMap (object_env h raw) ''spec'' = spec_env h (nmMap raw ''spec'')"
    by (simp add: object_env_def nmMap_altered)
  have same: "nmMap (object_env h raw) ''status'' = nmMap raw ''status''"
    "infoForConfigMap (object_env h raw) = infoForConfigMap raw" "infoForSecret (object_env h raw) = infoForSecret raw"
    by (simp_all add: object_env_def infoForConfigMap_def infoForSecret_def dataKeys_def)
  show ?thesis
    unfolding describeSections_def Let_def spec same pod_sections_hidden workload_sections_hidden other_sections_hidden ..
qed

section \<open>Values of ConfigMaps and Secrets\<close>

definition lastAppliedAnnotation :: string where
  "lastAppliedAnnotation = ''kubectl.kubernetes.io/last-applied-configuration''"

definition with_data :: "(json \<Rightarrow> json) \<Rightarrow> jmap \<Rightarrow> jmap" where
  "with_data h raw =
     altered ''data'' (inside (all_values h)) (altered ''binaryData'' (inside (all_values h))
       (altered ''metadata'' (inside (altered ''annotations'' (inside (altered lastAppliedAnnotation h)))) raw))"

lemma all_values_kept [simp]: "all_values h (Some es) \<noteq> None" "all_values h None = None"
  by (simp_all add: all_values_def)

lemma keys_all_values [simp]: "sortedKeys (entries (all_values h m)) = sortedKeys (entries m)"
proof (cases m)
  case (Some es)
  have "map fst (map (\<lambda>(k, v). (k, h v)) es) = map fst es" by (induction es) auto
  then show ?thesis using Some by (simp add: all_values_def entries_def sortedKeys_def del: map_map)
qed (simp add: all_values_def)

lemma data_keys_hidden: "dataKeys (with_data h raw) = dataKeys raw"
  by (simp add: dataKeys_def with_data_def nmMap_altered)

lemma last_applied_not_shown: "\<not> shown_annotation (lastAppliedAnnotation, v)"
proof -
  have "str_contains lastAppliedAnnotation ''last-applied-configuration''" by code_simp
  then show ?thesis by (simp add: shown_annotation_def)
qed

lemma annotations_hidden:
  "filter shown_annotation (toStrMap (inside (altered lastAppliedAnnotation h) v)) = filter shown_annotation (toStrMap v)"
proof (cases v)
  case (JMap es)
  then show ?thesis
    by (induction es arbitrary: v) (auto simp: inside_def altered_def toStrMap_def last_applied_not_shown split: if_splits)
qed (simp_all add: inside_def)

text \<open>C31: What is shown of an object does not depend on the values under its \<open>data\<close> and \<open>binaryData\<close>, nor on
  the copy of the object in the annotation of the last applied configuration: a ConfigMap or Secret shows
  the names of its keys only.\<close>

theorem data_values_hidden:
  "describeObject parse_time info (with_data h raw) endpoints now = describeObject parse_time info raw endpoints now"
proof -
  define meta where "meta = nmMap raw ''metadata''"
  have meta: "nmMap (with_data h raw) ''metadata'' = altered ''annotations'' (inside (altered lastAppliedAnnotation h)) meta"
    by (simp add: with_data_def meta_def nmMap_altered)
  have spec: "nmMap (with_data h raw) ''spec'' = nmMap raw ''spec''" "nmMap (with_data h raw) ''status'' = nmMap raw ''status''"
    "nmStr (with_data h raw) ''type'' = nmStr raw ''type''"
    by (simp_all add: with_data_def)
  have "describeSections kind (with_data h raw) endpoints = describeSections kind raw endpoints" for kind
    unfolding describeSections_def Let_def infoForConfigMap_def infoForSecret_def spec data_keys_hidden ..
  then show ?thesis
    unfolding describeObject_def Let_def meta meta_def[symmetric]
    by (simp add: field_altered annotations_hidden)
qed

end
