(* ===== verification/YamlIssues.thy ===== *)
theory YamlIssues
  imports Evidence Linked
begin

text \<open>
  Why an object fails, in terms of the fields of its YAML (yaml_view.go): the objects and values messages
  name, the issues of a Pod's containers and of events, and the list of at most ten that is shown.
\<close>

section \<open>What messages name\<close>

text \<open>The start of a match of \<open>(?i)w\<close>: what is left after the word.\<close>

definition after_word :: "string \<Rightarrow> string \<Rightarrow> string option" where
  "after_word w s = (if fold_prefix w s then Some (drop (fold_length w s) s) else None)"

text \<open>\<open>"([^"]+)"\<close>: the text and what follows the closing quote.\<close>

definition quoted_text :: "string \<Rightarrow> (string \<times> string) option" where
  "quoted_text s =
     (case s of
        [] \<Rightarrow> None
      | q # t \<Rightarrow>
          (let name = takeWhile (\<lambda>c. c \<noteq> quote) t; rest = drop (length name) t in
           if q = quote \<and> name \<noteq> '''' \<and> rest \<noteq> '''' then Some (name, tl rest) else None))"

definition spaces :: "string \<Rightarrow> string option" where
  "spaces s = (if starts_space s then Some (skip_space s) else None)"

definition opt_s :: "string \<Rightarrow> string" where
  "opt_s s = (case after_word ''s'' s of Some t \<Rightarrow> t | None \<Rightarrow> s)"

text \<open>\<open>refNotFoundRe\<close>: the word and the name.\<close>

definition not_found_words :: "string list" where
  "not_found_words = [''configmap'', ''secret'', ''persistentvolumeclaim'', ''serviceaccount'']"

definition not_found_after :: "string \<Rightarrow> (string \<times> string) option" where
  "not_found_after s =
     Option.bind (spaces (opt_s s)) (\<lambda>t.
     Option.bind (quoted_text t) (\<lambda>(name, u).
     Option.bind (spaces u) (\<lambda>v.
     Option.bind (after_word ''not found'' v) (\<lambda>w. Some (name, w)))))"

definition not_found_here :: "(string \<times> string) matcher" where
  "not_found_here prev s =
     (if word_edge prev s
      then (case [(take (fold_length w s) s, m) . w \<leftarrow> not_found_words, fold_prefix w s,
                    m \<leftarrow> (case not_found_after (drop (fold_length w s) s) of Some m \<Rightarrow> [m] | None \<Rightarrow> [])] of
              (word, (name, rest)) # _ \<Rightarrow> Some ((word, name), length s - length rest)
            | [] \<Rightarrow> None)
      else None)"

text \<open>\<open>refKeyRe\<close>: the kind and the name.\<close>

definition ref_key_after :: "string \<Rightarrow> (string \<times> string \<times> string) option" where
  "ref_key_after s =
     (let key = takeWhile (\<lambda>c. \<not> re_space c) s in
      if key = '''' then None
      else Option.bind (after_word '' in '' (drop (length key) s)) (\<lambda>t.
           case [(take (fold_length k t) t, u) . k \<leftarrow> [''secret'', ''configmap''], u \<leftarrow> (case after_word k t of Some u \<Rightarrow> [u] | None \<Rightarrow> [])] of
             [] \<Rightarrow> None
           | (kind, u) # _ \<Rightarrow>
               if \<not> has_prefix u '' '' then None
               else let v = tl u; ns = takeWhile (\<lambda>c. c \<noteq> CHR 0x2F \<and> \<not> re_space c) v; x = drop (length ns) v in
                    if ns = '''' \<or> \<not> has_prefix x [CHR 0x2F] then None
                    else let name = takeWhile (\<lambda>c. \<not> re_space c) (tl x) in
                         if name = '''' then None else Some (kind, name, drop (length name) (tl x))))"

definition couldnt_find_key :: string where
  "couldnt_find_key = ''couldn'' @ [CHR 0x27] @ ''t find key ''"

definition ref_key_here :: "(string \<times> string) matcher" where
  "ref_key_here prev s =
     Option.bind (after_word couldnt_find_key s) (\<lambda>t.
     Option.bind (ref_key_after t) (\<lambda>(kind, name, rest). Some ((kind, name), length s - length rest)))"

text \<open>\<open>pullSecretsRe\<close>, \<open>pullImageRe\<close> and \<open>storageClassRe\<close>.\<close>

definition pull_secrets_here :: "string matcher" where
  "pull_secrets_here prev s =
     Option.bind (after_word ''image pull secrets ('' s) (\<lambda>t.
       let names = takeWhile (\<lambda>c. c \<noteq> CHR '')'') t in
       if names = '''' \<or> length names = length t then None
       else Some (names, length s - length t + length names + 1))"

definition pull_image_here :: "string matcher" where
  "pull_image_here prev s =
     Option.bind (after_word ''pull'' s) (\<lambda>t.
     Option.bind (after_word '' image '' (case after_word ''ing'' t of Some u \<Rightarrow> u | None \<Rightarrow> t)) (\<lambda>u.
     Option.bind (quoted_text u) (\<lambda>(img, rest). Some (img, length s - length rest))))"

definition storage_class_here :: "string matcher" where
  "storage_class_here prev s =
     Option.bind (after_word ''storageclass'' s) (\<lambda>t.
     Option.bind (quoted_text (dropWhile (\<lambda>c. c \<noteq> quote) t)) (\<lambda>(name, u).
     Option.bind (after_word '' not found'' u) (\<lambda>rest. Some (name, length s - length rest))))"

definition refKinds :: "(string, string) gomap" where
  "refKinds = [(''configmap'', ''ConfigMap''), (''secret'', ''Secret''),
     (''persistentvolumeclaim'', ''PersistentVolumeClaim''), (''serviceaccount'', ''ServiceAccount'')]"

definition refInMessage :: "string \<Rightarrow> (string \<times> string) option" where
  "refInMessage msg =
     (case find_first ref_key_here None msg of
        Some (kind, name) \<Rightarrow> Some (al_get '''' refKinds (ascii_lower kind), name)
      | None \<Rightarrow>
          (case find_first not_found_here None msg of
             Some (word, name) \<Rightarrow> Some (al_get '''' refKinds (ascii_lower word), name)
           | None \<Rightarrow>
               (case find_first pull_secrets_here None msg of
                  Some names \<Rightarrow> Some (''Secret'', trim_space (hd (split_byte (CHR '','') names)))
                | None \<Rightarrow> None)))"

lemma refInMessage_examples:
  "refInMessage (''secret '' @ [quote] @ ''db'' @ [quote] @ '' not found'') = Some (''Secret'', ''db'')"
  "refInMessage (couldnt_find_key @ ''pw in ConfigMap shop/web'') = Some (''ConfigMap'', ''web'')"
  "refInMessage ''Unable to retrieve some image pull secrets (reg, other)'' = Some (''Secret'', ''reg'')"
  "refInMessage ''all is well'' = None"
  by code_simp+

section \<open>Issues\<close>

record yamlIssue =
  yiSuffix :: "string list"
  yiFallback :: "string list list"
  yiContainer :: string
  yiValue :: string
  yiRefKind :: string
  yiRefName :: string
  yiSeverity :: string
  yiText :: string

definition blank_issue :: yamlIssue where
  "blank_issue = \<lparr>yiSuffix = [], yiFallback = [], yiContainer = '''', yiValue = '''', yiRefKind = '''', yiRefName = '''',
     yiSeverity = '''', yiText = ''''\<rparr>"

definition yamlIssuesMax :: nat where "yamlIssuesMax = 10"

definition issue_key :: "yamlIssue \<Rightarrow> string" where
  "issue_key i = str_join ''.'' (yiSuffix i) @ ''|'' @ yiContainer i @ ''|'' @ yiValue i @ ''|'' @ yiRefKind i @ ''/'' @ yiRefName i"

text \<open>The function \<open>add\<close> of \<open>issuesFrom\<close>: the keys seen are those of the issues kept.\<close>

definition add_issue :: "yamlIssue list \<Rightarrow> yamlIssue \<Rightarrow> yamlIssue list" where
  "add_issue out i =
     (if issue_key i \<in> issue_key ` set out \<or> length out \<ge> yamlIssuesMax then out
      else out @ [i\<lparr>yiText := truncate_runes (oneLine (yiText i)) 240\<rparr>])"

text \<open>\<open>containerIssues\<close> as the list of the issues it adds.\<close>

definition waiting_issues :: "string \<Rightarrow> k_status \<Rightarrow> yamlIssue list" where
  "waiting_issues lst st =
     (case ksWaiting st of
        None \<Rightarrow> []
      | Some (reason, message) \<Rightarrow>
          (let is = blank_issue\<lparr>yiSeverity := ''crit'', yiText := reason @ '': '' @ message\<rparr> in
           if reason \<in> {''ImagePullBackOff'', ''ErrImagePull'', ''InvalidImageName'', ''ErrImageNeverPull''}
           then [is\<lparr>yiSuffix := [lst, ''[]'', ''image''], yiContainer := ksName st\<rparr>]
           else if reason \<in> {''CreateContainerConfigError'', ''CreateContainerError''}
           then (case refInMessage message of
                   Some (k, n) \<Rightarrow> [is\<lparr>yiRefKind := k, yiRefName := n\<rparr>]
                 | None \<Rightarrow> [is\<lparr>yiSuffix := [lst, ''[]'', ''name''], yiContainer := ksName st\<rparr>])
           else []))"

definition ended_issues :: "(string, string) gomap \<Rightarrow> string \<Rightarrow> string \<Rightarrow> k_status \<Rightarrow> yamlIssue list" where
  "ended_issues limits phase lst st =
     (case (case ksLast st of Some t \<Rightarrow> Some t | None \<Rightarrow> ksTerminated st) of
        None \<Rightarrow> []
      | Some t \<Rightarrow>
          (let lim = al_get '''' limits (ksName st);
               how = ktReason t @ '' (exit '' @ itoa (ktExitCode t) @ '')'' in
           if ktReason t = ''OOMKilled'' \<or> (ktExitCode t = 137 \<and> lim \<noteq> '''')
           then [blank_issue\<lparr>yiSuffix := [lst, ''[]'', ''resources'', ''limits'', ''memory''],
                   yiFallback := [[lst, ''[]'', ''resources''], [lst, ''[]'', ''name'']], yiContainer := ksName st,
                   yiSeverity := ''crit'',
                   yiText := ''Last run ended '' @ how @ (if lim \<noteq> '''' then '', over its '' @ lim @ '' memory limit'' else '''')\<rparr>]
           else if ktExitCode t \<noteq> 0 \<and> (ksRestarts st > 0 \<or> phase = ''Failed'')
           then [blank_issue\<lparr>yiSuffix := [lst, ''[]'', ''name''], yiContainer := ksName st, yiSeverity := ''warn'',
                   yiText := (if ksRestarts st = 0 then ''Exited with '' @ how
                     else ''Crash-looping: last run ended '' @ how @ '', restarted '' @ itoa (ksRestarts st) @ '' times'')\<rparr>]
           else []))"

definition memory_limits :: "k_pod \<Rightarrow> (string, string) gomap" where
  "memory_limits pod =
     foldl (\<lambda>m c. case kcMemLimit c of Some q \<Rightarrow> al_set (kcName c) q m | None \<Rightarrow> m) [] (kpInitContainers pod @ kpContainers pod)"

definition containerIssues :: "k_pod \<Rightarrow> yamlIssue list" where
  "containerIssues pod =
     (let check = (\<lambda>lst st. waiting_issues lst st @ ended_issues (memory_limits pod) (kpPhase pod) lst st) in
      concat (map (check ''initContainers'') (kpInitStatuses pod)) @ concat (map (check ''containers'') (kpStatuses pod)))"

text \<open>\<open>eventIssues\<close> as the list of the issues it adds; a field with its fallbacks.\<close>

definition field_issue :: "string \<Rightarrow> string \<Rightarrow> string list \<Rightarrow> string list list \<Rightarrow> yamlIssue" where
  "field_issue sev txt path fallback = blank_issue\<lparr>yiSuffix := path, yiFallback := fallback, yiSeverity := sev, yiText := txt\<rparr>"

definition image_issue :: "string \<Rightarrow> string \<Rightarrow> yamlIssue" where
  "image_issue txt img =
     (field_issue ''crit'' txt [''containers'', ''[]'', ''image''] [[''initContainers'', ''[]'', ''image'']])\<lparr>yiValue := img\<rparr>"

definition ref_issue :: "string \<Rightarrow> string \<Rightarrow> string \<Rightarrow> yamlIssue" where
  "ref_issue txt kind name = blank_issue\<lparr>yiRefKind := kind, yiRefName := name, yiSeverity := ''crit'', yiText := txt\<rparr>"

definition scheduling_issues :: "(string \<Rightarrow> bool) \<Rightarrow> string \<Rightarrow> yamlIssue list" where
  "scheduling_issues has txt =
     (if has ''Insufficient cpu''
      then [field_issue ''crit'' txt [''resources'', ''requests'', ''cpu''] [[''resources'', ''limits'', ''cpu'']]]
      else if has ''Insufficient memory''
      then [field_issue ''crit'' txt [''resources'', ''requests'', ''memory''] [[''resources'', ''limits'', ''memory'']]]
      else if has ''unbound immediate PersistentVolumeClaims'' \<or> has ''persistentvolumeclaim''
      then [field_issue ''crit'' txt [''persistentVolumeClaim'', ''claimName''] [[''volumeClaimTemplates'']]]
      else if has ''anti-affinity'' then [field_issue ''warn'' txt [''affinity'', ''podAntiAffinity''] [[''affinity'']]]
      else if has ''untolerated taint'' \<or> has ''node affinity/selector'' \<or> has ''node selector''
      then [field_issue ''warn'' txt [''nodeSelector''] [[''affinity'', ''nodeAffinity''], [''tolerations'']]]
      else [])"

definition create_issues :: "(string \<Rightarrow> bool) \<Rightarrow> string \<Rightarrow> string \<Rightarrow> yamlIssue list" where
  "create_issues has m txt =
     (if has ''exceeded quota'' then [field_issue ''crit'' txt [''replicas''] [[''resources'']]]
      else if has ''maximum memory usage per Container'' then [field_issue ''crit'' txt [''resources'', ''limits'', ''memory''] []]
      else if has ''maximum cpu usage per Container'' then [field_issue ''crit'' txt [''resources'', ''limits'', ''cpu''] []]
      else if has ''minimum memory usage per Container'' then [field_issue ''crit'' txt [''resources'', ''requests'', ''memory''] []]
      else if has ''minimum cpu usage per Container'' then [field_issue ''crit'' txt [''resources'', ''requests'', ''cpu''] []]
      else (case refInMessage m of Some (k, n) \<Rightarrow> [ref_issue txt k n] | None \<Rightarrow> []))"

definition probe_issues :: "(string \<Rightarrow> bool) \<Rightarrow> string \<Rightarrow> string \<Rightarrow> yamlIssue list" where
  "probe_issues has m txt =
     concat (map (\<lambda>(start, fld).
       if has start then [(field_issue ''warn'' txt [fld] [])\<lparr>yiContainer := extractContainerFromMsg m\<rparr>] else [])
       [(''Readiness probe'', ''readinessProbe''), (''Liveness probe'', ''livenessProbe''), (''Startup probe'', ''startupProbe'')])"

definition failed_issues :: "string \<Rightarrow> string \<Rightarrow> yamlIssue list" where
  "failed_issues m txt =
     (case refInMessage m of
        Some (k, n) \<Rightarrow>
          [(ref_issue txt k n)\<lparr>yiFallback := (if find_first pull_secrets_here None m \<noteq> None then [[''serviceAccountName'']] else [])\<rparr>]
      | None \<Rightarrow> (case find_first pull_image_here None m of Some img \<Rightarrow> [image_issue txt img] | None \<Rightarrow> []))"

definition eventIssues :: "EventSummary \<Rightarrow> yamlIssue list" where
  "eventIssues ev =
     (let m = evMessage ev; reason = evReason ev; txt = reason @ '': '' @ m;
          has = (\<lambda>s. str_contains (ascii_lower m) (ascii_lower s))
      in if reason = ''BackOff''
         then (case find_first pull_image_here None m of
                 Some img \<Rightarrow> [image_issue txt img]
               | None \<Rightarrow>
                   if extractContainerFromMsg m \<noteq> ''''
                   then [(field_issue ''warn'' txt [''containers'', ''[]'', ''name''] [[''initContainers'', ''[]'', ''name'']])
                           \<lparr>yiContainer := extractContainerFromMsg m\<rparr>]
                   else [])
         else if reason = ''Unhealthy'' \<or> reason = ''Killing'' then probe_issues has m txt
         else if reason = ''FailedScheduling'' then scheduling_issues has txt
         else if reason \<in> {''FailedMount'', ''FailedAttachVolume'', ''Failed'', ''FailedToRetrieveImagePullSecret''}
         then failed_issues m txt
         else if reason = ''ProvisioningFailed''
         then (case find_first storage_class_here None m of
                 Some sc \<Rightarrow> [(field_issue ''crit'' txt [''storageClassName''] [])\<lparr>yiValue := sc\<rparr>]
               | None \<Rightarrow>
                   if has ''access mode'' \<or> has ''ReadWriteMany'' \<or> has ''only supports''
                   then [field_issue ''crit'' txt [''accessModes''] []]
                   else [field_issue ''warn'' txt [''storageClassName''] []])
         else if reason = ''FailedCreate'' then create_issues has m txt
         else if reason = ''BackoffLimitExceeded'' then [field_issue ''warn'' txt [''backoffLimit''] []]
         else if reason = ''DeadlineExceeded'' then [field_issue ''crit'' txt [''activeDeadlineSeconds''] []]
         else if reason = ''VolumeFailedDelete'' \<or> reason = ''VolumeFailedRecycle''
         then [field_issue ''crit'' txt [''persistentVolumeReclaimPolicy''] []]
         else [])"

definition issuesFrom :: "EventSummary list \<Rightarrow> k_pod option \<Rightarrow> yamlIssue list" where
  "issuesFrom events pod =
     foldl add_issue [] ((case pod of Some p \<Rightarrow> containerIssues p | None \<Rightarrow> []) @ concat (map eventIssues events))"

definition isWorkloadKind :: "string \<Rightarrow> bool" where
  "isWorkloadKind kind \<longleftrightarrow>
     ascii_lower kind \<in> {''deployment'', ''statefulset'', ''daemonset'', ''replicaset'', ''job'', ''cronjob''}"

text \<open>
  \<open>yamlIssues\<close>: \<open>own_pod\<close> is the object itself converted to a Pod, if that succeeds, and \<open>get_pod\<close> reads
  a Pod of a namespace if there is a client and it can.
\<close>

definition yamlIssues :: "time \<Rightarrow> clusterState \<Rightarrow> k_pod option \<Rightarrow> (string \<Rightarrow> string \<Rightarrow> k_pod option) \<Rightarrow>
    string \<Rightarrow> string \<Rightarrow> string \<Rightarrow> yamlIssue list" where
  "yamlIssues now cl own_pod get_pod ns kind name =
     (let events = filter (\<lambda>ev. evType ev = ''Warning'') (objectEvents (csCache cl) ns kind name) in
      if equal_fold kind ''Pod'' then issuesFrom events own_pod
      else if isWorkloadKind kind \<and> ns \<noteq> clusterScopeNS
      then (case memberWarnings now cl ns kind name of
              (evs, pods) \<Rightarrow>
                issuesFrom (events @ evs) (case pods of p # _ \<Rightarrow> get_pod (apiNamespace ns) p | [] \<Rightarrow> None))
      else issuesFrom events None)"

section \<open>What is shown\<close>

text \<open>The first issue of every key, and an issue with its text cut.\<close>

fun first_of_each :: "string set \<Rightarrow> yamlIssue list \<Rightarrow> yamlIssue list" where
  "first_of_each keys [] = []"
| "first_of_each keys (i # is) =
     (if issue_key i \<in> keys then first_of_each keys is else i # first_of_each (insert (issue_key i) keys) is)"

definition shortened :: "yamlIssue \<Rightarrow> yamlIssue" where
  "shortened i = i\<lparr>yiText := truncate_runes (oneLine (yiText i)) 240\<rparr>"

lemma key_shortened [simp]: "issue_key (shortened i) = issue_key i"
  by (simp add: issue_key_def shortened_def)

lemma add_issues:
  "length out \<le> yamlIssuesMax \<Longrightarrow>
   foldl add_issue out is = out @ map shortened (take (yamlIssuesMax - length out) (first_of_each (issue_key ` set out) is))"
proof (induction "is" arbitrary: out)
  case (Cons i "is")
  show ?case
  proof (cases "issue_key i \<in> issue_key ` set out \<or> length out \<ge> yamlIssuesMax")
    case True
    then show ?thesis using Cons by (auto simp: add_issue_def)
  next
    case False
    define out' where "out' = out @ [shortened i]"
    have out': "add_issue out i = out'" "length out' \<le> yamlIssuesMax" "issue_key ` set out' = insert (issue_key i) (issue_key ` set out)"
      using False by (auto simp: add_issue_def out'_def shortened_def[symmetric])
    have "yamlIssuesMax - length out = Suc (yamlIssuesMax - length out')"
      using False by (simp add: out'_def Suc_diff_Suc)
    moreover have "foldl add_issue out' is =
        out' @ map shortened (take (yamlIssuesMax - length out') (first_of_each (issue_key ` set out') is))"
      using out'(2) by (rule Cons.IH)
    ultimately show ?thesis using False by (simp add: out' out'_def)
  qed
qed simp

text \<open>The issues a Pod and events give, before repeats are dropped.\<close>

definition candidate_issues :: "EventSummary list \<Rightarrow> k_pod option \<Rightarrow> yamlIssue list" where
  "candidate_issues events pod = (case pod of Some p \<Rightarrow> containerIssues p | None \<Rightarrow> []) @ concat (map eventIssues events)"

text \<open>The issues shown next to an object's YAML are the first ten of different keys, of those that its
  containers' state gives and then of those its events give, in their order, each with its text on one
  line of at most 240 runes.\<close>

lemma issues_first_ten:
  "issuesFrom events pod = map shortened (take 10 (first_of_each {} (candidate_issues events pod)))"
  using add_issues [of "[]" "candidate_issues events pod"]
  unfolding issuesFrom_def candidate_issues_def[symmetric] by (simp add: yamlIssuesMax_def)

end
