(* ===== verification/YamlView.thy ===== *)
theory YamlView
  imports DescribeSafe YamlIssues
begin

text \<open>
  The YAML panel (yaml_view.go): a Secret's values are masked before its YAML is made, and one value is
  given, decoded, when it is asked for. Turning an object into YAML and the API server are arguments;
  base64 is that of Go's library.
\<close>

section \<open>base64\<close>

text \<open>\<open>base64.StdEncoding\<close>: line ends are skipped, padding is required, the last bits are not looked at.\<close>

definition b64_value :: "char \<Rightarrow> nat option" where
  "b64_value c =
     (let n = of_char c :: nat in
      if 65 \<le> n \<and> n \<le> 90 then Some (n - 65)
      else if 97 \<le> n \<and> n \<le> 122 then Some (n - 71)
      else if 48 \<le> n \<and> n \<le> 57 then Some (n + 4)
      else if n = 43 then Some 62
      else if n = 47 then Some 63 else None)"

definition b64_char :: "nat \<Rightarrow> char" where
  "b64_char n =
     char_of (if n < 26 then n + 65 else if n < 52 then n + 71 else if n < 62 then n - 4 else if n = 62 then 43 else 47)"

fun b64_quads :: "string \<Rightarrow> string option" where
  "b64_quads [] = Some []"
| "b64_quads (a # b # c # d # rest) =
     (case (b64_value a, b64_value b) of
        (Some x, Some y) \<Rightarrow>
          (let first = char_of (4 * x + y div 16) in
           if c = CHR ''='' then (if d = CHR ''='' \<and> rest = [] then Some [first] else None)
           else (case b64_value c of
                   None \<Rightarrow> None
                 | Some z \<Rightarrow>
                     (let secnd = char_of (16 * (y mod 16) + z div 4) in
                      if d = CHR ''='' then (if rest = [] then Some [first, secnd] else None)
                      else (case b64_value d of
                              None \<Rightarrow> None
                            | Some w \<Rightarrow> map_option (\<lambda>t. first # secnd # char_of (64 * (z mod 4) + w) # t) (b64_quads rest)))))
      | _ \<Rightarrow> None)"
| "b64_quads _ = None"

definition b64_decode :: "string \<Rightarrow> string option" where
  "b64_decode s = b64_quads (filter (\<lambda>c. c \<noteq> CHR 0x0A \<and> c \<noteq> CHR 0x0D) s)"

text \<open>The encoding the API server uses.\<close>

fun b64_encode :: "string \<Rightarrow> string" where
  "b64_encode [] = []"
| "b64_encode [a] =
     (let x = of_char a :: nat in [b64_char (x div 4), b64_char (16 * (x mod 4)), CHR ''='', CHR ''=''])"
| "b64_encode [a, b] =
     (let x = of_char a :: nat; y = of_char b in
      [b64_char (x div 4), b64_char (16 * (x mod 4) + y div 16), b64_char (4 * (y mod 16)), CHR ''=''])"
| "b64_encode (a # b # c # rest) =
     (let x = of_char a :: nat; y = of_char b; z = of_char c in
      b64_char (x div 4) # b64_char (16 * (x mod 4) + y div 16) # b64_char (4 * (y mod 16) + z div 64) #
      b64_char (z mod 64) # b64_encode rest)"

lemma b64_value_char: "n < 64 \<Longrightarrow> b64_value (b64_char n) = Some n"
  by (auto simp: b64_value_def b64_char_def Let_def)

lemma b64_plain: "n < 64 \<Longrightarrow> b64_char n \<noteq> CHR ''='' \<and> b64_char n \<noteq> CHR 0x0A \<and> b64_char n \<noteq> CHR 0x0D"
proof -
  assume "n < 64"
  moreover have "b64_value (CHR ''='') = None" "b64_value (CHR 0x0A) = None" "b64_value (CHR 0x0D) = None" by code_simp+
  ultimately show ?thesis using b64_value_char [of n] by auto
qed

lemma byte_range: "(of_char c :: nat) < 256" by simp

lemma two_digits:
  fixes a b n :: nat
  assumes "b < n"
  shows "(n * a + b) div n = a" "(n * a + b) mod n = b"
  using assms by simp_all

lemma b64_parts:
  fixes x y z :: nat
  assumes "x < 256" "y < 256" "z < 256"
  shows "x div 4 < 64" "16 * (x mod 4) + y div 16 < 64" "4 * (y mod 16) + z div 64 < 64" "z mod 64 < 64"
    "4 * (x div 4) + (16 * (x mod 4) + y div 16) div 16 = x"
    "16 * ((16 * (x mod 4) + y div 16) mod 16) + (4 * (y mod 16) + z div 64) div 4 = y"
    "64 * ((4 * (y mod 16) + z div 64) mod 4) + z mod 64 = z"
proof -
  have small: "y div 16 < 16" "z div 64 < 4" "x mod 4 < 4" "y mod 16 < 16" using assms by simp_all
  show "x div 4 < 64" "16 * (x mod 4) + y div 16 < 64" "4 * (y mod 16) + z div 64 < 64" "z mod 64 < 64"
    using assms(1) small by simp_all
  show "4 * (x div 4) + (16 * (x mod 4) + y div 16) div 16 = x"
    unfolding two_digits(1) [OF small(1)] by simp
  show "16 * ((16 * (x mod 4) + y div 16) mod 16) + (4 * (y mod 16) + z div 64) div 4 = y"
    unfolding two_digits(2) [OF small(1)] two_digits(1) [OF small(2)] by simp
  show "64 * ((4 * (y mod 16) + z div 64) mod 4) + z mod 64 = z"
    unfolding two_digits(2) [OF small(2)] by simp
qed

lemma b64_quads_encode: "b64_quads (b64_encode s) = Some s"
proof (induction s rule: b64_encode.induct)
  case (2 a)
  then show ?case using b64_parts [OF byte_range [of a], of 0 0]
    by (simp add: Let_def b64_value_char b64_plain)
next
  case (3 a b)
  then show ?case using b64_parts [OF byte_range [of a] byte_range [of b], of 0]
    by (simp add: Let_def b64_value_char b64_plain)
next
  case (4 a b c rest)
  then show ?case using b64_parts [OF byte_range [of a] byte_range [of b] byte_range [of c]]
    by (simp add: Let_def b64_value_char b64_plain)
qed simp

section \<open>Secrets\<close>

definition secretHidden :: string where "secretHidden = ''(hidden)''"

record secretKey =
  skField :: string
  skKey :: string
  skBytes :: nat

definition secret_key :: "string \<Rightarrow> string \<times> json \<Rightarrow> secretKey" where
  "secret_key fld e =
     (let s = as_string (snd e) in
      \<lparr>skField = fld, skKey = fst e,
       skBytes = (if fld = ''data'' then (case b64_decode s of Some b \<Rightarrow> length b | None \<Rightarrow> length s) else length s)\<rparr>)"

definition secret_key_less :: "secretKey \<Rightarrow> secretKey \<Rightarrow> bool" where
  "secret_key_less a b = (if skField a \<noteq> skField b then skField a < skField b else skKey a < skKey b)"

text \<open>\<open>maskSecret\<close> changes the object in place; here it returns it, with the keys.\<close>

definition hide :: "json \<Rightarrow> json" where "hide v = JString secretHidden"

definition maskSecret :: "jmap \<Rightarrow> jmap \<times> secretKey list" where
  "maskSecret obj =
     (if as_string (field obj ''kind'') \<noteq> ''Secret'' then (obj, [])
      else (altered ''metadata'' (inside (altered ''annotations'' (inside (altered lastAppliedAnnotation hide))))
              (altered ''stringData'' (inside (all_values hide)) (altered ''data'' (inside (all_values hide)) obj)),
            go_sort secret_key_less
              (concat (map (\<lambda>fld. map (secret_key fld) (entries (nmMap obj fld))) [''data'', ''stringData'']))))"

text \<open>\<open>secretValue\<close>: the value and whether it is binary.\<close>

definition secretValue :: "jmap \<Rightarrow> string \<Rightarrow> string \<Rightarrow> string + (string \<times> bool)" where
  "secretValue obj fld0 key =
     (let fld = (if fld0 = '''' then ''data'' else fld0) in
      if as_string (field obj ''kind'') \<noteq> ''Secret'' then Inl (''only a Secret'' @ [CHR 0x27] @ ''s values can be revealed'')
      else if fld \<noteq> ''data'' \<and> fld \<noteq> ''stringData'' then Inl (''unknown field '' @ go_quote fld)
      else (case field (nmMap obj fld) key of
              JString s \<Rightarrow>
                if fld = ''stringData'' then Inr (s, False)
                else (case b64_decode s of
                        None \<Rightarrow> Inr (s, True)
                      | Some b \<Rightarrow> if valid_utf8 b then Inr (b, False) else Inr (s, True))
            | _ \<Rightarrow> Inl (''the Secret has no key '' @ go_quote key @ '' in '' @ fld)))"

section \<open>The panel and the page of an object\<close>

text \<open>\<open>fetchObject\<close>: \<open>resource\<close> is what \<open>kindToGVR\<close> gave, \<open>fetch\<close> as for \<open>fetchObjectInfo\<close>.\<close>

definition fetchObject :: "string + gvr \<Rightarrow> (gvr \<Rightarrow> string \<Rightarrow> string \<Rightarrow> (string \<times> json) list api_answer) \<Rightarrow>
    string \<Rightarrow> string \<Rightarrow> (string \<times> json) list api_answer" where
  "fetchObject resource fetch namespace name =
     (let ns = apiNamespace namespace in
      case resource of
        Inl err \<Rightarrow> ApiErr err
      | Inr g \<Rightarrow> fetch g (if ns = '''' \<or> ns = ''_'' then '''' else ns) name)"

text \<open>\<open>to_yaml\<close> stands for \<open>toYAML\<close>: the YAML of an object, or an error.\<close>

definition fetchObjectYAML :: "(jmap \<Rightarrow> string + string) \<Rightarrow> (string \<times> json) list api_answer \<Rightarrow> string + string" where
  "fetchObjectYAML to_yaml answer =
     (case answer of Got obj \<Rightarrow> to_yaml (fst (maskSecret (Some obj))) | NotFound err \<Rightarrow> Inl err | ApiErr err \<Rightarrow> Inl err)"

datatype yaml_reply =
    YamlStatus nat
  | YamlError nat string
  | YamlValue string string bool
  | YamlPage string string string string "secretKey list" "yamlIssue list"

definition reveal_reply :: "jmap \<Rightarrow> string \<Rightarrow> string \<Rightarrow> yaml_reply" where
  "reveal_reply obj fld key =
     (case secretValue obj fld key of Inl err \<Rightarrow> YamlError 404 err | Inr (v, binary) \<Rightarrow> YamlValue key v binary)"

definition yaml_page :: "(jmap \<Rightarrow> string + string) \<Rightarrow> (jmap \<Rightarrow> yamlIssue list) \<Rightarrow> jmap \<Rightarrow> string \<Rightarrow> string \<Rightarrow> string \<Rightarrow> yaml_reply" where
  "yaml_page to_yaml issues obj ns kind name =
     (case maskSecret obj of (masked, keys) \<Rightarrow>
        (case to_yaml masked of Inl err \<Rightarrow> YamlError 502 err | Inr y \<Rightarrow> YamlPage y ns kind name keys (issues obj)))"

text \<open>
  \<open>handleAPIYAML\<close>: \<open>objects\<close> is \<open>fetchObject\<close> and \<open>issues\<close> \<open>yamlIssues\<close> of the cluster; \<open>reveal\<close> and \<open>fld\<close> are the
  parameters of the query.
\<close>

definition handleAPIYAML :: "(jmap \<Rightarrow> string + string) \<Rightarrow>
    (clusterState \<Rightarrow> string \<Rightarrow> string \<Rightarrow> string \<Rightarrow> (string \<times> json) list api_answer) \<Rightarrow>
    (clusterState \<Rightarrow> string \<Rightarrow> string \<Rightarrow> string \<Rightarrow> jmap \<Rightarrow> yamlIssue list) \<Rightarrow>
    string \<Rightarrow> string \<Rightarrow> string \<Rightarrow> api_cluster \<Rightarrow> yaml_reply" where
  "handleAPIYAML to_yaml objects issues path0 reveal fld target =
     (let path = (if has_prefix path0 ''/api/yaml/'' then drop 10 path0 else path0) in
      case split3 path of
        [ns, kind, name] \<Rightarrow>
          if ns = '''' \<or> kind = '''' \<or> name = '''' then YamlStatus 400
          else (case target of
                  ApiConflict _ \<Rightarrow> YamlStatus 409
                | ApiCluster None \<Rightarrow> YamlStatus 200
                | ApiCluster (Some c) \<Rightarrow>
                    (case objects c ns kind name of
                       NotFound err \<Rightarrow> YamlError 404 err
                     | ApiErr err \<Rightarrow> YamlError 502 err
                     | Got obj \<Rightarrow>
                         if reveal \<noteq> '''' then reveal_reply (Some obj) fld reveal
                         else yaml_page to_yaml (issues c ns kind name) (Some obj) ns kind name))
      | _ \<Rightarrow> YamlStatus 400)"

text \<open>\<open>handleObject\<close> (main.go), the page of an object on the cluster \<open>cname\<close>.\<close>

datatype object_page = ObjectBad nat string | ObjectPage string string string string

definition handleObject :: "(string \<Rightarrow> string \<Rightarrow> string \<Rightarrow> string + string) \<Rightarrow> string \<Rightarrow> string \<Rightarrow> object_page" where
  "handleObject yaml cname path0 =
     (let path = (if has_prefix path0 ''/object/'' then drop 8 path0 else path0) in
      case split3 path of
        [ns, kind, name] \<Rightarrow>
          (case yaml ns kind name of
             Inl err \<Rightarrow> ObjectBad 500 (''Error fetching object from '' @ cname @ '': '' @ err)
           | Inr y \<Rightarrow> ObjectPage ns kind name y)
      | _ \<Rightarrow> ObjectBad 400 ''invalid path'')"

section \<open>What is hidden and what is revealed\<close>

text \<open>A Secret with other values, and another copy of itself in the annotation.\<close>

definition with_secret :: "(json \<Rightarrow> json) \<Rightarrow> jmap \<Rightarrow> jmap" where
  "with_secret h obj =
     altered ''data'' (inside (all_values h)) (altered ''stringData'' (inside (all_values h))
       (altered ''metadata'' (inside (altered ''annotations'' (inside (altered lastAppliedAnnotation h)))) obj))"

lemma altered_altered: "altered k f (altered k g m) = altered k (f \<circ> g) m"
  by (cases m) (auto simp: altered_def)

lemma altered_commute: "k \<noteq> k' \<Longrightarrow> altered k f (altered k' g m) = altered k' g (altered k f m)"
  by (cases m) (auto simp: altered_def)

lemma inside_inside:
  assumes "\<And>es. f (Some es) \<noteq> None" "\<And>es. g (Some es) \<noteq> None"
  shows "inside f \<circ> inside g = inside (f \<circ> g)"
proof
  fix v
  show "(inside f \<circ> inside g) v = inside (f \<circ> g) v"
  proof (cases v)
    case (JMap es)
    moreover obtain es' where "g (Some es) = Some es'" using assms(2) by blast
    moreover obtain es'' where "f (Some es') = Some es''" using assms(1) by blast
    ultimately show ?thesis by (simp add: inside_def)
  qed (simp_all add: inside_def)
qed

lemma hide_values: "all_values hide \<circ> all_values h = all_values hide"
proof
  show "(all_values hide \<circ> all_values h) m = all_values hide m" for m
    by (cases m) (auto simp: all_values_def hide_def)
qed

lemma hide_twice: "hide \<circ> h = hide"
  by (simp add: fun_eq_iff hide_def)

lemma mask_hides:
  "altered ''metadata'' (inside (altered ''annotations'' (inside (altered lastAppliedAnnotation hide))))
     (altered ''stringData'' (inside (all_values hide)) (altered ''data'' (inside (all_values hide)) (with_secret h obj))) =
   altered ''metadata'' (inside (altered ''annotations'' (inside (altered lastAppliedAnnotation hide))))
     (altered ''stringData'' (inside (all_values hide)) (altered ''data'' (inside (all_values hide)) obj))"
proof -
  have data: "inside (all_values hide) \<circ> inside (all_values h) = inside (all_values hide)"
    by (simp add: inside_inside hide_values)
  have copy: "altered lastAppliedAnnotation hide \<circ> altered lastAppliedAnnotation h = altered lastAppliedAnnotation hide"
    by (simp add: fun_eq_iff altered_altered hide_twice)
  have ann: "altered ''annotations'' (inside (altered lastAppliedAnnotation hide)) \<circ> altered ''annotations'' (inside (altered lastAppliedAnnotation h)) =
      altered ''annotations'' (inside (altered lastAppliedAnnotation hide))"
    by (intro ext) (simp add: altered_altered inside_inside copy)
  have meta: "inside (altered ''annotations'' (inside (altered lastAppliedAnnotation hide))) \<circ>
      inside (altered ''annotations'' (inside (altered lastAppliedAnnotation h))) =
      inside (altered ''annotations'' (inside (altered lastAppliedAnnotation hide)))"
    by (simp add: inside_inside ann)
  have sd: "altered ''data'' f (altered ''stringData'' g m) = altered ''stringData'' g (altered ''data'' f m)"
    "altered ''data'' f (altered ''metadata'' g m) = altered ''metadata'' g (altered ''data'' f m)"
    "altered ''stringData'' f (altered ''metadata'' g m) = altered ''metadata'' g (altered ''stringData'' f m)" for f g m
    by (rule altered_commute; simp)+
  show ?thesis
    by (simp only: with_secret_def sd altered_altered data meta)
qed


definition sample_secret :: jmap where
  "sample_secret = Some [(''kind'', JString ''Secret''), (''data'', JMap [(''password'', JString ''cGFzcw=='')])]"


lemma b64_encode_plain: "filter (\<lambda>c. c \<noteq> CHR 0x0A \<and> c \<noteq> CHR 0x0D) (b64_encode s) = b64_encode s"
proof (induction s rule: b64_encode.induct)
  case (2 a)
  then show ?case using b64_parts [OF byte_range [of a], of 0 0] by (simp add: Let_def b64_plain)
next
  case (3 a b)
  then show ?case using b64_parts [OF byte_range [of a] byte_range [of b], of 0]
    by (simp add: Let_def b64_plain)
next
  case (4 a b c rest)
  then show ?case using b64_parts [OF byte_range [of a] byte_range [of b] byte_range [of c]]
    by (simp add: Let_def b64_plain)
qed simp

lemma b64_roundtrip: "b64_decode (b64_encode s) = Some s"
  by (simp add: b64_decode_def b64_encode_plain b64_quads_encode)

text \<open>C32: Asking for one value of a Secret gives back exactly the bytes that were stored, decoded when they are
  text and otherwise in base64 and marked as binary.\<close>

theorem revealed_value:
  assumes "field obj ''kind'' = JString ''Secret''"
    and "field (nmMap obj ''data'') key = JString (b64_encode v)"
  shows "secretValue obj '''' key = Inr (if valid_utf8 v then (v, False) else (b64_encode v, True))"
  using assms by (simp add: secretValue_def as_string_def b64_roundtrip)

theorem revealed_value_witness: "secretValue sample_secret '''' ''password'' = Inr (''pass'', False)"
proof -
  have "field sample_secret ''kind'' = JString ''Secret''"
    "field (nmMap sample_secret ''data'') ''password'' = JString (b64_encode ''pass'')" by code_simp+
  then have "secretValue sample_secret '''' ''password'' =
      Inr (if valid_utf8 ''pass'' then (''pass'', False) else (b64_encode ''pass'', True))"
    by (rule revealed_value)
  moreover have "valid_utf8 ''pass''" by code_simp
  ultimately show ?thesis by simp
qed

end
