(* ===== verification/BenchRecord.thy ===== *)
theory BenchRecord
  imports YamlView
begin

text \<open>
  Recording a cluster for the benchmark (bench_record.go): which namespaces are recorded, what is left out
  of an object before it is written, and the files. The API server is an argument; writing files is taken
  to succeed.
\<close>

section \<open>Lists of names\<close>

definition splitList :: "string \<Rightarrow> string list" where
  "splitList s = filter (\<lambda>v. v \<noteq> '''') (map trim_space (split_byte (CHR '','') s))"

section \<open>What is not stored\<close>

text \<open>\<open>delete(m, key)\<close>\<close>

definition removed :: "string \<Rightarrow> jmap \<Rightarrow> jmap" where
  "removed key m = map_option (filter (\<lambda>(k, _). k \<noteq> key)) m"

definition drop_values :: "json \<Rightarrow> json" where
  "drop_values v =
     (case v of JList es \<Rightarrow> JList (map (\<lambda>e. case e of JMap em \<Rightarrow> JMap (filter (\<lambda>(k, _). k \<noteq> ''value'') em) | _ \<Rightarrow> e) es) | _ \<Rightarrow> v)"

fun dropEnvValues :: "json \<Rightarrow> json" where
  "dropEnvValues (JMap m) =
     JMap (map (\<lambda>(k, v). (k, if k = ''env'' then drop_values v else dropEnvValues v)) m)"
| "dropEnvValues (JList vs) = JList (map dropEnvValues vs)"
| "dropEnvValues v = v"

text \<open>The metadata: an annotation map that becomes empty goes too.\<close>

definition clean_metadata :: "jmap \<Rightarrow> jmap" where
  "clean_metadata md =
     map_option (filter (\<lambda>(k, v). \<not> (k = ''annotations'' \<and> v = JMap [])))
       (altered ''annotations'' (inside (removed lastAppliedAnnotation)) (removed ''managedFields'' md))"

definition emptied :: "jmap \<Rightarrow> jmap" where
  "emptied m = all_values (\<lambda>_. JString '''') m"

definition empty_data :: "jmap \<Rightarrow> jmap" where
  "empty_data obj =
     (if field obj ''kind'' = JString ''ConfigMap'' \<or> field obj ''kind'' = JString ''Secret''
      then altered ''stringData'' (inside emptied) (altered ''binaryData'' (inside emptied) (altered ''data'' (inside emptied) obj))
      else obj)"

definition sanitizeForSnapshot :: "(string \<times> json) list \<Rightarrow> (string \<times> json) list" where
  "sanitizeForSnapshot obj =
     entries (as_map (dropEnvValues (JMap (entries
       (empty_data (altered ''metadata'' (inside clean_metadata) (Some obj)))))))"

section \<open>The objects of a resource\<close>

definition gv_string :: "gvr \<Rightarrow> string" where
  "gv_string g = (if gvGroup g = '''' then gvVersion g else gvGroup g @ [CHR 0x2F] @ gvVersion g)"

definition put_field :: "string \<Rightarrow> string \<Rightarrow> (string \<times> json) list \<Rightarrow> (string \<times> json) list" where
  "put_field key s obj = al_set key (JString s) obj"

definition with_type :: "string \<Rightarrow> string \<Rightarrow> (string \<times> json) list \<Rightarrow> (string \<times> json) list" where
  "with_type gv kind obj =
     (let obj1 = (if as_string (field (Some obj) ''apiVersion'') = '''' then put_field ''apiVersion'' gv obj else obj)
      in if as_string (field (Some obj) ''kind'') = '''' \<and> kind \<noteq> '''' then put_field ''kind'' kind obj1 else obj1)"

definition object_name :: "(string \<times> json) list \<Rightarrow> string" where
  "object_name obj = nmStr (nmMap (Some obj) ''metadata'') ''name''"

definition name_less :: "(string \<times> json) list \<Rightarrow> (string \<times> json) list \<Rightarrow> bool" where
  "name_less a b \<longleftrightarrow> object_name a < object_name b"

text \<open>A list of the API: its kind and its items.\<close>

type_synonym api_objects = "string + (string \<times> (string \<times> json) list list)"

definition listForSnapshot :: "gvr \<Rightarrow> api_objects \<Rightarrow> string + (string \<times> json) list list" where
  "listForSnapshot g answer =
     (case answer of
        Inl err \<Rightarrow> Inl err
      | Inr (list_kind, items) \<Rightarrow>
          (let kind = (if has_suffix list_kind ''List'' then take (length list_kind - 4) list_kind else list_kind) in
           Inr (go_sort name_less (map (\<lambda>obj. sanitizeForSnapshot (with_type (gv_string g) kind obj)) items))))"

section \<open>The snapshot\<close>

definition benchNamespacedResources :: "gvr list" where
  "benchNamespacedResources =
     [core_v1 ''pods'', apps_v1 ''deployments'', apps_v1 ''replicasets'', apps_v1 ''statefulsets'', apps_v1 ''daemonsets'',
      batch_v1 ''jobs'', batch_v1 ''cronjobs'', core_v1 ''services'',
      \<lparr>gvGroup = ''discovery.k8s.io'', gvVersion = ''v1'', gvResource = ''endpointslices''\<rparr>,
      core_v1 ''persistentvolumeclaims'', core_v1 ''configmaps'', core_v1 ''secrets'',
      \<lparr>gvGroup = ''autoscaling'', gvVersion = ''v2'', gvResource = ''horizontalpodautoscalers''\<rparr>,
      \<lparr>gvGroup = ''networking.k8s.io'', gvVersion = ''v1'', gvResource = ''ingresses''\<rparr>,
      core_v1 ''serviceaccounts'', core_v1 ''events'']"

definition benchClusterResources :: "gvr list" where
  "benchClusterResources =
     [core_v1 ''namespaces'', core_v1 ''nodes'', core_v1 ''persistentvolumes'',
      \<lparr>gvGroup = ''storage.k8s.io'', gvVersion = ''v1'', gvResource = ''storageclasses''\<rparr>]"

record snapshotMeta =
  smName :: string
  smContext :: string
  smRecordedAt :: time
  smRecordedWith :: string
  smLogTailLines :: int
  smNamespaces :: "string list"
  smSkipped :: "string list"
  smNotes :: "string list"

text \<open>A file of the snapshot: the objects of a resource (of a namespace, or of the cluster), or a log.\<close>

datatype snapshot_file =
    ObjectsFile "string option" string "(string \<times> json) list list"
  | LogFile string string string bool string

definition writeObjects :: "string option \<Rightarrow> string \<Rightarrow> (string \<times> json) list list \<Rightarrow> snapshot_file list" where
  "writeObjects ns resource items = (if items = [] then [] else [ObjectsFile ns resource items])"

text \<open>
  \<open>recordPodLogs\<close>: \<open>logs pod container previous\<close> is the log, if the API gives it. A container that is not a
  map makes the code panic: \<open>None\<close>.
\<close>

definition container_names :: "jmap \<Rightarrow> string list option" where
  "container_names p =
     (let spec = nmMap p ''spec'' in
      those (map (\<lambda>c. case c of JMap m \<Rightarrow> Some (nmStr (Some m) ''name'') | _ \<Rightarrow> None)
        (nmSlice spec ''initContainers'' @ nmSlice spec ''containers'')))"

definition pod_log_files :: "(string \<Rightarrow> string \<Rightarrow> bool \<Rightarrow> string option) \<Rightarrow> string \<Rightarrow> (string \<times> json) list \<Rightarrow> snapshot_file list option" where
  "pod_log_files logs ns p =
     (let pod = as_string (field (nmMap (Some p) ''metadata'') ''name'') in
      map_option (\<lambda>names. concat (map (\<lambda>name. concat (map (\<lambda>previous.
          case logs pod name previous of None \<Rightarrow> [] | Some txt \<Rightarrow> [LogFile ns pod name previous txt]) [False, True])) names))
        (container_names (Some p)))"

definition recordPodLogs :: "(string \<Rightarrow> string \<Rightarrow> bool \<Rightarrow> string option) \<Rightarrow> string \<Rightarrow> (string \<times> json) list list \<Rightarrow> snapshot_file list option" where
  "recordPodLogs logs ns pods = map_option concat (those (map (pod_log_files logs ns) pods))"

text \<open>One cluster-wide resource; of the namespaces those that are wanted are kept and noted.\<close>

definition wanted_ns :: "string list \<Rightarrow> string list \<Rightarrow> string \<Rightarrow> bool" where
  "wanted_ns skip only name \<longleftrightarrow> \<not> (name \<in> set skip \<or> (only \<noteq> [] \<and> name \<notin> set only))"

definition cluster_resource :: "string list \<Rightarrow> string list \<Rightarrow> (gvr \<Rightarrow> api_objects) \<Rightarrow>
    snapshot_file list \<times> snapshotMeta \<Rightarrow> gvr \<Rightarrow> snapshot_file list \<times> snapshotMeta" where
  "cluster_resource skip only answers st g =
     (case st of (files, meta) \<Rightarrow>
        (case listForSnapshot g (answers g) of
           Inl err \<Rightarrow> (files, meta\<lparr>smNotes := smNotes meta @ [gvResource g @ '' not recorded: '' @ err]\<rparr>)
         | Inr items \<Rightarrow>
             if gvResource g = ''namespaces''
             then let kept = filter (\<lambda>it. wanted_ns skip only (object_name it)) items in
               (files @ writeObjects None (gvResource g) kept,
                meta\<lparr>smNamespaces := smNamespaces meta @ map object_name kept\<rparr>)
             else (files @ writeObjects None (gvResource g) items, meta)))"

definition ns_resource :: "(string \<Rightarrow> gvr \<Rightarrow> api_objects) \<Rightarrow> (string \<Rightarrow> string \<Rightarrow> string \<Rightarrow> bool \<Rightarrow> string option) \<Rightarrow>
    (snapshot_file list \<times> snapshotMeta) option \<Rightarrow> string \<times> gvr \<Rightarrow> (snapshot_file list \<times> snapshotMeta) option" where
  "ns_resource answers logs st entry =
     (case entry of (ns, g) \<Rightarrow>
        Option.bind st (\<lambda>(files, meta).
          (case listForSnapshot g (answers ns g) of
             Inl err \<Rightarrow> Some (files, meta\<lparr>smNotes := smNotes meta @ [ns @ [CHR 0x2F] @ gvResource g @ '' not recorded: '' @ err]\<rparr>)
           | Inr items \<Rightarrow>
               map_option (\<lambda>ls. (files @ writeObjects (Some ns) (gvResource g) items @ ls, meta))
                 (if gvResource g = ''pods'' then recordPodLogs (logs ns) ns items else Some []))))"

text \<open>\<open>recordSnapshot\<close> up to the files of discovery and metadata; \<open>meta0\<close> is what it starts with.\<close>

definition recordSnapshot :: "string list \<Rightarrow> string list \<Rightarrow> (gvr \<Rightarrow> api_objects) \<Rightarrow> (string \<Rightarrow> gvr \<Rightarrow> api_objects) \<Rightarrow>
    (string \<Rightarrow> string \<Rightarrow> string \<Rightarrow> bool \<Rightarrow> string option) \<Rightarrow> snapshotMeta \<Rightarrow> (snapshot_file list \<times> snapshotMeta) option" where
  "recordSnapshot skip only cluster_answers ns_answers logs meta0 =
     (case foldl (cluster_resource skip only cluster_answers) ([], meta0) benchClusterResources of
        (files, meta) \<Rightarrow>
          (let meta1 = meta\<lparr>smNamespaces := go_sort string_less (smNamespaces meta)\<rparr> in
           foldl (ns_resource ns_answers logs) (Some (files, meta1))
             (concat (map (\<lambda>ns. map (Pair ns) benchNamespacedResources) (smNamespaces meta1)))))"

section \<open>What the files do not hold\<close>

text \<open>Other values in the \<open>env\<close> lists of an object, at any depth.\<close>

definition env_list :: "(json \<Rightarrow> json) \<Rightarrow> json \<Rightarrow> json" where
  "env_list h v =
     (case v of
        JList es \<Rightarrow> JList (map (\<lambda>e. case e of
            JMap em \<Rightarrow> JMap (map (\<lambda>(k, x). if k = ''value'' then (k, h x) else (k, x)) em) | _ \<Rightarrow> e) es)
      | _ \<Rightarrow> v)"

fun env_changed :: "(json \<Rightarrow> json) \<Rightarrow> json \<Rightarrow> json" where
  "env_changed h (JMap m) = JMap (map (\<lambda>(k, v). (k, if k = ''env'' then env_list h v else env_changed h v)) m)"
| "env_changed h (JList vs) = JList (map (env_changed h) vs)"
| "env_changed h v = v"

lemma drop_env_list: "drop_values (env_list h v) = drop_values v"
proof -
  have "filter (\<lambda>(k, _). k \<noteq> ''value'') (map (\<lambda>(k, x). if k = ''value'' then (k, h x) else (k, x)) em) =
      filter (\<lambda>(k, _). k \<noteq> ''value'') em" for em
    by (induction em) auto
  then show ?thesis by (auto simp: drop_values_def env_list_def split: json.split)
qed

lemma drop_env_changed: "dropEnvValues (env_changed h v) = dropEnvValues v"
proof (induction h v rule: env_changed.induct)
  case (1 h m)
  then show ?case by (auto simp: drop_env_list)
next
  case (2 h vs)
  then show ?case by simp
qed simp_all

text \<open>The same on a decoded map; it does not interfere with the rest of \<open>sanitizeForSnapshot\<close>.\<close>

definition map_env :: "(json \<Rightarrow> json) \<Rightarrow> jmap \<Rightarrow> jmap" where
  "map_env h m = map_option (map (\<lambda>(k, v). (k, if k = ''env'' then env_list h v else env_changed h v))) m"

lemma env_changed_map: "env_changed h (JMap m) = JMap (entries (map_env h (Some m)))"
  by (simp add: map_env_def entries_def)

lemma map_env_kept [simp]: "map_env h (Some m) \<noteq> None"
  by (simp add: map_env_def)

lemma env_changed_inside:
  assumes "\<And>m. map_env h (g (Some m)) = g (map_env h (Some m))" "\<And>m. g (Some m) \<noteq> None"
  shows "env_changed h (inside g v) = inside g (env_changed h v)"
proof (cases v)
  case (JMap m)
  obtain m' where m': "g (Some m) = Some m'" using assms(2) by blast
  obtain m'' where m'': "map_env h (Some m) = Some m''" using map_env_kept by blast
  obtain x where x: "map_env h (Some m') = Some x" using map_env_kept by blast
  have old: "env_changed h (JMap m) = JMap m''" unfolding env_changed_map m'' by (simp add: entries_def)
  have new: "env_changed h (JMap m') = JMap x" unfolding env_changed_map x by (simp add: entries_def)
  have "g (Some m'') = Some x" using assms(1) [of m] m' m'' x by simp
  then have "inside g (JMap m'') = JMap x" by (simp add: inside_def)
  moreover have "inside g (JMap m) = JMap m'" using m' by (simp add: inside_def)
  ultimately show ?thesis unfolding JMap by (simp only: old new)
qed (simp_all add: inside_def)

lemma map_env_altered:
  assumes "key \<noteq> ''env''" "\<And>v. env_changed h (f v) = f (env_changed h v)"
  shows "map_env h (altered key f m) = altered key f (map_env h m)"
  using assms by (cases m) (auto simp: map_env_def altered_def)

lemma map_env_removed: "map_env h (removed key m) = removed key (map_env h m)"
proof (cases m)
  case (Some es)
  have "map (\<lambda>(k, v). (k, if k = ''env'' then env_list h v else env_changed h v)) (filter (\<lambda>(k, _). k \<noteq> key) es) =
      filter (\<lambda>(k, _). k \<noteq> key) (map (\<lambda>(k, v). (k, if k = ''env'' then env_list h v else env_changed h v)) es)"
    by (induction es) auto
  then show ?thesis using Some by (simp add: map_env_def removed_def)
qed (simp add: map_env_def removed_def)

lemma removed_kept: "removed key (Some m) \<noteq> None"
  by (simp add: removed_def)

lemma map_env_emptied: "map_env h (emptied m) = emptied (map_env h m)"
  by (cases m) (auto simp: map_env_def emptied_def all_values_def env_list_def)

lemma emptied_kept: "emptied (Some m) \<noteq> None"
  by (simp add: emptied_def)

lemma env_changed_empty: "env_changed h v = JMap [] \<longleftrightarrow> v = JMap []"
  by (cases v) auto

lemma map_env_clean: "map_env h (clean_metadata m) = clean_metadata (map_env h m)"
proof -
  let ?keep = "\<lambda>(k, v). \<not> (k = ''annotations'' \<and> v = JMap [])"
  have "map_env h (map_option (filter ?keep) m) = map_option (filter ?keep) (map_env h m)" for m
  proof (cases m)
    case (Some es)
    have "map (\<lambda>(k, v). (k, if k = ''env'' then env_list h v else env_changed h v)) (filter ?keep es) =
        filter ?keep (map (\<lambda>(k, v). (k, if k = ''env'' then env_list h v else env_changed h v)) es)"
      by (induction es) (auto simp: env_changed_empty)
    then show ?thesis using Some by (simp add: map_env_def)
  qed (simp add: map_env_def)
  then show ?thesis
    by (simp add: clean_metadata_def map_env_altered env_changed_inside map_env_removed removed_kept)
qed

lemma map_env_kind:
  "field (map_env h m) ''kind'' = JString s \<longleftrightarrow> field m ''kind'' = JString s"
proof (cases m)
  case (Some es)
  have "map_of (map (\<lambda>(k, v). (k, if k = ''env'' then env_list h v else env_changed h v)) es) ''kind'' =
      map_option (env_changed h) (map_of es ''kind'')"
    by (induction es) auto
  moreover have "env_changed h v = JString s \<longleftrightarrow> v = JString s" for v by (cases v) auto
  ultimately show ?thesis
    using Some by (auto simp: map_env_def field_def al_get_def split: option.split)
qed (simp add: map_env_def)

lemma map_env_data: "map_env h (empty_data m) = empty_data (map_env h m)"
  by (simp add: empty_data_def map_env_kind map_env_altered env_changed_inside map_env_emptied emptied_kept)

lemma sanitize_env: "sanitizeForSnapshot (entries (map_env h (Some obj))) = sanitizeForSnapshot obj"
proof -
  let ?clean = "\<lambda>m. empty_data (altered ''metadata'' (inside clean_metadata) m)"
  have kept: "clean_metadata (Some m) \<noteq> None" for m by (simp add: clean_metadata_def removed_def)
  obtain es where es: "map_env h (Some obj) = Some es" using map_env_kept by blast
  have "empty_data (Some m) \<noteq> None" for m by (simp add: empty_data_def del: not_None_eq)
  then obtain os where os: "?clean (Some obj) = Some os" by (metis altered_kept(1) not_None_eq)
  have "?clean (Some es) = map_env h (?clean (Some obj))"
    using kept by (simp add: es [symmetric] map_env_data map_env_altered env_changed_inside map_env_clean)
  then have step: "?clean (Some es) = map_env h (Some os)" by (simp only: os)
  have "sanitizeForSnapshot es = entries (as_map (dropEnvValues (env_changed h (JMap os))))"
    unfolding sanitizeForSnapshot_def step env_changed_map ..
  also have "\<dots> = entries (as_map (dropEnvValues (JMap os)))" by (simp only: drop_env_changed)
  also have "\<dots> = sanitizeForSnapshot obj"
    unfolding sanitizeForSnapshot_def os by (simp add: entries_def [of "Some os"])
  finally show ?thesis unfolding es by (simp add: entries_def)
qed

text \<open>Other values of a ConfigMap or Secret, and another copy of the object in its annotation.\<close>

definition with_stored :: "(json \<Rightarrow> json) \<Rightarrow> jmap \<Rightarrow> jmap" where
  "with_stored h obj =
     (if field obj ''kind'' = JString ''ConfigMap'' \<or> field obj ''kind'' = JString ''Secret''
      then altered ''stringData'' (inside (all_values h)) (altered ''binaryData'' (inside (all_values h)) (altered ''data'' (inside (all_values h))
        (altered ''metadata'' (inside (altered ''annotations'' (inside (altered lastAppliedAnnotation h)))) obj)))
      else obj)"

lemma with_stored_kept: "\<exists>es. with_stored h (Some obj) = Some es"
proof -
  have "with_stored h (Some obj) \<noteq> None" by (simp add: with_stored_def del: not_None_eq)
  then show ?thesis by auto
qed

lemma clean_copy: "clean_metadata (altered ''annotations'' (inside (altered lastAppliedAnnotation h)) m) = clean_metadata m"
proof -
  have swap: "removed key (altered key' f m) = altered key' f (removed key m)" for key key' f m
  proof (cases m)
    case (Some es)
    have "filter (\<lambda>(k, _). k \<noteq> key) (map (\<lambda>(k, v). if k = key' then (k, f v) else (k, v)) es) =
        map (\<lambda>(k, v). if k = key' then (k, f v) else (k, v)) (filter (\<lambda>(k, _). k \<noteq> key) es)"
      by (induction es) (auto split: if_splits)
    then show ?thesis using Some by (simp add: removed_def altered_def)
  qed (simp add: removed_def altered_def)
  have "removed lastAppliedAnnotation (altered lastAppliedAnnotation h m) = removed lastAppliedAnnotation m" for m
  proof (cases m)
    case (Some es)
    have "filter (\<lambda>(k, _). k \<noteq> lastAppliedAnnotation) (map (\<lambda>(k, v). if k = lastAppliedAnnotation then (k, h v) else (k, v)) es) =
        filter (\<lambda>(k, _). k \<noteq> lastAppliedAnnotation) es"
      by (induction es) auto
    then show ?thesis using Some by (simp add: removed_def altered_def)
  qed (simp add: removed_def altered_def)
  then have "removed lastAppliedAnnotation \<circ> altered lastAppliedAnnotation h = removed lastAppliedAnnotation"
    by (simp add: fun_eq_iff)
  then show ?thesis
    by (simp add: clean_metadata_def swap altered_altered inside_inside removed_kept)
qed

lemma empty_values: "emptied \<circ> all_values h = emptied"
proof
  show "(emptied \<circ> all_values h) m = emptied m" for m
    by (cases m) (auto simp: emptied_def all_values_def)
qed

lemma sanitize_stored: "sanitizeForSnapshot (entries (with_stored h (Some obj))) = sanitizeForSnapshot obj"
proof -
  obtain es where es: "with_stored h (Some obj) = Some es" using with_stored_kept by blast
  have kept: "clean_metadata (Some m) \<noteq> None" for m by (simp add: clean_metadata_def removed_def)
  have data: "inside emptied \<circ> inside (all_values h) = inside emptied"
    by (simp add: inside_inside emptied_kept empty_values)
  have "clean_metadata \<circ> altered ''annotations'' (inside (altered lastAppliedAnnotation h)) = clean_metadata"
    by (simp add: fun_eq_iff clean_copy)
  then have meta: "inside clean_metadata \<circ> inside (altered ''annotations'' (inside (altered lastAppliedAnnotation h))) =
      inside clean_metadata"
    by (simp add: inside_inside kept)
  have swap: "altered ''metadata'' f (altered ''stringData'' g m) = altered ''stringData'' g (altered ''metadata'' f m)"
    "altered ''metadata'' f (altered ''binaryData'' g m) = altered ''binaryData'' g (altered ''metadata'' f m)"
    "altered ''metadata'' f (altered ''data'' g m) = altered ''data'' g (altered ''metadata'' f m)"
    "altered ''binaryData'' f (altered ''stringData'' g m) = altered ''stringData'' g (altered ''binaryData'' f m)"
    "altered ''data'' f (altered ''stringData'' g m) = altered ''stringData'' g (altered ''data'' f m)"
    "altered ''data'' f (altered ''binaryData'' g m) = altered ''binaryData'' g (altered ''data'' f m)" for f g m
    by (rule altered_commute; simp)+
  have "empty_data (altered ''metadata'' (inside clean_metadata) (with_stored h (Some obj))) =
      empty_data (altered ''metadata'' (inside clean_metadata) (Some obj))"
  proof (cases "field (Some obj) ''kind'' = JString ''ConfigMap'' \<or> field (Some obj) ''kind'' = JString ''Secret''")
    case True
    then show ?thesis
      by (simp add: with_stored_def empty_data_def) (simp only: swap altered_altered data meta)
  next
    case False
    then show ?thesis by (simp add: with_stored_def)
  qed
  then show ?thesis by (simp add: sanitizeForSnapshot_def es entries_def [of "Some es"])
qed

text \<open>C39: What a recorded snapshot stores of an object does not depend on the values of a ConfigMap or Secret, on
  their copy in the annotation of the last applied configuration, or on the literal values in the
  environment lists at any depth of any object: those values are never written to a file.\<close>

theorem snapshot_stores_no_values:
  "sanitizeForSnapshot (entries (map_env h (with_stored g (Some obj)))) = sanitizeForSnapshot obj"
proof -
  obtain es where es: "with_stored g (Some obj) = Some es" using with_stored_kept by blast
  have "sanitizeForSnapshot (entries (map_env h (Some es))) = sanitizeForSnapshot es" by (rule sanitize_env)
  also have "\<dots> = sanitizeForSnapshot obj" using sanitize_stored [of g obj] by (simp add: es entries_def)
  finally show ?thesis by (simp add: es)
qed

end
