(* ===== verification/BenchReplay.thy ===== *)
theory BenchReplay
  imports BenchRecord RCARuns ModelCalls
begin

text \<open>
  Replaying a recorded cluster (bench_replay.go): timestamps moved to the replay's time, list calls
  answered in pages as an API server does, and logs cut to their last lines. Parsing and printing a
  timestamp, and what a field selector matches, are arguments.
\<close>

section \<open>Timestamps\<close>

definition timeFields :: "string list" where
  "timeFields = [''creationTimestamp'', ''deletionTimestamp'', ''firstTimestamp'', ''lastTimestamp'', ''eventTime'',
     ''lastObservedTime'', ''startTime'', ''completionTime'', ''startedAt'', ''finishedAt'', ''lastScheduleTime'',
     ''lastSuccessfulTime'', ''lastTransitionTime'', ''lastUpdateTime'', ''lastProbeTime'', ''lastHeartbeatTime'',
     ''lastPhaseTransitionTime'', ''lastScaleTime'']"

text \<open>\<open>print micro t\<close> is \<open>t\<close> in UTC, with microseconds or in whole seconds.\<close>

definition shiftTimestamp :: "(string \<Rightarrow> time option) \<Rightarrow> (bool \<Rightarrow> time \<Rightarrow> string) \<Rightarrow> duration \<Rightarrow> string \<Rightarrow> string" where
  "shiftTimestamp parse print d s =
     (case parse s of None \<Rightarrow> s | Some t \<Rightarrow> print (str_contains s ''.'') (t + d))"

fun shiftTimes :: "(string \<Rightarrow> string) \<Rightarrow> json \<Rightarrow> json" where
  "shiftTimes shift (JMap m) =
     JMap (map (\<lambda>(k, v). (k, case v of
         JString s \<Rightarrow> if k \<in> set timeFields then JString (shift s) else v
       | _ \<Rightarrow> shiftTimes shift v)) m)"
| "shiftTimes shift (JList vs) = JList (map (shiftTimes shift) vs)"
| "shiftTimes shift v = v"

section \<open>Lists in pages\<close>

text \<open>\<open>strconv.Atoi\<close> of a text that is a sign, if any, and digits.\<close>

definition atoi :: "string \<Rightarrow> int option" where
  "atoi s =
     (let minus = has_prefix s ''-''; t = (if minus \<or> has_prefix s ''+'' then tl s else s);
          n = int (digits_value 0 t); v = (if minus then - n else n)
      in if t \<noteq> '''' \<and> list_all is_digit t \<and> - (2 ^ 63) \<le> v \<and> v < 2 ^ 63 then Some v else None)"

definition list_page :: "int \<Rightarrow> string \<Rightarrow> 'a list \<Rightarrow> string + ('a list \<times> string)" where
  "list_page limit cont items =
     (case (if cont = '''' then Some 0 else atoi cont) of
        None \<Rightarrow> Inl (''bad continue token '' @ go_quote cont)
      | Some start \<Rightarrow>
          if start < 0 \<or> start > int (length items) then Inl (''bad continue token '' @ go_quote cont)
          else if limit > 0 \<and> int (length items) - start > limit
          then Inr (take (nat limit) (drop (nat start) items), itoa (start + limit))
          else Inr (drop (nat start) items, ''''))"

text \<open>\<open>listLikeAPIServer\<close>: the items in the order of their keys, those the selector matches, and a page of them.\<close>

definition list_items :: "('a \<Rightarrow> string) \<Rightarrow> ('a \<Rightarrow> bool) \<Rightarrow> 'a list \<Rightarrow> 'a list" where
  "list_items key matches stored = filter matches (go_sort (\<lambda>a b. string_less (key a) (key b)) stored)"

definition listLikeAPIServer :: "('a \<Rightarrow> string) \<Rightarrow> ('a \<Rightarrow> bool) \<Rightarrow> 'a list \<Rightarrow> int \<Rightarrow> string \<Rightarrow> string + ('a list \<times> string)" where
  "listLikeAPIServer key matches stored limit cont = list_page limit cont (list_items key matches stored)"

section \<open>Logs\<close>

definition logKey :: "string \<Rightarrow> string \<Rightarrow> string \<Rightarrow> bool \<Rightarrow> string" where
  "logKey ns pod c previous =
     ns @ [CHR 0x2F] @ pod @ [CHR 0x2F] @ c @ (if previous then ''.previous'' else '''')"

definition newline :: char where "newline = CHR 0x0A"

definition tailLines :: "string \<Rightarrow> int \<Rightarrow> string" where
  "tailLines s n =
     (if n \<le> 0 \<or> s = '''' then s
      else let rows = split_byte newline (trim_suffix s [newline]) in
        if int (length rows) \<le> n then s
        else str_join [newline] (drop (length rows - nat n) rows) @ (if has_suffix s [newline] then [newline] else ''''))"

text \<open>The logs of a recorded cluster, by \<open>logKey\<close>.\<close>

definition recorded_logs :: "(string, string) gomap \<Rightarrow> string \<Rightarrow> string \<Rightarrow> string \<Rightarrow> int \<Rightarrow> bool \<Rightarrow> string + string" where
  "recorded_logs logs ns pod c n previous =
     (case map_of logs (logKey ns pod c previous) of
        None \<Rightarrow> Inl (''no recorded '' @ (if previous then ''previous logs'' else ''logs'') @ '' for '' @ ns @ [CHR 0x2F] @ pod @ '' container '' @ c)
      | Some txt \<Rightarrow> Inr (tailLines txt n))"

section \<open>Every item is in one page\<close>

text \<open>A client that asks for page after page until there is no more.\<close>

fun read_pages :: "nat \<Rightarrow> (string \<Rightarrow> string + ('a list \<times> string)) \<Rightarrow> string \<Rightarrow> 'a list option" where
  "read_pages 0 get cont = None"
| "read_pages (Suc n) get cont =
     (case get cont of
        Inl err \<Rightarrow> None
      | Inr (page, rest) \<Rightarrow> if rest = '''' then Some page else map_option ((@) page) (read_pages n get rest))"

lemma atoi_itoa:
  assumes "0 \<le> n" "n < 2 ^ 63"
  shows "atoi (itoa n) = Some n" "itoa n \<noteq> ''''"
proof -
  obtain c s where cs: "nat_str (nat n) = c # s" by (metis nat_str_nonempty neq_Nil_conv)
  have digits: "is_digit c" "list_all is_digit s"
    using nat_str_digits [of _ "nat n"] by (auto simp: cs list_all_iff)
  then have sign: "c \<noteq> CHR ''-''" "c \<noteq> CHR ''+''" by (auto simp: is_digit_def)
  have val: "digits_value 0 (c # s) = nat n" using digits_value_nat_str [of "nat n"] cs by simp
  have itoa: "itoa n = c # s" using assms cs by (simp add: itoa_def)
  then show "itoa n \<noteq> ''''" by simp
  show "atoi (itoa n) = Some n"
    unfolding itoa using assms digits sign val by (simp add: atoi_def has_prefix_def Let_def del: digits_value.simps)
qed

lemma pages_from:
  assumes "length items - start \<le> n" "start \<le> length items" "int (length items) < 2 ^ 63"
    and "cont = (if start = 0 then '''' else itoa (int start))"
  shows "read_pages (Suc n) (\<lambda>c. list_page limit c items) cont = Some (drop start items)"
  using assms
proof (induction n arbitrary: start cont)
  case 0
  then have "start = length items" by simp
  moreover have "(if cont = '''' then Some 0 else atoi cont) = Some (int start)"
    using 0 by (auto simp: atoi_itoa)
  ultimately show ?case by (simp add: list_page_def)
next
  case (Suc n)
  have at: "(if cont = '''' then Some 0 else atoi cont) = Some (int start)"
    using Suc.prems by (auto simp: atoi_itoa)
  show ?case
  proof (cases "limit > 0 \<and> int (length items) - int start > limit")
    case False
    then have "list_page limit cont items = Inr (drop start items, '''')"
      using at Suc.prems(2) by (auto simp: list_page_def)
    then show ?thesis by simp
  next
    case True
    define after where "after = start + nat limit"
    have after: "int start + limit = int after" "after \<le> length items" "length items - after \<le> n" "0 < after"
      using True Suc.prems(1) by (auto simp: after_def)
    have page: "list_page limit cont items = Inr (take (nat limit) (drop start items), itoa (int after))"
      using True at Suc.prems(2) after(1) by (simp add: list_page_def)
    have "read_pages (Suc n) (\<lambda>c. list_page limit c items) (itoa (int after)) = Some (drop after items)"
      using after Suc.prems(3) by (intro Suc.IH) auto
    moreover have "itoa (int after) \<noteq> ''''" using after Suc.prems(3) by (intro atoi_itoa) auto
    moreover have "take (nat limit) (drop start items) @ drop after items = drop start items"
      by (metis after_def add.commute append_take_drop_id drop_drop)
    ultimately show ?thesis by (subst read_pages.simps) (simp add: page)
  qed
qed

text \<open>C40: A client that reads a list of a replayed cluster page by page, following the continue token, gets every
  stored item that its selector matches exactly once, in the order of their keys, after at most one page
  more than there are items, whatever the page size.\<close>

theorem pages_list_everything:
  assumes "int (length stored) < 2 ^ 63"
  shows "read_pages (Suc (length stored)) (listLikeAPIServer key matches stored limit) '''' = Some (list_items key matches stored)"
proof -
  have "length (list_items key matches stored) \<le> length stored"
    by (simp add: list_items_def) (metis length_filter_le length_go_sort)
  then show ?thesis
    using pages_from [of "list_items key matches stored" 0 "length stored" "''''" limit] assms
    by (simp add: listLikeAPIServer_def [abs_def])
qed

theorem pages_list_everything_witness:
  "read_pages 4 (listLikeAPIServer id (\<lambda>s. s \<noteq> ''b'') [''c'', ''b'', ''a''] 1) '''' = Some [''a'', ''c'']"
proof -
  have "read_pages (Suc (length [''c'', ''b'', ''a''])) (listLikeAPIServer id (\<lambda>s. s \<noteq> ''b'') [''c'', ''b'', ''a''] 1) '''' =
      Some (list_items id (\<lambda>s. s \<noteq> ''b'') [''c'', ''b'', ''a''])"
    by (rule pages_list_everything) simp
  moreover have "list_items id (\<lambda>s. s \<noteq> ''b'') [''c'', ''b'', ''a''] = [''a'', ''c'']" by code_simp
  ultimately show ?thesis by (simp add: eval_nat_numeral)
qed

section \<open>The last lines of a log\<close>

definition rows_of :: "string \<Rightarrow> string list" where
  "rows_of s = split_byte newline (trim_suffix s [newline])"

lemma split_join: "ls \<noteq> [] \<Longrightarrow> list_all (\<lambda>l. c \<notin> set l) ls \<Longrightarrow> split_byte c (str_join [c] ls) = ls"
proof (induction ls)
  case (Cons l ls)
  show ?case
  proof (cases ls)
    case Nil
    have "split_byte c l = [l]" if "c \<notin> set l" for l using that by (induction l) auto
    then show ?thesis using Cons Nil by simp
  next
    case (Cons l' ls')
    then have "split_byte c (str_join [c] (l # ls)) = l # split_byte c (str_join [c] ls)"
      using \<open>list_all (\<lambda>l. c \<notin> set l) (l # ls)\<close> split_byte_append [of c l "str_join [c] ls"] by simp
    then show ?thesis using Cons.IH \<open>list_all (\<lambda>l. c \<notin> set l) (l # ls)\<close> Cons by simp
  qed
qed simp

text \<open>A log is cut to exactly its last lines, and ends as it did.\<close>

lemma tail_keeps_last_rows:
  assumes "0 < n" and "n < int (length (rows_of s))" and "s \<noteq> ''''" and "has_suffix s [newline]"
  shows "rows_of (tailLines s n) = drop (length (rows_of s) - nat n) (rows_of s)"
proof -
  let ?rows = "rows_of s"
  let ?kept = "drop (length ?rows - nat n) ?rows"
  have "?kept \<noteq> []" using assms by simp
  moreover have "list_all (\<lambda>l. newline \<notin> set l) ?kept"
    by (auto simp: list_all_iff rows_of_def dest!: in_set_dropD split_byte_no_sep)
  ultimately have "split_byte newline (str_join [newline] ?kept) = ?kept" by (rule split_join)
  moreover have "tailLines s n = str_join [newline] ?kept @ [newline]"
    using assms by (simp add: tailLines_def rows_of_def Let_def)
  ultimately show ?thesis by (simp add: rows_of_def trim_suffix_def has_suffix_def)
qed

end
