(* ===== verification/BenchRun.thy ===== *)
theory BenchRun
  imports BenchScore BenchReplay
begin

text \<open>
  Running the benchmark (bench_run.go) and exporting it (bench_export.go): what is added to a recorded
  request, how a recorded answer is put together, the replay's time and seeds, and the results table read
  from the README. Decoding JSON and parsing a time are arguments; the command lines are not modelled.
\<close>

section \<open>Recorded requests and answers\<close>

definition in_quotes :: "string \<Rightarrow> string" where
  "in_quotes s = [quote] @ s @ [quote]"

text \<open>\<open>RoundTrip\<close>: fields put in front of a request that does not have them.\<close>

definition put_first :: "bool \<Rightarrow> string \<Rightarrow> string \<Rightarrow> string \<Rightarrow> string" where
  "put_first wanted name v body =
     (if wanted \<and> has_prefix body ''{'' \<and> \<not> str_contains body (in_quotes name @ '':'')
      then ''{'' @ in_quotes name @ '':'' @ v @ '','' @ tl body else body)"

definition recorded_body :: "bool \<Rightarrow> int \<Rightarrow> string \<Rightarrow> string" where
  "recorded_body noCache seed body =
     put_first (seed \<noteq> 0) ''seed'' (itoa seed) (put_first noCache ''cache_prompt'' ''false'' body)"

record benchStream =
  bmContent :: string
  bmReasoning :: string
  bmFinish :: string
  bmChunks :: nat

text \<open>
  \<open>decodeAnswer\<close> of a stream: \<open>decode data\<close> is the content, reasoning and finish reason of a chunk's first
  choice; \<open>None\<close> when it is not JSON or has no choice.
\<close>

definition stream_chunk :: "(string \<Rightarrow> (string \<times> string \<times> string) option) \<Rightarrow> benchStream \<Rightarrow> string \<Rightarrow> benchStream" where
  "stream_chunk decode s line =
     (if \<not> has_prefix line ''data: '' \<or> drop 6 line = ''[DONE]'' then s
      else case decode (drop 6 line) of
             None \<Rightarrow> s
           | Some (content, reasoning, fr) \<Rightarrow>
               \<lparr>bmContent = bmContent s @ content, bmReasoning = bmReasoning s @ reasoning,
                bmFinish = (if fr \<noteq> '''' then fr else bmFinish s), bmChunks = bmChunks s + 1\<rparr>)"

definition decode_stream :: "(string \<Rightarrow> (string \<times> string \<times> string) option) \<Rightarrow> string list \<Rightarrow> benchStream" where
  "decode_stream decode rows =
     foldl (stream_chunk decode) \<lparr>bmContent = '''', bmReasoning = '''', bmFinish = '''', bmChunks = 0\<rparr> rows"

datatype bench_answer = StreamAnswer benchStream | JsonAnswer string | TextAnswer string

definition decodeAnswer :: "(string \<Rightarrow> (string \<times> string \<times> string) option) \<Rightarrow> (string \<Rightarrow> bool) \<Rightarrow> (string \<Rightarrow> string list) \<Rightarrow> string \<Rightarrow> bool \<Rightarrow> bench_answer" where
  "decodeAnswer decode valid scan body stream =
     (if stream then StreamAnswer (decode_stream decode (scan body))
      else if valid body then JsonAnswer body else TextAnswer body)"

section \<open>The run\<close>

definition replayTime :: "(string \<Rightarrow> time option) \<Rightarrow> time \<Rightarrow> snapshotMeta \<Rightarrow> string \<Rightarrow> string + time" where
  "replayTime parse now meta at =
     (if at = '''' \<or> at = ''recorded'' then Inr (smRecordedAt meta)
      else if at = ''now'' then Inr (now - now mod second)
      else (case parse at of
              Some t \<Rightarrow> Inr t
            | None \<Rightarrow> Inl (''-at '' @ go_quote at @ '': want recorded, now or an RFC 3339 time'')))"

fun parse_seeds :: "string list \<Rightarrow> string + int list" where
  "parse_seeds [] = Inr []"
| "parse_seeds (v # vs) =
     (case atoi v of
        None \<Rightarrow> Inl (''-seeds: '' @ go_quote v @ '' is not a number'')
      | Some n \<Rightarrow> (case parse_seeds vs of Inl err \<Rightarrow> Inl err | Inr ns \<Rightarrow> Inr (n # ns)))"

definition run_seeds :: "int \<Rightarrow> string \<Rightarrow> string + int list" where
  "run_seeds seed seed_list =
     (if seed_list = '''' then Inr [seed]
      else (case parse_seeds (splitList seed_list) of
              Inl err \<Rightarrow> Inl err
            | Inr [] \<Rightarrow> Inl ''-seeds: no seeds''
            | Inr (n # ns) \<Rightarrow> Inr (n # ns)))"

text \<open>The cases by snapshot, in the order the snapshots come up.\<close>

definition by_snapshot :: "benchCase list \<Rightarrow> (string, benchCase list) gomap" where
  "by_snapshot cases = group_list bcSnapshot cases"

section \<open>The export\<close>

definition rowAbout :: "benchAnchor \<Rightarrow> Problem \<Rightarrow> bool" where
  "rowAbout a p \<longleftrightarrow>
     noteAbout a (pbKey p) \<or> list_ex (\<lambda>it. piNamespace it = baNS a \<and> piName it = baName a) (pbItems p)"

definition benchCategories :: "(string, string) gomap" where
  "benchCategories =
     [(''buoy-forecast-cpu-request'', ''scheduling''), (''kelp-tiler-untolerated-taint'', ''scheduling''),
      (''proof-scheduler-anti-affinity'', ''scheduling''), (''swell-replica-primary-pending'', ''scheduling''),
      (''plate-composer-mq-pending'', ''scheduling''),
      (''buoy-uplink-missing-class'', ''storage''), (''orders-db-unbound-pvc'', ''storage''), (''orders-pvc-storageclass'', ''storage''),
      (''sediment-cache-rwx-claim'', ''storage''), (''legacy-pv-reclaim'', ''storage''), (''orders-worker-cascade'', ''storage''),
      (''checkout-api-image-typo'', ''images''), (''ingest-gauge-bad-tag'', ''images''), (''log-shipper-registry'', ''images''),
      (''salinity-model-pull-secret'', ''images''), (''glyph-ocr-model-image'', ''images''),
      (''fraud-scorer-configmap'', ''config''), (''pigment-api-secret-key'', ''config''), (''current-mapper-pg-secret'', ''config''),
      (''digest-mailer-relay-mount'', ''config''),
      (''search-indexer-oom'', ''runtime''), (''quill-reconciler-oom'', ''runtime''), (''tally-importer-bad-flag'', ''runtime''),
      (''tally-consumer-redis-oom'', ''runtime''), (''stencil-renderer-init-schema'', ''runtime''), (''vellum-gateway-stuck-rollout'', ''runtime''),
      (''storefront-readiness-path'', ''probes''), (''hook-courier-readiness-port'', ''probes''), (''sms-gateway-liveness-slow-start'', ''probes''),
      (''glyph-preview-selector'', ''services''), (''dispatch-worker-selector-typo'', ''services''), (''inkwell-thumbnailer-target-port'', ''services''),
      (''font-syncer-rbac'', ''policy''), (''glyph-indexer-service-account'', ''policy''), (''ink-queue-limitrange'', ''policy''),
      (''palette-sync-quota'', ''policy''), (''ink-proofer-queue-down'', ''policy''),
      (''catalog-sync-token'', ''jobs''), (''fx-snapshot-deadline'', ''jobs''), (''quarter-close-missing-input'', ''jobs'')]"

definition category_words :: "(string \<times> string list) list" where
  "category_words =
     [(''probes'', [''probe'']),
      (''storage'', [''storageclass'', ''pvc'', ''claim'', ''volume'']),
      (''images'', [''image'', ''pull'']),
      (''config'', [''configmap'', ''secret'']),
      (''policy'', [''quota'', ''limitrange'', ''rbac'', ''forbidden'', ''serviceaccount'']),
      (''services'', [''selector'', ''targetport'', ''endpoints'', ''service'']),
      (''scheduling'', [''taint'', ''affinity'', ''nodeselector'', ''insufficient'', ''pending'']),
      (''jobs'', [''cronjob'', ''job'', ''deadline''])]"

definition benchCategory :: "benchCase \<Rightarrow> string" where
  "benchCategory bc =
     (if bcHealthy bc then ''healthy''
      else (case map_of benchCategories (bcID bc) of
              Some c \<Rightarrow> c
            | None \<Rightarrow>
                (case filter (\<lambda>(c, ws). list_ex (\<lambda>w. str_contains (ascii_lower (bcTruth bc)) w) ws) category_words of
                   (c, _) # _ \<Rightarrow> c | [] \<Rightarrow> ''runtime'')))"

section \<open>The results table\<close>

text \<open>\<open>strings.ReplaceAll(s, old, "")\<close> and \<open>strings.Trim(s, cutset)\<close>.\<close>

function without :: "string \<Rightarrow> string \<Rightarrow> string" where
  "without old s =
     (if s = '''' then ''''
      else if old \<noteq> '''' \<and> has_prefix s old then without old (drop (length old) s)
      else hd s # without old (tl s))"
  by pat_completeness auto
termination
  by (relation "measure (\<lambda>(_, s). length s)") (auto simp: neq_Nil_conv)

declare without.simps [simp del]

definition trim_chars :: "string \<Rightarrow> string \<Rightarrow> string" where
  "trim_chars cs s =
     rev (dropWhile (\<lambda>c. c \<in> set cs) (rev (dropWhile (\<lambda>c. c \<in> set cs) s)))"

text \<open>\<open>numRe\<close>: the number as it is written, and whether a percent sign follows.\<close>

definition parse_number :: "string \<Rightarrow> (string \<times> bool) option" where
  "parse_number s =
     (let whole = takeWhile is_digit s; r = drop (length whole) s;
          frac_digits = (if has_prefix r ''.'' then takeWhile is_digit (tl r) else '''');
          number = (if frac_digits \<noteq> '''' then whole @ ''.'' @ frac_digits else whole);
          ending = skip_space (drop (length number) s)
      in if whole = '''' then None
         else if ending = '''' then Some (number, False)
         else if ending = ''%'' then Some (number, True) else None)"

text \<open>\<open>subRe\<close>: the text of a \<open>sub\<close> element after a line break; both are cut out of the check's name.\<close>

fun until_word :: "string \<Rightarrow> string \<Rightarrow> (string \<times> string) option" where
  "until_word w [] = None"
| "until_word w (c # s) =
     (case after_word w (c # s) of
        Some rest \<Rightarrow> Some ([], rest)
      | None \<Rightarrow> map_option (\<lambda>(t, rest). (c # t, rest)) (until_word w s))"

definition sub_here :: "string matcher" where
  "sub_here prev s =
     Option.bind (after_word ''<br'' s) (\<lambda>t.
       let u = skip_space t; v = (if has_prefix u ''/'' then tl u else u) in
       if \<not> has_prefix v ''>'' then None
       else Option.bind (after_word ''<sub>'' (skip_space (tl v))) (\<lambda>w.
            Option.bind (until_word ''</sub>'' w) (\<lambda>(txt, rest). Some (txt, length s - length rest))))"

function cut_matches :: "'m matcher \<Rightarrow> char option \<Rightarrow> string \<Rightarrow> string" where
  "cut_matches here prev s =
     (if s = [] then []
      else case here prev s of
             None \<Rightarrow> hd s # cut_matches here (Some (hd s)) (tl s)
           | Some (_, n) \<Rightarrow> cut_matches here (Some (s ! (min n (length s) - 1))) (drop (max 1 n) s))"
  by pat_completeness auto
termination
  by (relation "measure (\<lambda>(_, _, s). length s)") (auto simp: neq_Nil_conv)

declare cut_matches.simps [simp del]

record benchExportModel =
  bxName :: string
  bxReference :: bool
  bxFeatured :: bool

text \<open>A value is the number as it is written, or \<open>None\<close> when it was not measured.\<close>

record benchExportRow =
  bxCheck :: string
  bxDescription :: string
  bxUnit :: string
  bxValues :: "string option list"

record benchExportResults =
  bxIntro :: "string list"
  bxModels :: "benchExportModel list"
  bxRows :: "benchExportRow list"
  bxNotes :: "string list"

text \<open>\<open>paragraph\<close>: the list of paragraphs and whether the last one is still open.\<close>

definition add_paragraph :: "bool \<Rightarrow> string list \<Rightarrow> string \<Rightarrow> bool \<times> string list" where
  "add_paragraph para ps line =
     (if line = '''' then (False, ps)
      else if para then (True, butlast ps @ [last ps @ '' '' @ line])
      else (True, ps @ [line]))"

definition header_model :: "string \<Rightarrow> benchExportModel" where
  "header_model h =
     \<lparr>bxName = trim_space (without ''*'' (without ''*reference:*'' h)),
      bxReference = str_contains h ''reference:'', bxFeatured = has_prefix h ''**''\<rparr>"

definition table_row :: "string list \<Rightarrow> benchExportRow" where
  "table_row cells =
     (let check = hd cells; values = map (\<lambda>v. parse_number (without ''**'' v)) (tl cells);
          (name, txt) = (case find_first sub_here None check of
             Some t \<Rightarrow> (cut_matches sub_here None check, trim_space t) | None \<Rightarrow> (check, ''''))
      in \<lparr>bxCheck = trim_space (without ''**'' name), bxDescription = txt,
          bxUnit = (if list_ex (\<lambda>v. case v of Some (_, True) \<Rightarrow> True | _ \<Rightarrow> False) values then ''%'' else ''''),
          bxValues = map (map_option fst) values\<rparr>)"

definition table_line :: "benchExportResults \<Rightarrow> string \<Rightarrow> benchExportResults" where
  "table_line res line =
     (let cells = map trim_space (split_byte (CHR ''|'') (trim_chars ''|'' line)) in
      if bxModels res = [] then res\<lparr>bxModels := map header_model (tl cells)\<rparr>
      else if trim_chars ''-: '' (hd cells) = '''' then res
      else res\<lparr>bxRows := bxRows res @ [table_row cells]\<rparr>)"

text \<open>The loop over the lines: whether the section has been reached, and whether a paragraph is open.\<close>

fun read_table :: "bool \<Rightarrow> bool \<Rightarrow> benchExportResults \<Rightarrow> string list \<Rightarrow> benchExportResults" where
  "read_table found para res [] = res"
| "read_table found para res (raw # rest) =
     (let line = trim_space raw in
      if has_prefix line ''## ''
      then (if found then res else read_table (has_prefix line ''## Results'') para res rest)
      else if \<not> found then read_table found para res rest
      else if \<not> has_prefix line ''|''
      then (if bxModels res = []
            then (case add_paragraph para (bxIntro res) line of (p, ps) \<Rightarrow> read_table found p (res\<lparr>bxIntro := ps\<rparr>) rest)
            else (case add_paragraph para (bxNotes res) line of (p, ps) \<Rightarrow> read_table found p (res\<lparr>bxNotes := ps\<rparr>) rest))
      else read_table found False (table_line res line) rest)"

definition parseResultsTable :: "string list \<Rightarrow> benchExportResults option" where
  "parseResultsTable rows =
     (let res = read_table False False \<lparr>bxIntro = [], bxModels = [], bxRows = [], bxNotes = []\<rparr> rows in
      if bxRows res = [] then None else Some res)"

lemma parse_number_examples:
  "parse_number ''87.5 %'' = Some (''87.5'', True)" "parse_number ''12'' = Some (''12'', False)"
  "parse_number ''3.'' = None" "parse_number ''n/a'' = None"
  by code_simp+

section \<open>The record is what the program read\<close>

lemma stream_read:
  "stFull (fst (stream_lines (\<lambda>data. map_option (\<lambda>(c, r, fr). Some (c, r)) (decode data)) noThink rows st)) =
   stFull st @ concat (map (\<lambda>line. case decode (drop 6 line) of Some (c, r, fr) \<Rightarrow> c | None \<Rightarrow> '''')
     (filter (\<lambda>line. has_prefix line ''data: '') (takeWhile (\<lambda>line. line \<noteq> ''data: [DONE]'') (map snd rows))))"
proof (induction rows arbitrary: st)
  case (Cons e rows)
  obtain now line where e: "e = (now, line)" by (cases e)
  have done_line: "has_prefix line ''data: '' \<and> drop 6 line = ''[DONE]'' \<longleftrightarrow> line = ''data: [DONE]''"
  proof
    assume "has_prefix line ''data: '' \<and> drop 6 line = ''[DONE]''"
    then have "line = ''data: '' @ ''[DONE]''" by (auto simp: has_prefix_iff)
    then show "line = ''data: [DONE]''" by simp
  qed (simp add: has_prefix_def)
  have full: "stFull (add_delta noThink now (c, r) st') = stFull st' @ c" for c r st'
    by (simp add: add_delta_def Let_def)
  show ?case
    using done_line Cons.IH by (auto simp: e full split: option.split)
qed simp

lemma chunk_content:
  "bmContent (foldl (stream_chunk decode) s rows) =
   bmContent s @ concat (map (\<lambda>line. case decode (drop 6 line) of Some (c, r, fr) \<Rightarrow> c | None \<Rightarrow> '''')
     (filter (\<lambda>line. has_prefix line ''data: '' \<and> drop 6 line \<noteq> ''[DONE]'') rows))"
  by (induction rows arbitrary: s) (auto simp: stream_chunk_def split: option.split)

text \<open>What the benchmark records of a streamed answer is what the program read of it: of the lines up to the
  end mark both put together the same content, whatever the chunks are.\<close>

lemma recorded_content_read:
  "bmContent (decode_stream decode (takeWhile (\<lambda>line. line \<noteq> ''data: [DONE]'') (map snd rows))) =
   stFull (fst (stream_lines (\<lambda>data. map_option (\<lambda>(c, r, fr). Some (c, r)) (decode data)) noThink rows empty_stream))"
proof -
  have "filter (\<lambda>line. has_prefix line ''data: '' \<and> drop 6 line \<noteq> ''[DONE]'') (takeWhile (\<lambda>line. line \<noteq> ''data: [DONE]'') ls) =
      filter (\<lambda>line. has_prefix line ''data: '') (takeWhile (\<lambda>line. line \<noteq> ''data: [DONE]'') ls)" for ls
  proof (rule filter_cong [OF refl])
    fix line assume "line \<in> set (takeWhile (\<lambda>line. line \<noteq> ''data: [DONE]'') ls)"
    then have "line \<noteq> ''data: '' @ ''[DONE]''" by (auto dest: set_takeWhileD)
    then show "(has_prefix line ''data: '' \<and> drop 6 line \<noteq> ''[DONE]'') = has_prefix line ''data: ''"
      by (auto simp: has_prefix_iff)
  qed
  then show ?thesis
    by (simp add: decode_stream_def chunk_content stream_read empty_stream_def)
qed

end
