(* ===== verification/BenchPlan.thy ===== *)
theory BenchPlan
  imports BenchRun Build
begin

text \<open>
  Loading a recorded snapshot and warming its cluster (bench_replay.go), and the order of a benchmark run
  (bench_run.go): every case once per seed. The notes, analyses and root cause runs themselves are the program's own, here
  arguments; the discovery file, files that cannot be read and printing are left out.
\<close>

section \<open>Loading a snapshot\<close>

text \<open>A file below the directory of a snapshot: its path, part by part, and its decoded list of objects or its text.\<close>

datatype stored = Items "(string \<times> json) list list" | Text string

type_synonym stored_dir = "(string list \<times> stored) list"

definition logFile :: "string \<Rightarrow> string \<Rightarrow> string \<Rightarrow> bool \<Rightarrow> string list" where
  "logFile ns pod container previous =
     [''logs'', ns, pod, (if previous then container @ ''.previous.log'' else container @ ''.log'')]"

text \<open>Where the recording puts a file.\<close>

definition stored_file :: "snapshot_file \<Rightarrow> string list \<times> stored" where
  "stored_file f =
     (case f of
        ObjectsFile None resource items \<Rightarrow> ([''cluster'', resource @ ''.yaml''], Items items)
      | ObjectsFile (Some ns) resource items \<Rightarrow> ([''namespaces'', ns, resource @ ''.yaml''], Items items)
      | LogFile ns pod container previous txt \<Rightarrow> (logFile ns pod container previous, Text txt))"

record benchSnapshot =
  bsMeta :: snapshotMeta
  bsObjects :: "(string \<times> json) list list"
  bsLogs :: "(string, string) gomap"

text \<open>The patterns \<open>cluster/*.yaml\<close> and \<open>namespaces/*/*.yaml\<close>.\<close>

definition is_objects_path :: "string list \<Rightarrow> bool" where
  "is_objects_path p \<longleftrightarrow>
     (case p of [d, f] \<Rightarrow> d = ''cluster'' \<and> has_suffix f ''.yaml'' | [d, ns, f] \<Rightarrow> d = ''namespaces'' \<and> has_suffix f ''.yaml'' | _ \<Rightarrow> False)"

definition path_text :: "string list \<Rightarrow> string" where
  "path_text p = str_join [CHR 0x2F] p"

text \<open>The objects of the files in the order of their paths; a file that does not decode ends the loading.\<close>

fun load_objects :: "stored_dir \<Rightarrow> string + (string \<times> json) list list" where
  "load_objects [] = Inr []"
| "load_objects ((p, c) # fs) =
     (case c of
        Text _ \<Rightarrow> Inl (path_text p)
      | Items items \<Rightarrow> (case load_objects fs of Inl e \<Rightarrow> Inl e | Inr rest \<Rightarrow> Inr (items @ rest)))"

text \<open>A file of the walk below \<open>logs\<close>: a log has three parts, its last one names the container.\<close>

definition load_log :: "(string, string) gomap \<Rightarrow> string list \<times> stored \<Rightarrow> (string, string) gomap" where
  "load_log logs e =
     (case e of
        ([d, ns, pod, f], Text txt) \<Rightarrow>
          if d = ''logs'' \<and> has_suffix f ''.log'' then
            (let c0 = trim_suffix f ''.log''; previous = has_suffix c0 ''.previous''
             in al_set (logKey ns pod (if previous then trim_suffix c0 ''.previous'' else c0) previous) txt logs)
          else logs
      | _ \<Rightarrow> logs)"

definition loadSnapshot :: "string + snapshotMeta \<Rightarrow> stored_dir \<Rightarrow> string + benchSnapshot" where
  "loadSnapshot meta dir =
     (case meta of
        Inl e \<Rightarrow> Inl e
      | Inr m \<Rightarrow>
          (case load_objects (go_sort (\<lambda>a b. string_less (path_text (fst a)) (path_text (fst b)))
                  (filter (\<lambda>e. is_objects_path (fst e)) dir)) of
             Inl e \<Rightarrow> Inl e
           | Inr objects \<Rightarrow>
               Inr \<lparr>bsMeta = m, bsObjects = objects,
                    bsLogs = foldl load_log [] (go_sort (\<lambda>a b. string_less (path_text (fst a)) (path_text (fst b))) dir)\<rparr>))"

section \<open>Warming the cluster\<close>

text \<open>
  One round of \<open>benchWarm\<close>: the problem list asks for owners, and every owner asked for is looked up; \<open>None\<close> when
  nothing was asked for, with the state in the second part.
\<close>

definition warm_round :: "time_format \<Rightarrow> time \<Rightarrow> time \<Rightarrow> (string \<Rightarrow> time) \<Rightarrow> (ownerJob \<Rightarrow> lookup_answer) \<Rightarrow>
    (string, EventSummary list) gomap \<Rightarrow> ownerState \<Rightarrow> bool \<times> ownerState" where
  "warm_round fmt clk now parse answer events st =
     (let st1 = snd (buildProblems fmt clk events now st); queue = osQueue st1; st2 = st1\<lparr>osQueue := []\<rparr>
      in if queue = [] then (True, st2)
         else (False, foldl (\<lambda>s j. resolveOwner parse clk clk j (answer j) s) st2 queue))"

fun warm_rounds :: "nat \<Rightarrow> time_format \<Rightarrow> time \<Rightarrow> time \<Rightarrow> (string \<Rightarrow> time) \<Rightarrow> (ownerJob \<Rightarrow> lookup_answer) \<Rightarrow>
    (string, EventSummary list) gomap \<Rightarrow> ownerState \<Rightarrow> ownerState" where
  "warm_rounds 0 fmt clk now parse answer events st = st"
| "warm_rounds (Suc n) fmt clk now parse answer events st =
     (case warm_round fmt clk now parse answer events st of
        (True, st') \<Rightarrow> st'
      | (False, st') \<Rightarrow> warm_rounds n fmt clk now parse answer events st')"

text \<open>\<open>benchWarm\<close>: the caches and the owners, or the error.\<close>

definition benchWarm :: "time_format \<Rightarrow> bool \<Rightarrow> string list \<Rightarrow> ns_answer \<Rightarrow> api_answers \<Rightarrow> time \<Rightarrow> time \<Rightarrow>
    (string \<Rightarrow> time) \<Rightarrow> (ownerJob \<Rightarrow> lookup_answer) \<Rightarrow> eventCache \<times> ownerState \<Rightarrow> (eventCache \<times> ownerState) \<times> string option" where
  "benchWarm fmt allNS cfgNamespaces nsAnswer api clk now parse answer st =
     (case resolveNamespaces allNS cfgNamespaces nsAnswer of
        NsErr e \<Rightarrow> (st, Some (aeText e))
      | NsList namespaces \<Rightarrow>
          (let c1 = foldl (\<lambda>c ns. refreshNamespace fmt (apiEvents api) clk ns c) (fst st) namespaces;
               c2 = refreshWarnings fmt (apiWarnings api) clk clk c1
           in if wfLastErr (ecFeed c2) \<noteq> '''' then ((c2, snd st), Some (''warning feed: '' @ wfLastErr (ecFeed c2)))
              else ((c2, warm_rounds 50 fmt clk now parse answer (allNamespaceEvents c2) (snd st)), None)))"

section \<open>A benchmark run\<close>

text \<open>
  What a run meets: the snapshots, the problem rows of a replayed cluster (their keys, the most urgent first), the note,
  the analysis and the root cause run of a seed, and whether the n-th save of the results fails.
\<close>

record bench_world =
  bwSnapshot :: "string \<Rightarrow> string + benchSnapshot"
  bwReplay :: "string \<Rightarrow> time \<Rightarrow> string + string list"
  bwNote :: "int \<Rightarrow> string \<Rightarrow> benchNoteResult"
  bwAnalysis :: "int \<Rightarrow> benchCase \<Rightarrow> string"
  bwRCA :: "int \<Rightarrow> benchCase \<Rightarrow> string \<times> string \<times> RCAStep list"
  bwSave :: "nat \<Rightarrow> string option"
  bwParse :: "string \<Rightarrow> time option"
  bwNow :: time

record benchSnapshotRun =
  bxRecordedAt :: time
  bxReplayedAt :: time
  bxProblems :: nat
  bxTopProblem :: string

text \<open>
  One pass over the cases: its results, the snapshots, the target of each note and whether the note is about it, and
  what each save so far has written.
\<close>

record seed_run =
  sdRun :: benchRun
  sdSnapshots :: "(string, benchSnapshotRun) gomap"
  sdTargets :: "(string, string \<times> bool) gomap"
  sdSaved :: "benchRun list"

definition save_results :: "bench_world \<Rightarrow> seed_run \<Rightarrow> seed_run \<times> string option" where
  "save_results w s =
     (case bwSave w (length (sdSaved s)) of
        Some e \<Rightarrow> (s, Some e)
      | None \<Rightarrow> (s\<lparr>sdSaved := sdSaved s @ [sdRun s]\<rparr>, None))"

definition case_result :: "bench_world \<Rightarrow> int \<Rightarrow> benchCase \<Rightarrow> benchCaseResult" where
  "case_result w seed bc =
     (case bwRCA w seed bc of
        (status, result, steps) \<Rightarrow>
          \<lparr>brCase = bc, brContent = bwAnalysis w seed bc, brStatus = status, brResult = result, brSteps = steps\<rparr>)"

fun run_cases :: "bench_world \<Rightarrow> int \<Rightarrow> benchCase list \<Rightarrow> seed_run \<Rightarrow> seed_run \<times> string option" where
  "run_cases w seed [] s = (s, None)"
| "run_cases w seed (bc # bcs) s =
     (case save_results w (s\<lparr>sdRun := (sdRun s)\<lparr>buCases := buCases (sdRun s) @ [case_result w seed bc]\<rparr>\<rparr>) of
        (s1, Some e) \<Rightarrow> (s1, Some e)
      | (s1, None) \<Rightarrow> run_cases w seed bcs s1)"

text \<open>The last case marked as the note's target, and whether the note is about its anchor.\<close>

definition note_target :: "benchCase list \<Rightarrow> string" where
  "note_target cases = foldl (\<lambda>t bc. if bcNoteTarget bc then bcID bc else t) '''' cases"

definition on_target :: "benchCase list \<Rightarrow> string \<Rightarrow> bool" where
  "on_target cases ref \<longleftrightarrow> list_ex (\<lambda>bc. bcID bc = note_target cases \<and> noteAbout (bcAnchor bc) ref) cases"

definition run_snapshot :: "bench_world \<Rightarrow> string \<Rightarrow> int \<Rightarrow> string \<times> benchCase list \<Rightarrow> benchSnapshot \<Rightarrow> seed_run \<Rightarrow>
    seed_run \<times> string option" where
  "run_snapshot w at_flag seed grp snap s =
     (case grp of (name, cases) \<Rightarrow>
        (case replayTime (bwParse w) (bwNow w) (bsMeta snap) at_flag of
           Inl e \<Rightarrow> (s, Some e)
         | Inr at \<Rightarrow>
             (case bwReplay w name at of
                Inl e \<Rightarrow> (s, Some (''snapshot '' @ name @ '': '' @ e))
              | Inr problems \<Rightarrow>
                  (let sr = \<lparr>bxRecordedAt = smRecordedAt (bsMeta snap), bxReplayedAt = at, bxProblems = length problems,
                             bxTopProblem = (if problems = [] then '''' else hd problems)\<rparr>;
                       note = bwNote w seed name;
                       s1 = s\<lparr>sdSnapshots := al_set name sr (sdSnapshots s),
                              sdTargets := al_set name (note_target cases, on_target cases (bnRef note)) (sdTargets s),
                              sdRun := (sdRun s)\<lparr>buNotes := al_set name note (buNotes (sdRun s))\<rparr>\<rparr>
                   in case save_results w s1 of
                        (s2, Some e) \<Rightarrow> (s2, Some e)
                      | (s2, None) \<Rightarrow> run_cases w seed cases s2))))"

fun benchRunSeed :: "bench_world \<Rightarrow> string \<Rightarrow> int \<Rightarrow> ((string \<times> benchCase list) \<times> benchSnapshot) list \<Rightarrow> seed_run \<Rightarrow>
    seed_run \<times> string option" where
  "benchRunSeed w at_flag seed [] s = (s, None)"
| "benchRunSeed w at_flag seed ((grp, snap) # rest) s =
     (case run_snapshot w at_flag seed grp snap s of
        (s1, Some e) \<Rightarrow> (s1, Some e)
      | (s1, None) \<Rightarrow> benchRunSeed w at_flag seed rest s1)"

definition new_run_of :: "int \<Rightarrow> benchRun list \<Rightarrow> seed_run" where
  "new_run_of seed saved = \<lparr>sdRun = \<lparr>buSeed = seed, buNotes = [], buCases = []\<rparr>, sdSnapshots = [], sdTargets = [], sdSaved = saved\<rparr>"

text \<open>Every seed in turn; the second part of the result holds the finished runs, the last one first to fail.\<close>

fun run_all :: "bench_world \<Rightarrow> string \<Rightarrow> ((string \<times> benchCase list) \<times> benchSnapshot) list \<Rightarrow> int list \<Rightarrow> benchRun list \<Rightarrow>
    benchRun list \<times> string option" where
  "run_all w at_flag groups [] saved = ([], None)"
| "run_all w at_flag groups (sd # sds) saved =
     (case benchRunSeed w at_flag sd groups (new_run_of sd saved) of
        (s, Some e) \<Rightarrow> ([sdRun s], Some e)
      | (s, None) \<Rightarrow> (case run_all w at_flag groups sds (sdSaved s) of (rs, err) \<Rightarrow> (sdRun s # rs, err)))"

text \<open>The snapshots are loaded before anything runs.\<close>

fun load_groups :: "(string \<Rightarrow> string + benchSnapshot) \<Rightarrow> (string \<times> benchCase list) list \<Rightarrow>
    string + ((string \<times> benchCase list) \<times> benchSnapshot) list" where
  "load_groups load [] = Inr []"
| "load_groups load (g # gs) =
     (case load (fst g) of
        Inl e \<Rightarrow> Inl (''snapshot '' @ fst g @ '': '' @ e)
      | Inr snap \<Rightarrow> (case load_groups load gs of Inl e \<Rightarrow> Inl e | Inr rest \<Rightarrow> Inr ((g, snap) # rest)))"

text \<open>\<open>benchRunCmd\<close> after its flags; \<open>cases\<close> is what \<open>loadCases\<close> gives. One seed fills the results' own run.\<close>

definition benchRunCmd :: "bench_world \<Rightarrow> string \<Rightarrow> string \<Rightarrow> string \<Rightarrow> bool \<Rightarrow> string + benchCase list \<Rightarrow> int \<Rightarrow> string \<Rightarrow> string \<Rightarrow>
    string + benchResults" where
  "benchRunCmd w llm model out_file link_follow cases seed seed_list at_flag =
     (if llm = '''' \<or> model = '''' \<or> out_file = '''' then Inl ''run: -llm, -model and -out are required''
      else (case cases of
              Inl e \<Rightarrow> Inl e
            | Inr cs \<Rightarrow>
                (case run_seeds seed seed_list of
                   Inl e \<Rightarrow> Inl e
                 | Inr seeds \<Rightarrow>
                     (case load_groups (bwSnapshot w) (by_snapshot cs) of
                        Inl e \<Rightarrow> Inl e
                      | Inr groups \<Rightarrow>
                          (case run_all w at_flag groups seeds [] of
                             (rs, Some e) \<Rightarrow> Inl e
                           | (rs, None) \<Rightarrow>
                               Inr (if length seeds > 1
                                    then \<lparr>btModel = model, btLinkFollow = Some link_follow,
                                          btRun = \<lparr>buSeed = 0, buNotes = [], buCases = []\<rparr>, btRuns = rs\<rparr>
                                    else \<lparr>btModel = model, btLinkFollow = Some link_follow, btRun = hd rs, btRuns = []\<rparr>))))))"

section \<open>Every case, once per seed\<close>

lemma save_results_run: "save_results w s = (s', err) \<Longrightarrow> sdRun s' = sdRun s"
  by (auto simp: save_results_def split: option.splits)

lemma run_cases_adds:
  "run_cases w seed bcs s = (s', None) \<Longrightarrow>
   sdRun s' = (sdRun s)\<lparr>buCases := buCases (sdRun s) @ map (case_result w seed) bcs\<rparr>"
proof (induction w seed bcs s rule: run_cases.induct)
  case (2 w seed bc bcs s)
  let ?s = "s\<lparr>sdRun := (sdRun s)\<lparr>buCases := buCases (sdRun s) @ [case_result w seed bc]\<rparr>\<rparr>"
  obtain s1 where s1: "save_results w ?s = (s1, None)" "run_cases w seed bcs s1 = (s', None)"
    using "2.prems" by (auto split: prod.splits option.splits)
  show ?case
    using "2.IH" [OF s1(1) [symmetric] refl s1(2)] save_results_run [OF s1(1)] by simp
qed simp

lemma run_snapshot_adds:
  assumes "run_snapshot w at_flag seed (name, cases) snap s = (s', None)"
  shows "sdRun s' = (sdRun s)\<lparr>buNotes := al_set name (bwNote w seed name) (buNotes (sdRun s)),
    buCases := buCases (sdRun s) @ map (case_result w seed) cases\<rparr>"
  using assms
  by (auto simp: run_snapshot_def Let_def split: sum.splits prod.splits option.splits dest!: run_cases_adds save_results_run)

lemma benchRunSeed_adds:
  "benchRunSeed w at_flag seed groups s = (s', None) \<Longrightarrow>
   buSeed (sdRun s') = buSeed (sdRun s) \<and>
   buCases (sdRun s') = buCases (sdRun s) @ map (case_result w seed) (concat (map (snd \<circ> fst) groups)) \<and>
   set (map fst (buNotes (sdRun s'))) = set (map fst (buNotes (sdRun s))) \<union> set (map (fst \<circ> fst) groups)"
proof (induction w at_flag seed groups s rule: benchRunSeed.induct)
  case (2 w at_flag seed grp snap rest s)
  obtain name cases where g: "grp = (name, cases)" by fastforce
  obtain s1 where s1: "run_snapshot w at_flag seed grp snap s = (s1, None)" "benchRunSeed w at_flag seed rest s1 = (s', None)"
    using "2.prems" by (auto split: prod.splits option.splits)
  show ?case
    using "2.IH" [OF s1(1) [symmetric] refl s1(2)] run_snapshot_adds [OF s1(1) [unfolded g]] by (auto simp: g al_set_def)
qed simp

lemma run_all_runs:
  "run_all w at_flag groups seeds saved = (rs, None) \<Longrightarrow>
   list_all2 (\<lambda>sd r. buSeed r = sd \<and> buCases r = map (case_result w sd) (concat (map (snd \<circ> fst) groups)) \<and>
     set (map fst (buNotes r)) = set (map (fst \<circ> fst) groups)) seeds rs"
proof (induction w at_flag groups seeds saved arbitrary: rs rule: run_all.induct)
  case (2 w at_flag groups sd sds saved)
  obtain s rs' where s: "benchRunSeed w at_flag sd groups (new_run_of sd saved) = (s, None)"
    "run_all w at_flag groups sds (sdSaved s) = (rs', None)" "rs = sdRun s # rs'"
    using "2.prems" by (auto split: prod.splits option.splits)
  show ?case
    using "2.IH" [OF s(1) [symmetric] refl s(2)] benchRunSeed_adds [OF s(1)] by (simp add: s(3) new_run_of_def comp_def)
qed simp

lemma load_groups_fst: "load_groups load gs = Inr loaded \<Longrightarrow> map fst loaded = gs"
  by (induction load gs arbitrary: loaded rule: load_groups.induct) (auto split: sum.splits)

lemma run_seeds_nonempty: "run_seeds seed seed_list = Inr seeds \<Longrightarrow> seeds \<noteq> []"
  by (auto simp: run_seeds_def split: if_splits sum.splits list.splits)

lemma case_result_case [simp]: "brCase (case_result w seed bc) = bc"
  by (simp add: case_result_def split: prod.split)

text \<open>
  A benchmark that ends without an error has run every case exactly once for each seed, in the order of the seeds, and has a
  note for each snapshot of the cases and for no other.
\<close>

lemma bench_runs_every_case:
  assumes "benchRunCmd w llm model out_file follow (Inr cs) seed seed_list at_flag = Inr res"
  shows "run_seeds seed seed_list = Inr (map buSeed (runs res)) \<and>
    (\<forall>r\<in>set (runs res). mset (map brCase (buCases r)) = mset cs \<and>
       set (map fst (buNotes r)) = set (map bcSnapshot cs))"
proof -
  obtain seeds groups rs where s: "run_seeds seed seed_list = Inr seeds"
    and l: "load_groups (bwSnapshot w) (by_snapshot cs) = Inr groups"
    and a: "run_all w at_flag groups seeds [] = (rs, None)"
    and res: "res = (if length seeds > 1
       then \<lparr>btModel = model, btLinkFollow = Some follow, btRun = \<lparr>buSeed = 0, buNotes = [], buCases = []\<rparr>, btRuns = rs\<rparr>
       else \<lparr>btModel = model, btLinkFollow = Some follow, btRun = hd rs, btRuns = []\<rparr>)"
    using assms by (auto simp: benchRunCmd_def split: if_splits sum.splits prod.splits option.splits)
  note all = run_all_runs [OF a]
  have len: "length rs = length seeds" using all by (simp add: list_all2_lengthD)
  have "seeds \<noteq> []" by (rule run_seeds_nonempty [OF s])
  then have runs: "runs res = rs"
    using len by (cases seeds; cases rs) (auto simp: res runs_def)
  have groups: "map (snd \<circ> fst) groups = map snd (by_snapshot cs)" "map (fst \<circ> fst) groups = map fst (by_snapshot cs)"
    using load_groups_fst [OF l] by (metis map_map)+
  have cases: "mset (concat (map (snd \<circ> fst) groups)) = mset cs"
    unfolding groups by_snapshot_def by (rule group_list_partition)
  have names: "set (map (fst \<circ> fst) groups) = set (map bcSnapshot cs)"
    unfolding groups by_snapshot_def by (simp add: group_list_def keys_group_fold)
  have "map buSeed rs = seeds"
    using all len by (auto simp: list_all2_conv_all_nth intro: nth_equalityI)
  moreover have "mset (map brCase (buCases r)) = mset cs \<and> set (map fst (buNotes r)) = set (map bcSnapshot cs)"
    if "r \<in> set rs" for r
  proof -
    obtain sd where "buCases r = map (case_result w sd) (concat (map (snd \<circ> fst) groups))"
      "set (map fst (buNotes r)) = set (map (fst \<circ> fst) groups)"
      using list_all2_rightD [OF all \<open>r \<in> set rs\<close>] by blast
    then show ?thesis using cases names by (simp add: comp_def del: set_map)
  qed
  ultimately show ?thesis using s runs by simp
qed

section \<open>Warming keeps the owner resolver consistent\<close>

definition steady :: "ownerState \<Rightarrow> bool" where
  "steady st \<longleftrightarrow> owner_reachable \<lparr>rvOwners = st, rvInFlight = []\<rparr>"

lemma steady_confirm: "steady st \<Longrightarrow> steady (fst (requestOwnerConfirmation now ns chain st))"
  using owner_reachable.step [OF _ owner_step.confirm, of "\<lparr>rvOwners = st, rvInFlight = []\<rparr>" now ns chain]
  by (simp add: steady_def)

lemma steady_root: "steady st \<Longrightarrow> steady (requestRootLookup now ns ref st)"
  using owner_reachable.step [OF _ owner_step.root, of "\<lparr>rvOwners = st, rvInFlight = []\<rparr>" now ns ref]
  by (simp add: steady_def)

lemma steady_cands: "steady st \<Longrightarrow> steady (confirm_cands clk ns links rs st)"
proof (induction clk ns links rs st rule: confirm_cands.induct)
  case (2 clk ns links r rs st)
  have "steady (fst (requestOwnerConfirmation clk ns (al_get [] links r) st))" by (rule steady_confirm [OF "2.prems"])
  then show ?case using "2.IH" by (auto split: prod.split)
qed simp

lemma steady_build:
  assumes "steady st"
  shows "steady (snd (buildProblems fmt clk events now st))"
proof -
  have group: "steady (snd (emit_group fmt clk now a g))" if "steady (snd a)" for a g
    using that steady_root steady_cands
    by (cases a) (auto simp: emit_group_def confirmOwners_def Let_def)
  have groups: "steady (snd (foldl (emit_group fmt clk now) a gs))" if "steady (snd a)" for a gs
    using that group by (rule foldl_invariant [where P = "\<lambda>a. steady (snd a)"])
  have ns: "steady (snd (snd (namespace_step fmt clk now a e)))" if "steady (snd (snd a))" for a e
  proof -
    obtain ps cw st1 n evs where ae: "a = (ps, cw, st1)" "e = (n, evs)" by (metis prod_cases3 surj_pair)
    then have "steady st1" using \<open>steady (snd (snd a))\<close> by simp
    then show ?thesis using groups [of "(ps, st1)"] by (simp add: ae namespace_step_def Let_def split_beta)
  qed
  have "steady (snd (snd (foldl (namespace_step fmt clk now) ([], [], st) events)))"
    using assms ns by (intro foldl_invariant [where P = "\<lambda>a. steady (snd (snd a))"]) auto
  then show ?thesis by (simp add: buildProblems_def Let_def split_beta)
qed

text \<open>Everything that waits is taken at once and then looked up in order.\<close>

lemma resolve_in_flight:
  "owner_reachable \<lparr>rvOwners = st, rvInFlight = rev js\<rparr> \<Longrightarrow>
   steady (foldl (\<lambda>s j. resolveOwner parse now now' j (answer j) s) st js)"
proof (induction js arbitrary: st)
  case (Cons j js)
  have "owner_step \<lparr>rvOwners = st, rvInFlight = rev (j # js)\<rparr>
      \<lparr>rvOwners = resolveOwner parse now now' j (answer j) st, rvInFlight = rev js\<rparr>"
    using owner_step.resolve [of "\<lparr>rvOwners = st, rvInFlight = rev (j # js)\<rparr>" "rev js" j "[]" parse now now' "answer j"] by simp
  from Cons.IH [OF owner_reachable.step [OF Cons.prems this]] show ?case by simp
qed (simp add: steady_def)

lemma reachable_perm:
  assumes "owner_reachable \<lparr>rvOwners = st, rvInFlight = js\<rparr>" and "osQueue st = q"
  shows "owner_reachable \<lparr>rvOwners = st\<lparr>osQueue := []\<rparr>, rvInFlight = rev q @ js\<rparr>"
  using assms
proof (induction q arbitrary: st js)
  case Nil
  then show ?case by (cases st) simp
next
  case (Cons j q)
  have "owner_step \<lparr>rvOwners = st, rvInFlight = js\<rparr> \<lparr>rvOwners = st\<lparr>osQueue := q\<rparr>, rvInFlight = j # js\<rparr>"
    using owner_step.pop [of "\<lparr>rvOwners = st, rvInFlight = js\<rparr>" j "st\<lparr>osQueue := q\<rparr>"] Cons.prems(2)
    by (simp add: pop_job_def)
  from Cons.IH [OF owner_reachable.step [OF Cons.prems(1) this]] show ?case by simp
qed

lemma steady_round:
  assumes "steady st"
  shows "steady (snd (warm_round fmt clk now parse answer events st))"
proof -
  let ?st1 = "snd (buildProblems fmt clk events now st)"
  have b: "steady ?st1" by (rule steady_build [OF assms])
  then have "owner_reachable \<lparr>rvOwners = ?st1\<lparr>osQueue := []\<rparr>, rvInFlight = rev (osQueue ?st1)\<rparr>"
    using reachable_perm [of ?st1 "[]" "osQueue ?st1"] by (simp add: steady_def)
  from resolve_in_flight [OF this] show ?thesis
    using b by (cases "osQueue ?st1") (auto simp: warm_round_def Let_def steady_def)
qed

lemma steady_rounds: "steady st \<Longrightarrow> steady (warm_rounds n fmt clk now parse answer events st)"
proof (induction n fmt clk now parse answer events st rule: warm_rounds.induct)
  case (2 n fmt clk now parse answer events st)
  have "steady (snd (warm_round fmt clk now parse answer events st))" by (rule steady_round [OF "2.prems"])
  then show ?case using "2.IH" by (auto split: prod.split bool.split)
qed simp

text \<open>
  A warmed cluster's resolver is as consistent as a running one's: nothing waits twice, and an owner is marked as queued
  exactly while it waits.
\<close>

lemma warmed_owners_consistent:
  assumes "benchWarm fmt allNS nss nsAnswer api clk now parse answer (c, empty_owners) = ((c', st'), err)"
  shows "distinct (map job_key (osQueue st')) \<and> (\<forall>k. is_queued st' k \<longleftrightarrow> k \<in> set (map job_key (osQueue st')))"
proof -
  have "steady empty_owners" by (simp add: steady_def owner_reachable.start)
  then have "steady st'"
    using assms by (auto simp: benchWarm_def Let_def split: ns_answer.splits if_splits intro: steady_rounds)
  then show ?thesis using reachable_queue_inv [of "\<lparr>rvOwners = st', rvInFlight = []\<rparr>"]
    by (simp add: steady_def queue_inv_def queue_keys_def)
qed

section \<open>What was recorded is replayed\<close>

text \<open>Names as Kubernetes has them: no slash, and a container's name has no dot.\<close>

definition plain_name :: "string \<Rightarrow> bool" where
  "plain_name s \<longleftrightarrow> CHR 0x2F \<notin> set s"

definition log_named :: "snapshot_file \<Rightarrow> bool" where
  "log_named f =
     (case f of
        LogFile ns pod c previous txt \<Rightarrow> plain_name ns \<and> plain_name pod \<and> plain_name c \<and> CHR ''.'' \<notin> set c
      | ObjectsFile _ _ _ \<Rightarrow> True)"

text \<open>The key and the text of a file that is a log, as \<open>load_log\<close> reads it.\<close>

definition log_of :: "string list \<times> stored \<Rightarrow> (string \<times> string) list" where
  "log_of e =
     (case e of
        ([d, ns, pod, f], Text t) \<Rightarrow>
          if d = ''logs'' \<and> has_suffix f ''.log'' then
            (let c0 = trim_suffix f ''.log''; previous = has_suffix c0 ''.previous''
             in [(logKey ns pod (if previous then trim_suffix c0 ''.previous'' else c0) previous, t)])
          else []
      | _ \<Rightarrow> [])"

definition log_entry :: "snapshot_file \<Rightarrow> (string \<times> string) list" where
  "log_entry f = (case f of LogFile ns pod c previous t \<Rightarrow> [(logKey ns pod c previous, t)] | ObjectsFile _ _ _ \<Rightarrow> [])"

definition items_of :: "snapshot_file \<Rightarrow> (string \<times> json) list list" where
  "items_of f = (case f of ObjectsFile _ _ items \<Rightarrow> items | LogFile _ _ _ _ _ \<Rightarrow> [])"

lemma load_log_log_of: "load_log logs e = foldl (\<lambda>m e. al_set (fst e) (snd e) m) logs (log_of e)"
  by (auto simp: load_log_def log_of_def Let_def split: prod.split list.split stored.split)

lemma load_logs_log_of:
  "foldl load_log logs es = foldl (\<lambda>m e. al_set (fst e) (snd e) m) logs (concat (map log_of es))"
  by (induction es arbitrary: logs) (simp_all add: load_log_log_of)

lemma log_of_stored:
  assumes "log_named f"
  shows "log_of (stored_file f) = log_entry f"
proof (cases f)
  case (ObjectsFile ns resource items)
  then show ?thesis by (cases ns) (simp_all add: log_of_def stored_file_def log_entry_def)
next
  case (LogFile ns pod c previous t)
  have dot: "CHR ''.'' \<notin> set c" using assms LogFile by (simp add: log_named_def)
  have c: "\<not> has_suffix c ''.previous''"
  proof
    assume "has_suffix c ''.previous''"
    then have "set ''.previous'' \<subseteq> set c" unfolding has_suffix_def by (metis set_drop_subset)
    then show False using dot by simp
  qed
  have cut: "trim_suffix (c @ ''.previous.log'') ''.log'' = c @ ''.previous''" "has_suffix (c @ ''.previous'') ''.previous''"
    "trim_suffix (c @ ''.previous'') ''.previous'' = c" "trim_suffix (c @ ''.log'') ''.log'' = c"
    "has_suffix (c @ ''.previous.log'') ''.log''" "has_suffix (c @ ''.log'') ''.log''"
    by (simp_all add: trim_suffix_def has_suffix_def)
  show ?thesis
    by (cases previous) (simp_all add: LogFile log_of_def stored_file_def logFile_def log_entry_def cut c Let_def)
qed

lemma load_objects_items:
  "list_all (\<lambda>e. \<exists>items. snd e = Items items) es \<Longrightarrow>
   load_objects es = Inr (concat (map (\<lambda>e. case snd e of Items items \<Rightarrow> items | Text _ \<Rightarrow> []) es))"
  by (induction es rule: load_objects.induct) auto

lemma objects_path_stored: "is_objects_path (fst (stored_file f)) \<longleftrightarrow> (\<exists>ns r items. f = ObjectsFile ns r items)"
  by (cases f; cases "\<exists>ns. x11 = Some ns")
    (auto simp: is_objects_path_def stored_file_def logFile_def has_suffix_def split: option.splits)

text \<open>
  A recorded snapshot loads, and its objects and logs are the ones that were recorded: every object once, and each
  container's log under its own name.
\<close>

lemma recorded_snapshot_loads:
  assumes "list_all log_named files" and "distinct (map fst (concat (map log_entry files)))"
  obtains snap where "loadSnapshot (Inr m) (map stored_file files) = Inr snap" and "bsMeta snap = m"
    and "mset (bsObjects snap) = mset (concat (map items_of files))"
    and "\<And>ns pod c previous t n. LogFile ns pod c previous t \<in> set files \<Longrightarrow>
      recorded_logs (bsLogs snap) ns pod c n previous = Inr (tailLines t n)"
proof -
  let ?dir = "map stored_file files"
  let ?less = "\<lambda>a b. string_less (path_text (fst a)) (path_text (fst b))"
  let ?objs = "go_sort ?less (filter (\<lambda>e. is_objects_path (fst e)) ?dir)"
  let ?items = "\<lambda>e. case snd e of Items items \<Rightarrow> items | Text _ \<Rightarrow> ([] :: (string \<times> json) list list)"
  have it: "?items (stored_file f) = (if is_objects_path (fst (stored_file f)) then items_of f else [])"
    and isit: "is_objects_path (fst (stored_file f)) \<Longrightarrow> \<exists>items. snd (stored_file f) = Items items" for f
    using objects_path_stored [of f] by (cases f; auto simp: stored_file_def items_of_def split: option.splits)+
  have all: "list_all (\<lambda>e. \<exists>items. snd e = Items items) ?objs"
    by (auto simp: list_all_iff) (metis fst_conv snd_conv isit)
  have objs: "load_objects ?objs = Inr (concat (map ?items ?objs))" by (rule load_objects_items [OF all])
  have "mset (concat (map ?items ?objs)) = mset (concat (map ?items (filter (\<lambda>e. is_objects_path (fst e)) ?dir)))"
    by (rule mset_concat_map_cong) simp
  also have "concat (map ?items (filter (\<lambda>e. is_objects_path (fst e)) ?dir)) = concat (map items_of files)"
    using objects_path_stored by (induction files) (auto simp: it items_of_def split: snapshot_file.splits)
  finally have o: "mset (concat (map ?items ?objs)) = mset (concat (map items_of files))" .
  have keys: "map log_of ?dir = map log_entry files"
    using assms(1) by (auto simp: list_all_iff log_of_stored)
  let ?sorted = "concat (map log_of (go_sort ?less ?dir))"
  have same: "mset ?sorted = mset (concat (map log_entry files))"
    unfolding keys [symmetric] by (rule mset_concat_map_cong) simp
  have d: "distinct (map fst ?sorted)" using distinct_map_mset_cong [OF same, of fst] assms(2) by simp
  have logs: "map_of (foldl load_log [] (go_sort ?less ?dir)) = map_of (concat (map log_entry files))"
    using map_of_foldl_set [OF d, of "[]"] d assms(2) mset_eq_setD [OF same]
    by (simp add: load_logs_log_of map_of_inject_set)
  let ?snap = "\<lparr>bsMeta = m, bsObjects = concat (map ?items ?objs), bsLogs = foldl load_log [] (go_sort ?less ?dir)\<rparr>"
  have "loadSnapshot (Inr m) ?dir = Inr ?snap" by (simp add: loadSnapshot_def objs)
  moreover have "recorded_logs (bsLogs ?snap) ns pod c n previous = Inr (tailLines t n)"
    if "LogFile ns pod c previous t \<in> set files" for ns pod c previous t n
  proof -
    have "(logKey ns pod c previous, t) \<in> set (concat (map log_entry files))"
      using that by (force simp: log_entry_def)
    then have "map_of (concat (map log_entry files)) (logKey ns pod c previous) = Some t"
      using assms(2) by (rule map_of_is_SomeI [rotated])
    then show ?thesis using logs by (simp add: recorded_logs_def)
  qed
  ultimately show ?thesis using that [of ?snap] o by simp
qed

end
