(* ===== verification/Pages.thy ===== *)
theory Pages
  imports Home
begin

text \<open>
  The pages a browser asks for (main.go): which cluster and namespace they show, the header with the number of
  problems, and what the templates compute. Rendering itself is not modelled.
\<close>

section \<open>What the templates compute\<close>

definition envLabel :: "string \<Rightarrow> string" where
  "envLabel env =
     (if env = ''prod'' then ''PROD'' else if env = ''nonprod'' then ''NON-PROD'' else if env = ''stage'' then ''STAGE''
      else if env = ''dev'' then ''DEV'' else if env = ''local'' then ''LOCAL'' else ''?'')"

definition firstAge :: "EventSummary list \<Rightarrow> string" where
  "firstAge events = (case events of [] \<Rightarrow> '''' | e # _ \<Rightarrow> evAge e)"

text \<open>\<open>clock\<close>; \<open>day\<close> is the local day of an instant (its year and day of the year).\<close>

definition clock_text :: "time_format \<Rightarrow> (time \<Rightarrow> int) \<Rightarrow> time \<Rightarrow> time \<Rightarrow> string" where
  "clock_text fmt day now t =
     (if t = 0 then '''' else if day t = day now then fmt ''15:04'' t else fmt ''2 Jan 15:04'' t)"

section \<open>The header\<close>

record headerData =
  hdCluster :: clusterInfo
  hdCrumb :: string
  hdCrumbTag :: string
  hdCrumbTagClass :: string

text \<open>A row that counts for the namespace: a row of the cluster for the page of cluster-wide objects.\<close>

definition row_of :: "string \<Rightarrow> Problem \<Rightarrow> bool" where
  "row_of ns p \<longleftrightarrow> pbScope p = ''cluster'' \<and> ns = clusterScopeNS \<or> ns \<in> set (pbNamespaces p) \<and> ns \<noteq> clusterScopeNS"

definition failing_rows :: "Problem list \<Rightarrow> string \<Rightarrow> nat \<times> bool" where
  "failing_rows problems ns =
     foldl (\<lambda>(failing, cascade) p. if row_of ns p then (Suc failing, cascade \<or> pbCascade p) else (failing, cascade))
       (0, False) problems"

text \<open>The signs before the number are three bytes each in UTF-8.\<close>

definition namespaceHeader :: "clusterInfo \<Rightarrow> Problem list \<Rightarrow> string \<Rightarrow> string \<Rightarrow> headerData" where
  "namespaceHeader info problems ns title =
     (case failing_rows problems ns of
        (failing, cascade) \<Rightarrow>
          let hdr = \<lparr>hdCluster = info, hdCrumb = title, hdCrumbTag = ''No warnings'', hdCrumbTagClass = ''ok''\<rparr>;
              said = nat_str failing @ '' '' @ (if failing = 1 then ''problem'' else ''problems'')
          in if failing = 0 then hdr
             else if cascade then hdr\<lparr>hdCrumbTag := [CHR 0xE2, CHR 0x96, CHR 0xB2] @ '' '' @ said, hdCrumbTagClass := ''cascade''\<rparr>
             else hdr\<lparr>hdCrumbTag := [CHR 0xE2, CHR 0x97, CHR 0x8F] @ '' '' @ said, hdCrumbTagClass := ''warn''\<rparr>)"

section \<open>The handlers\<close>

record appPage =
  agHome :: HomePayload
  agHeader :: headerData
  agView :: string
  agCurrentNS :: string
  agNS :: "nsPageData option"

datatype page_reply =
  PageNotFound
| PageBad string
| PageConflict string
| PageHome
| PagePanic
| PageApp appPage
| PageNS nsPageData

text \<open>\<open>strings.Trim(s, "/")\<close>.\<close>

definition trim_slashes :: "string \<Rightarrow> string" where
  "trim_slashes s = (let f = dropWhile (\<lambda>c. c = CHR 0x2F) in rev (f (rev (f s))))"

definition after_prefix :: "string \<Rightarrow> string \<Rightarrow> string" where
  "after_prefix pre path = (if has_prefix path pre then drop (length pre) path else path)"

text \<open>The cluster of a page has been read and changed: a cluster is a pointer.\<close>

definition put_cluster :: "string \<Rightarrow> clusterState \<Rightarrow> clusters \<Rightarrow> clusters" where
  "put_cluster ctx c cl =
     (if (ctx = '''' \<or> loadedCluster ctx cl = None) \<and> clOrphan cl \<noteq> None then cl\<lparr>clOrphan := Some c\<rparr>
      else on_cluster (csName c) (\<lambda>_. c) cl)"

text \<open>What both full pages do: \<open>pageCluster\<close> and \<open>buildHome\<close>. The last part says whether a note is started.\<close>

definition page_home :: "page_env \<Rightarrow> time \<Rightarrow> time \<Rightarrow> string \<Rightarrow> clusters \<times> llm_slots \<Rightarrow>
    (clusterState \<times> HomePayload) option \<times> (clusters \<times> llm_slots) \<times> Problem option" where
  "page_home env clk now ctx st =
     (case pageCluster ctx (fst st) of
        None \<Rightarrow> (None, st, None)
      | Some c \<Rightarrow>
          (case buildHome env clk now (snd st) c of
             (home, c', slots, started) \<Rightarrow>
               (map_option (Pair c') home, (put_cluster ctx c' (fst st), slots), started)))"

definition handleDashboard :: "page_env \<Rightarrow> time \<Rightarrow> time \<Rightarrow> string \<Rightarrow> string \<Rightarrow> clusters \<times> llm_slots \<Rightarrow>
    page_reply \<times> (clusters \<times> llm_slots) \<times> Problem option" where
  "handleDashboard env clk now path ctx st =
     (if path \<noteq> ''/'' then (PageNotFound, st, None)
      else (case page_home env clk now ctx st of
              (None, st', started) \<Rightarrow> (PagePanic, st', started)
            | (Some (c, home), st', started) \<Rightarrow>
                (PageApp \<lparr>agHome = home,
                    agHeader = \<lparr>hdCluster = sySCluster (hpStatus home), hdCrumb = '''', hdCrumbTag = '''', hdCrumbTagClass = ''''\<rparr>,
                    agView = ''overview'', agCurrentNS = '''', agNS = None\<rparr>, st', started)))"

definition handleNamespace :: "page_env \<Rightarrow> time \<Rightarrow> time \<Rightarrow> string \<Rightarrow> string \<Rightarrow> clusters \<times> llm_slots \<Rightarrow>
    page_reply \<times> (clusters \<times> llm_slots) \<times> Problem option" where
  "handleNamespace env clk now path ctx st =
     (let ns = trim_slashes (after_prefix ''/namespace/'' path) in
      if ns = '''' then (PageHome, st, None)
      else (case page_home env clk now ctx st of
              (None, st', started) \<Rightarrow> (PagePanic, st', started)
            | (Some (c, home), st', started) \<Rightarrow>
                (case namespacePage (envFormat env) clk (csCache c) ns of
                   None \<Rightarrow> (PagePanic, st', started)
                 | Some data \<Rightarrow>
                     (PageApp \<lparr>agHome = home,
                         agHeader = namespaceHeader (sySCluster (hpStatus home)) (hpProblems home) ns (pgTitle data),
                         agView = ''namespace'', agCurrentNS = ns, agNS = Some data\<rparr>, st', started))))"

text \<open>The namespace view alone; \<open>header\<close> names the context of the page that asks.\<close>

definition handleNamespaceFragment :: "page_env \<Rightarrow> time \<Rightarrow> string \<Rightarrow> string \<Rightarrow> string \<Rightarrow> clusters \<Rightarrow> page_reply" where
  "handleNamespaceFragment env clk path header ctx cl =
     (let ns = trim_slashes (after_prefix ''/fragment/namespace/'' path) in
      if ns = '''' then PageBad ''expected /fragment/namespace/<namespace>''
      else (case apiCluster header ctx cl of
              ApiConflict e \<Rightarrow> PageConflict e
            | ApiCluster None \<Rightarrow> PagePanic
            | ApiCluster (Some c) \<Rightarrow>
                (case namespacePage (envFormat env) clk (csCache c) ns of
                   None \<Rightarrow> PagePanic | Some data \<Rightarrow> PageNS data)))"

section \<open>The header and the rail\<close>

lemma failing_rows_eq:
  "failing_rows problems ns = (length (filter (row_of ns) problems), \<exists>p\<in>set problems. row_of ns p \<and> pbCascade p)"
proof -
  have "foldl (\<lambda>(failing, cascade) p. if row_of ns p then (Suc failing, cascade \<or> pbCascade p) else (failing, cascade)) (n, c) problems =
      (n + length (filter (row_of ns) problems), c \<or> (\<exists>p\<in>set problems. row_of ns p \<and> pbCascade p))" for n c
    by (induction problems arbitrary: n c) auto
  from this [of 0 False] show ?thesis by (simp add: failing_rows_def)
qed

definition rail_count :: "(string, railNS) gomap \<Rightarrow> string \<Rightarrow> nat" where
  "rail_count m ns = sum_list (map (\<lambda>e. if rnName (snd e) = ns then rnProblems (snd e) else 0) m)"

lemma rail_count_alter:
  assumes "\<forall>(k, r)\<in>set m. rnName r = k"
    and "\<And>a. rnName (f a) = (case a of Some r \<Rightarrow> rnName r | None \<Rightarrow> ns)"
    and "\<And>a. rnProblems (f a) = Suc (case a of Some r \<Rightarrow> rnProblems r | None \<Rightarrow> 0)"
  shows "rail_count (al_alter ns f m) x = rail_count m x + (if x = ns then 1 else 0)"
  using assms by (induction ns f m rule: al_alter.induct) (auto simp: rail_count_def)

lemma rail_count_rows:
  assumes "rail_ok m" and "distinct nss"
  shows "rail_count (foldl (\<lambda>m ns. al_alter ns (\<lambda>a.
      rail_add (case a of Some r \<Rightarrow> r | None \<Rightarrow> rail_new ns (al_get False truncated ns) sr) sr) m) m nss) x =
    rail_count m x + (if x \<in> set nss then 1 else 0)"
  using assms
proof (induction nss arbitrary: m)
  case (Cons ns nss)
  let ?f = "\<lambda>a. rail_add (case a of Some r \<Rightarrow> r | None \<Rightarrow> rail_new ns (al_get False truncated ns) sr) sr"
  have names: "rnName (?f a) = (case a of Some r \<Rightarrow> rnName r | None \<Rightarrow> ns)" for a
    by (simp add: rail_new_def split: option.split)
  have sums: "rnProblems (?f a) = Suc (case a of Some r \<Rightarrow> rnProblems r | None \<Rightarrow> 0)" for a
    by (simp add: rail_new_def rail_add_def Let_def split: option.split)
  have keys: "\<forall>(k, r)\<in>set m. rnName r = k" using Cons.prems(1) by (simp add: rail_ok_def)
  have ok: "rail_ok (al_alter ns ?f m)"
    using Cons.prems(1) rail_names_alter [OF keys names] by (simp add: rail_ok_def)
  have x: "rail_count (al_alter ns ?f m) x = rail_count m x + (if x = ns then 1 else 0)"
    by (rule rail_count_alter [OF keys names sums])
  show ?case using Cons.IH [OF ok] Cons.prems(2) x by auto
qed simp

text \<open>The rows the home page is built of: each names its namespaces once, a row of the cluster none.\<close>

definition tidy_row :: "Problem \<Rightarrow> bool" where
  "tidy_row p \<longleftrightarrow> distinct (pbNamespaces p) \<and> (pbScope p = ''cluster'' \<longrightarrow> pbNamespaces p = [])"

lemma rail_fold_counts:
  assumes "rail_ok (rsActive s)" and "list_all tidy_row ps" and "x \<noteq> clusterScopeNS"
  shows "rail_count (rsActive (foldl (rail_step truncated) s ps)) x = rail_count (rsActive s) x + length (filter (row_of x) ps)"
  using assms
proof (induction ps arbitrary: s)
  case (Cons p ps)
  have "rail_count (rsActive (rail_step truncated s p)) x = rail_count (rsActive s) x + (if row_of x p then 1 else 0)"
    using rail_count_rows [of "rsActive s" "pbNamespaces p" truncated "stateRank p" x] Cons.prems
    by (auto simp: rail_step_def Let_def tidy_row_def row_of_def)
  then show ?case using Cons.IH [OF rail_step_ok(1) [OF Cons.prems(1)], of truncated p] Cons.prems by simp
qed simp

lemma rail_fold_cluster:
  "(case rsCluster (foldl (rail_step truncated) s ps) of Some r \<Rightarrow> rnProblems r | None \<Rightarrow> 0) =
   (case rsCluster s of Some r \<Rightarrow> rnProblems r | None \<Rightarrow> 0) + length (filter (row_of clusterScopeNS) ps)"
proof (induction ps arbitrary: s)
  case (Cons p ps)
  have "(case rsCluster (rail_step truncated s p) of Some r \<Rightarrow> rnProblems r | None \<Rightarrow> 0) =
      (case rsCluster s of Some r \<Rightarrow> rnProblems r | None \<Rightarrow> 0) + (if row_of clusterScopeNS p then 1 else 0)"
    by (auto simp: rail_step_def Let_def row_of_def rail_add_def rail_new_def split: option.split)
  then show ?case using Cons.IH [of "rail_step truncated s p"] by simp
qed simp

text \<open>The number of problems the rail shows for a namespace.\<close>

definition rail_problems :: "homeRail \<Rightarrow> string \<Rightarrow> nat" where
  "rail_problems rail ns =
     (if ns = clusterScopeNS then (case hrCluster rail of Some r \<Rightarrow> rnProblems r | None \<Rightarrow> 0)
      else sum_list (map (\<lambda>r. if rnName r = ns then rnProblems r else 0) (hrActive rail)))"

lemma rail_counts_rows:
  assumes "build_rail events allNS truncated problems = (summary, rail)" and "list_all tidy_row problems"
  shows "rail_problems rail ns = length (filter (row_of ns) problems)"
proof -
  let ?init = "\<lparr>rsSummary = \<lparr>hsProblems = 0, hsNamespaces = 0, hsCluster = False, hsNew = 0, hsOngoing = 0,
                      hsChronic = 0\<rparr>, rsCluster = None, rsKinds = [], rsActive = []\<rparr>"
  let ?s = "foldl (rail_step truncated) ?init problems"
  have rail: "hrActive rail = go_sort rank_less (map snd (rsActive ?s))"
    "map_option rnProblems (hrCluster rail) = map_option rnProblems (rsCluster ?s)"
    using assms(1) by (auto simp: build_rail_def Let_def option.map_comp comp_def split: prod.splits)
  have act: "sum_list (map (\<lambda>r. if rnName r = ns then rnProblems r else 0) (hrActive rail)) = rail_count (rsActive ?s) ns"
    unfolding rail(1) rail_count_def by (simp add: sum_list_mset_cong [of "go_sort _ _" "map snd _"] comp_def)
  show ?thesis
  proof (cases "ns = clusterScopeNS")
    case True
    then show ?thesis
      using rail_fold_cluster [of truncated ?init problems] rail(2)
      by (auto simp: rail_problems_def split: option.splits)
  next
    case False
    have "rail_ok (rsActive ?init)" by (simp add: rail_ok_def)
    from rail_fold_counts [OF this assms(2) False, of truncated] False act show ?thesis
      by (simp add: rail_problems_def rail_count_def)
  qed
qed

lemma home_rows_tidy:
  assumes "buildProblems fmt clk events now st = (Some rows, st')"
  shows "list_all tidy_row rows"
proof -
  obtain plain out st2 where b: "buildProblems fmt clk events now st = (Some (sortProblems out), st2)"
    and g: "groupPatterns fmt plain now = Some out" and p: "list_all plain_row plain"
    by (rule buildProblems_rows)
  have "tidy_row q" if q: "q \<in> set out" for q
  proof (cases "q \<in> set plain")
    case True
    then show ?thesis using p by (auto simp: list_all_iff plain_row_def tidy_row_def)
  next
    case False
    obtain r ms where "makePattern fmt (map ((!) plain) ms) now = Some q"
      using pattern_members [OF plain_rows_indexable [OF p] g q] False by blast
    from makePattern_Some(3,4) [OF this] show ?thesis by (simp add: tidy_row_def)
  qed
  then show ?thesis using assms b by (auto simp: list_all_iff)
qed

lemma page_home_rail:
  assumes "page_home env clk now ctx st = (Some (c, home), st', started)"
  shows "rail_problems (hpRail home) ns = length (filter (row_of ns) (hpProblems home))"
proof -
  obtain c0 slots where b: "buildHome env clk now (snd st) c0 = (Some home, c, slots, started)"
    using assms by (auto simp: page_home_def split: option.splits prod.splits)
  obtain events owners where rows: "buildProblems (envFormat env) clk events now owners = (Some (hpProblems home), csOwners c)"
    and rail: "\<exists>ev nss tr. build_rail ev nss tr (hpProblems home) = (hpSummary home, hpRail home)"
    using b by (auto simp: buildHome_def Let_def split: prod.splits option.splits if_splits) blast+
  from rail home_rows_tidy [OF rows] show ?thesis using rail_counts_rows by metis
qed

lemma header_says:
  defines "n ps ns \<equiv> length (filter (row_of ns) ps)"
  shows "(n ps ns = 0 \<longrightarrow> hdCrumbTag (namespaceHeader info ps ns title) = ''No warnings'' \<and>
      hdCrumbTagClass (namespaceHeader info ps ns title) = ''ok'') \<and>
    (n ps ns \<noteq> 0 \<longrightarrow> (\<exists>sign. length sign = 3 \<and> sign \<noteq> ''No '' \<and>
      hdCrumbTag (namespaceHeader info ps ns title) =
        sign @ '' '' @ nat_str (n ps ns) @ '' '' @ (if n ps ns = 1 then ''problem'' else ''problems'') \<and>
      hdCrumbTagClass (namespaceHeader info ps ns title) \<noteq> ''ok''))"
proof (intro conjI impI)
  assume "n ps ns \<noteq> 0"
  then show "\<exists>sign. length sign = 3 \<and> sign \<noteq> ''No '' \<and>
      hdCrumbTag (namespaceHeader info ps ns title) =
        sign @ '' '' @ nat_str (n ps ns) @ '' '' @ (if n ps ns = 1 then ''problem'' else ''problems'') \<and>
      hdCrumbTagClass (namespaceHeader info ps ns title) \<noteq> ''ok''"
    by (intro exI [of _ "if \<exists>p\<in>set ps. row_of ns p \<and> pbCascade p then [CHR 0xE2, CHR 0x96, CHR 0xB2] else [CHR 0xE2, CHR 0x97, CHR 0x8F]"])
      (simp add: namespaceHeader_def failing_rows_eq Let_def n_def)
qed (simp_all add: namespaceHeader_def failing_rows_eq Let_def n_def)

section \<open>Properties\<close>

text \<open>
  C38: the header of a namespace's page and the list of namespaces agree: the header says \<open>No warnings\<close> exactly when the
  list shows no problem for the namespace, and otherwise gives the number of problems the list shows.
\<close>

theorem header_agrees_with_list:
  assumes "handleNamespace env clk now path ctx st = (PageApp page, st', started)"
  shows "let n = rail_problems (hpRail (agHome page)) (agCurrentNS page); h = agHeader page in
    (n = 0 \<longleftrightarrow> hdCrumbTag h = ''No warnings'') \<and> (n = 0 \<longleftrightarrow> hdCrumbTagClass h = ''ok'') \<and>
    (n \<noteq> 0 \<longrightarrow> (\<exists>sign. length sign = 3 \<and>
       hdCrumbTag h = sign @ '' '' @ nat_str n @ '' '' @ (if n = 1 then ''problem'' else ''problems'')))"
proof -
  obtain c home data st2 where h: "page_home env clk now ctx st = (Some (c, home), st2, started)"
    and data: "namespacePage (envFormat env) clk (csCache c) (trim_slashes (after_prefix ''/namespace/'' path)) = Some data"
    and page: "agHome page = home" "agCurrentNS page = trim_slashes (after_prefix ''/namespace/'' path)"
    "agHeader page = namespaceHeader (sySCluster (hpStatus home)) (hpProblems home) (agCurrentNS page) (pgTitle data)"
    using assms by (auto simp: handleNamespace_def Let_def split: if_splits prod.splits option.splits)
  let ?n = "length (filter (row_of (agCurrentNS page)) (hpProblems home))"
  have n: "rail_problems (hpRail home) (agCurrentNS page) = ?n" by (rule page_home_rail [OF h])
  show ?thesis
    using header_says [where ps = "hpProblems home" and ns = "agCurrentNS page" and info = "sySCluster (hpStatus home)"
        and title = "pgTitle data"]
    unfolding page(1) n Let_def page(3) by (cases "?n = 0") auto
qed

definition sample_clusters :: clusters where
  "sample_clusters = \<lparr>clActive = Some ''kind'',
     clByName = [(''kind'', (newClusterState ''kind'' '''')\<lparr>csCache :=
       empty_cache\<lparr>ecNsCache := [(''shop'', \<lparr>neEvents = [(sample_event ''Node'' ''n1'' ''NotReady'' 100 1)\<lparr>evObjectNamespace := ''''\<rparr>], neUpdatedAt = 5, neTruncated = False\<rparr>)]\<rparr>\<rparr>)],
     clOrphan = None\<rparr>"

definition sample_page_env :: page_env where
  "sample_page_env = \<lparr>envFormat = (\<lambda>f t. f), envAllNS = True, envAI = False, envModel = ''m'', envPrefs = [],
     envTunnels = \<lparr>tnDefs = [], tnRuns = []\<rparr>, envActive = ''kind''\<rparr>"

definition shown :: "page_reply \<Rightarrow> (string \<times> string) option" where
  "shown r = (case r of PageApp page \<Rightarrow> Some (hdCrumbTag (agHeader page), agCurrentNS page) | _ \<Rightarrow> None)"

definition rail_shown :: "page_reply \<Rightarrow> string \<Rightarrow> nat" where
  "rail_shown r ns = (case r of PageApp page \<Rightarrow> rail_problems (hpRail (agHome page)) ns | _ \<Rightarrow> 0)"

theorem header_agrees_with_list_witness:
  "\<exists>page st' started. handleNamespace sample_page_env 9 9 ''/namespace/_cluster/'' '''' (sample_clusters, initial_slots) =
       (PageApp page, st', started) \<and>
     rail_problems (hpRail (agHome page)) (agCurrentNS page) = 1 \<and>
     (\<exists>sign. length sign = 3 \<and> hdCrumbTag (agHeader page) = sign @ '' 1 problem'')"
proof -
  let ?r = "handleNamespace sample_page_env 9 9 ''/namespace/_cluster/'' '''' (sample_clusters, initial_slots)"
  have s: "shown (fst ?r) = Some ([CHR 0xE2, CHR 0x97, CHR 0x8F] @ '' 1 problem'', ''_cluster'')" by code_simp
  have c: "rail_shown (fst ?r) ''_cluster'' = 1" by code_simp
  obtain page where p: "fst ?r = PageApp page" "agCurrentNS page = ''_cluster''"
    using s by (cases "fst ?r") (simp_all add: shown_def)
  obtain st' started where r: "?r = (PageApp page, st', started)" using p(1) by (metis prod.collapse)
  have one: "rail_problems (hpRail (agHome page)) (agCurrentNS page) = 1" using c by (simp add: p rail_shown_def)
  have "nat_str (Suc 0) = ''1''" by code_simp
  then have "\<exists>sign. length sign = 3 \<and> hdCrumbTag (agHeader page) = sign @ '' 1 problem''"
    using header_agrees_with_list [OF r] by (simp add: Let_def one)
  then show ?thesis using one r by blast
qed

end
