(* ===== verification/Files.thy ===== *)
theory Files
  imports GoStrings
begin

text \<open>
  The files the program writes: \<open>os.WriteFile\<close>, \<open>os.Rename\<close> and \<open>os.Remove\<close> with the errors the system may
  answer, and what is common to the two writers (the preferences and the unpacked assets): they write a file
  of another name and then rename it.
\<close>

section \<open>The operations\<close>

text \<open>
  A disk is a map from paths to contents. What the system answers is given per path: an error, or
  \<open>None\<close>. A write that fails may have written a part, \<open>fst\<close> of its answer. Directories are only made, never read:
  of \<open>os.MkdirAll\<close> only the error is kept.
\<close>

type_synonym 'c disk = "string \<rightharpoonup> 'c"

record 'c os_answers =
  osMkdir :: "string \<Rightarrow> string option"
  osCreate :: "string \<Rightarrow> string option"
  osWrite :: "string \<Rightarrow> ('c \<times> string) option"
  osClose :: "string \<Rightarrow> string option"
  osRename :: "string \<Rightarrow> string \<Rightarrow> string option"
  osRemove :: "string \<Rightarrow> string option"

definition all_well :: "'c os_answers" where
  "all_well = \<lparr>osMkdir = (\<lambda>_. None), osCreate = (\<lambda>_. None), osWrite = (\<lambda>_. None), osClose = (\<lambda>_. None),
     osRename = (\<lambda>_ _. None), osRemove = (\<lambda>_. None)\<rparr>"

text \<open>Opening for writing, writing and closing: what is on the disk then, and the first error.\<close>

definition write_file :: "'c os_answers \<Rightarrow> string \<Rightarrow> 'c \<Rightarrow> 'c disk \<Rightarrow> 'c disk \<times> string option" where
  "write_file os p c d =
     (case osCreate os p of
        Some e \<Rightarrow> (d, Some e)
      | None \<Rightarrow>
          (case osWrite os p of
             Some (part, e) \<Rightarrow> (d(p \<mapsto> part), Some e)
           | None \<Rightarrow> (d(p \<mapsto> c), osClose os p)))"

definition rename_file :: "'c os_answers \<Rightarrow> string \<Rightarrow> string \<Rightarrow> 'c disk \<Rightarrow> 'c disk \<times> string option" where
  "rename_file os p q d =
     (case osRename os p q of
        Some e \<Rightarrow> (d, Some e)
      | None \<Rightarrow> (d(q := d p, p := None), None))"

definition remove_file :: "'c os_answers \<Rightarrow> string \<Rightarrow> 'c disk \<Rightarrow> 'c disk" where
  "remove_file os p d = (case osRemove os p of Some e \<Rightarrow> d | None \<Rightarrow> d(p := None))"

text \<open>\<open>path + ".tmp"\<close>.\<close>

definition tmp_of :: "string \<Rightarrow> string" where
  "tmp_of p = p @ ''.tmp''"

text \<open>\<open>filepath.Dir\<close> of a clean path.\<close>

definition dir_of :: "string \<Rightarrow> string" where
  "dir_of p = (let d = rev (dropWhile (\<lambda>c. c \<noteq> CHR 0x2F) (rev p)) in
     if d = '''' then ''.'' else if length d = 1 then d else butlast d)"

section \<open>Writing under another name\<close>

lemma tmp_of_neq [simp]: "tmp_of p \<noteq> p" "p \<noteq> tmp_of p"
  by (simp_all add: tmp_of_def)

lemma tmp_of_inj [simp]: "tmp_of p = tmp_of q \<longleftrightarrow> p = q"
  by (simp add: tmp_of_def)

lemma write_file_cases:
  assumes "write_file os p c d = (d', err)"
  shows "(\<forall>q. q \<noteq> p \<longrightarrow> d' q = d q) \<and> (err = None \<longrightarrow> d' p = Some c)"
  using assms by (auto simp: write_file_def split: option.splits)

lemma rename_file_cases:
  assumes "rename_file os p q d = (d', err)" and "p \<noteq> q"
  shows "(\<forall>x. x \<noteq> p \<and> x \<noteq> q \<longrightarrow> d' x = d x) \<and>
    (err = None \<longrightarrow> d' q = d p \<and> d' p = None) \<and> (err \<noteq> None \<longrightarrow> d' = d)"
  using assms by (auto simp: rename_file_def split: option.splits)

lemma remove_file_other: "q \<noteq> p \<Longrightarrow> remove_file os p d q = d q"
  by (simp add: remove_file_def split: option.split)

text \<open>What a writer of this kind promises: the file is the new content or what it was.\<close>

definition replaced :: "string \<Rightarrow> 'c \<Rightarrow> 'c disk \<Rightarrow> 'c disk \<times> string option \<Rightarrow> bool" where
  "replaced p c d r \<longleftrightarrow>
     (\<forall>q. q \<noteq> p \<and> q \<noteq> tmp_of p \<longrightarrow> fst r q = d q) \<and>
     (snd r = None \<longrightarrow> fst r p = Some c) \<and> (snd r \<noteq> None \<longrightarrow> fst r p = d p)"

lemma replacedI:
  assumes "write_file os (tmp_of p) c d = (d1, None)" and "rename_file os' (tmp_of p) p d1 = (d2, err)"
  shows "replaced p c d (d2, err)"
  using write_file_cases [OF assms(1)] rename_file_cases [OF assms(2)]
  by (cases err) (auto simp: replaced_def)

lemma replaced_not_written:
  assumes "\<And>q. q \<noteq> tmp_of p \<Longrightarrow> d' q = d q"
  shows "replaced p c d (d', Some e)"
  using assms by (simp add: replaced_def)

lemma dir_of_examples:
  "dir_of ''/home/u/.config/kubehealth/prefs.json'' = ''/home/u/.config/kubehealth''" "dir_of ''prefs.json'' = ''.''"
  by code_simp+

end
