(* ===== verification/Prefs.thy ===== *)
theory Prefs
  imports Files Clusters ClaudeCode Unstructured
begin

text \<open>
  The saved preferences (cluster.go): what is written to prefs.json, how it is read back at the start, and
  that a choice survives a restart. The text of the file is its decoded JSON: \<open>None\<close> is a text that is not
  JSON.
\<close>

section \<open>The preferences and their JSON\<close>

record saved_prefs =
  pfContextEnv :: context_envs
  pfAI :: ai_prefs
  pfTunnels :: "TunnelDef list"

definition no_prefs :: saved_prefs where
  "no_prefs = \<lparr>pfContextEnv = [], pfAI = \<lparr>apBackend = '''', apModel = None, apThinking = ''''\<rparr>, pfTunnels = []\<rparr>"

text \<open>A field tagged \<open>omitempty\<close>.\<close>

definition omit_empty :: "string \<Rightarrow> string \<Rightarrow> (string \<times> json) list" where
  "omit_empty key v = (if v = '''' then [] else [(key, JString v)])"

definition tunnel_json :: "TunnelDef \<Rightarrow> json" where
  "tunnel_json t = JMap
     ([(''name'', JString (tdName t)), (''command'', JString (tdCommand t)), (''mode'', JString (tdMode t))] @
      omit_empty ''proxy'' (tdProxy t) @ omit_empty ''address'' (tdAddress t) @
      [(''contexts'', JList (map JString (tdContexts t)))])"

text \<open>\<open>json.MarshalIndent(&prefs)\<close>: a map is written with its keys in order.\<close>

definition prefs_json :: "saved_prefs \<Rightarrow> json" where
  "prefs_json p = JMap
     ([(''context_env'', JMap (map (\<lambda>(k, v). (k, JString v))
          (go_sort (\<lambda>a b. string_less (fst a) (fst b)) (pfContextEnv p))))] @
      omit_empty ''ai_backend'' (apBackend (pfAI p)) @
      (case apModel (pfAI p) of None \<Rightarrow> [] | Some m \<Rightarrow> [(''claude_model'', JString m)]) @
      omit_empty ''claude_thinking'' (apThinking (pfAI p)) @
      (if pfTunnels p = [] then [] else [(''tunnels'', JList (map tunnel_json (pfTunnels p)))]))"

section \<open>Decoding\<close>

text \<open>
  \<open>json.Unmarshal\<close> into a struct that has values already: a field that is absent keeps its value, one that is null
  is left (a string) or emptied (a map, a pointer, a slice), one of the wrong type is left and reported
  once everything else has been decoded. Names match whatever the case of their letters. The result's second part
  says whether all types fitted.
\<close>

definition get_string :: "json \<Rightarrow> string \<Rightarrow> string \<times> bool" where
  "get_string v old = (case v of JString s \<Rightarrow> (s, True) | JNull \<Rightarrow> (old, True) | _ \<Rightarrow> (old, False))"

text \<open>A \<open>map[string]string\<close>: an entry of the wrong type is the empty string.\<close>

definition get_entry :: "context_envs \<times> bool \<Rightarrow> string \<times> json \<Rightarrow> context_envs \<times> bool" where
  "get_entry r e = (case get_string (snd e) '''' of (s, ok) \<Rightarrow> (al_set (fst e) s (fst r), snd r \<and> ok))"

definition get_map :: "json \<Rightarrow> context_envs \<Rightarrow> context_envs \<times> bool" where
  "get_map v old =
     (case v of JMap m \<Rightarrow> foldl get_entry (old, True) m | JNull \<Rightarrow> ([], True) | _ \<Rightarrow> (old, False))"

definition get_strings :: "json \<Rightarrow> string list \<Rightarrow> string list \<times> bool" where
  "get_strings v old =
     (case v of
        JList vs \<Rightarrow> (map (\<lambda>x. fst (get_string x '''')) vs, list_all (\<lambda>x. snd (get_string x '''')) vs)
      | JNull \<Rightarrow> ([], True)
      | _ \<Rightarrow> (old, False))"

definition get_tunnel_field :: "TunnelDef \<times> bool \<Rightarrow> string \<times> json \<Rightarrow> TunnelDef \<times> bool" where
  "get_tunnel_field r e =
     (let t = fst r; k = ascii_lower (fst e); v = snd e in
      if k = ''name'' then (case get_string v (tdName t) of (s, ok) \<Rightarrow> (t\<lparr>tdName := s\<rparr>, snd r \<and> ok))
      else if k = ''command'' then (case get_string v (tdCommand t) of (s, ok) \<Rightarrow> (t\<lparr>tdCommand := s\<rparr>, snd r \<and> ok))
      else if k = ''mode'' then (case get_string v (tdMode t) of (s, ok) \<Rightarrow> (t\<lparr>tdMode := s\<rparr>, snd r \<and> ok))
      else if k = ''proxy'' then (case get_string v (tdProxy t) of (s, ok) \<Rightarrow> (t\<lparr>tdProxy := s\<rparr>, snd r \<and> ok))
      else if k = ''address'' then (case get_string v (tdAddress t) of (s, ok) \<Rightarrow> (t\<lparr>tdAddress := s\<rparr>, snd r \<and> ok))
      else if k = ''contexts'' then
        (case get_strings v (tdContexts t) of (cs, ok) \<Rightarrow> (t\<lparr>tdContexts := cs\<rparr>, snd r \<and> ok))
      else r)"

definition zero_tunnel :: TunnelDef where
  "zero_tunnel = \<lparr>tdName = '''', tdCommand = '''', tdMode = '''', tdProxy = '''', tdAddress = '''', tdContexts = []\<rparr>"

definition get_tunnel :: "json \<Rightarrow> TunnelDef \<times> bool" where
  "get_tunnel v =
     (case v of JMap m \<Rightarrow> foldl get_tunnel_field (zero_tunnel, True) m | JNull \<Rightarrow> (zero_tunnel, True) | _ \<Rightarrow> (zero_tunnel, False))"

definition get_tunnels :: "json \<Rightarrow> TunnelDef list \<Rightarrow> TunnelDef list \<times> bool" where
  "get_tunnels v old =
     (case v of
        JList vs \<Rightarrow> (map (fst \<circ> get_tunnel) vs, list_all (snd \<circ> get_tunnel) vs)
      | JNull \<Rightarrow> ([], True)
      | _ \<Rightarrow> (old, False))"

text \<open>The model is a pointer: null makes it nil.\<close>

definition get_model :: "json \<Rightarrow> string option \<Rightarrow> string option \<times> bool" where
  "get_model v old =
     (case v of
        JString s \<Rightarrow> (Some s, True)
      | JNull \<Rightarrow> (None, True)
      | _ \<Rightarrow> (Some (case old of Some s \<Rightarrow> s | None \<Rightarrow> ''''), False))"

definition get_pref :: "saved_prefs \<times> bool \<Rightarrow> string \<times> json \<Rightarrow> saved_prefs \<times> bool" where
  "get_pref r e =
     (let p = fst r; a = pfAI p; k = ascii_lower (fst e); v = snd e in
      if k = ''context_env'' then
        (case get_map v (pfContextEnv p) of (m, ok) \<Rightarrow> (p\<lparr>pfContextEnv := m\<rparr>, snd r \<and> ok))
      else if k = ''ai_backend'' then
        (case get_string v (apBackend a) of (s, ok) \<Rightarrow> (p\<lparr>pfAI := a\<lparr>apBackend := s\<rparr>\<rparr>, snd r \<and> ok))
      else if k = ''claude_model'' then
        (case get_model v (apModel a) of (m, ok) \<Rightarrow> (p\<lparr>pfAI := a\<lparr>apModel := m\<rparr>\<rparr>, snd r \<and> ok))
      else if k = ''claude_thinking'' then
        (case get_string v (apThinking a) of (s, ok) \<Rightarrow> (p\<lparr>pfAI := a\<lparr>apThinking := s\<rparr>\<rparr>, snd r \<and> ok))
      else if k = ''tunnels'' then
        (case get_tunnels v (pfTunnels p) of (ts, ok) \<Rightarrow> (p\<lparr>pfTunnels := ts\<rparr>, snd r \<and> ok))
      else r)"

definition get_prefs :: "json \<Rightarrow> saved_prefs \<Rightarrow> saved_prefs \<times> bool" where
  "get_prefs v p =
     (case v of JMap m \<Rightarrow> foldl get_pref (p, True) m | JNull \<Rightarrow> (p, True) | _ \<Rightarrow> (p, False))"

section \<open>Loading and saving\<close>

text \<open>\<open>prefsPath\<close>; the system may have no configuration directory.\<close>

definition prefsPath :: "string option \<Rightarrow> string" where
  "prefsPath configDir = (case configDir of None \<Rightarrow> '''' | Some d \<Rightarrow> d @ ''/kubehealth/prefs.json'')"

text \<open>\<open>unreadable\<close>: the file is there but cannot be read. The lines logged, without the decoder's
  words, are the second part of the result.\<close>

definition loadPrefs :: "string \<Rightarrow> string option \<Rightarrow> json option disk \<Rightarrow> saved_prefs \<Rightarrow> saved_prefs \<times> string list" where
  "loadPrefs path unreadable d p =
     (let bad = [''Preferences: '' @ path @ '' is not valid JSON, ignoring it''] in
      if path = '''' then (p, [])
      else (case d path of
              None \<Rightarrow> (p, [])
            | Some text \<Rightarrow>
                (case unreadable of
                   Some e \<Rightarrow> (p, [''Preferences: '' @ e])
                 | None \<Rightarrow>
                     (case text of
                        None \<Rightarrow> (p, bad)
                      | Some v \<Rightarrow> (case get_prefs v p of (p', ok) \<Rightarrow> (p', (if ok then [] else bad)))))))"

definition savePrefsLocked :: "json option os_answers \<Rightarrow> string \<Rightarrow> saved_prefs \<Rightarrow> json option disk \<Rightarrow>
    json option disk \<times> string option" where
  "savePrefsLocked os path p d =
     (if path = '''' then (d, Some ''no user config directory to save preferences in'')
      else (case osMkdir os (dir_of path) of
              Some e \<Rightarrow> (d, Some e)
            | None \<Rightarrow>
                (case write_file os (tmp_of path) (Some (prefs_json p)) d of
                   (d1, Some e) \<Rightarrow> (d1, Some e)
                 | (d1, None) \<Rightarrow> rename_file os (tmp_of path) path d1)))"

text \<open>\<open>setContextEnv\<close> with the preferences as they are in memory and on the disk.\<close>

definition choose_env :: "json option os_answers \<Rightarrow> string \<Rightarrow> string \<Rightarrow> string \<Rightarrow> saved_prefs \<Rightarrow> json option disk \<Rightarrow>
    saved_prefs \<times> json option disk \<times> env_error option" where
  "choose_env os path name env p d =
     (if env \<noteq> '''' \<and> \<not> validEnvs env then (p, d, Some (UnknownEnvironment env))
      else
        (let p' = p\<lparr>pfContextEnv := (if env = '''' then al_delete name (pfContextEnv p)
                                     else al_set name env (pfContextEnv p))\<rparr>
         in case savePrefsLocked os path p' d of (d', err) \<Rightarrow> (p', d', map_option NotSaved err)))"

section \<open>What is written is read back\<close>

named_theorems decode "decoding what was encoded"

lemma get_string_JString [decode]: "get_string (JString s) old = (s, True)"
  by (simp add: get_string_def)

lemma get_strings_back [decode]: "get_strings (JList (map JString cs)) old = (cs, True)"
  by (induction cs) (simp_all add: get_strings_def get_string_def)

lemma foldl_omit_empty:
  "foldl f r (omit_empty key v) = (if v = '''' then r else f r (key, JString v))"
  by (simp add: omit_empty_def)

lemma tunnel_keys [decode]:
  "ascii_lower ''name'' = ''name''" "ascii_lower ''command'' = ''command''" "ascii_lower ''mode'' = ''mode''"
  "ascii_lower ''proxy'' = ''proxy''" "ascii_lower ''address'' = ''address''" "ascii_lower ''contexts'' = ''contexts''"
  by code_simp+

lemma pref_keys [decode]:
  "ascii_lower ''context_env'' = ''context_env''" "ascii_lower ''ai_backend'' = ''ai_backend''"
  "ascii_lower ''claude_model'' = ''claude_model''" "ascii_lower ''claude_thinking'' = ''claude_thinking''"
  "ascii_lower ''tunnels'' = ''tunnels''"
  by code_simp+

lemma name_steps [decode]:
  "get_tunnel_field (t, ok) (''name'', JString s) = (t\<lparr>tdName := s\<rparr>, ok)"
  "get_tunnel_field (t, ok) (''command'', JString s) = (t\<lparr>tdCommand := s\<rparr>, ok)"
  "get_tunnel_field (t, ok) (''mode'', JString s) = (t\<lparr>tdMode := s\<rparr>, ok)"
  "get_tunnel_field (t, ok) (''proxy'', JString s) = (t\<lparr>tdProxy := s\<rparr>, ok)"
  "get_tunnel_field (t, ok) (''address'', JString s) = (t\<lparr>tdAddress := s\<rparr>, ok)"
  "get_tunnel_field (t, ok) (''contexts'', JList (map JString cs)) = (t\<lparr>tdContexts := cs\<rparr>, ok)"
  by (simp_all add: get_tunnel_field_def decode Let_def del: ascii_lower.simps)

lemma tunnel_back [decode]: "get_tunnel (tunnel_json t) = (t, True)"
  by (cases t) (simp add: tunnel_json_def get_tunnel_def foldl_omit_empty decode, simp add: zero_tunnel_def)

lemma tunnels_back [decode]: "get_tunnels (JList (map tunnel_json ts)) old = (ts, True)"
  by (induction ts) (simp_all add: get_tunnels_def decode)

lemma get_entries_back:
  "foldl get_entry (m, ok) (map (\<lambda>(k, v). (k, JString v)) es) = (foldl (\<lambda>m e. al_set (fst e) (snd e) m) m es, ok)"
  by (induction es arbitrary: m) (auto simp: get_entry_def decode)

definition same_prefs :: "saved_prefs \<Rightarrow> saved_prefs \<Rightarrow> bool" where
  "same_prefs p q \<longleftrightarrow> map_of (pfContextEnv p) = map_of (pfContextEnv q) \<and> pfAI p = pfAI q \<and> pfTunnels p = pfTunnels q"

lemma pref_steps [decode]:
  "get_pref (p, ok) (''context_env'', JMap m) =
     (case foldl get_entry (pfContextEnv p, True) m of (m', ok') \<Rightarrow> (p\<lparr>pfContextEnv := m'\<rparr>, ok \<and> ok'))"
  "get_pref (p, ok) (''ai_backend'', JString s) = (p\<lparr>pfAI := (pfAI p)\<lparr>apBackend := s\<rparr>\<rparr>, ok)"
  "get_pref (p, ok) (''claude_model'', JString s) = (p\<lparr>pfAI := (pfAI p)\<lparr>apModel := Some s\<rparr>\<rparr>, ok)"
  "get_pref (p, ok) (''claude_thinking'', JString s) = (p\<lparr>pfAI := (pfAI p)\<lparr>apThinking := s\<rparr>\<rparr>, ok)"
  "get_pref (p, ok) (''tunnels'', JList (map tunnel_json ts)) = (p\<lparr>pfTunnels := ts\<rparr>, ok)"
  by (simp_all add: get_pref_def get_map_def get_model_def decode Let_def del: ascii_lower.simps)

text \<open>Decoding what was encoded, into the preferences of a new start.\<close>

lemma prefs_back:
  assumes "distinct (map fst (pfContextEnv p))"
  shows "\<exists>p'. get_prefs (prefs_json p) no_prefs = (p', True) \<and> same_prefs p' p"
proof -
  let ?es = "go_sort (\<lambda>a b. string_less (fst a) (fst b)) (pfContextEnv p)"
  have es: "map_of (foldl (\<lambda>m e. al_set (fst e) (snd e) m) [] ?es) = map_of (pfContextEnv p)"
    using assms by (simp add: map_of_foldl_set map_of_go_sort)
  obtain b m t where ai: "pfAI p = \<lparr>apBackend = b, apModel = m, apThinking = t\<rparr>" by (cases "pfAI p")
  show ?thesis
    by (cases m; cases "pfTunnels p = []")
      (simp_all add: ai get_prefs_def prefs_json_def foldl_omit_empty get_entries_back no_prefs_def decode same_prefs_def es)
qed

section \<open>Saving and starting again\<close>

text \<open>A save either leaves the file as it was or replaces it by the whole new text; no other file changes but the temporary one.\<close>

lemma save_replaces:
  assumes "path \<noteq> ''''"
  shows "replaced path (Some (prefs_json p)) d (savePrefsLocked os path p d)"
proof (cases "osMkdir os (dir_of path)")
  case None
  obtain d1 e1 where w: "write_file os (tmp_of path) (Some (prefs_json p)) d = (d1, e1)" by fastforce
  obtain d2 e2 where r: "rename_file os (tmp_of path) path d1 = (d2, e2)" by fastforce
  show ?thesis
  proof (cases e1)
    case None
    then show ?thesis
      using replacedI [of os path _ d d1 os d2 e2] w r assms \<open>osMkdir os (dir_of path) = None\<close>
      by (simp add: savePrefsLocked_def)
  next
    case (Some e)
    then show ?thesis
      using write_file_cases [OF w] w assms \<open>osMkdir os (dir_of path) = None\<close>
      by (simp add: savePrefsLocked_def replaced_not_written)
  qed
qed (simp add: savePrefsLocked_def assms replaced_not_written)

definition restarted :: "string \<Rightarrow> json option disk \<Rightarrow> saved_prefs" where
  "restarted path d = fst (loadPrefs path None d no_prefs)"

lemma restarted_saved:
  assumes "d path = Some (Some (prefs_json p))" and "path \<noteq> ''''" and "distinct (map fst (pfContextEnv p))"
  shows "same_prefs (restarted path d) p"
  using prefs_back [OF assms(3)] assms(1,2) by (auto simp: restarted_def loadPrefs_def Let_def)

lemma same_prefs_envFor: "same_prefs p q \<Longrightarrow> envFor (pfContextEnv p) = envFor (pfContextEnv q)"
  by (simp add: same_prefs_def envFor_def al_get_def fun_eq_iff)

text \<open>A chosen environment is the one shown after a restart.\<close>

lemma chosen_env_survives:
  assumes "choose_env os path name env p d = (p', d', None)" and "path \<noteq> ''''"
    and "distinct (map fst (pfContextEnv p))"
  shows "envFor (pfContextEnv (restarted path d')) = envFor (pfContextEnv p')"
proof -
  have s: "savePrefsLocked os path p' d = (d', None)" and k: "distinct (map fst (pfContextEnv p'))"
    using assms by (auto simp: choose_env_def Let_def split: if_splits prod.splits)
  have "d' path = Some (Some (prefs_json p'))"
    using save_replaces [OF assms(2), of p' d os] s by (simp add: replaced_def)
  then show ?thesis using same_prefs_envFor [OF restarted_saved] assms(2) k by blast
qed

text \<open>
  A file in which one field has the wrong type is said to be ignored, and the other fields are used; the next
  save then writes a file without the tunnels.
\<close>

lemma half_read_prefs:
  "let d = [''p'' \<mapsto> Some (JMap [(''context_env'', JMap [(''eks'', JString ''prod'')]), (''tunnels'', JInt 1)])];
       (p, logged) = loadPrefs ''p'' None d no_prefs
   in envFor (pfContextEnv p) ''eks'' = (''prod'', ''settings'') \<and>
      logged = [''Preferences: p is not valid JSON, ignoring it'']"
  by code_simp

text \<open>
  C35: the preferences survive a restart. Whatever the system answers, a save either fails and leaves the file with the
  preferences as it was, or succeeds and a start that reads the file has exactly the saved environments, tunnels
  and choices for the AI calls; no other file changes but the temporary one.
\<close>

theorem preferences_survive:
  assumes "path \<noteq> ''''" and "distinct (map fst (pfContextEnv p))"
  shows "let (d', err) = savePrefsLocked os path p d in
    (err = None \<longrightarrow> same_prefs (restarted path d') p) \<and>
    (err \<noteq> None \<longrightarrow> restarted path d' = restarted path d) \<and>
    (\<forall>q. q \<noteq> path \<and> q \<noteq> tmp_of path \<longrightarrow> d' q = d q)"
proof -
  obtain d' err where s: "savePrefsLocked os path p d = (d', err)" by fastforce
  then show ?thesis
    using save_replaces [OF assms(1), of p d os] restarted_saved [of d' path p] assms
    by (auto simp: replaced_def restarted_def loadPrefs_def)
qed

definition sample_prefs :: saved_prefs where
  "sample_prefs = \<lparr>pfContextEnv = [(''eks-b'', ''prod''), (''eks-a'', ''dev'')],
     pfAI = \<lparr>apBackend = ''claude-code'', apModel = Some '''', apThinking = ''''\<rparr>, pfTunnels = [sample_tunnel]\<rparr>"

theorem preferences_survive_witness:
  "let os = all_well\<lparr>osRename := (\<lambda>_ _. Some ''disk full'')\<rparr>; d = [''p'' \<mapsto> None] in
   same_prefs (restarted ''p'' (fst (savePrefsLocked all_well ''p'' sample_prefs d))) sample_prefs \<and>
   snd (savePrefsLocked os ''p'' sample_prefs d) = Some ''disk full'' \<and>
   restarted ''p'' (fst (savePrefsLocked os ''p'' sample_prefs d)) = no_prefs"
proof -
  let ?os = "all_well\<lparr>osRename := (\<lambda>_ _. Some ''disk full'')\<rparr>" and ?d = "[''p'' \<mapsto> None]"
  have h: "distinct (map fst (pfContextEnv sample_prefs))" by code_simp
  have a: "snd (savePrefsLocked all_well ''p'' sample_prefs ?d) = None"
    and b: "snd (savePrefsLocked ?os ''p'' sample_prefs ?d) = Some ''disk full''"
    by (simp_all add: savePrefsLocked_def write_file_def rename_file_def all_well_def)
  have c: "restarted ''p'' ?d = no_prefs" by (simp add: restarted_def loadPrefs_def Let_def)
  show ?thesis
    using preferences_survive [OF _ h, of "''p''" all_well ?d] preferences_survive [OF _ h, of "''p''" ?os ?d] a b c
    by (auto simp: Let_def split_beta)
qed

end
