(* ===== verification/EmbeddedLLM.thy ===== *)
theory EmbeddedLLM
  imports Files Settings GoTime
begin

text \<open>
  The bundled model server of the embedded build (embedded_on.go): unpacking its files, starting it, waiting until it
  answers, restarting it with another context size, stopping it. The settings of the AI calls at the start (ai.go).
\<close>

section \<open>Unpacking\<close>

text \<open>\<open>extractFile\<close>: a file that has the right size already is taken as it is.\<close>

definition extractFile :: "string os_answers \<Rightarrow> string \<Rightarrow> string \<Rightarrow> string disk \<Rightarrow> string disk \<times> string option" where
  "extractFile os content dest d =
     (if (case d dest of Some old \<Rightarrow> length old = length content | None \<Rightarrow> False) then (d, None)
      else (case osMkdir os (dir_of dest) of
              Some e \<Rightarrow> (d, Some e)
            | None \<Rightarrow>
                (case osCreate os (tmp_of dest) of
                   Some e \<Rightarrow> (d, Some e)
                 | None \<Rightarrow>
                     (case write_file os (tmp_of dest) content d of
                        (d1, Some e) \<Rightarrow> (remove_file os (tmp_of dest) d1, Some e)
                      | (d1, None) \<Rightarrow> rename_file os (tmp_of dest) dest d1))))"

text \<open>
  \<open>extractDir\<close>: the entries below the root in the order \<open>fs.WalkDir\<close> visits them, each with its path from the
  root (empty for the root, else starting with a slash); a directory has no content. The first error ends the walk.
\<close>

fun extractDir :: "string os_answers \<Rightarrow> (string \<times> string option) list \<Rightarrow> string \<Rightarrow> string disk \<Rightarrow>
    string disk \<times> string option" where
  "extractDir os [] root d = (d, None)"
| "extractDir os ((rel, content) # entries) root d =
     (case (case content of
              None \<Rightarrow> (d, osMkdir os (root @ rel))
            | Some c \<Rightarrow> extractFile os c (root @ rel) d) of
        (d1, Some e) \<Rightarrow> (d1, Some e)
      | (d1, None) \<Rightarrow> extractDir os entries root d1)"

text \<open>Every path but the temporary ones is what it was or the whole asset.\<close>

lemma extractFile_replaces:
  assumes "\<forall>x. d dest = Some x \<longrightarrow> length x \<noteq> length c"
  shows "replaced dest c d (extractFile os c dest d)"
proof -
  obtain d1 e1 where w: "write_file os (tmp_of dest) c d = (d1, e1)" by fastforce
  obtain d2 e2 where r: "rename_file os (tmp_of dest) dest d1 = (d2, e2)" by fastforce
  have size: "\<not> (case d dest of Some old \<Rightarrow> length old = length c | None \<Rightarrow> False)"
    using assms by (simp split: option.split)
  consider "osMkdir os (dir_of dest) \<noteq> None" | "osMkdir os (dir_of dest) = None" "osCreate os (tmp_of dest) \<noteq> None"
    | "osMkdir os (dir_of dest) = None" "osCreate os (tmp_of dest) = None" "e1 \<noteq> None"
    | "osMkdir os (dir_of dest) = None" "osCreate os (tmp_of dest) = None" "e1 = None" by blast
  then show ?thesis
  proof cases
    case 3
    then show ?thesis
      using write_file_cases [OF w] w size remove_file_other [of _ "tmp_of dest" os d1]
      by (auto simp: extractFile_def replaced_not_written)
  next
    case 4
    then show ?thesis
      using replacedI [of os dest c d d1 os d2 e2] w r size by (simp add: extractFile_def)
  qed (use size in \<open>auto simp: extractFile_def replaced_not_written\<close>)
qed

lemma extractFile_whole:
  assumes "extractFile os c dest d = (d', err)"
  shows "(\<forall>q. q \<noteq> dest \<and> q \<noteq> tmp_of dest \<longrightarrow> d' q = d q) \<and> (d' dest = d dest \<or> d' dest = Some c) \<and>
    (err = None \<longrightarrow> (\<exists>old. d' dest = Some old \<and> length old = length c \<and>
       ((\<forall>x. d dest = Some x \<longrightarrow> length x \<noteq> length c) \<longrightarrow> old = c)))"
proof (cases "\<forall>x. d dest = Some x \<longrightarrow> length x \<noteq> length c")
  case True
  then show ?thesis using extractFile_replaces [of d dest c os] assms by (cases err) (auto simp: replaced_def)
next
  case False
  then obtain x where "d dest = Some x" "length x = length c" by auto
  then show ?thesis using assms by (auto simp: extractFile_def)
qed

definition temporary :: "string \<Rightarrow> bool" where
  "temporary p \<longleftrightarrow> (\<exists>q. p = tmp_of q)"

lemma extractDir_whole:
  assumes "extractDir os entries root d = (d', err)" and "distinct (map fst entries)"
    and "\<forall>e\<in>set entries. \<not> temporary (root @ fst e)" and "\<not> temporary q"
  shows "(q \<notin> (\<lambda>e. root @ fst e) ` set entries \<longrightarrow> d' q = d q) \<and>
    (\<forall>e\<in>set entries. \<forall>c. q = root @ fst e \<and> snd e = Some c \<longrightarrow>
       (d' q = d q \<or> d' q = Some c) \<and>
       (err = None \<longrightarrow> (\<exists>old. d' q = Some old \<and> length old = length c \<and>
          ((\<forall>x. d q = Some x \<longrightarrow> length x \<noteq> length c) \<longrightarrow> old = c))))"
  using assms
proof (induction os entries root d arbitrary: d' rule: extractDir.induct)
  case (2 os rel content entries root d)
  let ?r = "case content of None \<Rightarrow> (d, osMkdir os (root @ rel)) | Some c \<Rightarrow> extractFile os c (root @ rel) d"
  obtain d1 e1 where r: "?r = (d1, e1)" by fastforce
  have tmp: "q \<noteq> tmp_of (root @ rel)" using "2.prems"(4) by (auto simp: temporary_def)
  have one: "q \<noteq> root @ rel \<longrightarrow> d1 q = d q" and
    here: "\<forall>c. content = Some c \<and> q = root @ rel \<longrightarrow> (d1 q = d q \<or> d1 q = Some c) \<and>
      (e1 = None \<longrightarrow> (\<exists>old. d1 q = Some old \<and> length old = length c \<and>
        ((\<forall>x. d q = Some x \<longrightarrow> length x \<noteq> length c) \<longrightarrow> old = c)))"
    using r tmp extractFile_whole [of os _ "root @ rel" d d1 e1] by (auto split: option.splits)
  have new: "q = root @ rel \<longrightarrow> q \<notin> (\<lambda>e. root @ fst e) ` set entries"
    using "2.prems"(2) by auto
  show ?case
  proof (cases e1)
    case None
    have rest: "extractDir os entries root d1 = (d', err)" using "2.prems"(1) r None by (simp split: prod.splits)
    note IH = "2.IH" [OF r [symmetric] None rest]
    show ?thesis
    proof (cases "q = root @ rel")
      case True
      then have "d' q = d1 q" using IH "2.prems" new by auto
      then show ?thesis using True here None new by auto
    next
      case False
      then show ?thesis using IH "2.prems" one by auto
    qed
  next
    case (Some e)
    then have "d' = d1" "err = Some e" using "2.prems"(1) r by (auto split: prod.splits)
    then show ?thesis using here one new by (cases "q = root @ rel") auto
  qed
qed simp

section \<open>Waiting for the server\<close>

text \<open>The answer to a request: its status, or the error; and how long it took.\<close>

datatype poll = Answered nat | Unanswered string

definition poll_error :: "poll \<Rightarrow> string option" where
  "poll_error p = (case p of Answered st \<Rightarrow> if st < 500 then None else Some (''status '' @ nat_str st) | Unanswered e \<Rightarrow> Some e)"

text \<open>
  The loop of \<open>waitForReady\<close> from request \<open>i\<close> on: the number of requests made, the time it ends, and the
  error. Time does not run backwards, so a request takes at least nothing.
\<close>

function wait_loop :: "(nat \<Rightarrow> poll \<times> nat) \<Rightarrow> time \<Rightarrow> string \<Rightarrow> nat \<Rightarrow> time \<Rightarrow> string option \<Rightarrow> nat \<times> time \<times> string option" where
  "wait_loop polls deadline shown i now lastErr =
     (if now < deadline then
        (case poll_error (fst (polls i)) of
           None \<Rightarrow> (Suc i, now + int (snd (polls i)), None)
         | Some e \<Rightarrow> wait_loop polls deadline shown (Suc i) (now + int (snd (polls i)) + 250000000) (Some e))
      else (i, now, Some (''not ready within '' @ shown @ (case lastErr of Some e \<Rightarrow> '': '' @ e | None \<Rightarrow> ''''))))"
  by auto
termination
  by (relation "measure (\<lambda>(polls, deadline, shown, i, now, lastErr). nat (deadline - now))") auto

declare wait_loop.simps [simp del]

definition waitForReady :: "(nat \<Rightarrow> poll \<times> nat) \<Rightarrow> time \<Rightarrow> duration \<Rightarrow> string \<Rightarrow> nat \<times> time \<times> string option" where
  "waitForReady polls now timeout shown = wait_loop polls (now + timeout) shown 0 now None"

lemma wait_loop_bounds:
  assumes "\<And>j. int (snd (polls j)) \<le> second" and "now \<le> deadline + 250000000 + second"
    and "wait_loop polls deadline shown i now lastErr = (n, t, err)"
  shows "i \<le> n \<and> t \<le> deadline + 250000000 + second \<and>
    (n = i \<or> (int n - int i - 1) * 250000000 < deadline - now) \<and>
    (err = None \<longrightarrow> (\<exists>j. n = Suc j \<and> poll_error (fst (polls j)) = None))"
  using assms
proof (induction polls deadline shown i now lastErr rule: wait_loop.induct)
  case (1 polls deadline shown i now lastErr)
  have q: "int (snd (polls i)) \<le> second" using "1.prems"(1) .
  show ?case
  proof (cases "now < deadline")
    case False
    then show ?thesis using "1.prems" by (subst (asm) wait_loop.simps) auto
  next
    case True
    show ?thesis
    proof (cases "poll_error (fst (polls i))")
      case None
      then have e: "n = Suc i" "t = now + int (snd (polls i))" "err = None"
        using "1.prems"(3) True by (subst (asm) wait_loop.simps, simp)+
      then show ?thesis using None True q by (auto simp: second_def)
    next
      case (Some e)
      have rest: "wait_loop polls deadline shown (Suc i) (now + int (snd (polls i)) + 250000000) (Some e) = (n, t, err)"
        using "1.prems"(3) True Some by (subst (asm) wait_loop.simps) simp
      have "now + int (snd (polls i)) + 250000000 \<le> deadline + 250000000 + second" using True q by simp
      note ih0 = "1.IH" [OF True Some "1.prems"(1) this rest]
      have ih: "Suc i \<le> n" "t \<le> deadline + 250000000 + second"
        "n = Suc i \<or> (int n - int (Suc i) - 1) * 250000000 < deadline - (now + int (snd (polls i)) + 250000000)"
        "err = None \<longrightarrow> (\<exists>j. n = Suc j \<and> poll_error (fst (polls j)) = None)"
        using ih0 by blast+
      have "(int n - int i - 1) * 250000000 < deadline - now" using ih(3) True by (auto simp: algebra_simps)
      then show ?thesis using ih by simp
    qed
  qed
qed

section \<open>The server\<close>

definition embeddedModelName :: string where "embeddedModelName = ''magos-k8s-0.6b''"

text \<open>\<open>embServer\<close>: the process by its number, kept together with the function that cancels it.\<close>

record embServer =
  esCmd :: "nat option"
  esPort :: nat
  esServerBin :: string
  esModelPath :: string
  esCtxSize :: int
  esRunning :: bool

definition no_server :: embServer where
  "no_server = \<lparr>esCmd = None, esPort = 0, esServerBin = '''', esModelPath = '''', esCtxSize = 0, esRunning = False\<rparr>"

definition embeddedRuntime :: "embServer \<Rightarrow> int \<times> bool" where
  "embeddedRuntime s = (esCtxSize s, esRunning s)"

text \<open>The server, the settings, and the servers that are alive in the system.\<close>

record emb_sys =
  eyServer :: embServer
  eySettings :: settings
  eyAlive :: "nat list"

text \<open>
  What a start meets: the error of starting the command or the number of the new process, the answers while
  it gets ready, and the time.
\<close>

record launch =
  lwStart :: "string + nat"
  lwPolls :: "nat \<Rightarrow> poll \<times> nat"
  lwNow :: time

text \<open>The part of \<open>stopLlamaServer\<close> under the lock: the process to stop, and the server without it.\<close>

definition take_server :: "embServer \<Rightarrow> nat option \<times> embServer" where
  "take_server s = (esCmd s, s\<lparr>esCmd := None, esRunning := False\<rparr>)"

text \<open>The part of \<open>spawnLlamaServer\<close> under the lock, once the process answers.\<close>

definition record_server :: "nat \<Rightarrow> int \<Rightarrow> embServer \<Rightarrow> embServer" where
  "record_server pid ctx s = s\<lparr>esCmd := Some pid, esCtxSize := ctx, esRunning := True\<rparr>"

definition spawnLlamaServer :: "launch \<Rightarrow> int \<Rightarrow> emb_sys \<Rightarrow> emb_sys \<times> string option" where
  "spawnLlamaServer w ctx y =
     (if esServerBin (eyServer y) = '''' \<or> esModelPath (eyServer y) = '''' \<or> esPort (eyServer y) = 0 then
        (y, Some ''embedded server not initialised'')
      else (case lwStart w of
              Inl e \<Rightarrow> (y, Some (''start llama-server: '' @ e))
            | Inr pid \<Rightarrow>
                (case waitForReady (lwPolls w) (lwNow w) (60 * second) ''1m0s'' of
                   (_, _, Some e) \<Rightarrow> (y, Some (''llama-server did not become ready: '' @ e))
                 | (_, _, None) \<Rightarrow>
                     (y\<lparr>eyServer := record_server pid ctx (eyServer y), eyAlive := pid # eyAlive y\<rparr>, None))))"

definition stopLlamaServer :: "emb_sys \<Rightarrow> emb_sys" where
  "stopLlamaServer y =
     (case take_server (eyServer y) of
        (None, s) \<Rightarrow> y\<lparr>eyServer := s\<rparr>
      | (Some pid, s) \<Rightarrow> y\<lparr>eyServer := s, eyAlive := filter (\<lambda>p. p \<noteq> pid) (eyAlive y)\<rparr>)"

definition restartEmbedded :: "launch \<Rightarrow> int \<Rightarrow> emb_sys \<Rightarrow> emb_sys \<times> string option" where
  "restartEmbedded w ctx y =
     (let y1 = stopLlamaServer (y\<lparr>eySettings := setEmbeddedCtxSize ctx (eySettings y)\<rparr>)
      in spawnLlamaServer w (stEmbeddedCtxSize (eySettings y1)) y1)"

section \<open>Starting\<close>

text \<open>
  What the start meets: the two variables of the environment, the cache directory, the assets (the files of the
  runtime as \<open>extractDir\<close> reads them, and the model), whether this is Windows, the errors of making the server
  executable and of finding a port.
\<close>

record emb_env =
  evURL :: string
  evModel :: string
  evCache :: "string + string"
  evAssets :: "(string \<times> string option) list"
  evModelFile :: string
  evWindows :: bool
  evChmod :: "string option"
  evPort :: "string + nat"
  evLaunch :: launch

definition bundleDir :: "string os_answers \<Rightarrow> emb_env \<Rightarrow> string + string" where
  "bundleDir os v =
     (case evCache v of
        Inl e \<Rightarrow> Inl (''locate user cache dir: '' @ e)
      | Inr cacheDir \<Rightarrow>
          (let dir = cacheDir @ ''/kubehealth/embedded'' in
           case osMkdir os dir of Some e \<Rightarrow> Inl (''create cache dir: '' @ e) | None \<Rightarrow> Inr dir))"

text \<open>Unpacking: the server's path, or the error.\<close>

definition unpack :: "string os_answers \<Rightarrow> emb_env \<Rightarrow> string \<Rightarrow> string disk \<Rightarrow> string disk \<times> (string + string)" where
  "unpack os v base d =
     (case extractDir os (evAssets v) (base @ ''/runtime'') d of
        (d1, Some e) \<Rightarrow> (d1, Inl (''extract runtime: '' @ e))
      | (d1, None) \<Rightarrow>
          (case extractFile os (evModelFile v) (base @ ''/model.gguf'') d1 of
             (d2, Some e) \<Rightarrow> (d2, Inl (''extract model: '' @ e))
           | (d2, None) \<Rightarrow>
               (let serverBin = base @ ''/runtime/llama-server'' @ (if evWindows v then ''.exe'' else '''') in
                if d2 serverBin = None then (d2, Inl (''llama-server missing at '' @ serverBin))
                else (case evChmod v of
                        Some e \<Rightarrow> (d2, Inl (''chmod llama-server: '' @ e))
                      | None \<Rightarrow> (d2, Inr serverBin)))))"

text \<open>
  \<open>startEmbeddedLLM\<close>: the system, the disk, the environment's URL and model for the AI calls, and whether the function
  that stops the server at exit was registered; or the error.
\<close>

definition startEmbeddedLLM :: "string os_answers \<Rightarrow> emb_env \<Rightarrow> emb_sys \<Rightarrow> string disk \<Rightarrow>
    emb_sys \<times> string disk \<times> (string + (string \<times> string \<times> bool))" where
  "startEmbeddedLLM os v y d =
     (if evURL v \<noteq> '''' then (y, d, Inr (evURL v, evModel v, False))
      else (case bundleDir os v of
              Inl e \<Rightarrow> (y, d, Inl e)
            | Inr base \<Rightarrow>
                (case unpack os v base d of
                   (d1, Inl e) \<Rightarrow> (y, d1, Inl e)
                 | (d1, Inr serverBin) \<Rightarrow>
                     (case evPort v of
                        Inl e \<Rightarrow> (y, d1, Inl (''pick free port: '' @ e))
                      | Inr port \<Rightarrow>
                          (let y1 = y\<lparr>eyServer := (eyServer y)\<lparr>esServerBin := serverBin,
                                        esModelPath := base @ ''/model.gguf'', esPort := port\<rparr>\<rparr> in
                           case spawnLlamaServer (evLaunch v) (stEmbeddedCtxSize (eySettings y1)) y1 of
                             (y2, Some e) \<Rightarrow> (y2, d1, Inl e)
                           | (y2, None) \<Rightarrow>
                               (y2, d1, Inr (''http://127.0.0.1:'' @ nat_str port @ ''/v1'',
                                  (if evModel v = '''' then embeddedModelName else evModel v), True)))))))"

text \<open>The settings of the AI calls, from the environment.\<close>

record aiCfgT =
  acBaseURL :: string
  acModel :: string
  acEnabled :: bool

definition initAI :: "string \<Rightarrow> string \<Rightarrow> string \<Rightarrow> aiCfgT" where
  "initAI url model ai_enabled =
     \<lparr>acBaseURL = (if url = '''' then ''http://localhost:1234/v1'' else url),
      acModel = (if model = '''' then ''qwen/qwen3-4b-2507'' else model),
      acEnabled = (ai_enabled \<noteq> ''false'' \<and> ai_enabled \<noteq> ''0'')\<rparr>"

section \<open>One server at a time\<close>

text \<open>Every live server is the one the program knows, and a size is shown within its bounds.\<close>

definition emb_ok :: "emb_sys \<Rightarrow> bool" where
  "emb_ok y \<longleftrightarrow> set (eyAlive y) \<subseteq> set_option (esCmd (eyServer y)) \<and> length (eyAlive y) \<le> 1 \<and>
     (esRunning (eyServer y) \<longleftrightarrow> esCmd (eyServer y) \<noteq> None) \<and>
     (esRunning (eyServer y) \<longrightarrow> 512 \<le> esCtxSize (eyServer y) \<and> esCtxSize (eyServer y) \<le> 131072) \<and>
     512 \<le> stEmbeddedCtxSize (eySettings y) \<and> stEmbeddedCtxSize (eySettings y) \<le> 131072"

lemma stop_sel [simp]:
  "eySettings (stopLlamaServer y) = eySettings y" "esCmd (eyServer (stopLlamaServer y)) = None"
  "esRunning (eyServer (stopLlamaServer y)) = False"
  by (simp_all add: stopLlamaServer_def take_server_def split: option.split)

lemma stop_nothing_left: "emb_ok y \<Longrightarrow> eyAlive (stopLlamaServer y) = []"
  by (cases "esCmd (eyServer y)") (auto simp: emb_ok_def stopLlamaServer_def take_server_def filter_empty_conv)

lemma stop_ok: "emb_ok y \<Longrightarrow> emb_ok (stopLlamaServer y)"
  using stop_nothing_left [of y] by (simp add: emb_ok_def)

lemma spawn_result:
  assumes "spawnLlamaServer w ctx y = (y', err)" and "eyAlive y = []" and "esCmd (eyServer y) = None"
  shows "(err \<noteq> None \<longrightarrow> y' = y) \<and> eySettings y' = eySettings y \<and>
    (err = None \<longrightarrow> (\<exists>pid. lwStart w = Inr pid \<and> eyAlive y' = [pid] \<and> eyServer y' = record_server pid ctx (eyServer y)))"
  using assms by (auto simp: spawnLlamaServer_def split: if_splits sum.splits prod.splits option.splits)

lemma spawn_ok:
  assumes "emb_ok y" and "eyAlive y = []" and "esCmd (eyServer y) = None" and "512 \<le> ctx" and "ctx \<le> 131072"
  shows "emb_ok (fst (spawnLlamaServer w ctx y))"
proof -
  obtain y' err where s: "spawnLlamaServer w ctx y = (y', err)" by fastforce
  show ?thesis
    using spawn_result [OF s assms(2,3)] s assms(1,4,5) by (cases err) (auto simp: emb_ok_def record_server_def)
qed

lemma setEmbeddedCtxSize_range:
  "512 \<le> stEmbeddedCtxSize (setEmbeddedCtxSize n s)" "stEmbeddedCtxSize (setEmbeddedCtxSize n s) \<le> 131072"
  by (simp_all add: setEmbeddedCtxSize_def Let_def)

lemma restart_stopped:
  assumes "emb_ok y"
  shows "emb_ok (stopLlamaServer (y\<lparr>eySettings := setEmbeddedCtxSize n (eySettings y)\<rparr>))"
    and "eyAlive (stopLlamaServer (y\<lparr>eySettings := setEmbeddedCtxSize n (eySettings y)\<rparr>)) = []"
proof -
  have "emb_ok (y\<lparr>eySettings := setEmbeddedCtxSize n (eySettings y)\<rparr>)"
    using assms setEmbeddedCtxSize_range [of n "eySettings y"] by (simp add: emb_ok_def)
  then show "emb_ok (stopLlamaServer (y\<lparr>eySettings := setEmbeddedCtxSize n (eySettings y)\<rparr>))"
    and "eyAlive (stopLlamaServer (y\<lparr>eySettings := setEmbeddedCtxSize n (eySettings y)\<rparr>)) = []"
    by (rule stop_ok, rule stop_nothing_left)
qed

lemma restart_ok: "emb_ok y \<Longrightarrow> emb_ok (fst (restartEmbedded w n y))"
  using restart_stopped [of y n] setEmbeddedCtxSize_range [of n "eySettings y"]
  by (simp add: restartEmbedded_def Let_def spawn_ok)

lemma restart_result:
  assumes "emb_ok y" and "restartEmbedded w n y = (y', err)"
  shows "case err of
      None \<Rightarrow> (\<exists>pid. lwStart w = Inr pid \<and> eyAlive y' = [pid]) \<and>
        embeddedRuntime (eyServer y') = (stEmbeddedCtxSize (setEmbeddedCtxSize n (eySettings y)), True)
    | Some _ \<Rightarrow> eyAlive y' = [] \<and> \<not> snd (embeddedRuntime (eyServer y'))"
proof -
  let ?y1 = "stopLlamaServer (y\<lparr>eySettings := setEmbeddedCtxSize n (eySettings y)\<rparr>)"
  have "spawnLlamaServer w (stEmbeddedCtxSize (setEmbeddedCtxSize n (eySettings y))) ?y1 = (y', err)"
    using assms(2) by (simp add: restartEmbedded_def Let_def)
  from spawn_result [OF this] restart_stopped(2) [OF assms(1), of n] show ?thesis
    by (cases err) (auto simp: embeddedRuntime_def record_server_def)
qed

text \<open>What happens to the server, one operation after another; \<open>die\<close> is a server that ends by itself.\<close>

inductive emb_step :: "emb_sys \<Rightarrow> emb_sys \<Rightarrow> bool" where
  restart: "emb_step y (fst (restartEmbedded w n y))"
| stop: "emb_step y (stopLlamaServer y)"
| die: "emb_step y (y\<lparr>eyAlive := filter (\<lambda>p. p \<noteq> pid) (eyAlive y)\<rparr>)"

definition emb_start :: "bool \<Rightarrow> emb_sys" where
  "emb_start follow = \<lparr>eyServer = no_server, eySettings = default_settings follow, eyAlive = []\<rparr>"

lemma emb_start_ok: "emb_ok (emb_start follow)"
  by (simp add: emb_ok_def emb_start_def no_server_def default_settings_def)

lemma startEmbeddedLLM_ok:
  assumes "emb_ok y" and "eyAlive y = []" and "esCmd (eyServer y) = None"
  shows "emb_ok (fst (startEmbeddedLLM os v y d))"
proof -
  have s: "emb_ok (fst (spawnLlamaServer (evLaunch v) (stEmbeddedCtxSize (eySettings y))
      (y\<lparr>eyServer := (eyServer y)\<lparr>esServerBin := b, esModelPath := m, esPort := p\<rparr>\<rparr>)))" for b m p
    by (rule spawn_ok) (use assms in \<open>auto simp: emb_ok_def\<close>)
  then have s': "emb_ok y2" if "spawnLlamaServer (evLaunch v) (stEmbeddedCtxSize (eySettings y))
      (y\<lparr>eyServer := (eyServer y)\<lparr>esServerBin := b, esModelPath := m, esPort := p\<rparr>\<rparr>) = (y2, e)" for b m p y2 e
    using that by (metis fst_conv)
  show ?thesis
    using assms(1) by (auto simp: startEmbeddedLLM_def Let_def split: sum.split prod.split option.split dest: s')
qed

lemma emb_step_ok: "emb_step y y' \<Longrightarrow> emb_ok y \<Longrightarrow> emb_ok y'"
proof (induction rule: emb_step.induct)
  case (die y pid)
  then show ?case by (auto simp: emb_ok_def intro: order_trans [OF length_filter_le])
qed (auto intro: restart_ok stop_ok)

lemma emb_steps_ok: "emb_step\<^sup>*\<^sup>* y y' \<Longrightarrow> emb_ok y \<Longrightarrow> emb_ok y'"
  by (induction rule: rtranclp_induct) (auto intro: emb_step_ok)

section \<open>Requests that overlap\<close>

text \<open>
  Nothing but the lock of the variables keeps two requests that restart the server apart. Here a stop is the part
  under the lock and then the end of the process, and a start is the new process and then, once it answers, the part
  under the lock: \<open>omStopping\<close> are the servers taken, \<open>omStarting\<close> those that are not recorded yet.
\<close>

record emb_overlap =
  omServer :: embServer
  omAlive :: "nat set"
  omStarting :: "(nat \<times> int) set"
  omStopping :: "nat set"

inductive overlap_step :: "emb_overlap \<Rightarrow> emb_overlap \<Rightarrow> bool" where
  take: "take_server (omServer z) = (taken, s) \<Longrightarrow>
     overlap_step z (z\<lparr>omServer := s, omStopping := set_option taken \<union> omStopping z\<rparr>)"
| finish: "pid \<in> omStopping z \<Longrightarrow>
     overlap_step z (z\<lparr>omAlive := omAlive z - {pid}, omStopping := omStopping z - {pid}\<rparr>)"
| launch: "pid \<notin> omAlive z \<Longrightarrow>
     overlap_step z (z\<lparr>omAlive := insert pid (omAlive z), omStarting := insert (pid, ctx) (omStarting z)\<rparr>)"
| ready: "(pid, ctx) \<in> omStarting z \<Longrightarrow>
     overlap_step z (z\<lparr>omServer := record_server pid ctx (omServer z), omStarting := omStarting z - {(pid, ctx)}\<rparr>)"
| unready: "(pid, ctx) \<in> omStarting z \<Longrightarrow>
     overlap_step z (z\<lparr>omAlive := omAlive z - {pid}, omStarting := omStarting z - {(pid, ctx)}\<rparr>)"
| die: "overlap_step z (z\<lparr>omAlive := omAlive z - {pid}\<rparr>)"

text \<open>
  Two restarts that overlap lose a server: the second one to be recorded replaces the first, which no stop reaches
  any more, not even the one at exit.
\<close>

lemma overlapping_restarts_lose_a_server:
  "\<exists>z. overlap_step\<^sup>*\<^sup>* \<lparr>omServer = record_server 1 8192 no_server, omAlive = {1}, omStarting = {}, omStopping = {}\<rparr> z \<and>
     omAlive z = {2} \<and> omStarting z = {} \<and> omStopping z = {} \<and> esCmd (omServer z) = None"
proof -
  let ?s1 = "record_server 1 8192 no_server"
  let ?s0 = "snd (take_server ?s1)"
  let ?s2 = "record_server 2 4096 ?s0" and ?s3 = "record_server 3 1024 (record_server 2 4096 ?s0)"
  let ?z = "\<lambda>s al st sp. \<lparr>omServer = s, omAlive = al, omStarting = st, omStopping = sp\<rparr>"
  have "overlap_step (?z ?s1 {1} {} {}) (?z ?s0 {1} {} {1})"
    using overlap_step.take [of "?z ?s1 {1} {} {}" "Some 1" ?s0] by (simp add: take_server_def record_server_def)
  moreover have "overlap_step (?z ?s0 {1} {} {1}) (?z ?s0 {} {} {})"
    using overlap_step.finish [of 1 "?z ?s0 {1} {} {1}"] by simp
  moreover have "overlap_step (?z ?s0 {} {} {}) (?z ?s0 {2} {(2, 4096)} {})"
    using overlap_step.launch [of 2 "?z ?s0 {} {} {}" 4096] by simp
  moreover have "overlap_step (?z ?s0 {2} {(2, 4096)} {}) (?z ?s0 {2, 3} {(2, 4096), (3, 1024)} {})"
    using overlap_step.launch [of 3 "?z ?s0 {2} {(2, 4096)} {}" 1024] by (simp add: insert_commute)
  moreover have "overlap_step (?z ?s0 {2, 3} {(2, 4096), (3, 1024)} {}) (?z ?s2 {2, 3} {(3, 1024)} {})"
    using overlap_step.ready [of 2 4096 "?z ?s0 {2, 3} {(2, 4096), (3, 1024)} {}"] by simp
  moreover have "overlap_step (?z ?s2 {2, 3} {(3, 1024)} {}) (?z ?s3 {2, 3} {} {})"
    using overlap_step.ready [of 3 1024 "?z ?s2 {2, 3} {(3, 1024)} {}"] by simp
  moreover have "overlap_step (?z ?s3 {2, 3} {} {}) (?z (snd (take_server ?s3)) {2, 3} {} {3})"
    using overlap_step.take [of "?z ?s3 {2, 3} {} {}" "Some 3" "snd (take_server ?s3)"]
    by (simp add: take_server_def record_server_def)
  moreover have "overlap_step (?z (snd (take_server ?s3)) {2, 3} {} {3}) (?z (snd (take_server ?s3)) {2} {} {})"
    using overlap_step.finish [of 3 "?z (snd (take_server ?s3)) {2, 3} {} {3}"] by (simp add: insert_Diff_if)
  ultimately have "overlap_step\<^sup>*\<^sup>* (?z ?s1 {1} {} {}) (?z (snd (take_server ?s3)) {2} {} {})"
    by (meson converse_rtranclp_into_rtranclp rtranclp.rtrancl_refl)
  then show ?thesis by (intro exI conjI) (assumption | simp add: take_server_def)+
qed

section \<open>Properties\<close>

text \<open>
  C36: while operations do not overlap, every bundled server that is alive is the one the program knows, so a stop
  leaves none; a restart that succeeds leaves exactly one, shown with the size that was asked for within its bounds, and one
  that fails leaves none and says that none runs.
\<close>

theorem one_llama_server:
  assumes "emb_step\<^sup>*\<^sup>* (fst (startEmbeddedLLM os v (emb_start follow) d)) y"
  shows "set (eyAlive y) \<subseteq> set_option (esCmd (eyServer y)) \<and> eyAlive (stopLlamaServer y) = [] \<and>
    (case restartEmbedded w n y of
       (y', None) \<Rightarrow> (\<exists>pid. lwStart w = Inr pid \<and> eyAlive y' = [pid]) \<and>
         embeddedRuntime (eyServer y') = (max 512 (min n 131072), True)
     | (y', Some _) \<Rightarrow> eyAlive y' = [] \<and> \<not> snd (embeddedRuntime (eyServer y')))"
proof -
  have "emb_ok (fst (startEmbeddedLLM os v (emb_start follow) d))"
    by (rule startEmbeddedLLM_ok [OF emb_start_ok]) (simp_all add: emb_start_def no_server_def)
  then have ok: "emb_ok y" by (rule emb_steps_ok [OF assms])
  obtain y' err where r: "restartEmbedded w n y = (y', err)" by fastforce
  have "stEmbeddedCtxSize (setEmbeddedCtxSize n (eySettings y)) = max 512 (min n 131072)"
    by (simp add: setEmbeddedCtxSize_def Let_def)
  then show ?thesis
    using restart_result [OF ok r] stop_nothing_left [OF ok] ok by (cases err) (auto simp: emb_ok_def r)
qed

definition sample_launch :: "nat \<Rightarrow> launch" where
  "sample_launch pid = \<lparr>lwStart = Inr pid, lwPolls = (\<lambda>i. (if i < 2 then Unanswered ''refused'' else Answered 200, 0)), lwNow = 0\<rparr>"

definition sample_emb_env :: emb_env where
  "sample_emb_env = \<lparr>evURL = '''', evModel = '''', evCache = Inr ''c'',
     evAssets = [('''', None), (''/llama-server'', Some ''elf'')], evModelFile = ''gguf'', evWindows = False,
     evChmod = None, evPort = Inr 4242, evLaunch = sample_launch 7\<rparr>"

lemma sample_wait: "waitForReady (lwPolls (sample_launch pid)) (lwNow (sample_launch pid)) (60 * second) ''1m0s'' = (3, 500000000, None)"
  by (simp add: waitForReady_def sample_launch_def second_def wait_loop.simps poll_error_def numeral_3_eq_3)

lemma sample_start:
  "fst (startEmbeddedLLM all_well sample_emb_env (emb_start True) Map.empty) =
     \<lparr>eyServer = \<lparr>esCmd = Some 7, esPort = 4242, esServerBin = ''c/kubehealth/embedded/runtime/llama-server'',
         esModelPath = ''c/kubehealth/embedded/model.gguf'', esCtxSize = 8192, esRunning = True\<rparr>,
       eySettings = default_settings True, eyAlive = [7]\<rparr>"
proof -
  have "lwStart (sample_launch 7) = Inr 7" by (simp add: sample_launch_def)
  then show ?thesis
    using sample_wait [of 7]
    by (simp add: startEmbeddedLLM_def sample_emb_env_def bundleDir_def unpack_def extractFile_def write_file_def rename_file_def
        all_well_def spawnLlamaServer_def emb_start_def no_server_def record_server_def default_settings_def tmp_of_def Let_def)
qed

theorem one_llama_server_witness:
  "let y = fst (startEmbeddedLLM all_well sample_emb_env (emb_start True) Map.empty);
       (y', err) = restartEmbedded (sample_launch 8) 99 y
   in eyAlive y = [7] \<and> err = None \<and> eyAlive y' = [8] \<and> embeddedRuntime (eyServer y') = (512, True)"
proof -
  let ?y = "fst (startEmbeddedLLM all_well sample_emb_env (emb_start True) Map.empty)"
  have "lwStart (sample_launch 8) = Inr 8" by (simp add: sample_launch_def)
  then have e: "eyAlive ?y = [7] \<and> snd (restartEmbedded (sample_launch 8) 99 ?y) = None"
    using sample_wait [of 8]
    by (simp add: sample_start restartEmbedded_def spawnLlamaServer_def stopLlamaServer_def take_server_def Let_def)
  obtain y' where r: "restartEmbedded (sample_launch 8) 99 ?y = (y', None)"
    using e by (metis prod.collapse)
  have "lwStart (sample_launch 8) = Inr 8" by (simp add: sample_launch_def)
  then show ?thesis
    using one_llama_server [OF rtranclp.rtrancl_refl, of all_well sample_emb_env True Map.empty "sample_launch 8" 99] e
    by (simp add: r Let_def)
qed

text \<open>
  C37: unpacking never leaves half a file: whatever the system answers, each file of the bundle is afterwards what it was
  or the whole asset, and no other file changes but temporary ones. When it succeeds every file is there with the
  asset's size, and is the asset unless a file of that size was there before.
\<close>

theorem unpacked_files_whole:
  assumes "extractDir os entries root d = (d', err)" and "distinct (map fst entries)"
    and "\<forall>e\<in>set entries. \<not> temporary (root @ fst e)"
  shows "(\<forall>q. q \<notin> (\<lambda>e. root @ fst e) ` set entries \<and> \<not> temporary q \<longrightarrow> d' q = d q) \<and>
    (\<forall>(rel, content)\<in>set entries. \<forall>c. content = Some c \<longrightarrow>
       d' (root @ rel) \<in> {d (root @ rel), Some c} \<and>
       (err = None \<longrightarrow> map_option length (d' (root @ rel)) = Some (length c) \<and>
          (map_option length (d (root @ rel)) \<noteq> Some (length c) \<longrightarrow> d' (root @ rel) = Some c)))"
proof (intro conjI allI impI ballI)
  fix q assume "q \<notin> (\<lambda>e. root @ fst e) ` set entries \<and> \<not> temporary q"
  then show "d' q = d q" using extractDir_whole [OF assms, of q] by blast
next
  fix e assume e: "e \<in> set entries"
  obtain rel content where [simp]: "e = (rel, content)" by fastforce
  have "\<not> temporary (root @ rel)" using assms(3) e by auto
  from extractDir_whole [OF assms this] e
  have w: "\<forall>c. content = Some c \<longrightarrow> (d' (root @ rel) = d (root @ rel) \<or> d' (root @ rel) = Some c) \<and>
    (err = None \<longrightarrow> (\<exists>old. d' (root @ rel) = Some old \<and> length old = length c \<and>
       ((\<forall>x. d (root @ rel) = Some x \<longrightarrow> length x \<noteq> length c) \<longrightarrow> old = c)))" by fastforce
  show "case e of (rel, content) \<Rightarrow> \<forall>c. content = Some c \<longrightarrow>
       d' (root @ rel) \<in> {d (root @ rel), Some c} \<and>
       (err = None \<longrightarrow> map_option length (d' (root @ rel)) = Some (length c) \<and>
          (map_option length (d (root @ rel)) \<noteq> Some (length c) \<longrightarrow> d' (root @ rel) = Some c))"
    using w by (cases "d (root @ rel)") auto
qed

theorem unpacked_files_whole_witness:
  "let entries = [('''', None), (''/a'', Some ''new''), (''/b'', Some ''xy'')];
       os = all_well\<lparr>osWrite := (\<lambda>p. if p = ''r/b.tmp'' then Some (''x'', ''disk full'') else None)\<rparr>;
       (d', err) = extractDir os entries ''r'' [''r/a'' \<mapsto> ''v1''];
       (d2, err2) = extractDir all_well entries ''r'' [''r/a'' \<mapsto> ''v1'']
   in err = Some ''disk full'' \<and> d' ''r/b'' = None \<and> err2 = None \<and> d2 ''r/a'' = Some ''new'' \<and> d2 ''r/b'' = Some ''xy''"
proof -
  let ?es = "[('''', None), (''/a'', Some ''new''), (''/b'', Some ''xy'')]" and ?d = "[''r/a'' \<mapsto> ''v1'']"
  let ?os = "all_well\<lparr>osWrite := (\<lambda>p. if p = ''r/b.tmp'' then Some (''x'', ''disk full'') else None)\<rparr>"
  have tmp: "\<not> temporary p" if "last p \<noteq> CHR ''p''" for p
    using that by (auto simp: temporary_def tmp_of_def)
  have h: "distinct (map fst ?es)" "\<forall>e\<in>set ?es. \<not> temporary (''r'' @ fst e)" by (auto intro!: tmp)
  have e: "snd (extractDir ?os ?es ''r'' ?d) = Some ''disk full''" "snd (extractDir all_well ?es ''r'' ?d) = None"
    "fst (extractDir ?os ?es ''r'' ?d) ''r/b'' = None" by code_simp+
  obtain d1 d2 where r: "extractDir ?os ?es ''r'' ?d = (d1, Some ''disk full'')" "extractDir all_well ?es ''r'' ?d = (d2, None)"
    using e by (metis prod.collapse)
  have half: "d1 ''r/b'' = None" using e(3) r(1) by (simp del: extractDir.simps)
  show ?thesis
    using unpacked_files_whole [OF r(1) h] unpacked_files_whole [OF r(2) h] half by (simp add: r Let_def del: extractDir.simps)
qed

text \<open>A file of the same size is not replaced: a new model of the same size as the old one is never unpacked.\<close>

lemma same_size_not_unpacked:
  "extractFile all_well ''model2'' ''c/model.gguf'' [''c/model.gguf'' \<mapsto> ''model1''] = ([''c/model.gguf'' \<mapsto> ''model1''], None)"
  by (simp add: extractFile_def)

text \<open>A server that has ended by itself is still shown as running.\<close>

lemma dead_server_shown_running:
  "\<exists>y. emb_step\<^sup>*\<^sup>* (fst (startEmbeddedLLM all_well sample_emb_env (emb_start True) Map.empty)) y \<and>
     eyAlive y = [] \<and> embeddedRuntime (eyServer y) = (8192, True)"
proof -
  let ?y = "fst (startEmbeddedLLM all_well sample_emb_env (emb_start True) Map.empty)"
  have e: "eyAlive ?y = [7] \<and> embeddedRuntime (eyServer ?y) = (8192, True)"
    by (simp add: sample_start embeddedRuntime_def)
  have "emb_step\<^sup>*\<^sup>* ?y (?y\<lparr>eyAlive := filter (\<lambda>p. p \<noteq> 7) (eyAlive ?y)\<rparr>)"
    by (rule r_into_rtranclp, rule emb_step.die)
  then show ?thesis using e by (intro exI conjI) (assumption | simp)+
qed

text \<open>
  waiting for the server ends: with a client that gives up on a request after a second, at most two hundred and
  forty requests are made and the wait is over within its time and one and a quarter seconds; it succeeds only when a
  request was answered with a status below 500.
\<close>

lemma wait_for_server_ends:
  assumes "\<forall>j. int (snd (polls j)) \<le> second"
  shows "case waitForReady polls now (60 * second) ''1m0s'' of
    (n, t, err) \<Rightarrow> n \<le> 240 \<and> t \<le> now + 60 * second + 1250000000 \<and>
      (err = None \<longrightarrow> (\<exists>j st. n = Suc j \<and> fst (polls j) = Answered st \<and> st < 500))"
proof -
  obtain n t err where r: "waitForReady polls now (60 * second) ''1m0s'' = (n, t, err)" by (metis prod_cases3)
  have b: "t \<le> now + 60 * second + 250000000 + second" "n = 0 \<or> (int n - 1) * 250000000 < 60 * second"
    "err = None \<longrightarrow> (\<exists>j. n = Suc j \<and> poll_error (fst (polls j)) = None)"
    using wait_loop_bounds [of polls now "now + 60 * second" "''1m0s''" 0 None n t err] assms r
    by (auto simp: waitForReady_def second_def)
  have "poll_error p = None \<Longrightarrow> \<exists>st. p = Answered st \<and> st < 500" for p
    by (simp add: poll_error_def split: poll.splits if_splits)
  with b have "n \<le> 240 \<and> t \<le> now + 60 * second + 1250000000 \<and>
      (err = None \<longrightarrow> (\<exists>j st. n = Suc j \<and> fst (polls j) = Answered st \<and> st < 500))"
    by (auto simp: second_def)
  then show ?thesis unfolding r by simp
qed

lemma wait_for_server_ends_witness:
  "case waitForReady (\<lambda>_. (Unanswered ''refused'', 1000000000)) 5 (60 * second) ''1m0s'' of (n, t, err) \<Rightarrow>
     n \<le> 240 \<and> t \<le> 5 + 60 * second + 1250000000"
proof -
  let ?polls = "\<lambda>_ :: nat. (Unanswered ''refused'', 1000000000 :: nat)"
  obtain n t err where r: "waitForReady ?polls 5 (60 * second) ''1m0s'' = (n, t, err)" by (metis prod_cases3)
  have "\<forall>j. int (snd (?polls j)) \<le> second" by (simp add: second_def)
  from wait_for_server_ends [OF this, of 5] show ?thesis unfolding r by simp
qed

end
