(* ===== verification/Lifecycle.thy ===== *)
theory Lifecycle
  imports Pages Prefs EmbeddedLLM AIConfig
begin

text \<open>
  Start and exit (main.go, shutdown.go): the order in which the parts are set up, the handler each path goes to, and
  that what was started is stopped. Flags are parsed already.
\<close>

section \<open>Hooks\<close>

text \<open>The functions the program registers to run at its exit.\<close>

datatype hook = StopAllTunnels | StopLlama

text \<open>The running program: its clusters, each tunnel with its processes, the bundled server, and the hooks.\<close>

record program =
  prClusters :: clusters
  prTunnels :: "(string, tunnel_sys) gomap"
  prEmb :: emb_sys
  prHooks :: "hook list"
  prDone :: bool
  prPrefs :: saved_prefs
  prAI :: aiCfgT
  prPrompt :: string
  prBackend :: aiBackend
  prNamespaces :: "string list"
  prAllNS :: bool

definition onShutdown :: "hook \<Rightarrow> program \<Rightarrow> program" where
  "onShutdown fn pr = pr\<lparr>prHooks := prHooks pr @ [fn]\<rparr>"

text \<open>
  A hook: \<open>stopAllTunnels\<close> acts on each run as \<open>quitRun\<close> says, and a tunnel's system keeps which of its processes have
  been told to stop.
\<close>

fun run_hook :: "hook \<Rightarrow> program \<Rightarrow> program" where
  "run_hook StopAllTunnels pr = pr\<lparr>prTunnels := map (\<lambda>(n, y). (n, told (quitRun (tyRun y)) y)) (prTunnels pr)\<rparr>"
| "run_hook StopLlama pr = pr\<lparr>prEmb := stopLlamaServer (prEmb pr)\<rparr>"

definition runShutdown :: "program \<Rightarrow> program" where
  "runShutdown pr =
     (if prDone pr then pr else foldl (\<lambda>p fn. run_hook fn p) (pr\<lparr>prDone := True\<rparr>) (rev (prHooks pr)))"

text \<open>The first hook is \<open>stopAllTunnels\<close>, and the processes it ends are those told to stop.\<close>

lemma hook_is_stopAllTunnels:
  fixes pr :: program
  defines "runs p \<equiv> map (\<lambda>(n, y). (n, tyRun y)) (prTunnels p)"
  shows "runs (run_hook StopAllTunnels pr) = tnRuns (fst (stopAllTunnels \<lparr>tnDefs = defs, tnRuns = runs pr\<rparr>))"
    and "set (snd (stopAllTunnels \<lparr>tnDefs = defs, tnRuns = runs pr\<rparr>)) \<subseteq>
      (\<Union>(n, y)\<in>set (prTunnels (run_hook StopAllTunnels pr)). tyTerm y)"
proof -
  show "runs (run_hook StopAllTunnels pr) = tnRuns (fst (stopAllTunnels \<lparr>tnDefs = defs, tnRuns = runs pr\<rparr>))"
    by (auto simp: runs_def stopAllTunnels_def told_def)
  show "set (snd (stopAllTunnels \<lparr>tnDefs = defs, tnRuns = runs pr\<rparr>)) \<subseteq>
      (\<Union>(n, y)\<in>set (prTunnels (run_hook StopAllTunnels pr)). tyTerm y)"
    by (force simp: runs_def stopAllTunnels_def told_def split: option.splits)
qed

section \<open>Starting\<close>

text \<open>What a start meets: the arguments and flags, the build, the environment and the files.\<close>

record start_world =
  swArgs :: "string list"
  swVersion :: bool
  swNamespaceList :: string
  swListen :: string
  swPort :: string
  swEmbedded :: bool
  swEmb :: emb_env
  swOS :: "string os_answers"
  swDisk :: "string disk"
  swFollow :: bool
  swAIEnabled :: string
  swPromptEnv :: string
  swBackendEnv :: string
  swPrefsPath :: string
  swPrefsUnreadable :: "string option"
  swPrefsDisk :: "json option disk"
  swConnect :: "string \<Rightarrow> string + string"
  swTunnels :: tunnel_world
  swNow :: time
  swCurrent :: "string + string"

datatype outcome =
  RunBench "string list"
| ShowVersion
| StartFailed string
| Serving string

definition new_program :: "start_world \<Rightarrow> program" where
  "new_program w =
     \<lparr>prClusters = no_clusters, prTunnels = [], prEmb = emb_start (swFollow w), prHooks = [], prDone = False,
      prPrefs = no_prefs, prAI = \<lparr>acBaseURL = '''', acModel = '''', acEnabled = False\<rparr>, prPrompt = '''',
      prBackend = default_backend, prNamespaces = [], prAllNS = False\<rparr>"

text \<open>The flag \<open>-namespaces\<close>.\<close>

definition watched_namespaces :: "string \<Rightarrow> string list" where
  "watched_namespaces flag = (if flag = '''' then [] else filter (\<lambda>ns. ns \<noteq> '''') (map trim_space (split_byte (CHR '','') flag)))"

text \<open>\<open>net.JoinHostPort\<close>.\<close>

definition join_host_port :: "string \<Rightarrow> string \<Rightarrow> string" where
  "join_host_port host port =
     (if CHR '':'' \<in> set host \<or> CHR ''%'' \<in> set host then ''['' @ host @ '']:'' @ port else host @ '':'' @ port)"

text \<open>The tunnels with their processes: at the start each has had at most its first, number 0.\<close>

definition tunnel_systems :: "tunnels \<Rightarrow> (string, tunnel_sys) gomap" where
  "tunnel_systems ts = map (\<lambda>(n, r). (n, spawned r (trCmd r \<noteq> None) no_tunnel)) (tnRuns ts)"

text \<open>From \<open>initAI\<close> to \<open>initClusters\<close>, with the URL and model the bundled server may have set.\<close>

definition set_up :: "start_world \<Rightarrow> string \<Rightarrow> string \<Rightarrow> program \<Rightarrow> program \<times> outcome" where
  "set_up w url model pr =
     (let prefs = fst (loadPrefs (swPrefsPath w) (swPrefsUnreadable w) (swPrefsDisk w) (prPrefs pr));
          namespaces = watched_namespaces (swNamespaceList w);
          pr1 = pr\<lparr>prAI := initAI url model (swAIEnabled w), prPrompt := initSystemPrompt (swPromptEnv w),
                   prNamespaces := namespaces, prAllNS := (namespaces = []), prPrefs := prefs,
                   prBackend := initAIBackend (pfAI prefs) (swBackendEnv w) (prBackend pr)\<rparr>
      in case initClusters (swConnect w) ((swTunnels w)\<lparr>twProcess := 0\<rparr>) (swNow w) (swCurrent w)
                (no_clusters, \<lparr>tnDefs = pfTunnels prefs, tnRuns = []\<rparr>) of
           ((cl, ts), r) \<Rightarrow>
             (pr1\<lparr>prClusters := cl, prTunnels := tunnel_systems ts\<rparr>,
              (case r of
                 Inl e \<Rightarrow> StartFailed (''Failed to start: '' @ e)
               | Inr _ \<Rightarrow> Serving (join_host_port (swListen w) (swPort w)))))"

text \<open>\<open>main\<close> up to \<open>ListenAndServe\<close>.\<close>

definition main_start :: "start_world \<Rightarrow> program \<times> outcome" where
  "main_start w =
     (let pr0 = new_program w in
      if swArgs w \<noteq> [] \<and> hd (swArgs w) = ''bench'' then (pr0, RunBench (tl (swArgs w)))
      else if swVersion w then (pr0, ShowVersion)
      else
        let pr1 = onShutdown StopAllTunnels pr0 in
        if swEmbedded w then
          (case startEmbeddedLLM (swOS w) (swEmb w) (prEmb pr1) (swDisk w) of
             (y, _, Inl e) \<Rightarrow> (pr1\<lparr>prEmb := y\<rparr>, StartFailed (''Embedded LLM failed to start: '' @ e))
           | (y, _, Inr (url, model, registered)) \<Rightarrow>
               (let pr2 = pr1\<lparr>prEmb := y\<rparr>
                in set_up w url model (if registered then onShutdown StopLlama pr2 else pr2)))
        else set_up w (evURL (swEmb w)) (evModel (swEmb w)) pr1)"

text \<open>
  The end: a signal, or the server that fails, runs the hooks; a start that fails ends at once (\<open>log.Fatalf\<close>).
\<close>

datatype ending = Signal | ServerFailed | FailedStart

fun ends :: "ending \<Rightarrow> program \<Rightarrow> program" where
  "ends Signal pr = runShutdown pr"
| "ends ServerFailed pr = runShutdown pr"
| "ends FailedStart pr = pr"

section \<open>While it serves\<close>

text \<open>What happens to a tunnel: it is started by the user or a switch, or something happens in the background.\<close>

inductive tunnel_move :: "tunnel_sys \<Rightarrow> tunnel_sys \<Rightarrow> bool" where
  background: "tunnel_background y y' \<Longrightarrow> tunnel_move y y'"
| start: "startRun ep portOpen now ans (tyNext y) keep d (tyRun y) = (r, err, running) \<Longrightarrow>
    tunnel_move y (spawned r running y)"

lemma tunnel_move_reachable: "tunnel_move y y' \<Longrightarrow> tunnel_reachable y \<Longrightarrow> tunnel_reachable y'"
  by (induction rule: tunnel_move.induct) (auto intro: tunnel_reachable.background tunnel_reachable.start)

inductive program_step :: "program \<Rightarrow> program \<Rightarrow> bool" where
  tunnel: "tunnel_move (al_get no_tunnel (prTunnels pr) n) y \<Longrightarrow>
    program_step pr (pr\<lparr>prTunnels := al_set n y (prTunnels pr)\<rparr>)"
| model_server: "emb_step (prEmb pr) y \<Longrightarrow> program_step pr (pr\<lparr>prEmb := y\<rparr>)"
| other: "program_step pr (pr\<lparr>prClusters := cl, prPrefs := p, prPrompt := s, prBackend := b\<rparr>)"

text \<open>
  Every tunnel is one that \<open>tunnel_reachable\<close> describes, and what may have been started has its hook: without the
  server's, no server was ever set up.
\<close>

definition program_ok :: "program \<Rightarrow> bool" where
  "program_ok pr \<longleftrightarrow> (\<forall>(n, y)\<in>set (prTunnels pr). tunnel_reachable y) \<and> emb_ok (prEmb pr) \<and>
     StopAllTunnels \<in> set (prHooks pr) \<and> \<not> prDone pr \<and>
     (StopLlama \<in> set (prHooks pr) \<or> esServerBin (eyServer (prEmb pr)) = '''' \<and> eyAlive (prEmb pr) = [])"

lemma emb_step_never_set_up:
  assumes "emb_step y y'" and "esServerBin (eyServer y) = ''''" and "eyAlive y = []"
  shows "esServerBin (eyServer y') = '''' \<and> eyAlive y' = []"
  using assms
proof (induction rule: emb_step.induct)
  case (restart y w n)
  have "esServerBin (eyServer (stopLlamaServer z)) = esServerBin (eyServer z)" for z
    by (simp add: stopLlamaServer_def take_server_def split: option.split)
  moreover have "eyAlive z = [] \<Longrightarrow> eyAlive (stopLlamaServer z) = []" for z
    by (simp add: stopLlamaServer_def take_server_def split: option.split)
  ultimately show ?case using restart by (simp add: restartEmbedded_def spawnLlamaServer_def Let_def)
qed (auto simp: stopLlamaServer_def take_server_def split: option.split)

lemma program_step_ok:
  assumes "program_step pr pr'" and "program_ok pr"
  shows "program_ok pr'"
  using assms
proof (induction rule: program_step.induct)
  case (tunnel pr n y)
  have "tunnel_reachable (al_get no_tunnel (prTunnels pr) n)"
    using tunnel.prems tunnel_reachable.init
    by (auto simp: program_ok_def al_get_def split: option.split dest!: map_of_SomeD)
  then have "tunnel_reachable y" by (rule tunnel_move_reachable [OF tunnel.hyps])
  moreover have "(m, z) \<in> set (al_set n y ts) \<Longrightarrow> z = y \<or> (m, z) \<in> set ts" for m z and ts :: "(string, tunnel_sys) gomap"
    unfolding al_set_def by (induction n "\<lambda>_ :: tunnel_sys option. y" ts rule: al_alter.induct) (auto split: if_splits)
  ultimately show ?case using tunnel.prems unfolding program_ok_def by fastforce
next
  case (model_server pr y)
  then show ?case using emb_step_ok [OF model_server.hyps] emb_step_never_set_up [OF model_server.hyps]
    by (auto simp: program_ok_def)
qed (simp add: program_ok_def)

lemma program_steps_ok: "program_step\<^sup>*\<^sup>* pr pr' \<Longrightarrow> program_ok pr \<Longrightarrow> program_ok pr'"
  by (induction rule: rtranclp_induct) (auto intro: program_step_ok)

section \<open>A start that serves\<close>

lemma startRun_new_running:
  "startRun ep portOpen now ans p keep d new_run = (r, err, running) \<Longrightarrow> running \<longleftrightarrow> trCmd r \<noteq> None"
  by (auto simp: startRun_def new_run_def spawnLocked_def Let_def logLocked_def split: if_splits spawn_answer.splits)

lemma first_tunnels:
  assumes "tnRuns ts = []" and "twProcess w = 0"
  shows "\<forall>(n, y)\<in>set (tunnel_systems (fst (startContextTunnel w now ctx ts))). tunnel_reachable y"
proof -
  have new: "tunnel_reachable (spawned r (trCmd r \<noteq> None) no_tunnel)"
    if "startRun ep po now ans 0 keep d new_run = (r, err, running)" for ep po ans keep d r err running
    using tunnel_reachable.start [OF tunnel_reachable.init, of ep po now ans keep d r err running] that
      startRun_new_running [OF that] by (simp add: no_tunnel_def)
  show ?thesis
    using assms new
    by (fastforce simp: startContextTunnel_def startTunnel_def tunnel_systems_def runFor_def al_get_def al_set_def
        split: option.splits prod.splits)
qed

lemma set_up_ok:
  assumes "emb_ok (prEmb pr)" and "StopAllTunnels \<in> set (prHooks pr)" and "\<not> prDone pr"
    and "StopLlama \<in> set (prHooks pr) \<or> esServerBin (eyServer (prEmb pr)) = '''' \<and> eyAlive (prEmb pr) = []"
  shows "program_ok (fst (set_up w url model pr))"
proof -
  have systems: "\<forall>(n, y)\<in>set (tunnel_systems (snd (fst (initClusters (swConnect w) ((swTunnels w)\<lparr>twProcess := 0\<rparr>) (swNow w)
      (swCurrent w) (no_clusters, \<lparr>tnDefs = defs, tnRuns = []\<rparr>))))). tunnel_reachable y" for defs
    using first_tunnels [of "\<lparr>tnDefs = defs, tnRuns = []\<rparr>" "(swTunnels w)\<lparr>twProcess := 0\<rparr>" "swNow w"]
    by (auto simp: initClusters_def tunnel_systems_def Let_def split: sum.split prod.split)
  have reach: "tunnel_reachable y"
    if "initClusters (swConnect w) ((swTunnels w)\<lparr>twProcess := 0\<rparr>) (swNow w) (swCurrent w)
        (no_clusters, \<lparr>tnDefs = defs, tnRuns = []\<rparr>) = ((cl, ts), r)" and "(n, y) \<in> set (tunnel_systems ts)" for defs cl ts r n y
    using systems [of defs] that by auto
  show ?thesis using assms by (auto simp: set_up_def program_ok_def Let_def split: prod.split intro: reach)
qed

lemma started_ok:
  assumes "main_start w = (pr, Serving addr)"
  shows "program_ok pr"
proof -
  let ?pr1 = "onShutdown StopAllTunnels (new_program w)"
  have p: "emb_ok (prEmb ?pr1)" "StopAllTunnels \<in> set (prHooks ?pr1)" "\<not> prDone ?pr1"
    "esServerBin (eyServer (prEmb ?pr1)) = ''''" "eyAlive (prEmb ?pr1) = []" "esCmd (eyServer (prEmb ?pr1)) = None"
    by (simp_all add: onShutdown_def new_program_def emb_start_ok, simp_all add: emb_start_def no_server_def)
  have plain: "program_ok (fst (set_up w u m ?pr1))" for u m
    by (rule set_up_ok) (use p in auto)
  show ?thesis
  proof (cases "swEmbedded w")
    case False
    then show ?thesis
      using assms plain [of "evURL (swEmb w)" "evModel (swEmb w)"] by (simp add: main_start_def Let_def split: if_splits)
  next
    case True
    obtain y d r where s: "startEmbeddedLLM (swOS w) (swEmb w) (prEmb ?pr1) (swDisk w) = (y, d, r)"
      by (metis prod_cases3)
    have y: "emb_ok y" using startEmbeddedLLM_ok [OF p(1,5,6), of "swOS w" "swEmb w" "swDisk w"] s by simp
    obtain url model registered where r: "r = Inr (url, model, registered)"
      and pr: "set_up w url model (if registered then onShutdown StopLlama (?pr1\<lparr>prEmb := y\<rparr>) else ?pr1\<lparr>prEmb := y\<rparr>) =
        (pr, Serving addr)"
      using assms True s
      by (cases r) (auto simp: main_start_def Let_def split: if_splits)
    have "\<not> registered \<Longrightarrow> y = prEmb ?pr1"
      using s r by (auto simp: startEmbeddedLLM_def Let_def split: if_splits sum.splits prod.splits option.splits)
    then have "program_ok (fst (set_up w url model (if registered then onShutdown StopLlama (?pr1\<lparr>prEmb := y\<rparr>) else ?pr1\<lparr>prEmb := y\<rparr>)))"
      by (intro set_up_ok) (use y p in \<open>auto simp: onShutdown_def\<close>)
    then show ?thesis using pr by simp
  qed
qed

section \<open>Exit\<close>

lemma run_hooks_keep:
  "StopAllTunnels \<in> set fns \<or> (\<forall>(n, y)\<in>set (prTunnels pr). tyAlive y \<subseteq> tyTerm y) \<Longrightarrow>
   (\<forall>(n, y)\<in>set (prTunnels pr). tunnel_reachable y) \<Longrightarrow>
   \<forall>(n, y)\<in>set (prTunnels (foldl (\<lambda>p fn. run_hook fn p) pr fns)). tyAlive y \<subseteq> tyTerm y"
proof (induction fns arbitrary: pr)
  case (Cons fn fns)
  have quit: "tyAlive (told (quitRun (tyRun y)) y) \<subseteq> tyTerm (told (quitRun (tyRun y)) y)" if "tunnel_reachable y" for y
    using tunnel_reachable_inv [OF that] by (fastforce simp: tunnel_inv_def told_def quitRun_def split: option.split)
  have reach: "tunnel_reachable (told (quitRun (tyRun y)) y)" if "tunnel_reachable y" for y
    by (rule tunnel_reachable.background [OF that tunnel_background.quit])
  show ?case
  proof (cases fn)
    case StopAllTunnels
    have after: "tyAlive y \<subseteq> tyTerm y \<and> tunnel_reachable y" if "(n, y) \<in> set (prTunnels (run_hook fn pr))" for n y
    proof -
      obtain z where z: "(n, z) \<in> set (prTunnels pr)" "y = told (quitRun (tyRun z)) z"
        using \<open>(n, y) \<in> set (prTunnels (run_hook fn pr))\<close> by (auto simp: StopAllTunnels)
      then have "tunnel_reachable z" using Cons.prems(2) by auto
      then show ?thesis using quit reach z(2) by simp
    qed
    show ?thesis unfolding foldl_Cons by (rule Cons.IH) (use after in auto)
  next
    case StopLlama
    then show ?thesis using Cons.IH [of "run_hook fn pr"] Cons.prems by auto
  qed
qed auto

lemma run_hooks_server:
  "emb_ok (prEmb pr) \<Longrightarrow> StopLlama \<in> set fns \<or> eyAlive (prEmb pr) = [] \<Longrightarrow>
   eyAlive (prEmb (foldl (\<lambda>p fn. run_hook fn p) pr fns)) = []"
proof (induction fns arbitrary: pr)
  case (Cons fn fns)
  then show ?case using stop_nothing_left [of "prEmb pr"] stop_ok [of "prEmb pr"] by (cases fn) auto
qed simp

lemma run_hooks_done: "prDone (foldl (\<lambda>p fn. run_hook fn p) pr fns) = prDone pr"
proof (induction fns arbitrary: pr)
  case (Cons fn fns)
  have "prDone (run_hook fn pr) = prDone pr" by (cases fn) simp_all
  then show ?case using Cons by simp
qed simp

text \<open>The start of a program that fails after the bundled server was started.\<close>

definition sample_start_world :: start_world where
  "sample_start_world = \<lparr>swArgs = [], swVersion = False, swNamespaceList = ''shop, ,web'', swListen = ''127.0.0.1'',
     swPort = ''8080'', swEmbedded = True, swEmb = sample_emb_env, swOS = all_well, swDisk = Map.empty, swFollow = True,
     swAIEnabled = '''', swPromptEnv = '''', swBackendEnv = '''', swPrefsPath = '''', swPrefsUnreadable = None,
     swPrefsDisk = Map.empty, swConnect = (\<lambda>_. Inr ''https://k''),
     swTunnels = \<lparr>twParse = (\<lambda>_. None), twPortOpen = (\<lambda>_. False), twSpawn = Started 1, twProcess = 5\<rparr>,
     swNow = 0, swCurrent = Inr ''kind''\<rparr>"

section \<open>Routes\<close>

definition routes :: "(string \<times> string) list" where
  "routes =
     [(''/'', ''handleDashboard''), (''/namespace/'', ''handleNamespace''), (''/object/'', ''handleObject''),
      (''/static/'', ''handleStatic''), (''/api/events'', ''handleAPIEvents''), (''/api/home'', ''handleAPIHome''),
      (''/api/snapshot/'', ''handleAPISnapshot''), (''/fragment/namespace/'', ''handleNamespaceFragment''),
      (''/api/contexts'', ''handleAPIContexts''), (''/api/context'', ''handleAPIContext''),
      (''/api/context/env'', ''handleAPIContextEnv''), (''/api/object/'', ''handleAPIObject''),
      (''/api/yaml/'', ''handleAPIYAML''), (''/api/status'', ''handleAPIStatus''), (''/api/refresh'', ''handleRefresh''),
      (''/api/ai/insights/'', ''handleAPIAIInsights''), (''/api/ai/analyze/'', ''handleAPIAIAnalyze''),
      (''/api/ai/config'', ''handleAPIAIConfig''), (''/api/ai/brief'', ''handleAPIBrief''),
      (''/api/settings'', ''handleAPISettings''), (''/api/logs/'', ''handleAPILogs''),
      (''/api/correlate/'', ''handleAPICorrelate''), (''/api/rca/status/'', ''handleAPIRCAStatus''),
      (''/api/rca/'', ''handleAPIRCAStart''), (''/mcp/rca/'', ''handleMCPRCA''),
      (''/api/tunnels'', ''handleAPITunnels''), (''/api/tunnels/'', ''handleAPITunnels'')]"

text \<open>
  \<open>http.ServeMux\<close> with patterns that are plain paths: a pattern ending in a slash is for every path below it, the
  longest pattern wins, and a path that lacks the slash a pattern ends with is redirected. The path is clean.
\<close>

datatype routed = Handled string | RedirectTo string

definition pattern_matches :: "string \<Rightarrow> string \<Rightarrow> bool" where
  "pattern_matches path pat \<longleftrightarrow> path = pat \<or> has_suffix pat ''/'' \<and> has_prefix path pat"

definition longest_route :: "string \<Rightarrow> (string \<times> string) option" where
  "longest_route path =
     foldl (\<lambda>best e. if pattern_matches path (fst e) \<and> (case best of None \<Rightarrow> True | Some b \<Rightarrow> length (fst b) < length (fst e))
        then Some e else best) None routes"

definition serve_mux :: "string \<Rightarrow> routed option" where
  "serve_mux path =
     (if path \<notin> fst ` set routes \<and> \<not> has_suffix path ''/'' \<and> path @ ''/'' \<in> fst ` set routes then Some (RedirectTo (path @ ''/''))
      else map_option (\<lambda>e. Handled (snd e)) (longest_route path))"

lemma longest_route_cases:
  assumes "longest_route path = Some e"
  shows "e \<in> set routes \<and> pattern_matches path (fst e) \<and>
    (\<forall>f\<in>set routes. pattern_matches path (fst f) \<longrightarrow> length (fst f) \<le> length (fst e))"
proof -
  let ?step = "\<lambda>best e. if pattern_matches path (fst e) \<and> (case best of None \<Rightarrow> True | Some b \<Rightarrow> length (fst b) < length (fst e))
        then Some e else best"
  have "case foldl ?step None rs of
      None \<Rightarrow> \<forall>f\<in>set rs. \<not> pattern_matches path (fst f)
    | Some e \<Rightarrow> e \<in> set rs \<and> pattern_matches path (fst e) \<and>
        (\<forall>f\<in>set rs. pattern_matches path (fst f) \<longrightarrow> length (fst f) \<le> length (fst e))" for rs :: "(string \<times> string) list"
  proof (induction rs rule: rev_induct)
    case (snoc r rs)
    then show ?case
      by (cases "foldl ?step None rs"; cases "pattern_matches path (fst r)") (auto intro: order_trans less_imp_le)
  qed simp
  from this [of routes] assms show ?thesis by (simp add: longest_route_def)
qed

lemma route_examples:
  "serve_mux ''/'' = Some (Handled ''handleDashboard'')"
  "serve_mux ''/nowhere'' = Some (Handled ''handleDashboard'')"
  "serve_mux ''/api/rca/status/shop/Pod/web'' = Some (Handled ''handleAPIRCAStatus'')"
  "serve_mux ''/api/rca/shop/Pod/web'' = Some (Handled ''handleAPIRCAStart'')"
  "serve_mux ''/api/context/env'' = Some (Handled ''handleAPIContextEnv'')"
  "serve_mux ''/api/tunnels'' = Some (Handled ''handleAPITunnels'')"
  "serve_mux ''/namespace'' = Some (RedirectTo ''/namespace/'')"
  by code_simp+

text \<open>The start of a run of the root cause analysis for a namespace called \<open>status\<close> cannot be reached.\<close>

lemma namespace_called_status:
  "serve_mux ''/api/rca/status/Pod/web'' = Some (Handled ''handleAPIRCAStatus'')"
  by code_simp

section \<open>Properties\<close>

text \<open>
  A start that fails because the cluster cannot be set up ends without running the hooks: the bundled server that
  it has started runs on.
\<close>

lemma failed_start_leaves_server:
  "\<exists>pr e. main_start (sample_start_world\<lparr>swCurrent := Inl ''no such file''\<rparr>) = (pr, StartFailed e) \<and>
     eyAlive (prEmb (ends FailedStart pr)) = [7]"
proof -
  let ?w = "sample_start_world\<lparr>swCurrent := Inl ''no such file''\<rparr>"
  obtain y d r where s: "startEmbeddedLLM all_well sample_emb_env (emb_start True) Map.empty = (y, d, r)"
    by (metis prod_cases3)
  have y: "eyAlive y = [7]" using sample_start s by simp
  show ?thesis
  proof (cases r)
    case (Inl e)
    then show ?thesis using s y
      by (simp add: main_start_def sample_start_world_def new_program_def onShutdown_def Let_def)
  next
    case (Inr x)
    then show ?thesis using s y
      by (cases x) (simp add: main_start_def sample_start_world_def new_program_def onShutdown_def set_up_def initClusters_def Let_def)
  qed
qed


lemma sample_start_registered:
  "\<exists>d url model. startEmbeddedLLM all_well sample_emb_env (emb_start True) Map.empty =
     (fst (startEmbeddedLLM all_well sample_emb_env (emb_start True) Map.empty), d, Inr (url, model, True))"
proof -
  have "lwStart (sample_launch 7) = Inr 7" by (simp add: sample_launch_def)
  then show ?thesis
    using sample_wait [of 7]
    by (simp add: startEmbeddedLLM_def sample_emb_env_def bundleDir_def unpack_def extractFile_def write_file_def rename_file_def
        all_well_def spawnLlamaServer_def emb_start_def no_server_def record_server_def default_settings_def tmp_of_def Let_def)
qed


end
